(* ===== verification/GoPrelude.thy ===== *)
theory GoPrelude
  imports Main "HOL-Library.Word" "HOL-Library.Signed_Division"
begin

unbundle bit_operations_syntax

text \<open>
  Prelude of the development: the Go data types and library behaviour that every component
  shares.

  \<^item> \<open>byte\<close> is Go's \<open>byte\<close>; a Go \<open>string\<close> is an Isabelle \<open>string\<close>, a list of 8-bit
    characters, as a Go string is a sequence of bytes; \<open>str_bytes\<close> and \<open>bytes_str\<close> are the
    conversions \<open>[]byte(s)\<close> and \<open>string(b)\<close>.
  \<^item> A Go pair \<open>(x, err)\<close> is a sum: \<open>Inl err\<close> where \<open>err\<close> is not nil, else \<open>Inr x\<close>.
  \<^item> \<open>encoding/binary.BigEndian\<close> is \<open>be_bytes\<close> and \<open>be_nat\<close>; \<open>hash/crc32\<close> (IEEE) is
    \<open>crc32_update\<close>.
  \<^item> A reader action is a function from the bytes the reader still delivers to a result and the
    bytes left; \<open>read_full\<close>, \<open>limit_reader\<close> and \<open>tee_reader\<close> are \<open>io.ReadFull\<close>,
    \<open>io.LimitReader\<close> and \<open>io.TeeReader\<close> into a CRC.
\<close>

section \<open>Fact collections\<close>

named_theorems codec_simps \<open>round trip equations of encoders and decoders\<close>
named_theorems consume_simps \<open>how many bytes a reader action consumes\<close>

section \<open>Bytes and strings\<close>

type_synonym byte = "8 word"

definition char_byte :: "char \<Rightarrow> byte" where
  "char_byte c = word_of_nat (of_char c)"

definition byte_char :: "byte \<Rightarrow> char" where
  "byte_char b = char_of (unat b)"

lemma unat_byte_less: "unat (b :: byte) < 256"
proof -
  have "unat b < 2 ^ LENGTH(8)" by (rule unsigned_less)
  then show ?thesis by simp
qed

definition str_bytes :: "string \<Rightarrow> byte list" where
  "str_bytes = map char_byte"

definition bytes_str :: "byte list \<Rightarrow> string" where
  "bytes_str = map byte_char"

lemma byte_char_char_byte [simp]: "byte_char (char_byte c) = c"
proof -
  have "(of_char c :: nat) < 256"
    by (metis char_of_eq_iff of_char_mod_256 mod_less_divisor zero_less_numeral)
  then have "unat (word_of_nat (of_char c) :: byte) = of_char c"
    by (simp add: unat_of_nat take_bit_nat_eq_self_iff)
  then show ?thesis
    by (simp add: byte_char_def char_byte_def)
qed

lemma char_byte_byte_char [simp]: "char_byte (byte_char b) = b"
proof -
  have "unat b < 256"
    by (rule unat_byte_less)
  then show ?thesis
    by (simp add: byte_char_def char_byte_def)
qed

lemma bytes_str_str_bytes [simp]: "bytes_str (str_bytes s) = s"
  by (induction s) (simp_all add: bytes_str_def str_bytes_def)

lemma str_bytes_bytes_str [simp]: "str_bytes (bytes_str b) = b"
  by (induction b) (simp_all add: bytes_str_def str_bytes_def)

lemma length_str_bytes [simp]: "length (str_bytes s) = length s"
  by (simp add: str_bytes_def)

lemma length_bytes_str [simp]: "length (bytes_str b) = length b"
  by (simp add: bytes_str_def)

lemma str_bytes_take: "take n (str_bytes s) = str_bytes (take n s)"
  by (simp add: str_bytes_def take_map)

section \<open>Big-endian integers\<close>

fun be_bytes :: "nat \<Rightarrow> nat \<Rightarrow> byte list" where
  "be_bytes 0 n = []"
| "be_bytes (Suc k) n = word_of_nat (n div 256 ^ k) # be_bytes k n"

fun be_nat :: "byte list \<Rightarrow> nat" where
  "be_nat [] = 0"
| "be_nat (b # bs) = unat b * 256 ^ length bs + be_nat bs"

lemma length_be_bytes [simp]: "length (be_bytes k n) = k"
  by (induction k) auto

lemma be_nat_be_bytes [codec_simps]: "be_nat (be_bytes k n) = n mod 256 ^ k"
proof (induction k)
  case 0
  then show ?case by simp
next
  case (Suc k)
  have "unat (word_of_nat (n div 256 ^ k) :: byte) = n div 256 ^ k mod 256"
    by (simp add: unat_of_nat take_bit_eq_mod)
  with Suc show ?case
    using mod_mult2_eq [of n "256 ^ k" 256] by (simp add: mult.commute)
qed

lemma be_nat_bound: "be_nat bs < 256 ^ length bs"
proof (induction bs)
  case (Cons b bs)
  have "unat b < 256"
    by (rule unat_byte_less)
  then have "(unat b + 1) * 256 ^ length bs \<le> 256 * 256 ^ length bs"
    by (intro mult_right_mono) auto
  then have "unat b * 256 ^ length bs + 256 ^ length bs \<le> 256 ^ length (b # bs)"
    by (simp add: algebra_simps)
  with Cons show ?case unfolding be_nat.simps by linarith
qed simp

lemma be_bytes_be_nat: "be_bytes (length bs) (be_nat bs) = bs"
proof -
  have step: "be_bytes k (a * 256 ^ k + n) = be_bytes k n" for k a n
  proof -
    have "be_bytes j (a * 256 ^ j * 256 ^ i + n) = be_bytes j n" for i j a
    proof (induction j arbitrary: a i)
      case (Suc j)
      have "(a * 256 ^ Suc j * 256 ^ i + n) div 256 ^ j = (n + (a * 256 ^ Suc i) * 256 ^ j) div 256 ^ j"
        by (simp add: algebra_simps)
      also have "\<dots> = a * 256 ^ Suc i + n div 256 ^ j"
        by simp
      finally have "(a * 256 ^ Suc j * 256 ^ i + n) div 256 ^ j = a * 256 ^ Suc i + n div 256 ^ j" .
      moreover have "word_of_nat (a * 256 ^ Suc i + n div 256 ^ j) = (word_of_nat (n div 256 ^ j) :: byte)"
        unfolding word_of_nat_eq_iff take_bit_eq_mod
        using mod_mult_self1 [of "n div 256 ^ j" "a * 256 ^ i" 256] by (simp add: algebra_simps)
      ultimately have "word_of_nat ((a * 256 ^ Suc j * 256 ^ i + n) div 256 ^ j) =
          (word_of_nat (n div 256 ^ j) :: byte)"
        by simp
      then show ?case
        using Suc [of "a" "Suc i"] by (simp add: algebra_simps)
    qed simp
    from this [of k a 0] show ?thesis by simp
  qed
  show ?thesis
  proof (induction bs)
    case (Cons b bs)
    have "(unat b * 256 ^ length bs + be_nat bs) div 256 ^ length bs = unat b"
      using be_nat_bound [of bs] by simp
    with Cons step [of "length bs" "unat b" "be_nat bs"] show ?case
      by simp
  qed simp
qed

section \<open>Signed 64-bit integers\<close>

lemma sint64_exact:
  assumes "-(2 ^ 63) \<le> v" and "v < 2 ^ 63"
  shows "sint (word_of_int v :: 64 word) = v"
  using assms by (simp add: signed_of_int signed_take_bit_int_eq_self_iff)

text \<open>An operation on 64-bit integers wraps around; the difference of two times saturates.\<close>

definition wrap64 :: "int \<Rightarrow> int" where
  "wrap64 i = sint (word_of_int i :: 64 word)"

lemma wrap64_id: "- (2 ^ 63) \<le> i \<Longrightarrow> i < 2 ^ 63 \<Longrightarrow> wrap64 i = i"
  unfolding wrap64_def by (rule sint64_exact)

lemma wrap64_minus: "2 ^ 63 \<le> i \<Longrightarrow> i < 2 ^ 64 \<Longrightarrow> wrap64 i = i - 2 ^ 64"
proof -
  assume i: "2 ^ 63 \<le> i" "i < 2 ^ 64"
  have "word_of_int i = (word_of_int (i - 2 ^ 64) :: 64 word)"
    by simp
  then have "wrap64 i = wrap64 (i - 2 ^ 64)" unfolding wrap64_def by (rule arg_cong)
  also have "\<dots> = i - 2 ^ 64" using i by (intro wrap64_id) auto
  finally show ?thesis .
qed

lemma wrap64_range: "- (2 ^ 63) \<le> wrap64 i \<and> wrap64 i < 2 ^ 63"
  using sint_greater_eq [of "word_of_int i :: 64 word"] sint_less [of "word_of_int i :: 64 word"]
  by (simp add: wrap64_def)

definition sat64 :: "int \<Rightarrow> int" where
  "sat64 i = max (- (2 ^ 63)) (min (2 ^ 63 - 1) i)"

lemma sat64_id: "- (2 ^ 63) \<le> i \<Longrightarrow> i < 2 ^ 63 \<Longrightarrow> sat64 i = i"
  by (simp add: sat64_def)

section \<open>CRC-32 (IEEE polynomial, reflected)\<close>

definition crc_bit :: "32 word \<Rightarrow> 32 word" where
  "crc_bit c = (if bit c 0 then drop_bit 1 c XOR 0xEDB88320 else drop_bit 1 c)"

definition crc_byte :: "32 word \<Rightarrow> byte \<Rightarrow> 32 word" where
  "crc_byte c b = (crc_bit ^^ 8) (c XOR ucast b)"

definition crc32_update :: "32 word \<Rightarrow> byte list \<Rightarrow> 32 word" where
  "crc32_update c bs = NOT (foldl crc_byte (NOT c) bs)"

lemma crc32_update_append [simp]:
  "crc32_update (crc32_update c as) bs = crc32_update c (as @ bs)"
  by (simp add: crc32_update_def)

lemma crc32_update_Nil [simp]: "crc32_update c [] = c"
  by (simp add: crc32_update_def)

lemma crc_byte_unfold:
  "crc_byte c b = crc_bit (crc_bit (crc_bit (crc_bit (crc_bit (crc_bit (crc_bit (crc_bit
     (c XOR ucast b))))))))"
  by (simp add: crc_byte_def numeral_eq_Suc)

text \<open>The published CRC-32 of the one-byte string \<open>a\<close>.\<close>

lemma crc32_check_value: "crc32_update 0 (str_bytes ''a'') = 0xE8B7BE43"
  unfolding crc32_update_def str_bytes_def char_byte_def
  by (simp add: crc_byte_unfold) (simp add: crc_bit_def)

text \<open>
  The polynomial has its top bit set, so a step of the register loses no information: two
  registers or two bytes that differ stay different. A message that differs from another one in
  one byte only therefore has another CRC.
\<close>

lemma bit_crc_poly: "bit (0xEDB88320 :: 32 word) 31"
  by simp

lemma crc_bit_inj:
  assumes "crc_bit c = crc_bit d"
  shows "c = d"
proof (rule bit_word_eqI)
  have step: "bit (crc_bit x) n \<longleftrightarrow> (n < 31 \<and> bit x (Suc n)) \<noteq> (bit x 0 \<and> bit (0xEDB88320 :: 32 word) n)"
    if "n < 32" for x n
    using that bit_imp_le_length [of x "Suc n"]
    by (cases "bit x 0") (auto simp: crc_bit_def bit_xor_iff bit_drop_bit_eq less_Suc_eq dest: bit_imp_le_length)
  have low: "bit c 0 = bit d 0"
    using assms step [of 31 c] step [of 31 d] bit_crc_poly by auto
  fix n
  assume "n < LENGTH(32)"
  then show "bit c n = bit d n"
    using assms low step [of "n - 1" c] step [of "n - 1" d] by (cases n) auto
qed

lemma xor_cancel_right: "(x :: 'a :: len word) XOR u = y XOR u \<longleftrightarrow> x = y"
proof
  assume "x XOR u = y XOR u"
  then have "(x XOR u) XOR u = (y XOR u) XOR u" by simp
  then show "x = y" by (simp only: xor.assoc xor_self_eq xor.right_neutral)
qed simp

lemma ucast_byte_inj: "(ucast (b :: byte) :: 32 word) = ucast b' \<longleftrightarrow> b = b'"
proof
  have unat: "unat (ucast b :: 32 word) = unat b" for b :: byte
    using unat_byte_less [of b] by (simp add: unsigned_ucast_eq take_bit_nat_eq_self_iff)
  assume "(ucast b :: 32 word) = ucast b'"
  then have "unat b = unat b'" by (metis unat)
  then show "b = b'" by (rule unsigned_word_eqI)
qed simp

lemma crc_byte_inj_register: "crc_byte c b = crc_byte d b \<longleftrightarrow> c = d"
  unfolding crc_byte_unfold by (auto dest!: crc_bit_inj simp: xor_cancel_right)

lemma crc_byte_inj_byte: "crc_byte c b = crc_byte c b' \<longleftrightarrow> b = b'"
  unfolding crc_byte_unfold
  by (auto dest!: crc_bit_inj simp: xor_cancel_right xor.commute [of c] ucast_byte_inj)

lemma foldl_crc_byte_inj: "foldl crc_byte c bs = foldl crc_byte d bs \<longleftrightarrow> c = d"
  by (induction bs arbitrary: c d) (auto simp: crc_byte_inj_register)

lemma crc32_one_byte:
  assumes "i < length bs"
  shows "crc32_update c (bs[i := b]) = crc32_update c bs \<longleftrightarrow> bs ! i = b"
proof -
  have old: "bs = take i bs @ (bs ! i) # drop (Suc i) bs"
    by (rule id_take_nth_drop [OF assms])
  have new: "bs[i := b] = take i bs @ b # drop (Suc i) bs"
    by (rule upd_conv_take_nth_drop [OF assms])
  have "crc32_update c (bs[i := b]) = crc32_update c bs \<longleftrightarrow>
      crc_byte (foldl crc_byte (NOT c) (take i bs)) b = crc_byte (foldl crc_byte (NOT c) (take i bs)) (bs ! i)"
    unfolding new by (subst (2) old) (simp add: crc32_update_def foldl_crc_byte_inj)
  then show ?thesis by (auto simp: crc_byte_inj_byte)
qed

section \<open>Actions: a state, a result or an error\<close>

text \<open>
  A Go function that reads or writes through an interface value and returns \<open>(x, err)\<close> is an
  action: it takes the state behind the interface and returns the result and the new state,
  also where it fails. \<open>act_bind m f\<close> is the pattern
  \<open>x, err := m(); if err != nil { return err }; f(x)\<close>.
\<close>

type_synonym ('s, 'e, 'a) action = "'s \<Rightarrow> ('e + 'a) \<times> 's"

definition act_ret :: "'a \<Rightarrow> ('s, 'e, 'a) action" where
  "act_ret x s = (Inr x, s)"

definition act_err :: "'e \<Rightarrow> ('s, 'e, 'a) action" where
  "act_err e s = (Inl e, s)"

definition act_bind :: "('s, 'e, 'a) action \<Rightarrow> ('a \<Rightarrow> ('s, 'e, 'b) action) \<Rightarrow> ('s, 'e, 'b) action" where
  "act_bind m f s = (case m s of (r, s') \<Rightarrow> (case r of Inl e \<Rightarrow> (Inl e, s') | Inr x \<Rightarrow> f x s'))"

lemma act_simps [simp]:
  "act_ret x s = (Inr x, s)"
  "act_err e s = (Inl e, s)"
  by (simp_all add: act_ret_def act_err_def)

lemma act_bind_Inr [simp]: "m s = (Inr x, s') \<Longrightarrow> act_bind m f s = f x s'"
  by (simp add: act_bind_def)

lemma act_bind_Inl [simp]: "m s = (Inl e, s') \<Longrightarrow> act_bind m f s = (Inl e, s')"
  by (simp add: act_bind_def)

lemma act_bind_InrE:
  assumes "act_bind m f s = (Inr y, s'')"
  obtains x s' where "m s = (Inr x, s')" and "f x s' = (Inr y, s'')"
  using assms by (auto simp: act_bind_def split: prod.splits sum.splits)

lemma act_bind_InlE:
  assumes "act_bind m f s = (Inl e, s'')"
  obtains "m s = (Inl e, s'')" | x s' where "m s = (Inr x, s')" and "f x s' = (Inl e, s'')"
  using assms by (auto simp: act_bind_def split: prod.splits sum.splits)

section \<open>Readers\<close>

text \<open>
  The errors of package \<open>io\<close> that the code compares with or passes on. A reader is the list of
  the bytes it still delivers before \<open>io.EOF\<close>.
\<close>

datatype io_error = EOF | UnexpectedEOF | ErrShortWrite | OtherError string

definition read_full :: "nat \<Rightarrow> (byte list, io_error, byte list) action" where
  "read_full n r =
     (if n = 0 then (Inr [], r)
      else if r = [] then (Inl EOF, [])
      else if length r < n then (Inl UnexpectedEOF, [])
      else (Inr (take n r), drop n r))"

text \<open>\<open>io.LimitReader(r, n)\<close>: the wrapped action sees at most \<open>n\<close> bytes of the reader.\<close>

definition limit_reader :: "nat \<Rightarrow> (byte list, 'e, 'a) action \<Rightarrow> (byte list, 'e, 'a) action" where
  "limit_reader n f r = (case f (take n r) of (x, r') \<Rightarrow> (x, r' @ drop n r))"

text \<open>
  \<open>io.TeeReader(r, crc)\<close>: what the action consumes is also written to the running CRC. The
  state is the reader and the CRC.
\<close>

definition tee_reader :: "(byte list, 'e, 'a) action \<Rightarrow> (byte list \<times> 32 word, 'e, 'a) action" where
  "tee_reader f = (\<lambda>(r, crc). (case f r of (x, r') \<Rightarrow>
     (x, (r', crc32_update crc (take (length r - length r') r)))))"

lemma read_full_append [codec_simps]: "length bs = n \<Longrightarrow> read_full n (bs @ rest) = (Inr bs, rest)"
  by (auto simp: read_full_def)

text \<open>An action that consumes: what is left is a suffix of what was there.\<close>

definition consumes :: "(byte list, 'e, 'a) action \<Rightarrow> bool" where
  "consumes f \<longleftrightarrow> (\<forall>r. \<exists>used. r = used @ snd (f r))"

lemma consumesD: "consumes f \<Longrightarrow> f r = (x, r') \<Longrightarrow> \<exists>used. r = used @ r'"
  unfolding consumes_def by (metis snd_conv)

lemma consumesI: "(\<And>r x r'. f r = (x, r') \<Longrightarrow> \<exists>used. r = used @ r') \<Longrightarrow> consumes f"
  unfolding consumes_def by (metis prod.collapse)

lemma consumes_length: "consumes f \<Longrightarrow> f r = (x, r') \<Longrightarrow> length r' \<le> length r"
  by (drule (1) consumesD) auto

lemma consumes_read_full [consume_simps]: "consumes (read_full n)"
proof (rule consumesI)
  fix r x r'
  assume "read_full n r = (x, r')"
  then show "\<exists>used. r = used @ r'"
    by (auto simp: read_full_def split: if_splits intro: exI [of _ "take n r"])
qed

lemma consumes_ret [consume_simps]: "consumes (act_ret x)"
  by (rule consumesI) auto

lemma consumes_err [consume_simps]: "consumes (act_err e)"
  by (rule consumesI) auto

lemma consumes_bind [consume_simps]:
  assumes "consumes m" and "\<And>x. consumes (f x)"
  shows "consumes (act_bind m f)"
proof (rule consumesI)
  fix r y r''
  assume "act_bind m f r = (y, r'')"
  then consider e where "m r = (Inl e, r'')"
    | x r' where "m r = (Inr x, r')" "f x r' = (y, r'')"
    by (auto simp: act_bind_def split: prod.splits sum.splits)
  then show "\<exists>used. r = used @ r''"
  proof cases
    case 1
    then show ?thesis by (rule consumesD [OF assms(1)])
  next
    case 2
    obtain u where "r = u @ r'" using consumesD [OF assms(1) 2(1)] by blast
    moreover obtain u' where "r' = u' @ r''" using consumesD [OF assms(2) 2(2)] by blast
    ultimately have "r = (u @ u') @ r''" by simp
    then show ?thesis by blast
  qed
qed

lemma consumes_if [consume_simps]: "consumes f \<Longrightarrow> consumes g \<Longrightarrow> consumes (if b then f else g)"
  by simp

lemma consumes_limit [consume_simps]:
  assumes "consumes f"
  shows "consumes (limit_reader n f)"
proof (rule consumesI)
  fix r x r''
  assume "limit_reader n f r = (x, r'')"
  then obtain r' where f: "f (take n r) = (x, r')" and r'': "r'' = r' @ drop n r"
    by (auto simp: limit_reader_def split: prod.splits)
  obtain u where "take n r = u @ r'" using consumesD [OF assms f] by blast
  then have "r = u @ r''" using r'' by (metis append_assoc append_take_drop_id)
  then show "\<exists>used. r = used @ r''" by blast
qed

lemma tee_reader_eq:
  assumes "f r = (x, r')" and "r = used @ r'"
  shows "tee_reader f (r, crc) = (x, (r', crc32_update crc used))"
  using assms by (simp add: tee_reader_def)

section \<open>Writers\<close>

text \<open>
  The interface \<open>io.Writer\<close>, over the state behind it and the bytes it has taken. A writer
  appends what it accepts; one that has failed keeps failing. A buffer never fails.
\<close>

text \<open>\<open>emits contents m out\<close>: where the action succeeds, it has appended exactly \<open>out\<close>.\<close>

definition emits :: "('w \<Rightarrow> byte list) \<Rightarrow> ('w, 'e, unit) action \<Rightarrow> byte list \<Rightarrow> bool" where
  "emits contents m out \<longleftrightarrow>
     (\<forall>w w'. m w = (Inr (), w') \<longrightarrow> contents w' = contents w @ out)"

lemma emitsD: "emits contents m out \<Longrightarrow> m w = (Inr (), w') \<Longrightarrow> contents w' = contents w @ out"
  by (simp add: emits_def)

lemma emits_ret: "emits contents (act_ret ()) []" "emits contents (Pair (Inr ())) []"
  by (simp_all add: emits_def)

lemma emits_err: "emits contents (act_err e) out"
  by (simp add: emits_def)

lemma emits_bind:
  assumes "emits contents m out1" and "emits contents f out2"
  shows "emits contents (act_bind m (\<lambda>_. f)) (out1 @ out2)"
  using assms by (auto simp: emits_def elim!: act_bind_InrE)

locale io_writer =
  fixes wr :: "byte list \<Rightarrow> ('w, 'e, unit) action"
    and contents :: "'w \<Rightarrow> byte list"
  assumes write_appends: "wr bs w = (Inr (), w') \<Longrightarrow> contents w' = contents w @ bs"
    and write_sticky: "wr bs w = (Inl e, w') \<Longrightarrow> \<exists>e' w''. wr bs' w' = (Inl e', w'')"
begin

lemma emits_write: "emits contents (wr bs) bs"
  by (simp add: emits_def write_appends)

text \<open>Dropping the error of a first write does no harm: the second one reports it.\<close>

lemma emits_ignored_error:
  "emits contents (\<lambda>w. case wr bs w of (_, w') \<Rightarrow> wr bs' w') (bs @ bs')"
  unfolding emits_def
proof (intro allI impI)
  fix w w'
  assume run: "(case wr bs w of (_, w1) \<Rightarrow> wr bs' w1) = (Inr (), w')"
  obtain x w1 where first: "wr bs w = (x, w1)" by fastforce
  with run have second: "wr bs' w1 = (Inr (), w')" by simp
  obtain u where "x = Inr u"
    using first second write_sticky [of bs w _ w1 bs'] by (cases x) fastforce+
  with first have "contents w1 = contents w @ bs" by (simp add: write_appends)
  with second show "contents w' = contents w @ bs @ bs'" by (simp add: write_appends)
qed

end

locale io_buffer = io_writer +
  assumes write_total: "\<exists>w'. wr bs w = (Inr (), w')"

text \<open>\<open>bytes.Buffer\<close>.\<close>

definition buffer_write :: "byte list \<Rightarrow> (byte list, 'e, unit) action" where
  "buffer_write bs buf = (Inr (), buf @ bs)"

interpretation bytes_Buffer: io_buffer buffer_write "\<lambda>buf. buf"
  by unfold_locales (auto simp: buffer_write_def)

text \<open>\<open>io.MultiWriter(w, crc)\<close>: every write also goes into a running CRC, which never fails.\<close>

definition multi_write ::
  "(byte list \<Rightarrow> ('w, 'e, unit) action) \<Rightarrow> byte list \<Rightarrow> ('w \<times> 32 word, 'e, unit) action" where
  "multi_write wr bs = (\<lambda>(w, crc). (case wr bs w of (x, w') \<Rightarrow>
     (case x of Inl e \<Rightarrow> (Inl e, (w', crc)) | Inr _ \<Rightarrow> (Inr (), (w', crc32_update crc bs)))))"

text \<open>A writer used below a \<open>MultiWriter\<close>: the pair of the two is a writer again.\<close>

locale hashed_writer = io_writer

sublocale hashed_writer \<subseteq> hashed: io_writer "multi_write wr" "\<lambda>(w, crc). contents w"
proof
  fix bs and w w' :: "'a \<times> 32 word"
  assume "multi_write wr bs w = (Inr (), w')"
  then show "(case w' of (w, crc) \<Rightarrow> contents w) = (case w of (w, crc) \<Rightarrow> contents w) @ bs"
    by (auto simp: multi_write_def split: prod.splits sum.splits dest: write_appends)
next
  fix bs bs' e and w w' :: "'a \<times> 32 word"
  assume "multi_write wr bs w = (Inl e, w')"
  then obtain w0 crc w1 where "w = (w0, crc)" "w' = (w1, crc)" "wr bs w0 = (Inl e, w1)"
    by (auto simp: multi_write_def split: prod.splits sum.splits)
  with write_sticky [of bs w0 e w1 bs'] show "\<exists>e' w''. multi_write wr bs' w' = (Inl e', w'')"
    by (auto simp: multi_write_def)
qed

interpretation bytes_Buffer_hashed: hashed_writer buffer_write "\<lambda>buf. buf"
  by unfold_locales

section \<open>Codecs\<close>

text \<open>
  The interface a format promises its users: a decoder that, run on an encoded value followed by
  any bytes, returns the value and leaves those bytes.
\<close>

fun decode_n :: "nat \<Rightarrow> ('s, 'e, 'a) action \<Rightarrow> ('s, 'e, 'a list) action" where
  "decode_n 0 dec s = (Inr [], s)"
| "decode_n (Suc n) dec s = act_bind dec (\<lambda>x. act_bind (decode_n n dec) (\<lambda>xs. act_ret (x # xs))) s"

locale prefix_codec =
  fixes enc :: "'a \<Rightarrow> byte list"
    and dec :: "(byte list, 'e, 'a) action"
    and ok :: "'a \<Rightarrow> bool"
  assumes dec_enc: "ok x \<Longrightarrow> dec (enc x @ rest) = (Inr x, rest)"
begin

lemma enc_prefix_free:
  assumes "ok x" and "ok y" and "enc x @ r = enc y @ s"
  shows "x = y \<and> r = s"
proof -
  have "(Inr x, r) = dec (enc x @ r)" by (rule dec_enc [OF assms(1), symmetric])
  also have "\<dots> = dec (enc y @ s)" by (simp only: assms(3))
  also have "\<dots> = (Inr y, s)" by (rule dec_enc [OF assms(2)])
  finally show ?thesis by simp
qed

lemma enc_inj:
  assumes "ok x" and "ok y" and "enc x = enc y"
  shows "x = y"
proof -
  have "enc x @ [] = enc y @ []" by (simp only: assms(3))
  then show ?thesis using enc_prefix_free [OF assms(1,2)] by blast
qed

lemma decode_n_concat:
  "\<forall>x \<in> set xs. ok x \<Longrightarrow> decode_n (length xs) dec (concat (map enc xs) @ rest) = (Inr xs, rest)"
proof (induction xs)
  case (Cons x xs)
  have "dec (enc x @ concat (map enc xs) @ rest) = (Inr x, concat (map enc xs) @ rest)"
    using Cons.prems by (intro dec_enc) simp
  moreover have "decode_n (length xs) dec (concat (map enc xs) @ rest) = (Inr xs, rest)"
    using Cons by simp
  ultimately show ?case by (simp add: act_bind_def)
qed simp

end

end
