(* ===== verification/EventStreamHeader.thy ===== *)
theory EventStreamHeader
  imports GoPrelude
begin

text \<open>
  Event stream headers: package \<open>private/protocol/eventstream\<close>, files \<open>header.go\<close>,
  \<open>header_value.go\<close>, \<open>error.go\<close> and the header part of \<open>encode.go\<close> and \<open>decode.go\<close>.

  A header value is a \<open>Value\<close>, one constructor per Go type that implements the interface. The
  integer types are words of their width, a timestamp is its instant in nanoseconds since the
  epoch, a UUID the 16 bytes of the array. The encoders write through any \<open>io.Writer\<close>: the
  function \<open>write\<close> over an abstract writer state. The locale \<open>io_writer\<close> states what they rely
  on, and is interpreted on \<open>bytes.Buffer\<close>. \<open>headers_wire\<close> is the format itself, a pure
  function; the lemmas show that the encoder writes it and the decoder inverts it.
\<close>

section \<open>Errors\<close>

datatype es_error =
    IOError io_error
  | LengthError string int int
  | ChecksumError
  | PanicUnknownValueType byte

definition io_read :: "(byte list, io_error, 'a) action \<Rightarrow> (byte list, es_error, 'a) action" where
  "io_read f r = (case f r of (x, r') \<Rightarrow> (case x of Inl e \<Rightarrow> Inl (IOError e) | Inr v \<Rightarrow> Inr v, r'))"

section \<open>Header values\<close>

definition maxHeaderValueLen :: nat where
  "maxHeaderValueLen = 32767"

type_synonym valueType = byte

definition trueValueType :: valueType where "trueValueType = 0"
definition falseValueType :: valueType where "falseValueType = 1"
definition int8ValueType :: valueType where "int8ValueType = 2"
definition int16ValueType :: valueType where "int16ValueType = 3"
definition int32ValueType :: valueType where "int32ValueType = 4"
definition int64ValueType :: valueType where "int64ValueType = 5"
definition bytesValueType :: valueType where "bytesValueType = 6"
definition stringValueType :: valueType where "stringValueType = 7"
definition timestampValueType :: valueType where "timestampValueType = 8"
definition uuidValueType :: valueType where "uuidValueType = 9"

lemmas valueType_defs = trueValueType_def falseValueType_def int8ValueType_def int16ValueType_def
  int32ValueType_def int64ValueType_def bytesValueType_def stringValueType_def
  timestampValueType_def uuidValueType_def

datatype Value =
    BoolValue bool
  | Int8Value "8 word"
  | Int16Value "16 word"
  | Int32Value "32 word"
  | Int64Value "64 word"
  | BytesValue "byte list"
  | StringValue string
  | TimestampValue int
  | UUIDValue "byte list"

fun Value_valueType :: "Value \<Rightarrow> valueType" where
  "Value_valueType (BoolValue v) = (if v then trueValueType else falseValueType)"
| "Value_valueType (Int8Value _) = int8ValueType"
| "Value_valueType (Int16Value _) = int16ValueType"
| "Value_valueType (Int32Value _) = int32ValueType"
| "Value_valueType (Int64Value _) = int64ValueType"
| "Value_valueType (BytesValue _) = bytesValueType"
| "Value_valueType (StringValue _) = stringValueType"
| "Value_valueType (TimestampValue _) = timestampValueType"
| "Value_valueType (UUIDValue _) = uuidValueType"

text \<open>
  \<open>UnixNano\<close> is the instant as a 64-bit integer, so it wraps outside the years 1678 to 2262;
  Go's division truncates towards zero.
\<close>

definition epochMilli :: "int \<Rightarrow> int" where
  "epochMilli instant = (let nano = sint (word_of_int instant :: 64 word) in nano sdiv 1000000)"

definition timeFromEpochMilli :: "int \<Rightarrow> int" where
  "timeFromEpochMilli t = (let secs = t sdiv 1000; msec = t smod 1000 in
     secs * 1000000000 + msec * 1000000)"

section \<open>Encoding\<close>

type_synonym 'w writer = "byte list \<Rightarrow> ('w, es_error, unit) action"

fun binaryWriteFields ::
  "(byte list \<Rightarrow> ('w, 'e, unit) action) \<Rightarrow> byte list list \<Rightarrow> ('w, 'e, unit) action" where
  "binaryWriteFields write [] = act_ret ()"
| "binaryWriteFields write (v # vs) = act_bind (write v) (\<lambda>_. binaryWriteFields write vs)"

definition encodeScalar :: "'w writer \<Rightarrow> valueType \<Rightarrow> byte list \<Rightarrow> ('w, es_error, unit) action" where
  "encodeScalar write typ v = binaryWriteFields write [[typ], v]"

text \<open>The result of the first write is dropped, as in the code.\<close>

definition encodeFixedSlice :: "'w writer \<Rightarrow> valueType \<Rightarrow> byte list \<Rightarrow> ('w, es_error, unit) action" where
  "encodeFixedSlice write typ v w = (case write [typ] w of (_, w') \<Rightarrow> write v w')"

definition encodeBytes :: "'w writer \<Rightarrow> valueType \<Rightarrow> byte list \<Rightarrow> ('w, es_error, unit) action" where
  "encodeBytes write typ v =
     (if maxHeaderValueLen < length v
      then act_err (LengthError ''header value'' (int maxHeaderValueLen) (int (length v)))
      else act_bind (binaryWriteFields write [[typ], be_bytes 2 (length v)]) (\<lambda>_. write v))"

definition encodeString :: "'w writer \<Rightarrow> valueType \<Rightarrow> string \<Rightarrow> ('w, es_error, unit) action" where
  "encodeString write typ v =
     (if maxHeaderValueLen < length v
      then act_err (LengthError ''header value'' (int maxHeaderValueLen) (int (length v)))
      else act_bind (binaryWriteFields write [[typ], be_bytes 2 (length v)])
             (\<lambda>_. write (str_bytes v)))"

text \<open>One \<open>encode\<close> per type of value; \<open>Value_encode\<close> is the call through the interface.\<close>

definition BoolValue_encode :: "'w writer \<Rightarrow> bool \<Rightarrow> ('w, es_error, unit) action" where
  "BoolValue_encode write v = write [Value_valueType (BoolValue v)]"

definition Int8Value_encode :: "'w writer \<Rightarrow> 8 word \<Rightarrow> ('w, es_error, unit) action" where
  "Int8Value_encode write v = encodeScalar write int8ValueType (be_bytes 1 (unat v))"

definition Int16Value_encode :: "'w writer \<Rightarrow> 16 word \<Rightarrow> ('w, es_error, unit) action" where
  "Int16Value_encode write v = encodeScalar write int16ValueType (be_bytes 2 (unat v))"

definition Int32Value_encode :: "'w writer \<Rightarrow> 32 word \<Rightarrow> ('w, es_error, unit) action" where
  "Int32Value_encode write v = encodeScalar write int32ValueType (be_bytes 4 (unat v))"

definition Int64Value_encode :: "'w writer \<Rightarrow> 64 word \<Rightarrow> ('w, es_error, unit) action" where
  "Int64Value_encode write v = encodeScalar write int64ValueType (be_bytes 8 (unat v))"

definition BytesValue_encode :: "'w writer \<Rightarrow> byte list \<Rightarrow> ('w, es_error, unit) action" where
  "BytesValue_encode write v = encodeBytes write bytesValueType v"

definition StringValue_encode :: "'w writer \<Rightarrow> string \<Rightarrow> ('w, es_error, unit) action" where
  "StringValue_encode write v = encodeString write stringValueType v"

definition TimestampValue_encode :: "'w writer \<Rightarrow> int \<Rightarrow> ('w, es_error, unit) action" where
  "TimestampValue_encode write v = 
     encodeScalar write timestampValueType (be_bytes 8 (unat (word_of_int (epochMilli v) :: 64 word)))"

definition UUIDValue_encode :: "'w writer \<Rightarrow> byte list \<Rightarrow> ('w, es_error, unit) action" where
  "UUIDValue_encode write v = encodeFixedSlice write uuidValueType v"

fun Value_encode :: "'w writer \<Rightarrow> Value \<Rightarrow> ('w, es_error, unit) action" where
  "Value_encode write (BoolValue v) = BoolValue_encode write v"
| "Value_encode write (Int8Value v) = Int8Value_encode write v"
| "Value_encode write (Int16Value v) = Int16Value_encode write v"
| "Value_encode write (Int32Value v) = Int32Value_encode write v"
| "Value_encode write (Int64Value v) = Int64Value_encode write v"
| "Value_encode write (BytesValue v) = BytesValue_encode write v"
| "Value_encode write (StringValue v) = StringValue_encode write v"
| "Value_encode write (TimestampValue v) = TimestampValue_encode write v"
| "Value_encode write (UUIDValue v) = UUIDValue_encode write v"

lemmas value_encode_defs = BoolValue_encode_def Int8Value_encode_def Int16Value_encode_def Int32Value_encode_def Int64Value_encode_def
  BytesValue_encode_def StringValue_encode_def TimestampValue_encode_def UUIDValue_encode_def

record Header =
  hdr_Name :: string
  hdr_Value :: Value

type_synonym Headers = "Header list"

definition maxHeaderNameLen :: nat where
  "maxHeaderNameLen = 255"

text \<open>\<open>headerName\<close>: the length byte and as many bytes of the name array.\<close>

definition headerName_encode :: "'w writer \<Rightarrow> byte \<times> byte list \<Rightarrow> ('w, es_error, unit) action" where
  "headerName_encode write hn =
     act_bind (write [fst hn]) (\<lambda>_. write (take (unat (fst hn)) (snd hn)))"

text \<open>
  \<open>uint8(len(h.Name))\<close> wraps; \<open>copy\<close> fills the first \<open>Len\<close> bytes of the zeroed array with as
  much of the name as fits.
\<close>

definition makeHeaderName :: "string \<Rightarrow> byte \<times> byte list" where
  "makeHeaderName name =
     (let len = (word_of_nat (length name) :: byte); copied = take (unat len) (str_bytes name) in
      (len, copied @ replicate (maxHeaderNameLen - length copied) 0))"

fun EncodeHeaders :: "'w writer \<Rightarrow> Headers \<Rightarrow> ('w, es_error, unit) action" where
  "EncodeHeaders write [] = act_ret ()"
| "EncodeHeaders write (h # hs) =
     act_bind (headerName_encode write (makeHeaderName (hdr_Name h))) (\<lambda>_.
     act_bind (Value_encode write (hdr_Value h)) (\<lambda>_.
     EncodeHeaders write hs))"

section \<open>Decoding\<close>

definition decodeUint8 :: "(byte list, es_error, byte) action" where
  "decodeUint8 = act_bind (io_read (read_full 1)) (\<lambda>b. act_ret (word_of_nat (be_nat b)))"

definition decodeUint16 :: "(byte list, es_error, 16 word) action" where
  "decodeUint16 = act_bind (io_read (read_full 2)) (\<lambda>b. act_ret (word_of_nat (be_nat b)))"

definition decodeUint32 :: "(byte list, es_error, 32 word) action" where
  "decodeUint32 = act_bind (io_read (read_full 4)) (\<lambda>b. act_ret (word_of_nat (be_nat b)))"

definition decodeUint64 :: "(byte list, es_error, 64 word) action" where
  "decodeUint64 = act_bind (io_read (read_full 8)) (\<lambda>b. act_ret (word_of_nat (be_nat b)))"

definition decodeFixedBytesValue :: "nat \<Rightarrow> (byte list, es_error, byte list) action" where
  "decodeFixedBytesValue n = io_read (read_full n)"

definition decodeBytesValue :: "(byte list, es_error, byte list) action" where
  "decodeBytesValue = act_bind decodeUint16 (\<lambda>len. io_read (read_full (unat len)))"

definition decodeStringValue :: "(byte list, es_error, string) action" where
  "decodeStringValue = act_bind decodeBytesValue (\<lambda>v. act_ret (bytes_str v))"

definition decodeHeaderName :: "(byte list, es_error, string) action" where
  "decodeHeaderName =
     act_bind decodeUint8 (\<lambda>len.
     act_bind (io_read (read_full (unat len))) (\<lambda>name. act_ret (bytes_str name)))"

definition Int8Value_decode :: "(byte list, es_error, Value) action" where
  "Int8Value_decode = act_bind decodeUint8 (\<lambda>n. act_ret (Int8Value n))"

definition Int16Value_decode :: "(byte list, es_error, Value) action" where
  "Int16Value_decode = act_bind decodeUint16 (\<lambda>n. act_ret (Int16Value n))"

definition Int32Value_decode :: "(byte list, es_error, Value) action" where
  "Int32Value_decode = act_bind decodeUint32 (\<lambda>n. act_ret (Int32Value n))"

definition Int64Value_decode :: "(byte list, es_error, Value) action" where
  "Int64Value_decode = act_bind decodeUint64 (\<lambda>n. act_ret (Int64Value n))"

definition BytesValue_decode :: "(byte list, es_error, Value) action" where
  "BytesValue_decode = act_bind decodeBytesValue (\<lambda>b. act_ret (BytesValue b))"

definition StringValue_decode :: "(byte list, es_error, Value) action" where
  "StringValue_decode = act_bind decodeStringValue (\<lambda>s. act_ret (StringValue s))"

definition TimestampValue_decode :: "(byte list, es_error, Value) action" where
  "TimestampValue_decode = act_bind decodeUint64 (\<lambda>n. act_ret (TimestampValue (timeFromEpochMilli (sint n))))"

definition UUIDValue_decode :: "(byte list, es_error, Value) action" where
  "UUIDValue_decode = act_bind (decodeFixedBytesValue 16) (\<lambda>b. act_ret (UUIDValue b))"

lemmas value_decode_defs = Int8Value_decode_def Int16Value_decode_def Int32Value_decode_def Int64Value_decode_def BytesValue_decode_def
  StringValue_decode_def TimestampValue_decode_def UUIDValue_decode_def

definition decodeHeaderValue :: "(byte list, es_error, Value) action" where
  "decodeHeaderValue =
     act_bind decodeUint8 (\<lambda>typ.
       if typ = trueValueType then act_ret (BoolValue True)
       else if typ = falseValueType then act_ret (BoolValue False)
       else if typ = int8ValueType then Int8Value_decode
       else if typ = int16ValueType then Int16Value_decode
       else if typ = int32ValueType then Int32Value_decode
       else if typ = int64ValueType then Int64Value_decode
       else if typ = bytesValueType then BytesValue_decode
       else if typ = stringValueType then StringValue_decode
       else if typ = timestampValueType then TimestampValue_decode
       else if typ = uuidValueType then UUIDValue_decode
       else act_err (PanicUnknownValueType typ))"

section \<open>Header collections\<close>

fun Headers_Set :: "Headers \<Rightarrow> string \<Rightarrow> Value \<Rightarrow> Headers" where
  "Headers_Set [] name value = [\<lparr>hdr_Name = name, hdr_Value = value\<rparr>]"
| "Headers_Set (h # hs) name value =
     (if hdr_Name h = name then h\<lparr>hdr_Value := value\<rparr> # hs else h # Headers_Set hs name value)"

fun Headers_Get :: "Headers \<Rightarrow> string \<Rightarrow> Value option" where
  "Headers_Get [] name = None"
| "Headers_Get (h # hs) name = (if hdr_Name h = name then Some (hdr_Value h) else Headers_Get hs name)"

text \<open>
  \<open>Del\<close> runs an index over the slice; after a deletion the index moves on, so the header that
  slid into its place is not looked at.
\<close>

function Headers_Del_loop :: "Headers \<Rightarrow> string \<Rightarrow> nat \<Rightarrow> Headers" where
  "Headers_Del_loop hs name i =
     (if i < length hs then
        (if hdr_Name (hs ! i) = name
         then Headers_Del_loop (take i hs @ drop (Suc i) hs) name (Suc i)
         else Headers_Del_loop hs name (Suc i))
      else hs)"
  by pat_completeness auto
termination
  by (relation "measure (\<lambda>(hs, name, i). length hs - i)") auto

declare Headers_Del_loop.simps [simp del]

definition Headers_Del :: "Headers \<Rightarrow> string \<Rightarrow> Headers" where
  "Headers_Del hs name = Headers_Del_loop hs name 0"

definition Headers_Clone :: "Headers \<Rightarrow> Headers" where
  "Headers_Clone hs = foldl (\<lambda>out h. Headers_Set out (hdr_Name h) (hdr_Value h)) [] hs"

lemma consumes_io_read [consume_simps]: "consumes f \<Longrightarrow> consumes (io_read f)"
  by (rule consumesI) (auto simp: io_read_def split: prod.splits dest: consumesD)

lemma consumes_decoders [consume_simps]:
  "consumes decodeUint8" "consumes decodeUint16" "consumes decodeUint32" "consumes decodeUint64"
  "consumes (decodeFixedBytesValue n)" "consumes decodeBytesValue" "consumes decodeStringValue"
  unfolding decodeUint8_def decodeUint16_def decodeUint32_def decodeUint64_def
    decodeFixedBytesValue_def decodeBytesValue_def decodeStringValue_def
  by (intro consume_simps)+

lemma consumes_decodeHeaderName [consume_simps]: "consumes decodeHeaderName"
  unfolding decodeHeaderName_def by (intro consume_simps)

lemma consumes_decodeHeaderValue [consume_simps]: "consumes decodeHeaderValue"
  unfolding decodeHeaderValue_def value_decode_defs by (intro consume_simps)

lemma decodeUint8_Cons [codec_simps]: "decodeUint8 (b # r) = (Inr b, r)"
  by (simp add: decodeUint8_def act_bind_def io_read_def read_full_def Suc_le_eq)

lemma decodeUint8_Nil [codec_simps]: "decodeUint8 [] = (Inl (IOError EOF), [])"
  by (simp add: decodeUint8_def act_bind_def io_read_def read_full_def)

lemma decodeHeaderName_shrinks:
  assumes "decodeHeaderName r = (Inr name, r')"
  shows "length r' < length r"
proof (cases r)
  case Nil
  with assms show ?thesis
    by (simp add: decodeHeaderName_def act_bind_def codec_simps)
next
  case (Cons b bs)
  with assms have "act_bind (io_read (read_full (unat b))) (\<lambda>n. act_ret (bytes_str n)) bs = (Inr name, r')"
    by (simp add: decodeHeaderName_def act_bind_def codec_simps)
  then have "length r' \<le> length bs"
    by (rule consumes_length [rotated]) (intro consume_simps)
  with Cons show ?thesis by simp
qed

text \<open>
  \<open>decodeHeaders\<close>: an EOF in the header name ends the headers. \<open>io.ReadFull\<close> also returns EOF
  when nothing is left after the length byte.
\<close>

function decodeHeaders_loop :: "Headers \<Rightarrow> (byte list, es_error, Headers) action" where
  "decodeHeaders_loop hs r =
     (case decodeHeaderName r of
        (Inl e, r1) \<Rightarrow> (if e = IOError EOF then (Inr hs, r1) else (Inl e, r1))
      | (Inr name, r1) \<Rightarrow>
          (case decodeHeaderValue r1 of
             (Inl e, r2) \<Rightarrow> (Inl e, r2)
           | (Inr value, r2) \<Rightarrow> decodeHeaders_loop (Headers_Set hs name value) r2))"
  by pat_completeness auto
termination
  by (relation "measure (\<lambda>(hs, r). length r)")
    (auto dest!: decodeHeaderName_shrinks [OF sym]
      consumes_length [OF consumes_decodeHeaderValue sym])

definition decodeHeaders :: "(byte list, es_error, Headers) action" where
  "decodeHeaders = decodeHeaders_loop []"

declare decodeHeaders_loop.simps [simp del]

section \<open>The format\<close>

text \<open>The bytes of a value and of a header, as the format lays them out.\<close>

fun value_payload :: "Value \<Rightarrow> byte list" where
  "value_payload (BoolValue _) = []"
| "value_payload (Int8Value v) = be_bytes 1 (unat v)"
| "value_payload (Int16Value v) = be_bytes 2 (unat v)"
| "value_payload (Int32Value v) = be_bytes 4 (unat v)"
| "value_payload (Int64Value v) = be_bytes 8 (unat v)"
| "value_payload (BytesValue v) = be_bytes 2 (length v) @ v"
| "value_payload (StringValue v) = be_bytes 2 (length v) @ str_bytes v"
| "value_payload (TimestampValue v) = be_bytes 8 (unat (word_of_int (epochMilli v) :: 64 word))"
| "value_payload (UUIDValue v) = v"

definition value_wire :: "Value \<Rightarrow> byte list" where
  "value_wire v = Value_valueType v # value_payload v"

definition name_wire :: "string \<Rightarrow> byte list" where
  "name_wire name = word_of_nat (length name) # str_bytes (take (length name mod 256) name)"

definition header_wire :: "Header \<Rightarrow> byte list" where
  "header_wire h = name_wire (hdr_Name h) @ value_wire (hdr_Value h)"

definition headers_wire :: "Headers \<Rightarrow> byte list" where
  "headers_wire hs = concat (map header_wire hs)"

text \<open>The values the encoder accepts, and the ones it represents exactly.\<close>

fun value_encodable :: "Value \<Rightarrow> bool" where
  "value_encodable (BytesValue v) = (length v \<le> maxHeaderValueLen)"
| "value_encodable (StringValue v) = (length v \<le> maxHeaderValueLen)"
| "value_encodable _ = True"

fun value_exact :: "Value \<Rightarrow> bool" where
  "value_exact (TimestampValue v) = (v mod 1000000 = 0 \<and> -(2 ^ 63) \<le> v \<and> v < 2 ^ 63)"
| "value_exact (UUIDValue v) = (length v = 16)"
| "value_exact v = value_encodable v"

definition header_exact :: "Header \<Rightarrow> bool" where
  "header_exact h \<longleftrightarrow> length (hdr_Name h) \<le> maxHeaderNameLen \<and> value_exact (hdr_Value h)"

lemma decodeUint16_be [codec_simps]:
  "decodeUint16 (be_bytes 2 n @ rest) = (Inr (word_of_nat n), rest)"
  using mod_mod_cancel [of "2 ^ 16" "256 ^ 2 :: nat" n]
  by (simp add: decodeUint16_def act_bind_def io_read_def read_full_append codec_simps
      word_of_nat_eq_iff take_bit_eq_mod del: be_bytes.simps)

lemma decodeUint32_be [codec_simps]:
  "decodeUint32 (be_bytes 4 n @ rest) = (Inr (word_of_nat n), rest)"
  by (simp add: decodeUint32_def act_bind_def io_read_def read_full_append codec_simps
      word_of_nat_eq_iff take_bit_eq_mod del: be_bytes.simps)

lemma decodeUint64_be [codec_simps]:
  "decodeUint64 (be_bytes 8 n @ rest) = (Inr (word_of_nat n), rest)"
  by (simp add: decodeUint64_def act_bind_def io_read_def read_full_append codec_simps
      word_of_nat_eq_iff take_bit_eq_mod del: be_bytes.simps)

lemma decodeBytesValue_be:
  assumes "length v \<le> maxHeaderValueLen"
  shows "decodeBytesValue (be_bytes 2 (length v) @ v @ rest) = (Inr v, rest)"
proof -
  have "unat (word_of_nat (length v) :: 16 word) = length v"
    using assms by (simp add: unat_of_nat take_bit_nat_eq_self_iff maxHeaderValueLen_def)
  then show ?thesis
    by (simp add: decodeBytesValue_def act_bind_def codec_simps io_read_def del: be_bytes.simps)
qed

lemma decodeStringValue_be:
  assumes "length v \<le> maxHeaderValueLen"
  shows "decodeStringValue (be_bytes 2 (length v) @ str_bytes v @ rest) = (Inr v, rest)"
  using decodeBytesValue_be [of "str_bytes v" rest] assms
  by (simp add: decodeStringValue_def act_bind_def del: be_bytes.simps)

text \<open>Whole milliseconds in the range of \<open>UnixNano\<close> survive the two conversions.\<close>

lemma epochMilli_exact:
  assumes "v mod 1000000 = 0" and "-(2 ^ 63) \<le> v" and "v < 2 ^ 63"
  shows "timeFromEpochMilli (sint (word_of_int (epochMilli v) :: 64 word)) = v"
proof -
  obtain m where m: "v = 1000000 * m" using assms(1) by (metis mod_0_imp_dvd dvdE)
  have nano: "sint (word_of_int v :: 64 word) = v"
    by (rule sint64_exact [OF assms(2,3)])
  have milli: "epochMilli v = m"
    unfolding epochMilli_def Let_def nano by (simp add: m signed_divide_int_def abs_mult sgn_mult sgn_mult_abs)
  have m64: "sint (word_of_int m :: 64 word) = m"
    using assms(2,3) m by (intro sint64_exact) auto
  have "m sdiv 1000 * 1000 + m smod 1000 = m"
    by (rule sdiv_mult_smod_eq)
  then have "timeFromEpochMilli (sint (word_of_int m :: 64 word)) = 1000000 * m"
    unfolding timeFromEpochMilli_def Let_def m64 by linarith
  then show ?thesis by (simp only: milli) (simp only: m)
qed

lemma decodeHeaderValue_wire:
  "value_exact v \<Longrightarrow> decodeHeaderValue (value_wire v @ rest) = (Inr v, rest)"
proof (cases v)
  case (Int8Value n)
  then show ?thesis
    by (simp add: value_wire_def decodeHeaderValue_def value_decode_defs act_bind_def codec_simps valueType_defs)
next
  case (UUIDValue b)
  moreover assume "value_exact v"
  ultimately show ?thesis
    by (simp add: value_wire_def decodeHeaderValue_def value_decode_defs act_bind_def codec_simps valueType_defs
        decodeFixedBytesValue_def io_read_def)
qed (simp_all add: value_wire_def decodeHeaderValue_def value_decode_defs act_bind_def codec_simps valueType_defs
    decodeBytesValue_be decodeStringValue_be epochMilli_exact del: be_bytes.simps)

lemma decodeHeaderName_wire:
  assumes "length name \<le> maxHeaderNameLen"
  shows "decodeHeaderName (name_wire name @ rest) = (Inr name, rest)"
proof -
  have small: "length name < 256" using assms by (simp add: maxHeaderNameLen_def)
  then have "unat (word_of_nat (length name) :: byte) = length name"
    by (simp add: unat_of_nat take_bit_nat_eq_self_iff)
  then show ?thesis using small
    by (simp add: name_wire_def decodeHeaderName_def act_bind_def codec_simps io_read_def)
qed

text \<open>Both are codecs, so the format is prefix free on what it represents exactly.\<close>

interpretation value_codec: prefix_codec value_wire decodeHeaderValue value_exact
  by unfold_locales (rule decodeHeaderValue_wire)

interpretation name_codec: prefix_codec name_wire decodeHeaderName
  "\<lambda>name. length name \<le> maxHeaderNameLen"
  by unfold_locales (rule decodeHeaderName_wire)

lemma decodeHeaders_loop_wire:
  assumes "\<forall>h \<in> set hs. header_exact h"
  shows "decodeHeaders_loop out (headers_wire hs) =
    (Inr (foldl (\<lambda>out h. Headers_Set out (hdr_Name h) (hdr_Value h)) out hs), [])"
  using assms
proof (induction hs arbitrary: out)
  case Nil
  then show ?case
    by (subst decodeHeaders_loop.simps)
      (simp add: headers_wire_def decodeHeaderName_def act_bind_def codec_simps)
next
  case (Cons h hs)
  have "decodeHeaderName (headers_wire (h # hs)) = (Inr (hdr_Name h), value_wire (hdr_Value h) @ headers_wire hs)"
    using Cons.prems by (simp add: headers_wire_def header_wire_def header_exact_def name_codec.dec_enc)
  moreover have "decodeHeaderValue (value_wire (hdr_Value h) @ headers_wire hs) = (Inr (hdr_Value h), headers_wire hs)"
    using Cons.prems by (simp add: header_exact_def value_codec.dec_enc)
  ultimately show ?case
    using Cons by (subst decodeHeaders_loop.simps) simp
qed

section \<open>Laws of header collections\<close>

lemma Headers_Set_names:
  "map hdr_Name (Headers_Set hs name v) =
     (if name \<in> hdr_Name ` set hs then map hdr_Name hs else map hdr_Name hs @ [name])"
  by (induction hs) auto

lemma Headers_Set_distinct:
  "distinct (map hdr_Name hs) \<Longrightarrow> distinct (map hdr_Name (Headers_Set hs name v))"
  by (simp add: Headers_Set_names)

lemma Headers_Get_Set:
  "Headers_Get (Headers_Set hs name v) name' = (if name' = name then Some v else Headers_Get hs name')"
  by (induction hs) auto

lemma Headers_Set_new:
  "name \<notin> hdr_Name ` set hs \<Longrightarrow> Headers_Set hs name v = hs @ [\<lparr>hdr_Name = name, hdr_Value = v\<rparr>]"
  by (induction hs) auto

lemma Headers_Set_fold_distinct:
  "distinct (map hdr_Name (out @ hs)) \<Longrightarrow>
    foldl (\<lambda>out h. Headers_Set out (hdr_Name h) (hdr_Value h)) out hs = out @ hs"
proof (induction hs arbitrary: out)
  case (Cons h hs)
  have "Headers_Set out (hdr_Name h) (hdr_Value h) = out @ [h]"
    using Cons.prems by (subst Headers_Set_new) auto
  with Cons.IH [of "out @ [h]"] Cons.prems show ?case by simp
qed simp

lemma Headers_Clone_distinct: "distinct (map hdr_Name hs) \<Longrightarrow> Headers_Clone hs = hs"
  unfolding Headers_Clone_def using Headers_Set_fold_distinct [of "[]" hs] by simp

lemma Headers_Del_loop_absent: "name \<notin> hdr_Name ` set hs \<Longrightarrow> Headers_Del_loop hs name i = hs"
proof (induction hs name i rule: Headers_Del_loop.induct)
  case (1 hs name i)
  then show ?case by (subst Headers_Del_loop.simps) (auto simp: image_iff)
qed

lemma Headers_Del_loop_distinct:
  "distinct (map hdr_Name hs) \<Longrightarrow> name \<notin> hdr_Name ` set (take i hs) \<Longrightarrow>
    Headers_Del_loop hs name i = filter (\<lambda>h. hdr_Name h \<noteq> name) hs"
proof (induction hs name i rule: Headers_Del_loop.induct)
  case (1 hs name i)
  consider "length hs \<le> i" | "i < length hs" "hdr_Name (hs ! i) = name" | "i < length hs" "hdr_Name (hs ! i) \<noteq> name"
    by linarith
  then show ?case
  proof cases
    case 1
    with "1.prems"(2) show ?thesis
      by (subst Headers_Del_loop.simps) (auto intro!: sym [OF filter_True])
  next
    case 2
    then have split: "hs = take i hs @ hs ! i # drop (Suc i) hs" by (simp add: id_take_nth_drop)
    have drop: "name \<notin> hdr_Name ` set (drop (Suc i) hs)"
      using "1.prems"(1) 2 by (subst (asm) split) auto
    then have "Headers_Del_loop hs name i = take i hs @ drop (Suc i) hs"
      using 2 "1.prems"(2) by (subst Headers_Del_loop.simps) (auto intro!: Headers_Del_loop_absent)
    also have "\<dots> = filter (\<lambda>h. hdr_Name h \<noteq> name) (take i hs @ hs ! i # drop (Suc i) hs)"
    proof -
      have "filter (\<lambda>h. hdr_Name h \<noteq> name) xs = xs" if "name \<notin> hdr_Name ` set xs" for xs
        using that by (auto intro: filter_True)
      from this [OF drop] this [OF "1.prems"(2)] 2 show ?thesis by simp
    qed
    finally show ?thesis using split by simp
  next
    case 3
    with "1.prems" have "name \<notin> hdr_Name ` set (take (Suc i) hs)"
      by (simp add: take_Suc_conv_app_nth)
    with "1.IH"(2) [OF 3 "1.prems"(1)] 3 show ?thesis
      by (subst Headers_Del_loop.simps) simp
  qed
qed

lemma Headers_Del_distinct:
  "distinct (map hdr_Name hs) \<Longrightarrow> Headers_Del hs name = filter (\<lambda>h. hdr_Name h \<noteq> name) hs"
  unfolding Headers_Del_def by (simp add: Headers_Del_loop_distinct)

lemma Headers_Get_filter:
  "Headers_Get (filter (\<lambda>h. hdr_Name h \<noteq> name) hs) name' = (if name' = name then None else Headers_Get hs name')"
  by (induction hs) auto

lemma decodeHeaders_wire:
  assumes "\<forall>h \<in> set hs. header_exact h" and "distinct (map hdr_Name hs)"
  shows "decodeHeaders (headers_wire hs) = (Inr hs, [])"
  unfolding decodeHeaders_def decodeHeaders_loop_wire [OF assms(1)]
  using Headers_Set_fold_distinct [of "[]" hs] assms(2) by simp

lemma decodeHeaders_loop_distinct:
  "distinct (map hdr_Name out) \<Longrightarrow> decodeHeaders_loop out r = (Inr hs, r') \<Longrightarrow>
    distinct (map hdr_Name hs)"
proof (induction out r rule: decodeHeaders_loop.induct)
  case (1 out r)
  show ?case
  proof (cases "decodeHeaderName r")
    case (Pair x r1)
    note name = this
    show ?thesis
    proof (cases x)
      case (Inl e)
      with name "1.prems" show ?thesis
        by (subst (asm) decodeHeaders_loop.simps) (auto split: if_splits)
    next
      case (Inr n)
      note Inr_n = this
      obtain y r2 where val: "decodeHeaderValue r1 = (y, r2)" by fastforce
      show ?thesis
      proof (cases y)
        case (Inl e)
        with name Inr_n val "1.prems" show ?thesis
          by (subst (asm) decodeHeaders_loop.simps) simp
      next
        case (Inr v)
        with name Inr_n val "1.prems"
        have "decodeHeaders_loop (Headers_Set out n v) r2 = (Inr hs, r')"
          by (subst (asm) decodeHeaders_loop.simps) simp
        with "1.IH" [OF name [symmetric] Inr_n val [symmetric] Inr] "1.prems"(1)
        show ?thesis by (simp add: Headers_Set_distinct)
      qed
    qed
  qed
qed

section \<open>The encoders against the format\<close>

text \<open>Through a writer that keeps the laws, an encoder that reports success has written the format.\<close>

context io_writer begin

lemma emits_fields: "emits contents (binaryWriteFields wr vs) (concat vs)"
  by (induction vs) (simp_all add: emits_bind emits_write emits_ret)

end

locale event_writer = hashed_writer wr contents
  for wr :: "'w writer" and contents :: "'w \<Rightarrow> byte list"
begin

lemma emits_encodeScalar: "emits contents (encodeScalar wr typ v) (typ # v)"
  unfolding encodeScalar_def using emits_fields [of "[[typ], v]"] by simp

lemma emits_encodeBytes: "emits contents (encodeBytes wr typ v) (typ # be_bytes 2 (length v) @ v)"
  unfolding encodeBytes_def
  using emits_bind [OF emits_fields [of "[[typ], be_bytes 2 (length v)]"] emits_write [of v]]
  by (simp add: emits_err del: be_bytes.simps)

lemma emits_encodeString:
  "emits contents (encodeString wr typ v) (typ # be_bytes 2 (length v) @ str_bytes v)"
  unfolding encodeString_def
  using emits_bind [OF emits_fields [of "[[typ], be_bytes 2 (length v)]"] emits_write [of "str_bytes v"]]
  by (simp add: emits_err del: be_bytes.simps)

lemma emits_Value: "emits contents (Value_encode wr v) (value_wire v)"
proof (cases v)
  case (UUIDValue b)
  then show ?thesis
    using emits_ignored_error [where bs = "[uuidValueType]" and bs' = b]
    by (simp add: value_wire_def value_encode_defs encodeFixedSlice_def [abs_def])
qed (simp_all add: value_wire_def value_encode_defs emits_write emits_encodeScalar emits_encodeBytes
    emits_encodeString del: be_bytes.simps)

lemma emits_name: "emits contents (headerName_encode wr (makeHeaderName name)) (name_wire name)"
proof -
  have len: "unat (word_of_nat (length name) :: byte) = length name mod 256"
    by (simp add: unat_of_nat take_bit_eq_mod)
  have "take (length name mod 256) (snd (makeHeaderName name)) = str_bytes (take (length name mod 256) name)"
    by (simp add: makeHeaderName_def Let_def len str_bytes_take)
  then show ?thesis
    using emits_bind [OF emits_write [of "[word_of_nat (length name)]"]
        emits_write [of "str_bytes (take (length name mod 256) name)"]]
    by (simp add: headerName_encode_def name_wire_def) (simp add: makeHeaderName_def Let_def len)
qed

lemma emits_headers: "emits contents (EncodeHeaders wr hs) (headers_wire hs)"
proof (induction hs)
  case Nil
  then show ?case by (simp add: emits_ret headers_wire_def)
next
  case (Cons h hs)
  show ?case
    using emits_bind [OF emits_name emits_bind [OF emits_Value Cons.IH]]
    by (simp add: headers_wire_def header_wire_def)
qed

end

interpretation bytes_Buffer_events: event_writer buffer_write "\<lambda>buf. buf"
  by unfold_locales

text \<open>Into a buffer the encoder fails only for a value that is too long.\<close>

lemma buffer_fields: "binaryWriteFields buffer_write vs buf = (Inr (), buf @ concat vs)"
  by (induction vs arbitrary: buf) (simp_all add: act_bind_def buffer_write_def)

lemma buffer_Value:
  "fst (Value_encode buffer_write v buf) = Inr () \<longleftrightarrow> value_encodable v"
  by (cases v) (auto simp: buffer_write_def value_encode_defs encodeScalar_def buffer_fields encodeBytes_def
      encodeString_def encodeFixedSlice_def act_bind_def)

lemma buffer_name: "\<exists>buf'. headerName_encode buffer_write hn buf = (Inr (), buf')"
  by (simp add: headerName_encode_def act_bind_def buffer_write_def)

lemma buffer_headers:
  "fst (EncodeHeaders buffer_write hs buf) = Inr () \<longleftrightarrow> (\<forall>h \<in> set hs. value_encodable (hdr_Value h))"
proof (induction hs arbitrary: buf)
  case (Cons h hs)
  obtain buf1 where name: "headerName_encode buffer_write (makeHeaderName (hdr_Name h)) buf = (Inr (), buf1)"
    using buffer_name by blast
  obtain x buf2 where enc: "Value_encode buffer_write (hdr_Value h) buf1 = (x, buf2)" by fastforce
  with buffer_Value [of "hdr_Value h" buf1] Cons name show ?case
    by (cases x) (simp_all add: act_bind_def)
qed simp

lemma buffer_headers_wire:
  assumes "\<forall>h \<in> set hs. value_encodable (hdr_Value h)"
  shows "EncodeHeaders buffer_write hs buf = (Inr (), buf @ headers_wire hs)"
proof -
  obtain x buf' where run: "EncodeHeaders buffer_write hs buf = (x, buf')" by fastforce
  with assms buffer_headers [of hs buf] have "x = Inr ()" by simp
  with run emitsD [OF bytes_Buffer_events.emits_headers, of hs buf buf'] show ?thesis by simp
qed

lemma value_exact_encodable: "value_exact v \<Longrightarrow> value_encodable v"
  by (cases v) auto

end
