(* ===== verification/EventStreamMessage.thy ===== *)
theory EventStreamMessage
  imports EventStreamHeader
begin

text \<open>
  Event stream messages: \<open>private/protocol/eventstream/message.go\<close>, \<open>encode.go\<close> and \<open>decode.go\<close>.

  A message is a prelude (two 32-bit lengths and their CRC), the headers, the payload and the CRC
  of everything before it. The lengths are 32-bit words, so that the additions and subtractions
  of the code wrap as they do in Go. The encoder writes to any \<open>io.Writer\<close> through
  \<open>io.MultiWriter\<close> into a running CRC, the decoder reads through \<open>io.TeeReader\<close>. The optional
  logger of both is nil here: with one, the same bytes are also copied into a debug buffer.
\<close>

section \<open>Messages\<close>

definition preludeLen :: nat where "preludeLen = 8"
definition preludeCRCLen :: nat where "preludeCRCLen = 4"
definition msgCRCLen :: nat where "msgCRCLen = 4"
definition minMsgLen :: nat where "minMsgLen = preludeLen + preludeCRCLen + msgCRCLen"
definition maxPayloadLen :: nat where "maxPayloadLen = 1024 * 1024 * 16"
definition maxHeadersLen :: nat where "maxHeadersLen = 1024 * 128"
definition maxMsgLen :: nat where "maxMsgLen = minMsgLen + maxHeadersLen + maxPayloadLen"

lemmas message_consts = preludeLen_def preludeCRCLen_def msgCRCLen_def minMsgLen_def
  maxPayloadLen_def maxHeadersLen_def maxMsgLen_def

record Message =
  msg_Headers :: Headers
  msg_Payload :: "byte list"

record messagePrelude =
  Length :: "32 word"
  HeadersLen :: "32 word"
  PreludeCRC :: "32 word"

record rawMessage = messagePrelude +
  raw_Headers :: "byte list"
  raw_Payload :: "byte list"
  raw_CRC :: "32 word"

definition PayloadLen :: "('a) messagePrelude_scheme \<Rightarrow> 32 word" where
  "PayloadLen p = Length p - HeadersLen p - word_of_nat minMsgLen"

definition ValidateLens :: "('a) messagePrelude_scheme \<Rightarrow> es_error + unit" where
  "ValidateLens p =
     (if Length p = 0 \<or> word_of_nat maxMsgLen < Length p
      then Inl (LengthError ''message prelude'' (int maxMsgLen) (uint (Length p)))
      else if word_of_nat maxHeadersLen < HeadersLen p
      then Inl (LengthError ''message headers'' (int maxHeadersLen) (uint (HeadersLen p)))
      else if word_of_nat maxPayloadLen < PayloadLen p
      then Inl (LengthError ''message payload'' (int maxPayloadLen) (uint (PayloadLen p)))
      else Inr ())"

definition be32 :: "32 word \<Rightarrow> byte list" where
  "be32 w = be_bytes 4 (unat w)"

definition Message_rawMessage :: "Message \<Rightarrow> es_error + rawMessage" where
  "Message_rawMessage m =
     (case (if 0 < length (msg_Headers m) then EncodeHeaders buffer_write (msg_Headers m) []
            else (Inr (), [])) of
        (Inl e, _) \<Rightarrow> Inl e
      | (Inr _, headers) \<Rightarrow>
          let headersLen = (word_of_nat (length headers) :: 32 word);
              len = headersLen + word_of_nat (length (msg_Payload m)) + word_of_nat minMsgLen;
              hash1 = crc32_update 0 (be32 len @ be32 headersLen);
              hash2 = crc32_update hash1 (be32 hash1);
              hash3 = (if 0 < headersLen then crc32_update hash2 headers else hash2);
              hash4 = (if 0 < length (msg_Payload m) then crc32_update hash3 (msg_Payload m) else hash3)
          in Inr \<lparr>Length = len, HeadersLen = headersLen, PreludeCRC = hash1,
                  raw_Headers = headers, raw_Payload = msg_Payload m, raw_CRC = hash4\<rparr>)"

definition Message_Clone :: "Message \<Rightarrow> Message" where
  "Message_Clone m = \<lparr>msg_Headers = Headers_Clone (msg_Headers m), msg_Payload = msg_Payload m\<rparr>"

section \<open>Encoder\<close>

record 'w Encoder =
  enc_w :: 'w
  enc_headersBuf :: "byte list"

definition NewEncoder :: "'w \<Rightarrow> 'w Encoder" where
  "NewEncoder w = \<lparr>enc_w = w, enc_headersBuf = []\<rparr>"

text \<open>
  The state of the inner writer is the writer with the CRC; the prelude CRC is read from it
  between two writes.
\<close>

definition encodePrelude ::
  "'w writer \<Rightarrow> 32 word \<Rightarrow> 32 word \<Rightarrow> ('w \<times> 32 word, es_error, unit) action" where
  "encodePrelude write headersLen payloadLen =
     (let p = \<lparr>Length = word_of_nat minMsgLen + headersLen + payloadLen,
               HeadersLen = headersLen, PreludeCRC = 0\<rparr> in
      case ValidateLens p of
        Inl e \<Rightarrow> act_err e
      | Inr _ \<Rightarrow>
          act_bind (binaryWriteFields (multi_write write) [be32 (Length p), be32 (HeadersLen p)])
            (\<lambda>_ (w, crc). multi_write write (be32 crc) (w, crc)))"

definition encodeBody ::
  "'w writer \<Rightarrow> byte list \<Rightarrow> byte list \<Rightarrow> ('w \<times> 32 word, es_error, unit) action" where
  "encodeBody write headers payload =
     (let headersLen = word_of_nat (length headers); payloadLen = word_of_nat (length payload) in
      act_bind (encodePrelude write headersLen payloadLen) (\<lambda>_.
      act_bind (if 0 < headersLen then multi_write write headers else act_ret ()) (\<lambda>_.
      (if 0 < payloadLen then multi_write write payload else act_ret ()))))"

text \<open>
  \<open>Encoder.Encode\<close>. The headers buffer is emptied first and drained by \<open>io.Copy\<close>; the message
  CRC goes to the writer alone.
\<close>

definition Encoder_Encode :: "'w writer \<Rightarrow> Message \<Rightarrow> ('w Encoder, es_error, unit) action" where
  "Encoder_Encode write msg e0 =
     (let e = e0\<lparr>enc_headersBuf := []\<rparr> in
      case EncodeHeaders buffer_write (msg_Headers msg) (enc_headersBuf e) of
        (Inl err, buf) \<Rightarrow> (Inl err, e\<lparr>enc_headersBuf := buf\<rparr>)
      | (Inr _, buf) \<Rightarrow>
          (case encodeBody write buf (msg_Payload msg) (enc_w e, 0) of
             (Inl err, (w, crc)) \<Rightarrow> (Inl err, e\<lparr>enc_w := w, enc_headersBuf := buf\<rparr>)
           | (Inr _, (w, crc)) \<Rightarrow>
               (case write (be32 crc) w of
                  (r, w') \<Rightarrow> (r, e\<lparr>enc_w := w', enc_headersBuf := []\<rparr>))))"

section \<open>Decoder\<close>

definition validateCRC :: "32 word \<Rightarrow> (byte list, es_error, unit) action" where
  "validateCRC expect =
     act_bind decodeUint32 (\<lambda>msgCRC. if msgCRC \<noteq> expect then act_err ChecksumError else act_ret ())"

definition decodePrelude :: "(byte list \<times> 32 word, es_error, messagePrelude) action" where
  "decodePrelude =
     act_bind (tee_reader decodeUint32) (\<lambda>len.
     act_bind (tee_reader decodeUint32) (\<lambda>headersLen.
       let p = \<lparr>Length = len, HeadersLen = headersLen, PreludeCRC = 0\<rparr> in
       case ValidateLens p of
         Inl e \<Rightarrow> act_err e
       | Inr _ \<Rightarrow> (\<lambda>(r, preludeCRC).
           act_bind (tee_reader (validateCRC preludeCRC)) (\<lambda>_.
             act_ret (p\<lparr>PreludeCRC := preludeCRC\<rparr>)) (r, preludeCRC))))"

text \<open>\<open>io.Copy\<close> into a buffer over the caller's slice: everything the limited reader still has.\<close>

definition decodePayload :: "(byte list, es_error, byte list) action" where
  "decodePayload r = (Inr r, [])"

definition Decode_action :: "(byte list \<times> 32 word, es_error, Message) action" where
  "Decode_action =
     act_bind decodePrelude (\<lambda>prelude.
     act_bind (if 0 < HeadersLen prelude
               then tee_reader (limit_reader (unat (HeadersLen prelude)) decodeHeaders)
               else act_ret []) (\<lambda>headers.
     act_bind (if 0 < PayloadLen prelude
               then tee_reader (limit_reader (unat (PayloadLen prelude)) decodePayload)
               else act_ret []) (\<lambda>payload (r, msgCRC).
       case validateCRC msgCRC r of
         (Inl e, r') \<Rightarrow> (Inl e, (r', msgCRC))
       | (Inr _, r') \<Rightarrow> (Inr \<lparr>msg_Headers = headers, msg_Payload = payload\<rparr>, (r', msgCRC)))))"

definition Decode :: "(byte list, es_error, Message) action" where
  "Decode r = (case Decode_action (r, 0) of (x, (r', crc)) \<Rightarrow> (x, r'))"

section \<open>Lengths\<close>

lemma word32_unat: "n < 2 ^ 32 \<Longrightarrow> unat (word_of_nat n :: 32 word) = n"
  by (simp add: unat_of_nat take_bit_nat_eq_self_iff)

text \<open>
  Lengths that pass the validation add up without wrapping, although the subtraction in
  \<open>PayloadLen\<close> may wrap before it: a message shorter than its headers shows as an enormous
  payload.
\<close>

lemma ValidateLens_exact:
  assumes "ValidateLens p = Inr ()"
  shows "unat (Length p) = minMsgLen + unat (HeadersLen p) + unat (PayloadLen p)"
    and "unat (HeadersLen p) \<le> maxHeadersLen" and "unat (PayloadLen p) \<le> maxPayloadLen"
proof -
  from assms have hl: "HeadersLen p \<le> word_of_nat maxHeadersLen"
    and pl: "PayloadLen p \<le> word_of_nat maxPayloadLen"
    by (auto simp: ValidateLens_def split: if_splits)
  from hl show h: "unat (HeadersLen p) \<le> maxHeadersLen"
    by (simp add: word_le_nat_alt message_consts)
  from pl show pay: "unat (PayloadLen p) \<le> maxPayloadLen"
    by (simp add: word_le_nat_alt message_consts)
  have "Length p = word_of_nat (minMsgLen + unat (HeadersLen p) + unat (PayloadLen p))"
    by (simp add: PayloadLen_def)
  then show "unat (Length p) = minMsgLen + unat (HeadersLen p) + unat (PayloadLen p)"
    using h pay by (simp only:) (rule word32_unat, simp add: message_consts)
qed

lemma ValidateLens_iff:
  assumes "h < 2 ^ 32" and "n < 2 ^ 32"
  shows "ValidateLens (\<lparr>Length = word_of_nat minMsgLen + word_of_nat h + word_of_nat n,
      HeadersLen = word_of_nat h, PreludeCRC = c\<rparr> :: messagePrelude) = Inr () \<longleftrightarrow>
    h \<le> maxHeadersLen \<and> n \<le> maxPayloadLen"
    (is "ValidateLens ?p = _ \<longleftrightarrow> _")
proof
  assume "ValidateLens ?p = Inr ()"
  from ValidateLens_exact [OF this] show "h \<le> maxHeadersLen \<and> n \<le> maxPayloadLen"
    by (simp add: PayloadLen_def word32_unat [OF assms(1)] word32_unat [OF assms(2)])
next
  assume small: "h \<le> maxHeadersLen \<and> n \<le> maxPayloadLen"
  have len: "Length ?p = word_of_nat (minMsgLen + h + n)" by simp
  have "unat (Length ?p) = minMsgLen + h + n"
    unfolding len using small by (intro word32_unat) (simp add: message_consts)
  moreover have "PayloadLen ?p = word_of_nat n" by (simp add: PayloadLen_def)
  ultimately show "ValidateLens ?p = Inr ()"
    using small assms
    by (simp add: ValidateLens_def word_less_nat_alt unat_eq_0 [symmetric] word32_unat message_consts
        del: unat_eq_0)
qed

section \<open>The format of a message\<close>

text \<open>
  What the bytes of a message are, given its encoded headers and its payload. \<open>frame\<close> is the
  reference the encoder, \<open>rawMessage\<close> and the decoder are compared with.
\<close>

definition frame_prelude :: "byte list \<Rightarrow> byte list \<Rightarrow> byte list" where
  "frame_prelude headers payload =
     be_bytes 4 (minMsgLen + length headers + length payload) @ be_bytes 4 (length headers)"

definition frame_body :: "byte list \<Rightarrow> byte list \<Rightarrow> byte list" where
  "frame_body headers payload =
     (let pre = frame_prelude headers payload in
      pre @ be32 (crc32_update 0 pre) @ headers @ payload)"

definition frame :: "byte list \<Rightarrow> byte list \<Rightarrow> byte list" where
  "frame headers payload =
     (let body = frame_body headers payload in body @ be32 (crc32_update 0 body))"

definition message_wire :: "Message \<Rightarrow> byte list" where
  "message_wire m = frame (headers_wire (msg_Headers m)) (msg_Payload m)"

definition frame_fits :: "byte list \<Rightarrow> byte list \<Rightarrow> bool" where
  "frame_fits headers payload \<longleftrightarrow> length headers \<le> maxHeadersLen \<and> length payload \<le> maxPayloadLen"

definition message_ok :: "Message \<Rightarrow> bool" where
  "message_ok m \<longleftrightarrow>
     (\<forall>h \<in> set (msg_Headers m). header_exact h) \<and> distinct (map hdr_Name (msg_Headers m)) \<and>
     frame_fits (headers_wire (msg_Headers m)) (msg_Payload m)"

lemma length_frame: "length (frame headers payload) = minMsgLen + length headers + length payload"
  by (simp add: frame_def frame_body_def frame_prelude_def be32_def Let_def message_consts del: be_bytes.simps)

lemma be32_word_of_nat: "n < 2 ^ 32 \<Longrightarrow> be32 (word_of_nat n) = be_bytes 4 n"
  by (simp only: be32_def word32_unat)

section \<open>The encoder writes the format\<close>

lemma act_bind_state: "act_bind m (\<lambda>x (w, crc). f x w crc) s =
    (case m s of (Inl e, s') \<Rightarrow> (Inl e, s') | (Inr x, (w, crc)) \<Rightarrow> f x w crc)"
  by (auto simp: act_bind_def split: prod.splits sum.splits)

lemma multi_writeE:
  assumes "multi_write wr bs (w, crc) = (Inr u, (w', crc'))"
  shows "wr bs w = (Inr (), w')" and "crc' = crc32_update crc bs"
  using assms by (auto simp: multi_write_def split: prod.splits sum.splits)

lemma multi_fieldsE:
  "binaryWriteFields (multi_write wr) vs (w, crc) = (Inr u, (w', crc')) \<Longrightarrow>
    crc' = crc32_update crc (concat vs)"
  by (induction vs arbitrary: w crc) (fastforce elim!: act_bind_InrE dest: multi_writeE)+

lemma encodePrelude_ok:
  assumes "h < 2 ^ 32" and "n < 2 ^ 32"
    and "encodePrelude wr (word_of_nat h) (word_of_nat n) s = (Inr u, s')"
  shows "h \<le> maxHeadersLen \<and> n \<le> maxPayloadLen"
  using assms(3) ValidateLens_iff [OF assms(1,2), of 0]
  by (auto simp: encodePrelude_def Let_def split: sum.splits)

context event_writer begin

lemma write_ifE:
  assumes "(if b then multi_write wr bs else act_ret ()) (w, crc) = (Inr u, (w', crc'))"
    and "\<not> b \<Longrightarrow> bs = []"
  shows "contents w' = contents w @ bs" and "crc' = crc32_update crc bs"
  using assms by (auto split: if_splits dest: multi_writeE write_appends)

lemma encodePrelude_writes:
  assumes "h < 2 ^ 32" and "n < 2 ^ 32"
    and "encodePrelude wr (word_of_nat h) (word_of_nat n) (w, 0) = (Inr u, (w', crc'))"
    and pre: "pre = be_bytes 4 (minMsgLen + h + n) @ be_bytes 4 h"
  shows "contents w' = contents w @ pre @ be32 (crc32_update 0 pre)"
    and "crc' = crc32_update 0 (pre @ be32 (crc32_update 0 pre))"
proof -
  let ?len = "word_of_nat minMsgLen + word_of_nat h + word_of_nat n :: 32 word"
  from assms(1-3) have small: "h \<le> maxHeadersLen" "n \<le> maxPayloadLen"
    using encodePrelude_ok by blast+
  have len: "be32 ?len = be_bytes 4 (minMsgLen + h + n)"
    using be32_word_of_nat [of "minMsgLen + h + n"] small by (simp add: message_consts del: be_bytes.simps)
  have hl: "be32 (word_of_nat h) = be_bytes 4 h"
    by (rule be32_word_of_nat) (rule assms(1))
  from assms(3) obtain w1 crc1 where
    fields: "binaryWriteFields (multi_write wr) [be32 ?len, be32 (word_of_nat h)] (w, 0) = (Inr (), (w1, crc1))"
    and last: "multi_write wr (be32 crc1) (w1, crc1) = (Inr u, (w', crc'))"
    by (auto simp: encodePrelude_def Let_def split: sum.splits elim!: act_bind_InrE)
  have concat: "concat [be32 ?len, be32 (word_of_nat h)] = pre"
    by (simp only: len hl pre concat.simps append_Nil2)
  have crc1: "crc1 = crc32_update 0 pre"
    using multi_fieldsE [OF fields] concat by simp
  have "contents w1 = contents w @ pre"
    using emitsD [OF hashed.emits_fields fields] concat by simp
  with multi_writeE [OF last] crc1
  show "contents w' = contents w @ pre @ be32 (crc32_update 0 pre)"
    and "crc' = crc32_update 0 (pre @ be32 (crc32_update 0 pre))"
    by (simp_all add: write_appends)
qed

lemma encodeBody_writes:
  assumes "length hb < 2 ^ 32" and "length pb < 2 ^ 32"
    and "encodeBody wr hb pb (w, 0) = (Inr u, (w', crc'))"
  shows "contents w' = contents w @ frame_body hb pb"
    and "crc' = crc32_update 0 (frame_body hb pb)"
    and "frame_fits hb pb"
proof -
  let ?h = "word_of_nat (length hb) :: 32 word" and ?n = "word_of_nat (length pb) :: 32 word"
  from assms(3) obtain w1 crc1 w2 crc2 where
    pre: "encodePrelude wr ?h ?n (w, 0) = (Inr (), (w1, crc1))"
    and hs: "(if 0 < ?h then multi_write wr hb else act_ret ()) (w1, crc1) = (Inr (), (w2, crc2))"
    and ps: "(if 0 < ?n then multi_write wr pb else act_ret ()) (w2, crc2) = (Inr u, (w', crc'))"
    by (auto simp: encodeBody_def Let_def elim!: act_bind_InrE)
  have h0: "\<not> 0 < ?h \<Longrightarrow> hb = []" and n0: "\<not> 0 < ?n \<Longrightarrow> pb = []"
    using word32_unat [OF assms(1)] word32_unat [OF assms(2)]
    by (auto simp: word_less_nat_alt)
  note p = encodePrelude_writes [OF assms(1,2) pre refl]
  note h = write_ifE [OF hs h0] and n = write_ifE [OF ps n0]
  show "contents w' = contents w @ frame_body hb pb"
    using p(1) h(1) n(1) by (simp add: frame_body_def frame_prelude_def Let_def del: be_bytes.simps)
  show "crc' = crc32_update 0 (frame_body hb pb)"
    using p(2) h(2) n(2) by (simp add: frame_body_def frame_prelude_def Let_def del: be_bytes.simps)
  show "frame_fits hb pb"
    using encodePrelude_ok [OF assms(1,2) pre] by (simp add: frame_fits_def)
qed

lemma Encoder_Encode_writes:
  assumes "length (headers_wire (msg_Headers m)) < 2 ^ 32" and "length (msg_Payload m) < 2 ^ 32"
    and "Encoder_Encode wr m e = (Inr u, e')"
  shows "contents (enc_w e') = contents (enc_w e) @ message_wire m"
    and "frame_fits (headers_wire (msg_Headers m)) (msg_Payload m)"
proof -
  let ?hb = "headers_wire (msg_Headers m)"
  obtain x buf where hs: "EncodeHeaders buffer_write (msg_Headers m) [] = (x, buf)" by fastforce
  with assms(3) have x: "x = Inr ()"
    by (cases x) (auto simp: Encoder_Encode_def)
  with hs have "buf = ?hb"
    using emitsD [OF bytes_Buffer_events.emits_headers, of "msg_Headers m" "[]" buf] by simp
  with hs x assms(3) obtain w crc where
    body: "encodeBody wr ?hb (msg_Payload m) (enc_w e, 0) = (Inr (), (w, crc))"
    and last: "wr (be32 crc) w = (Inr (), enc_w e')"
    by (auto simp: Encoder_Encode_def Let_def split: prod.splits sum.splits)
  note b = encodeBody_writes [OF assms(1,2) body]
  show "frame_fits ?hb (msg_Payload m)" by (rule b(3))
  show "contents (enc_w e') = contents (enc_w e) @ message_wire m"
    using b(1,2) write_appends [OF last] by (simp add: message_wire_def frame_def Let_def)
qed

end

text \<open>Into a buffer: success exactly for the messages within the limits.\<close>

lemma buffer_encodeBody:
  assumes "frame_fits hb pb"
  shows "\<exists>w' crc'. encodeBody buffer_write hb pb (w, crc) = (Inr (), (w', crc'))"
proof -
  have fits: "length hb < 2 ^ 32" "length pb < 2 ^ 32"
    using assms by (auto simp: frame_fits_def message_consts)
  have mw: "multi_write buffer_write bs (w, crc) = (Inr (), (w @ bs, crc32_update crc bs))" for bs w crc
    by (simp add: multi_write_def buffer_write_def)
  have lens: "ValidateLens \<lparr>Length = word_of_nat minMsgLen + word_of_nat (length hb) + word_of_nat (length pb),
      HeadersLen = word_of_nat (length hb), PreludeCRC = 0\<rparr> = Inr ()"
    using ValidateLens_iff [OF fits] assms by (simp add: frame_fits_def)
  show ?thesis
    by (simp add: encodeBody_def encodePrelude_def Let_def lens act_bind_def mw)
qed

lemma Encoder_Encode_buffer:
  assumes "length (headers_wire (msg_Headers m)) < 2 ^ 32" and "length (msg_Payload m) < 2 ^ 32"
  shows "Encoder_Encode buffer_write m e =
      (Inr (), e\<lparr>enc_w := enc_w e @ message_wire m, enc_headersBuf := []\<rparr>) \<longleftrightarrow>
    (\<forall>h \<in> set (msg_Headers m). value_encodable (hdr_Value h)) \<and>
    frame_fits (headers_wire (msg_Headers m)) (msg_Payload m)"
    (is "?run = ?res \<longleftrightarrow> ?ok")
proof
  assume run: "?run = ?res"
  have "fst (EncodeHeaders buffer_write (msg_Headers m) []) = Inr ()"
    using run by (cases "EncodeHeaders buffer_write (msg_Headers m) []")
      (auto simp: Encoder_Encode_def Let_def split: sum.splits)
  then show ?ok
    using buffer_headers bytes_Buffer_events.Encoder_Encode_writes(2) [OF assms run] by blast
next
  assume ok: ?ok
  then have hs: "EncodeHeaders buffer_write (msg_Headers m) [] = (Inr (), headers_wire (msg_Headers m))"
    using buffer_headers_wire [of "msg_Headers m" "[]"] by simp
  obtain w crc where body: "encodeBody buffer_write (headers_wire (msg_Headers m)) (msg_Payload m)
      (enc_w e, 0) = (Inr (), (w, crc))"
    using buffer_encodeBody ok by blast
  with hs have run: "?run = (Inr (), e\<lparr>enc_w := w @ be32 crc, enc_headersBuf := []\<rparr>)"
    by (simp add: Encoder_Encode_def buffer_write_def)
  then have "w @ be32 crc = enc_w e @ message_wire m"
    using bytes_Buffer_events.Encoder_Encode_writes(1) [OF assms run] by simp
  with run show "?run = ?res" by simp
qed

text \<open>What \<open>Encode\<close> does never depends on what an earlier call left in the headers buffer.\<close>

lemma Encoder_Encode_fresh:
  "Encoder_Encode wr m e = Encoder_Encode wr m (NewEncoder (enc_w e))"
  by (cases e) (simp add: Encoder_Encode_def NewEncoder_def Let_def cong: prod.case_cong sum.case_cong)

lemma rawMessage_frame:
  assumes "length (headers_wire (msg_Headers m)) < 2 ^ 32"
    and "\<forall>h \<in> set (msg_Headers m). value_encodable (hdr_Value h)"
    and "frame_fits (headers_wire (msg_Headers m)) (msg_Payload m)"
  shows "\<exists>raw. Message_rawMessage m = Inr raw \<and>
    be32 (Length raw) @ be32 (HeadersLen raw) @ be32 (PreludeCRC raw) @ raw_Headers raw @
      raw_Payload raw @ be32 (raw_CRC raw) = message_wire m"
proof -
  let ?hb = "headers_wire (msg_Headers m)" and ?pb = "msg_Payload m"
  have hs: "(if 0 < length (msg_Headers m) then EncodeHeaders buffer_write (msg_Headers m) [] else (Inr (), []))
      = (Inr (), ?hb)"
    using buffer_headers_wire [OF assms(2), of "[]"] by (simp add: headers_wire_def)
  have small: "minMsgLen + length ?hb + length ?pb < 2 ^ 32" "length ?hb < 2 ^ 32"
    using assms(3) by (auto simp: frame_fits_def message_consts)
  have len: "be32 (word_of_nat (length ?hb) + word_of_nat (length ?pb) + word_of_nat minMsgLen) =
      be_bytes 4 (minMsgLen + length ?hb + length ?pb)"
    using be32_word_of_nat [OF small(1)] by (simp add: ac_simps del: be_bytes.simps)
  have hl: "be32 (word_of_nat (length ?hb)) = be_bytes 4 (length ?hb)"
    by (rule be32_word_of_nat) (rule small(2))
  have h0: "(if 0 < (word_of_nat (length ?hb) :: 32 word) then crc32_update c ?hb else c) = crc32_update c ?hb" for c
    using word32_unat [OF small(2)] by (auto simp: word_less_nat_alt)
  have n0: "(if 0 < length ?pb then crc32_update c ?pb else c) = crc32_update c ?pb" for c
    by simp
  show ?thesis
    unfolding Message_rawMessage_def hs prod.case sum.case Let_def h0 n0
    by (simp add: len hl message_wire_def frame_def frame_body_def frame_prelude_def Let_def del: be_bytes.simps)
qed

section \<open>The decoder inverts the format\<close>

lemma tee_append:
  assumes "f (bs @ rest) = (x, rest)"
  shows "tee_reader f (bs @ rest, crc) = (x, (rest, crc32_update crc bs))"
  using tee_reader_eq [of f "bs @ rest" x rest bs crc] assms by simp

lemma decodeUint32_be32: "decodeUint32 (be32 w @ rest) = (Inr w, rest)"
  by (simp add: be32_def codec_simps)

lemma validateCRC_be32:
  "validateCRC c (be32 c' @ rest) = (if c' \<noteq> c then Inl ChecksumError else Inr (), rest)"
  by (simp add: validateCRC_def act_bind_def decodeUint32_be32)

lemma limit_all:
  assumes "f bs = (x, [])"
  shows "limit_reader (length bs) f (bs @ rest) = (x, rest)"
  using assms by (simp add: limit_reader_def)

lemma decodePrelude_frame:
  assumes "frame_fits hb pb"
  shows "\<exists>p. decodePrelude (frame_prelude hb pb @ be32 (crc32_update 0 (frame_prelude hb pb)) @ rest, 0) =
      (Inr p, (rest, crc32_update 0 (frame_prelude hb pb @ be32 (crc32_update 0 (frame_prelude hb pb))))) \<and>
    unat (HeadersLen p) = length hb \<and> unat (PayloadLen p) = length pb"
proof -
  define L where "L = (word_of_nat (minMsgLen + length hb + length pb) :: 32 word)"
  define H where "H = (word_of_nat (length hb) :: 32 word)"
  define C where "C = crc32_update 0 (frame_prelude hb pb)"
  have small: "minMsgLen + length hb + length pb < 2 ^ 32" "length hb < 2 ^ 32" "length pb < 2 ^ 32"
    using assms by (auto simp: frame_fits_def message_consts)
  have pre: "frame_prelude hb pb = be32 L @ be32 H"
    unfolding frame_prelude_def L_def H_def be32_word_of_nat [OF small(1)] be32_word_of_nat [OF small(2)] ..
  have valid: "ValidateLens \<lparr>Length = L, HeadersLen = H, PreludeCRC = 0\<rparr> = Inr ()"
    using ValidateLens_iff [OF small(2,3), of 0] assms by (simp add: frame_fits_def L_def H_def)
  have t1: "tee_reader decodeUint32 (be32 L @ tail, 0) = (Inr L, (tail, crc32_update 0 (be32 L)))" for tail
    using tee_append [of decodeUint32 "be32 L" tail "Inr L" 0] by (simp add: decodeUint32_be32)
  have t2: "tee_reader decodeUint32 (be32 H @ tail, crc32_update 0 (be32 L)) = (Inr H, (tail, C))" for tail
    using tee_append [of decodeUint32 "be32 H" tail "Inr H" "crc32_update 0 (be32 L)"]
    by (simp add: pre C_def decodeUint32_be32)
  have t3: "tee_reader (validateCRC C) (be32 C @ rest, C) = (Inr (), (rest, crc32_update C (be32 C)))"
    using tee_append [of "validateCRC C" "be32 C" rest "Inr ()"] by (simp add: validateCRC_be32)
  have "decodePrelude (be32 L @ be32 H @ be32 C @ rest, 0) =
      (Inr \<lparr>Length = L, HeadersLen = H, PreludeCRC = C\<rparr>, (rest, crc32_update C (be32 C)))"
    by (simp add: decodePrelude_def act_bind_def t1 t2 t3 valid)
  moreover have "unat (PayloadLen \<lparr>Length = L, HeadersLen = H, PreludeCRC = C\<rparr>) = length pb"
    using word32_unat [OF small(3)] by (simp add: PayloadLen_def L_def H_def)
  ultimately show ?thesis
    using word32_unat [OF small(2)] by (auto simp: H_def [symmetric] pre [symmetric] C_def [symmetric])
      (auto simp: pre C_def H_def)
qed

lemma Decode_frame:
  assumes "frame_fits hb pb" and "decodeHeaders hb = (Inr hs, [])" and "hb = [] \<Longrightarrow> hs = []"
  shows "Decode (frame hb pb @ rest) = (Inr \<lparr>msg_Headers = hs, msg_Payload = pb\<rparr>, rest)"
proof -
  let ?pre = "frame_prelude hb pb"
  let ?p12 = "?pre @ be32 (crc32_update 0 ?pre)"
  let ?crc = "crc32_update 0 (frame_body hb pb)"
  obtain p where prelude: "decodePrelude (?pre @ be32 (crc32_update 0 ?pre) @ (hb @ pb @ be32 ?crc @ rest), 0) =
      (Inr p, (hb @ pb @ be32 ?crc @ rest, crc32_update 0 ?p12))"
    and hlen: "unat (HeadersLen p) = length hb" and plen: "unat (PayloadLen p) = length pb"
    using decodePrelude_frame [OF assms(1)] by blast
  have hs: "(if 0 < HeadersLen p then tee_reader (limit_reader (unat (HeadersLen p)) decodeHeaders) else act_ret [])
      (hb @ pb @ be32 ?crc @ rest, crc32_update 0 ?p12) =
      (Inr hs, (pb @ be32 ?crc @ rest, crc32_update 0 (?p12 @ hb)))"
    using tee_append [of "limit_reader (length hb) decodeHeaders" hb "pb @ be32 ?crc @ rest" "Inr hs"
        "crc32_update 0 ?p12"]
      limit_all [of decodeHeaders hb "Inr hs" "pb @ be32 ?crc @ rest"] assms(2,3)
    by (cases "hb = []") (auto simp: word_less_nat_alt hlen)
  have ps: "(if 0 < PayloadLen p then tee_reader (limit_reader (unat (PayloadLen p)) decodePayload) else act_ret [])
      (pb @ be32 ?crc @ rest, crc32_update 0 (?p12 @ hb)) =
      (Inr pb, (be32 ?crc @ rest, ?crc))"
    using tee_append [of "limit_reader (length pb) decodePayload" pb "be32 ?crc @ rest" "Inr pb"
        "crc32_update 0 (?p12 @ hb)"]
      limit_all [of decodePayload pb "Inr pb" "be32 ?crc @ rest"]
    by (cases "pb = []")
      (auto simp: word_less_nat_alt plen decodePayload_def frame_body_def Let_def)
  have stream: "frame hb pb @ rest = ?pre @ be32 (crc32_update 0 ?pre) @ (hb @ pb @ be32 ?crc @ rest)"
    by (simp add: frame_def frame_body_def Let_def)
  show ?thesis
    unfolding stream Decode_def Decode_action_def
    by (simp only: act_bind_def prelude hs ps prod.case sum.case)
      (simp add: validateCRC_be32)
qed

lemma Decode_message_wire:
  assumes "message_ok m"
  shows "Decode (message_wire m @ rest) = (Inr m, rest)"
proof -
  have "decodeHeaders (headers_wire (msg_Headers m)) = (Inr (msg_Headers m), [])"
    using assms by (intro decodeHeaders_wire) (auto simp: message_ok_def)
  moreover have "headers_wire (msg_Headers m) = [] \<Longrightarrow> msg_Headers m = []"
    by (cases "msg_Headers m") (auto simp: headers_wire_def header_wire_def name_wire_def)
  ultimately show ?thesis
    using Decode_frame [of "headers_wire (msg_Headers m)" "msg_Payload m" "msg_Headers m" rest] assms
    by (simp add: message_wire_def message_ok_def)
qed

interpretation message_codec: prefix_codec message_wire Decode message_ok
  by unfold_locales (rule Decode_message_wire)

section \<open>What the decoder accepts is the format\<close>

lemma decodeUint32_ok:
  assumes "decodeUint32 r = (Inr w, r')"
  shows "r = be32 w @ r'"
proof -
  from assms have len: "4 \<le> length r" and w: "w = word_of_nat (be_nat (take 4 r))" and r': "r' = drop 4 r"
    by (auto simp: decodeUint32_def act_bind_def io_read_def read_full_def split: if_splits)
  have "be_nat (take 4 r) < 2 ^ 32"
    using be_nat_bound [of "take 4 r"] len by simp
  then have "be32 w = be_bytes (length (take 4 r)) (be_nat (take 4 r))"
    using len by (simp only: w be32_word_of_nat) simp
  then have "be32 w = take 4 r" by (simp only: be_bytes_be_nat)
  with r' show ?thesis by simp
qed

lemma validateCRC_ok: "validateCRC c r = (Inr u, r') \<Longrightarrow> r = be32 c @ r'"
  by (auto simp: validateCRC_def elim!: act_bind_InrE dest!: decodeUint32_ok split: if_splits)

lemma tee_reader_ok:
  assumes "tee_reader f (r, crc) = (Inr x, (r', crc'))"
  shows "f r = (Inr x, r')" and "\<And>used. r = used @ r' \<Longrightarrow> crc' = crc32_update crc used"
  using assms by (auto simp: tee_reader_def split: prod.splits)

lemma decodePrelude_ok:
  assumes "decodePrelude (r, 0) = (Inr p, (r', crc))"
  shows "ValidateLens p = Inr ()"
    and "r = be32 (Length p) @ be32 (HeadersLen p) @
      be32 (crc32_update 0 (be32 (Length p) @ be32 (HeadersLen p))) @ r'"
    and "crc = crc32_update 0 (be32 (Length p) @ be32 (HeadersLen p) @
      be32 (crc32_update 0 (be32 (Length p) @ be32 (HeadersLen p))))"
proof -
  from assms obtain L r1 c1 H r2 c2 where
    t1: "tee_reader decodeUint32 (r, 0) = (Inr L, (r1, c1))" and
    t2: "tee_reader decodeUint32 (r1, c1) = (Inr H, (r2, c2))" and
    valid: "ValidateLens \<lparr>Length = L, HeadersLen = H, PreludeCRC = 0\<rparr> = Inr ()" and
    t3: "tee_reader (validateCRC c2) (r2, c2) = (Inr (), (r', crc))" and
    p: "p = \<lparr>Length = L, HeadersLen = H, PreludeCRC = c2\<rparr>"
    by (auto simp: decodePrelude_def Let_def elim!: act_bind_InrE split: sum.splits)
  note r = decodeUint32_ok [OF tee_reader_ok(1) [OF t1]] decodeUint32_ok [OF tee_reader_ok(1) [OF t2]]
    validateCRC_ok [OF tee_reader_ok(1) [OF t3]]
  note c = tee_reader_ok(2) [OF t1 r(1)] tee_reader_ok(2) [OF t2 r(2)] tee_reader_ok(2) [OF t3 r(3)]
  show "ValidateLens p = Inr ()" using valid by (auto simp: p ValidateLens_def PayloadLen_def split: if_splits)
  show "r = be32 (Length p) @ be32 (HeadersLen p) @
      be32 (crc32_update 0 (be32 (Length p) @ be32 (HeadersLen p))) @ r'"
    using r c by (simp add: p)
  show "crc = crc32_update 0 (be32 (Length p) @ be32 (HeadersLen p) @
      be32 (crc32_update 0 (be32 (Length p) @ be32 (HeadersLen p))))"
    using c by (simp add: p)
qed

lemma decodeHeaderName_EOF: "decodeHeaderName r = (Inl (IOError EOF), r') \<Longrightarrow> r' = []"
  by (auto simp: decodeHeaderName_def decodeUint8_def io_read_def read_full_def
      elim!: act_bind_InlE act_bind_InrE split: if_splits prod.splits sum.splits)

lemma decodeHeaders_loop_empties: "decodeHeaders_loop out r = (Inr hs, r') \<Longrightarrow> r' = []"
proof (induction out r arbitrary: hs r' rule: decodeHeaders_loop.induct)
  case (1 out r)
  obtain x r1 where name: "decodeHeaderName r = (x, r1)" by fastforce
  obtain y r2 where val: "decodeHeaderValue r1 = (y, r2)" by fastforce
  show ?case
  proof (cases x)
    case (Inl e)
    with name "1.prems" show ?thesis
      by (subst (asm) decodeHeaders_loop.simps) (auto split: if_splits dest: decodeHeaderName_EOF)
  next
    case (Inr n)
    note x = this
    with name val "1.prems" obtain v where "y = Inr v"
      by (subst (asm) decodeHeaders_loop.simps) (cases y, auto)
    with name val x "1.prems" have "decodeHeaders_loop (Headers_Set out n v) r2 = (Inr hs, r')"
      by (subst (asm) decodeHeaders_loop.simps) simp
    then show ?thesis
      by (rule "1.IH" [OF name [symmetric] x val [symmetric] \<open>y = Inr v\<close>])
  qed
qed

lemma decodeHeaders_empties: "decodeHeaders r = (Inr hs, r') \<Longrightarrow> r' = []"
  unfolding decodeHeaders_def by (rule decodeHeaders_loop_empties)

lemma limit_part_ok:
  assumes "(if b then tee_reader (limit_reader n f) else act_ret d) (r, c) = (Inr x, (r', c'))"
    and "\<And>s y s'. f s = (Inr y, s') \<Longrightarrow> s' = []" and "\<not> b \<Longrightarrow> n = 0"
  shows "r' = drop n r" and "c' = crc32_update c (take n r)"
    and "if b then f (take n r) = (Inr x, []) else x = d"
proof -
  have cases: "r' = drop n r \<and> c' = crc32_update c (take n r) \<and>
      (if b then f (take n r) = (Inr x, []) else x = d)"
  proof (cases b)
    case True
    with assms(1) have t: "tee_reader (limit_reader n f) (r, c) = (Inr x, (r', c'))" by simp
    from tee_reader_ok(1) [OF t] obtain s' where f: "f (take n r) = (Inr x, s')" and r': "r' = s' @ drop n r"
      by (auto simp: limit_reader_def split: prod.splits)
    from f have s': "s' = []" by (rule assms(2))
    with tee_reader_ok(2) [OF t, of "take n r"] r' f True show ?thesis by simp
  qed (use assms in auto)
  then show "r' = drop n r" and "c' = crc32_update c (take n r)"
    and "if b then f (take n r) = (Inr x, []) else x = d" by blast+
qed

lemma Decode_sound:
  assumes "Decode bs = (Inr m, rest)"
  shows "\<exists>hb. frame_fits hb (msg_Payload m) \<and> bs = frame hb (msg_Payload m) @ rest \<and>
    (if hb = [] then msg_Headers m = [] else decodeHeaders hb = (Inr (msg_Headers m), []))"
proof -
  from assms obtain crc where "Decode_action (bs, 0) = (Inr m, (rest, crc))"
    by (auto simp: Decode_def split: prod.splits)
  then obtain p r1 c1 hs r2 c2 pl r3 where
    pre: "decodePrelude (bs, 0) = (Inr p, (r1, c1))" and
    hs: "(if 0 < HeadersLen p then tee_reader (limit_reader (unat (HeadersLen p)) decodeHeaders) else act_ret [])
      (r1, c1) = (Inr hs, (r2, c2))" and
    ps: "(if 0 < PayloadLen p then tee_reader (limit_reader (unat (PayloadLen p)) decodePayload) else act_ret [])
      (r2, c2) = (Inr pl, (r3, crc))" and
    last: "validateCRC crc r3 = (Inr (), rest)" and
    m: "m = \<lparr>msg_Headers = hs, msg_Payload = pl\<rparr>"
    unfolding Decode_action_def
    by (auto elim!: act_bind_InrE split: prod.splits sum.splits simp del: if_split)
  let ?h = "unat (HeadersLen p)" and ?n = "unat (PayloadLen p)"
  have h0: "\<not> 0 < HeadersLen p \<Longrightarrow> ?h = 0" and n0: "\<not> 0 < PayloadLen p \<Longrightarrow> ?n = 0"
    by (simp_all add: word_less_nat_alt)
  have h: "r2 = drop ?h r1" "c2 = crc32_update c1 (take ?h r1)"
    "if 0 < HeadersLen p then decodeHeaders (take ?h r1) = (Inr hs, []) else hs = []"
    by (rule limit_part_ok [OF hs _ h0], erule decodeHeaders_empties, assumption)+
  have payload_empties: "\<And>s y s'. decodePayload s = (Inr y, s') \<Longrightarrow> s' = []"
    by (simp add: decodePayload_def)
  have n: "r3 = drop ?n r2" "crc = crc32_update c2 (take ?n r2)"
    "if 0 < PayloadLen p then decodePayload (take ?n r2) = (Inr pl, []) else pl = []"
    by (rule limit_part_ok [OF ps _ n0], erule payload_empties, assumption)+
  have r3: "drop ?n (drop ?h r1) = be32 crc @ rest"
    using validateCRC_ok [OF last] h(1) n(1) by simp
  then have "0 < length (drop ?n (drop ?h r1))" by (simp add: be32_def)
  then have len: "?h + ?n < length r1" by simp
  define hb where "hb = take ?h r1"
  have hb: "length hb = ?h" and lp: "length (take ?n (drop ?h r1)) = ?n"
    using len by (simp_all add: hb_def)
  have pl: "pl = take ?n (drop ?h r1)"
    using n(3) h(1) by (auto simp: decodePayload_def word_less_nat_alt split: if_splits)
  have crc: "crc = crc32_update (crc32_update c1 hb) pl"
    using h(1,2) n(2) by (simp only: hb_def pl)
  have r1: "r1 = hb @ pl @ be32 crc @ rest"
    using r3 unfolding hb_def pl by (metis append_take_drop_id)
  note v = ValidateLens_exact [OF decodePrelude_ok(1) [OF pre]]
  have fits: "frame_fits hb pl"
    using v(2,3) hb lp pl by (simp add: frame_fits_def)
  have L: "be32 (Length p) = be_bytes 4 (minMsgLen + length hb + length pl)"
    unfolding be32_def v(1) using hb lp pl by simp
  have H: "be32 (HeadersLen p) = be_bytes 4 (length hb)"
    unfolding be32_def by (simp only: hb)
  have body: "bs = frame_body hb pl @ be32 crc @ rest"
    using decodePrelude_ok(2) [OF pre] unfolding L H
    by (simp add: r1 frame_body_def frame_prelude_def Let_def del: be_bytes.simps)
  have "crc = crc32_update 0 (frame_body hb pl)"
    using decodePrelude_ok(3) [OF pre] unfolding L H crc
    by (simp add: frame_body_def frame_prelude_def Let_def del: be_bytes.simps)
  with body have "bs = frame hb pl @ rest" by (simp add: frame_def Let_def)
  moreover have "if hb = [] then hs = [] else decodeHeaders hb = (Inr hs, [])"
    using h(3) hb by (auto simp: hb_def word_less_nat_alt split: if_splits)
  ultimately show ?thesis
    unfolding m Message.simps using fits by blast
qed

text \<open>The prelude CRC and the message CRC together notice any change confined to one byte.\<close>

lemma be32_inj [simp]: "be32 w = be32 w' \<longleftrightarrow> w = w'"
proof
  assume "be32 w = be32 w'"
  then have "decodeUint32 (be32 w @ []) = decodeUint32 (be32 w' @ [])" by (simp only:)
  then show "w = w'" unfolding decodeUint32_be32 by simp
qed simp

lemma length_be32 [simp]: "length (be32 w) = 4"
  by (simp add: be32_def)

lemma length_frame_prelude [simp]: "length (frame_prelude hb pb) = 8"
  by (simp add: frame_prelude_def)

lemma frame_split:
  "frame hb pb @ rest =
     (frame_prelude hb pb @ be32 (crc32_update 0 (frame_prelude hb pb))) @
     (hb @ pb @ be32 (crc32_update 0 (frame_body hb pb)) @ rest)"
  by (simp add: frame_def frame_body_def Let_def)

lemma frame_prelude_lengths:
  assumes "frame_fits hb pb" and "frame_fits hb' pb'" and "frame_prelude hb pb = frame_prelude hb' pb'"
  shows "length hb' = length hb \<and> length pb' = length pb"
proof -
  have small: "minMsgLen + length h + length n < 2 ^ 32" "length h < 2 ^ 32" if "frame_fits h n" for h n
    using that by (auto simp: frame_fits_def message_consts)
  have "be32 (word_of_nat (minMsgLen + length hb + length pb)) = be32 (word_of_nat (minMsgLen + length hb' + length pb'))"
    and "be32 (word_of_nat (length hb)) = be32 (word_of_nat (length hb'))"
    using assms(3) unfolding frame_prelude_def
    by (simp_all only: be32_word_of_nat small [OF assms(1)] small [OF assms(2)] append_eq_append_conv
        length_be_bytes simp_thms)
  then have "minMsgLen + length hb + length pb = minMsgLen + length hb' + length pb'" "length hb = length hb'"
    unfolding be32_inj using small [OF assms(1)] small [OF assms(2)] by (metis word32_unat)+
  then show ?thesis by simp
qed

text \<open>
  A block with its CRC: changing one byte of either breaks the equality of the CRC of the block
  with the stored one.
\<close>

lemma append_prefix_eq: "xs @ us = ys @ vs \<Longrightarrow> length xs = length ys \<Longrightarrow> xs = ys"
  by simp

lemma crc_block_corrupt:
  assumes "(x @ be32 (crc32_update 0 x))[i := b] = y @ be32 (crc32_update 0 y)"
    and "length y = length x" and "i < length x + 4"
  shows "(x @ be32 (crc32_update 0 x)) ! i = b"
proof (cases "i < length x")
  case True
  with assms have "y = x[i := b]" and "crc32_update 0 x = crc32_update 0 y"
    by (simp_all add: list_update_append1)
  with crc32_one_byte [OF True, of 0 b] have "x ! i = b" by simp
  with True show ?thesis by (simp add: nth_append)
next
  case False
  then have "(x @ be32 (crc32_update 0 x))[i := b] = x @ (be32 (crc32_update 0 x))[i - length x := b]"
    by (simp add: list_update_append)
  with assms(1) have "x @ (be32 (crc32_update 0 x))[i - length x := b] = y @ be32 (crc32_update 0 y)"
    by (simp only:)
  then have "x = y \<and> (be32 (crc32_update 0 x))[i - length x := b] = be32 (crc32_update 0 y)"
    using assms(2) by (metis append_eq_append_conv)
  then have yx: "y = x" and upd: "(be32 (crc32_update 0 x))[i - length x := b] = be32 (crc32_update 0 y)"
    by blast+
  from upd have "(be32 (crc32_update 0 x))[i - length x := b] = be32 (crc32_update 0 x)"
    by (simp only: yx)
  then have "be32 (crc32_update 0 x) ! (i - length x) = b"
    using False assms(3) by (metis add_less_imp_less_left length_be32 le_add_diff_inverse nth_list_update_eq not_less)
  with False show ?thesis by (simp add: nth_append)
qed

lemma frame_block: "frame hb pb = frame_body hb pb @ be32 (crc32_update 0 (frame_body hb pb))"
  by (simp add: frame_def Let_def)

lemma frame_body_block:
  "frame_body hb pb = (frame_prelude hb pb @ be32 (crc32_update 0 (frame_prelude hb pb))) @ (hb @ pb)"
  by (simp add: frame_body_def Let_def)

lemma length_frame_body: "length (frame_body hb pb) = 12 + length hb + length pb"
  by (simp add: frame_body_block)

lemma one_byte_prelude:
  assumes fits: "frame_fits hb pb" "frame_fits hb' pb'" and "i < length (frame hb pb)"
    and eq: "(frame hb pb)[i := b] @ rest = frame hb' pb' @ rest'"
    and diff: "frame hb pb ! i \<noteq> b"
  shows "frame_prelude hb pb = frame_prelude hb' pb' \<and> 12 \<le> i"
proof -
  define x where "x = frame_prelude hb pb"
  define y where "y = frame_prelude hb' pb'"
  define t where "t = hb @ pb @ be32 (crc32_update 0 (frame_body hb pb))"
  define t' where "t' = hb' @ pb' @ be32 (crc32_update 0 (frame_body hb' pb')) @ rest'"
  define X where "X = x @ be32 (crc32_update 0 x)"
  define Y where "Y = y @ be32 (crc32_update 0 y)"
  have fr: "frame hb pb = X @ t" and fr': "frame hb' pb' @ rest' = Y @ t'"
    using frame_split [of hb pb "[]"] frame_split [of hb' pb' rest']
    by (simp_all add: x_def y_def t_def t'_def X_def Y_def)
  have len: "length X = 12" "length Y = 12" and lxy: "length y = length x" "length x = 8"
    by (simp_all add: x_def y_def X_def Y_def)
  show ?thesis
  proof (cases "i < 12")
    case True
    then have "(frame hb pb)[i := b] = X[i := b] @ t"
      unfolding fr using len by (simp only: list_update_append1)
    with eq have "X[i := b] @ (t @ rest) = Y @ t'" by (simp only: fr' append_assoc)
    then have "X[i := b] = Y" by (rule append_prefix_eq) (simp only: len length_list_update)
    from crc_block_corrupt [OF this [unfolded X_def Y_def] lxy(1)] True lxy(2) have "X ! i = b"
      by (simp add: X_def)
    moreover have "frame hb pb ! i = X ! i"
      unfolding fr using True len by (simp only: nth_append if_True)
    ultimately show ?thesis using diff by simp
  next
    case False
    then have "(frame hb pb)[i := b] = X @ t[i - 12 := b]"
      unfolding fr using len by (simp only: list_update_append if_False)
    with eq have "X @ (t[i - 12 := b] @ rest) = Y @ t'" by (simp only: fr' append_assoc)
    then have "X = Y" by (rule append_prefix_eq) (simp only: len)
    with lxy have "x = y" by (simp add: X_def Y_def)
    with False show ?thesis by (simp add: x_def y_def)
  qed
qed

lemma Decode_one_byte:
  assumes fits: "frame_fits hb pb" and i: "i < length (frame hb pb)" and diff: "frame hb pb ! i \<noteq> b"
  shows "\<exists>e rest'. Decode ((frame hb pb)[i := b] @ rest) = (Inl e, rest')"
proof -
  obtain x r where run: "Decode ((frame hb pb)[i := b] @ rest) = (x, r)" by fastforce
  have "x \<noteq> Inr m" for m
  proof
    assume "x = Inr m"
    with run Decode_sound obtain hb' where fits': "frame_fits hb' (msg_Payload m)"
      and eq: "(frame hb pb)[i := b] @ rest = frame hb' (msg_Payload m) @ r"
      by blast
    note pre = one_byte_prelude [OF fits fits' i eq diff]
    have len: "length hb' = length hb" "length (msg_Payload m) = length pb"
      using frame_prelude_lengths [OF fits fits'] pre by auto
    then have "length ((frame hb pb)[i := b]) = length (frame hb' (msg_Payload m))"
      by (simp add: length_frame)
    with eq have upd: "(frame hb pb)[i := b] = frame hb' (msg_Payload m)"
      by (rule append_prefix_eq)
    have "frame hb pb ! i = b"
      unfolding frame_block
    proof (rule crc_block_corrupt [OF upd [unfolded frame_block]])
      show "length (frame_body hb' (msg_Payload m)) = length (frame_body hb pb)"
        by (simp only: length_frame_body len)
      show "i < length (frame_body hb pb) + 4"
        using i unfolding frame_block by simp
    qed
    with diff show False by simp
  qed
  with run show ?thesis by (cases x) auto
qed

section \<open>Streams of messages\<close>

fun encode_stream :: "'w writer \<Rightarrow> Message list \<Rightarrow> ('w Encoder, es_error, unit) action" where
  "encode_stream wr [] = act_ret ()"
| "encode_stream wr (m # ms) = act_bind (Encoder_Encode wr m) (\<lambda>_. encode_stream wr ms)"

lemma message_ok_encodes:
  assumes "message_ok m"
  shows "Encoder_Encode buffer_write m e = (Inr (), e\<lparr>enc_w := enc_w e @ message_wire m, enc_headersBuf := []\<rparr>)"
proof -
  have "length (headers_wire (msg_Headers m)) < 2 ^ 32" "length (msg_Payload m) < 2 ^ 32"
    using assms by (auto simp: message_ok_def frame_fits_def message_consts)
  from Encoder_Encode_buffer [OF this] assms value_exact_encodable show ?thesis
    by (auto simp: message_ok_def header_exact_def)
qed

lemma encode_stream_wire:
  "\<forall>m \<in> set ms. message_ok m \<Longrightarrow>
    \<exists>e'. encode_stream buffer_write ms e = (Inr (), e') \<and> enc_w e' = enc_w e @ concat (map message_wire ms)"
proof (induction ms arbitrary: e)
  case (Cons m ms)
  then show ?case
    using Cons.IH [of "e\<lparr>enc_w := enc_w e @ message_wire m, enc_headersBuf := []\<rparr>"]
    by (auto simp: act_bind_def message_ok_encodes)
qed simp


end
