(* ===== verification/IniLexer.thy ===== *)
theory IniLexer
  imports GoPrelude
begin

text \<open>
  The lexer of the INI reader, package \<open>internal/ini\<close>: \<open>ini_lexer.go\<close>, the token files
  (\<open>ws_token.go\<close>, \<open>comma_token.go\<close>, \<open>comment_token.go\<close>, \<open>newline_token.go\<close>, \<open>sep_tokens.go\<close>,
  \<open>op_tokens.go\<close>, \<open>literal_tokens.go\<close>) and \<open>value_util.go\<close>.

  A rune is its code point. \<open>bytes_Runes\<close> is the UTF-8 decoding of \<open>bytes.Runes\<close>; the rest works
  on runes as the code does. Every token keeps the runes it was read from, so the main lemma
  says that the tokens of a file put together are the file again, and that the lexer always
  gets on.
\<close>

section \<open>Runes\<close>

type_synonym rune = nat

abbreviation R :: "char \<Rightarrow> rune" where
  "R c \<equiv> of_char c"

definition runes :: "string \<Rightarrow> rune list" where
  "runes s = map of_char s"

definition LF :: rune where "LF = 10"
definition CR :: rune where "CR = 13"
definition DQUOTE :: rune where "DQUOTE = 34"
definition SQUOTE :: rune where "SQUOTE = 39"
definition BACKSLASH :: rune where "BACKSLASH = 92"

lemmas rune_consts = LF_def CR_def DQUOTE_def SQUOTE_def BACKSLASH_def

definition utf8_cont :: "nat \<Rightarrow> bool" where
  "utf8_cont b \<longleftrightarrow> 0x80 \<le> b \<and> b \<le> 0xBF"

text \<open>
  \<open>bytes.Runes\<close>. An invalid or truncated sequence gives U+FFFD for its first byte; the second
  byte has a narrower range after E0, ED, F0 and F4.
\<close>

fun utf8_decode :: "nat list \<Rightarrow> rune list" where
  "utf8_decode [] = []"
| "utf8_decode (b0 # bs) =
     (if b0 < 0x80 then b0 # utf8_decode bs
      else case bs of
        b1 # r1 \<Rightarrow>
          (if 0xC2 \<le> b0 \<and> b0 \<le> 0xDF \<and> utf8_cont b1
           then ((b0 - 0xC0) * 64 + (b1 - 0x80)) # utf8_decode r1
           else case r1 of
             b2 # r2 \<Rightarrow>
               (if 0xE0 \<le> b0 \<and> b0 \<le> 0xEF \<and> utf8_cont b1 \<and> utf8_cont b2 \<and>
                   (b0 = 0xE0 \<longrightarrow> 0xA0 \<le> b1) \<and> (b0 = 0xED \<longrightarrow> b1 \<le> 0x9F)
                then ((b0 - 0xE0) * 4096 + (b1 - 0x80) * 64 + (b2 - 0x80)) # utf8_decode r2
                else case r2 of
                  b3 # r3 \<Rightarrow>
                    (if 0xF0 \<le> b0 \<and> b0 \<le> 0xF4 \<and> utf8_cont b1 \<and> utf8_cont b2 \<and> utf8_cont b3 \<and>
                        (b0 = 0xF0 \<longrightarrow> 0x90 \<le> b1) \<and> (b0 = 0xF4 \<longrightarrow> b1 \<le> 0x8F)
                     then ((b0 - 0xF0) * 262144 + (b1 - 0x80) * 4096 + (b2 - 0x80) * 64 + (b3 - 0x80))
                          # utf8_decode r3
                     else 0xFFFD # utf8_decode bs)
                | [] \<Rightarrow> 0xFFFD # utf8_decode bs)
           | [] \<Rightarrow> 0xFFFD # utf8_decode bs)
      | [] \<Rightarrow> [0xFFFD])"

definition bytes_Runes :: "byte list \<Rightarrow> rune list" where
  "bytes_Runes b = utf8_decode (map unat b)"

text \<open>\<open>unicode.IsSpace\<close>.\<close>

definition unicode_IsSpace :: "rune \<Rightarrow> bool" where
  "unicode_IsSpace c \<longleftrightarrow> (9 \<le> c \<and> c \<le> 13) \<or> c = 32 \<or> c = 0x85 \<or> c = 0xA0 \<or> c = 0x1680 \<or>
     (0x2000 \<le> c \<and> c \<le> 0x200A) \<or> c = 0x2028 \<or> c = 0x2029 \<or> c = 0x202F \<or> c = 0x205F \<or> c = 0x3000"

section \<open>Tokens\<close>

datatype TokenType =
    TokenNone | TokenLit | TokenSep | TokenComma | TokenOp | TokenWS | TokenNL | TokenComment

datatype ValueType =
    NoneType | DecimalType | IntegerType | StringType | QuotedStringType | BoolType

record Token =
  tok_t :: TokenType
  tok_ValueType :: ValueType
  tok_base :: int
  tok_raw :: "rune list"

datatype ini_error = ParseError string | PanicIndexOutOfRange

definition newToken :: "TokenType \<Rightarrow> rune list \<Rightarrow> ValueType \<Rightarrow> Token" where
  "newToken t raw v = \<lparr>tok_t = t, tok_ValueType = v, tok_base = 0, tok_raw = raw\<rparr>"

definition emptyToken :: Token where
  "emptyToken = newToken TokenNone [] NoneType"

definition isWhitespace :: "rune \<Rightarrow> bool" where
  "isWhitespace c \<longleftrightarrow> unicode_IsSpace c \<and> c \<noteq> LF \<and> c \<noteq> CR"

definition newWSToken :: "rune list \<Rightarrow> ini_error + Token \<times> nat" where
  "newWSToken b = (let i = length (takeWhile isWhitespace b) in
     Inr (newToken TokenWS (take i b) NoneType, i))"

definition isComma :: "rune \<Rightarrow> bool" where
  "isComma b \<longleftrightarrow> b = R CHR '',''"

definition newCommaToken :: Token where
  "newCommaToken = newToken TokenComma (runes '','') NoneType"

definition isComment :: "rune list \<Rightarrow> bool" where
  "isComment b = (case b of [] \<Rightarrow> False | c # _ \<Rightarrow> c = R CHR '';'' \<or> c = R CHR ''#'')"

text \<open>The loop of \<open>newCommentToken\<close>: a CR LF ends the comment only where a rune follows it.\<close>

fun comment_length :: "rune list \<Rightarrow> nat" where
  "comment_length [] = 0"
| "comment_length (c # cs) =
     (if c = LF then 0
      else if 2 < length (c # cs) \<and> c = CR \<and> hd cs = LF then 0
      else Suc (comment_length cs))"

definition newCommentToken :: "rune list \<Rightarrow> ini_error + Token \<times> nat" where
  "newCommentToken b = (let i = comment_length b in
     Inr (newToken TokenComment (take i b) NoneType, i))"

definition isNewline :: "rune list \<Rightarrow> bool" where
  "isNewline b = (case b of
     [] \<Rightarrow> False
   | c # cs \<Rightarrow> c = LF \<or> (case cs of [] \<Rightarrow> False | d # _ \<Rightarrow> c = CR \<and> d = LF))"

definition newNewlineToken :: "rune list \<Rightarrow> ini_error + Token \<times> nat" where
  "newNewlineToken b =
     (let i = (if hd b = CR \<and> isNewline (tl b) then 2 else 1) in
      if \<not> isNewline (take i b) then Inl (ParseError ''invalid new line token'')
      else Inr (newToken TokenNL (take i b) NoneType, i))"

definition isSep :: "rune list \<Rightarrow> bool" where
  "isSep b = (case b of [] \<Rightarrow> False | c # _ \<Rightarrow> c = R CHR ''['' \<or> c = R CHR '']'')"

definition openBrace :: "rune list" where "openBrace = runes ''[''"
definition closeBrace :: "rune list" where "closeBrace = runes '']''"

definition newSepToken :: "rune list \<Rightarrow> ini_error + Token \<times> nat" where
  "newSepToken b =
     (if hd b = R CHR ''['' then Inr (newToken TokenSep openBrace NoneType, 1)
      else if hd b = R CHR '']'' then Inr (newToken TokenSep closeBrace NoneType, 1)
      else Inl (ParseError ''unexpected sep type''))"

definition isOp :: "rune list \<Rightarrow> bool" where
  "isOp b = (case b of [] \<Rightarrow> False | c # _ \<Rightarrow> c = R CHR ''='' \<or> c = R CHR '':'')"

definition newOpToken :: "rune list \<Rightarrow> ini_error + Token \<times> nat" where
  "newOpToken b =
     (if hd b = R CHR ''='' then Inr (newToken TokenOp (runes ''='') NoneType, 1)
      else if hd b = R CHR '':'' then Inr (newToken TokenOp (runes '':'') NoneType, 1)
      else Inl (ParseError ''unexpected op type''))"

section \<open>Literals\<close>

text \<open>\<open>isEscaped(value, b)\<close>, where \<open>prev\<close> is the last rune of \<open>value\<close>.\<close>

definition isEscaped :: "rune option \<Rightarrow> rune \<Rightarrow> bool" where
  "isEscaped prev b = (case prev of
     None \<Rightarrow> False
   | Some p \<Rightarrow>
       if b = SQUOTE \<or> b = DQUOTE \<or> b = R CHR ''n'' \<or> b = R CHR ''t'' \<or> b = BACKSLASH
       then p = BACKSLASH else False)"

text \<open>The loop of \<open>getStringValue\<close>: the position of the closing quote after a rune \<open>prev\<close>.\<close>

fun closing_quote :: "rune \<Rightarrow> rune list \<Rightarrow> nat option" where
  "closing_quote prev [] = None"
| "closing_quote prev (c # cs) =
     (if c = DQUOTE \<and> \<not> isEscaped (Some prev) c then Some 0
      else map_option Suc (closing_quote c cs))"

definition getStringValue :: "rune list \<Rightarrow> ini_error + nat" where
  "getStringValue b =
     (if hd b \<noteq> DQUOTE then Inl (ParseError ''strings must start with a quote'')
      else case closing_quote (hd b) (tl b) of
        None \<Rightarrow> Inl (ParseError ''missing quote in string value'')
      | Some i \<Rightarrow> Inr (i + 2))"

definition isValidRune :: "rune \<Rightarrow> bool" where
  "isValidRune r \<longleftrightarrow> r \<noteq> R CHR '':'' \<and> r \<noteq> R CHR ''='' \<and> r \<noteq> R CHR ''['' \<and> r \<noteq> R CHR '']'' \<and>
     r \<noteq> R CHR '' '' \<and> r \<noteq> LF"

definition isValid :: "rune list \<Rightarrow> bool \<times> nat" where
  "isValid b = (case b of [] \<Rightarrow> (False, 0) | c # _ \<Rightarrow> (isValidRune c, 1))"

fun getValue :: "rune list \<Rightarrow> nat" where
  "getValue [] = 0"
| "getValue (c # cs) =
     (if isNewline (c # cs) then 0
      else if isOp (c # cs) then 0
      else if \<not> fst (isValid (c # cs)) then 0
      else Suc (getValue cs))"

definition newLitToken :: "rune list \<Rightarrow> ini_error + Token \<times> nat" where
  "newLitToken b =
     (if hd b = DQUOTE
      then (case getStringValue b of
              Inl e \<Rightarrow> Inl e
            | Inr n \<Rightarrow> Inr (newToken TokenLit (take n b) QuotedStringType, n))
      else (let n = getValue b in Inr (newToken TokenLit (take n b) StringType, n)))"

section \<open>The lexer\<close>

text \<open>The switch of both loops.\<close>

definition next_token :: "rune list \<Rightarrow> ini_error + Token \<times> nat" where
  "next_token b =
     (if isWhitespace (hd b) then newWSToken b
      else if isComma (hd b) then Inr (newCommaToken, 1)
      else if isComment b then newCommentToken b
      else if isNewline b then newNewlineToken b
      else if isSep b then newSepToken b
      else if isOp b then newOpToken b
      else newLitToken b)"

text \<open>Every token is made of the runes it consumed, and there is at least one.\<close>

lemma closing_quote_bound: "closing_quote p cs = Some i \<Longrightarrow> i < length cs"
  by (induction p cs arbitrary: i rule: closing_quote.induct) (auto split: if_splits)

lemma getValue_bound: "getValue b \<le> length b"
  by (induction b rule: getValue.induct) auto

lemma comment_length_bound: "comment_length b \<le> length b"
  by (induction b rule: comment_length.induct) auto

definition reads :: "rune list \<Rightarrow> ini_error + Token \<times> nat \<Rightarrow> bool" where
  "reads b r \<longleftrightarrow> (case r of Inl _ \<Rightarrow> True
     | Inr (tok, n) \<Rightarrow> tok_raw tok = take n b \<and> 0 < n \<and> n \<le> length b)"

lemma reads_ws: "isWhitespace c \<Longrightarrow> reads (c # cs) (newWSToken (c # cs))"
  using length_takeWhile_le [of isWhitespace cs]
  by (simp add: reads_def newWSToken_def newToken_def Let_def)

lemma reads_comma: "isComma c \<Longrightarrow> reads (c # cs) (Inr (newCommaToken, Suc 0))"
  by (simp add: reads_def newCommaToken_def newToken_def runes_def isComma_def)

lemma reads_comment: "isComment (c # cs) \<Longrightarrow> reads (c # cs) (newCommentToken (c # cs))"
  using comment_length_bound [of cs]
  by (auto simp: reads_def newCommentToken_def newToken_def isComment_def Let_def rune_consts)

lemma reads_newline: "isNewline (c # cs) \<Longrightarrow> reads (c # cs) (newNewlineToken (c # cs))"
  by (cases cs) (auto simp: reads_def newNewlineToken_def newToken_def isNewline_def Let_def rune_consts)

lemma reads_sep: "isSep (c # cs) \<Longrightarrow> reads (c # cs) (newSepToken (c # cs))"
  by (auto simp: reads_def newSepToken_def newToken_def isSep_def openBrace_def closeBrace_def runes_def)

lemma reads_op: "isOp (c # cs) \<Longrightarrow> reads (c # cs) (newOpToken (c # cs))"
  by (auto simp: reads_def newOpToken_def newToken_def isOp_def runes_def)

lemma getValue_pos:
  assumes "\<not> isWhitespace c" and "\<not> isNewline (c # cs)" and "\<not> isSep (c # cs)" and "\<not> isOp (c # cs)"
  shows "0 < getValue (c # cs)"
  using assms by (auto simp: isValid_def isValidRune_def isSep_def isOp_def isWhitespace_def
      unicode_IsSpace_def isNewline_def rune_consts)

lemma reads_lit:
  assumes "\<not> isWhitespace c" and "\<not> isNewline (c # cs)" and "\<not> isSep (c # cs)" and "\<not> isOp (c # cs)"
  shows "reads (c # cs) (newLitToken (c # cs))"
  using getValue_pos [OF assms] getValue_bound [of "c # cs"] closing_quote_bound [of c cs]
  by (auto simp: reads_def newLitToken_def getStringValue_def newToken_def Let_def
      split: option.splits simp del: getValue.simps)

lemma reads_next_token: "b \<noteq> [] \<Longrightarrow> reads b (next_token b)"
  by (cases b) (simp_all add: next_token_def reads_ws reads_comma reads_comment reads_newline
      reads_sep reads_op reads_lit)

lemma next_token_raw:
  assumes "b \<noteq> []" and "next_token b = Inr (tok, n)"
  shows "tok_raw tok = take n b" and "0 < n" and "n \<le> length b"
  using reads_next_token [OF assms(1)] assms(2) by (simp_all add: reads_def)

lemma next_token_shrinks: "b \<noteq> [] \<Longrightarrow> next_token b = Inr (tok, n) \<Longrightarrow> length b - n < length b"
  using next_token_raw(2) [of b tok n] by (cases b) auto

text \<open>\<open>countTokens\<close>: an error makes it 0.\<close>

function countTokens_loop :: "nat \<Rightarrow> rune list \<Rightarrow> nat" where
  "countTokens_loop count b =
     (if b = [] then count + 1
      else case next_token b of
        Inl _ \<Rightarrow> 0
      | Inr (_, n) \<Rightarrow> countTokens_loop (count + 1) (drop n b))"
  by pat_completeness auto
termination
  by (relation "measure (\<lambda>(count, b). length b)") (auto intro: next_token_shrinks)

definition countTokens :: "rune list \<Rightarrow> nat" where
  "countTokens b = countTokens_loop 0 b"

text \<open>
  The loop of \<open>tokenize\<close>; \<open>room\<close> is \<open>tokenAmount - count\<close>, which a token of the slice uses up.
\<close>

fun tokenize_loop :: "nat \<Rightarrow> rune list \<Rightarrow> ini_error + Token list" where
  "tokenize_loop 0 b = Inr []"
| "tokenize_loop (Suc room) b =
     (if b = [] then Inr []
      else case next_token b of
        Inl e \<Rightarrow> Inl e
      | Inr (tok, n) \<Rightarrow>
          (case tokenize_loop room (drop n b) of Inl e \<Rightarrow> Inl e | Inr toks \<Rightarrow> Inr (tok # toks)))"

definition tokenize_runes :: "rune list \<Rightarrow> ini_error + Token list" where
  "tokenize_runes rs = tokenize_loop (countTokens rs) rs"

definition tokenize :: "byte list \<Rightarrow> ini_error + Token list" where
  "tokenize b = tokenize_runes (bytes_Runes b)"

declare countTokens_loop.simps [simp del]

text \<open>
  The reference lexer: one token after the other, \<open>None\<close> where a token is malformed. The two
  loops of the code compute it, but a malformed token shows as an empty list of tokens.
\<close>

function lex_all :: "rune list \<Rightarrow> Token list option" where
  "lex_all b =
     (if b = [] then Some []
      else case next_token b of
        Inl _ \<Rightarrow> None
      | Inr (tok, n) \<Rightarrow> map_option (Cons tok) (lex_all (drop n b)))"
  by pat_completeness auto
termination
  by (relation "measure length") (auto intro: next_token_shrinks)

declare lex_all.simps [simp del]

lemma countTokens_loop_lex:
  "countTokens_loop count b = (case lex_all b of None \<Rightarrow> 0 | Some toks \<Rightarrow> count + length toks + 1)"
proof (induction b arbitrary: count rule: lex_all.induct)
  case (1 b)
  show ?case
  proof (cases "b = [] \<or> (\<exists>e. next_token b = Inl e)")
    case True
    then show ?thesis by (auto simp: countTokens_loop.simps [of count b] lex_all.simps [of b])
  next
    case False
    then obtain tok n where "b \<noteq> []" and next_tok: "next_token b = Inr (tok, n)"
      by (cases "next_token b") auto
    with "1.IH" [OF \<open>b \<noteq> []\<close> next_tok refl] show ?thesis
      by (auto simp: countTokens_loop.simps [of count b] lex_all.simps [of b] split: option.splits)
  qed
qed

lemma tokenize_loop_lex:
  "lex_all b = Some toks \<Longrightarrow> length toks \<le> room \<Longrightarrow> tokenize_loop room b = Inr toks"
proof (induction room b arbitrary: toks rule: tokenize_loop.induct)
  case (1 b)
  then show ?case by simp
next
  case (2 room b)
  from "2.prems"(1) consider "b = []" "toks = []"
    | tok n toks' where "b \<noteq> []" "next_token b = Inr (tok, n)" "lex_all (drop n b) = Some toks'" "toks = tok # toks'"
    by (auto simp: lex_all.simps [of b] split: if_splits sum.splits)
  then show ?case
    using "2.IH" "2.prems"(2) by cases auto
qed

lemma tokenize_runes_lex:
  "tokenize_runes rs = Inr (case lex_all rs of None \<Rightarrow> [] | Some toks \<Rightarrow> toks)"
proof (cases "lex_all rs")
  case None
  then show ?thesis by (simp add: tokenize_runes_def countTokens_def countTokens_loop_lex)
next
  case (Some toks)
  then have "countTokens rs = length toks + 1"
    by (simp add: countTokens_def countTokens_loop_lex)
  with Some tokenize_loop_lex [OF Some, of "length toks + 1"] show ?thesis
    by (simp add: tokenize_runes_def)
qed

lemma lex_raw: "lex_all b = Some toks \<Longrightarrow> concat (map tok_raw toks) = b"
proof (induction b arbitrary: toks rule: lex_all.induct)
  case (1 b)
  show ?case
  proof (cases "b = []")
    case True
    with "1.prems" show ?thesis by (simp add: lex_all.simps)
  next
    case False
    with "1.prems" obtain tok n toks' where t: "next_token b = Inr (tok, n)"
      and l: "lex_all (drop n b) = Some toks'" "toks = tok # toks'"
      by (auto simp: lex_all.simps [of b] split: sum.splits)
    with "1.IH" [OF False t refl] next_token_raw(1) [OF False t] show ?thesis by simp
  qed
qed

lemma lex_nonempty_tokens: "lex_all b = Some toks \<Longrightarrow> tok \<in> set toks \<Longrightarrow> tok_raw tok \<noteq> []"
proof (induction b arbitrary: toks rule: lex_all.induct)
  case (1 b)
  then have "b \<noteq> []" by (auto simp: lex_all.simps)
  with "1.prems" obtain tok' n toks' where t: "next_token b = Inr (tok', n)"
    and l: "lex_all (drop n b) = Some toks'" "toks = tok' # toks'"
    by (auto simp: lex_all.simps [of b] split: sum.splits)
  with "1.IH" [OF \<open>b \<noteq> []\<close> t refl] next_token_raw [OF \<open>b \<noteq> []\<close> t] "1.prems"(2) show ?case
    using \<open>b \<noteq> []\<close> by auto
qed

end
