(* ===== verification/IniParser.thy ===== *)
theory IniParser
  imports IniLexer
begin

text \<open>
  The parser of the INI reader, package \<open>internal/ini\<close>: \<open>ast.go\<close>, \<open>expression.go\<close>,
  \<open>statement.go\<close>, \<open>parse_stack.go\<close>, \<open>skipper.go\<close> and \<open>ini_parser.go\<close>.

  The parse loop is a state machine: it pops an AST, looks the pair of its kind and the type of
  the next token up in \<open>parseTable\<close> and acts on the state it finds there. \<open>parse_step\<close> is the body
  of the loop. The stack and the list of finished statements are Go slices of fixed length; a
  push or a mark beyond it is the value \<open>PanicIndexOutOfRange\<close>. Slices are values here, so an
  \<open>append\<close> copies.
\<close>

section \<open>Syntax trees\<close>

datatype ASTKind =
    ASTKindNone | ASTKindStart | ASTKindExpr | ASTKindEqualExpr | ASTKindStatement
  | ASTKindSkipStatement | ASTKindExprStatement | ASTKindSectionStatement
  | ASTKindNestedSectionStatement | ASTKindCompletedNestedSectionStatement
  | ASTKindCommentStatement | ASTKindCompletedSectionStatement

datatype AST = AST (Kind: ASTKind) (Root: Token) (RootToken: bool) (Children: "AST list")

definition zeroToken :: Token where
  "zeroToken = \<lparr>tok_t = TokenNone, tok_ValueType = NoneType, tok_base = 0, tok_raw = []\<rparr>"

definition zeroAST :: AST where
  "zeroAST = AST ASTKindNone zeroToken False []"

definition newAST :: "ASTKind \<Rightarrow> AST \<Rightarrow> AST list \<Rightarrow> AST" where
  "newAST kind root children = AST kind zeroToken False (root # children)"

definition newASTWithRootToken :: "ASTKind \<Rightarrow> Token \<Rightarrow> AST list \<Rightarrow> AST" where
  "newASTWithRootToken kind root children = AST kind root True children"

definition AppendChild :: "AST \<Rightarrow> AST \<Rightarrow> AST" where
  "AppendChild a child = AST (Kind a) (Root a) (RootToken a) (Children a @ [child])"

definition GetRoot :: "AST \<Rightarrow> AST" where
  "GetRoot a = (if RootToken a then a else case Children a of [] \<Rightarrow> zeroAST | c # _ \<Rightarrow> c)"

definition GetChildren :: "AST \<Rightarrow> AST list" where
  "GetChildren a = (if Children a = [] then [] else if RootToken a then Children a else tl (Children a))"

definition SetChildren :: "AST \<Rightarrow> AST list \<Rightarrow> AST" where
  "SetChildren a children = AST (Kind a) (Root a) (RootToken a)
     (if RootToken a then children else take 1 (Children a) @ children)"

definition Start :: AST where
  "Start = newAST ASTKindStart zeroAST []"

definition newExpression :: "Token \<Rightarrow> AST" where
  "newExpression tok = newASTWithRootToken ASTKindExpr tok []"

definition newEqualExpr :: "AST \<Rightarrow> Token \<Rightarrow> AST" where
  "newEqualExpr left tok = newASTWithRootToken ASTKindEqualExpr tok [left]"

definition EqualExprKey :: "AST \<Rightarrow> rune list" where
  "EqualExprKey ast =
     (let children = GetChildren ast in
      if children = [] \<or> Kind ast \<noteq> ASTKindEqualExpr then [] else tok_raw (Root (hd children)))"

definition newStatement :: AST where
  "newStatement = newAST ASTKindStatement zeroAST []"

definition newSectionStatement :: "Token \<Rightarrow> AST" where
  "newSectionStatement tok = newASTWithRootToken ASTKindSectionStatement tok []"

definition newExprStatement :: "AST \<Rightarrow> AST" where
  "newExprStatement ast = newAST ASTKindExprStatement ast []"

definition newCommentStatement :: "Token \<Rightarrow> AST" where
  "newCommentStatement tok = newAST ASTKindCommentStatement (newExpression tok) []"

definition newCompletedSectionStatement :: "AST \<Rightarrow> AST" where
  "newCompletedSectionStatement ast = newAST ASTKindCompletedSectionStatement ast []"

definition newSkipStatement :: "AST \<Rightarrow> AST" where
  "newSkipStatement ast = newAST ASTKindSkipStatement ast []"

definition appendRaw :: "AST \<Rightarrow> rune list \<Rightarrow> AST" where
  "appendRaw a r = AST (Kind a) ((Root a)\<lparr>tok_raw := tok_raw (Root a) @ r\<rparr>) (RootToken a) (Children a)"

definition trim_left :: "rune list \<Rightarrow> rune list" where
  "trim_left = dropWhile isWhitespace"

definition trim_right :: "rune list \<Rightarrow> rune list" where
  "trim_right r = rev (dropWhile isWhitespace (rev r))"

definition trimSpaces :: "AST \<Rightarrow> AST" where
  "trimSpaces k = AST (Kind k)
     ((Root k)\<lparr>tok_raw := trim_right (trim_left (tok_raw (Root k)))\<rparr>) (RootToken k) (Children k)"

section \<open>The parse stack\<close>

text \<open>The container is kept with its top first; \<open>ps_list\<close> is \<open>list[:index]\<close>.\<close>

record ParseStack =
  ps_sizeContainer :: nat
  ps_sizeList :: nat
  ps_container :: "AST list"
  ps_list :: "AST list"

definition newParseStack :: "nat \<Rightarrow> nat \<Rightarrow> ParseStack" where
  "newParseStack sizeContainer sizeList =
     \<lparr>ps_sizeContainer = sizeContainer, ps_sizeList = sizeList, ps_container = [], ps_list = []\<rparr>"

definition Pop :: "ParseStack \<Rightarrow> ini_error + AST \<times> ParseStack" where
  "Pop s = (case ps_container s of
     [] \<Rightarrow> Inl PanicIndexOutOfRange
   | k # rest \<Rightarrow> Inr (k, s\<lparr>ps_container := rest\<rparr>))"

definition Push :: "ParseStack \<Rightarrow> AST \<Rightarrow> ini_error + ParseStack" where
  "Push s ast =
     (if length (ps_container s) < ps_sizeContainer s
      then Inr (s\<lparr>ps_container := ast # ps_container s\<rparr>) else Inl PanicIndexOutOfRange)"

definition MarkComplete :: "ParseStack \<Rightarrow> AST \<Rightarrow> ini_error + ParseStack" where
  "MarkComplete s ast =
     (if length (ps_list s) < ps_sizeList s
      then Inr (s\<lparr>ps_list := ps_list s @ [ast]\<rparr>) else Inl PanicIndexOutOfRange)"

definition Len :: "ParseStack \<Rightarrow> nat" where
  "Len s = length (ps_container s)"

section \<open>The skipper\<close>

record skipper =
  shouldSkip :: bool
  prevTok :: Token

definition newSkipper :: skipper where
  "newSkipper = \<lparr>shouldSkip = False, prevTok = emptyToken\<rparr>"

definition skipper_Continue :: "skipper \<Rightarrow> skipper" where
  "skipper_Continue s = s\<lparr>shouldSkip := False, prevTok := emptyToken\<rparr>"

definition skipper_Skip :: "skipper \<Rightarrow> skipper" where
  "skipper_Skip s = s\<lparr>shouldSkip := True\<rparr>"

definition ShouldSkip :: "skipper \<Rightarrow> Token \<Rightarrow> bool \<times> skipper" where
  "ShouldSkip s tok =
     (if shouldSkip s \<and> tok_t (prevTok s) = TokenNL \<and> tok_t tok \<noteq> TokenWS
      then (False, skipper_Continue s)
      else (shouldSkip s, s\<lparr>prevTok := tok\<rparr>))"

section \<open>The parse table\<close>

datatype ParseState =
    InvalidState | StatementState | StatementPrimeState | ValueState | OpenScopeState
  | SectionState | CloseScopeState | SkipState | SkipTokenState | CommentState
  | MarkCompleteState | TerminalState

fun parseTable :: "ASTKind \<Rightarrow> TokenType \<Rightarrow> ParseState" where
  "parseTable ASTKindStart t = (case t of
     TokenLit \<Rightarrow> StatementState | TokenSep \<Rightarrow> OpenScopeState | TokenWS \<Rightarrow> SkipTokenState
   | TokenNL \<Rightarrow> SkipTokenState | TokenComment \<Rightarrow> CommentState | TokenNone \<Rightarrow> TerminalState
   | _ \<Rightarrow> InvalidState)"
| "parseTable ASTKindCommentStatement t = (case t of
     TokenLit \<Rightarrow> StatementState | TokenSep \<Rightarrow> OpenScopeState | TokenWS \<Rightarrow> SkipTokenState
   | TokenNL \<Rightarrow> SkipTokenState | TokenComment \<Rightarrow> CommentState | TokenNone \<Rightarrow> MarkCompleteState
   | _ \<Rightarrow> InvalidState)"
| "parseTable ASTKindExpr t = (case t of
     TokenOp \<Rightarrow> StatementPrimeState | TokenLit \<Rightarrow> ValueState | TokenSep \<Rightarrow> OpenScopeState
   | TokenWS \<Rightarrow> ValueState | TokenNL \<Rightarrow> SkipState | TokenComment \<Rightarrow> CommentState
   | TokenNone \<Rightarrow> MarkCompleteState | _ \<Rightarrow> InvalidState)"
| "parseTable ASTKindEqualExpr t = (case t of
     TokenLit \<Rightarrow> ValueState | TokenSep \<Rightarrow> ValueState | TokenOp \<Rightarrow> ValueState
   | TokenWS \<Rightarrow> SkipTokenState | TokenNL \<Rightarrow> SkipState | TokenNone \<Rightarrow> SkipState
   | _ \<Rightarrow> InvalidState)"
| "parseTable ASTKindStatement t = (case t of
     TokenLit \<Rightarrow> SectionState | TokenSep \<Rightarrow> CloseScopeState | TokenWS \<Rightarrow> SkipTokenState
   | TokenNL \<Rightarrow> SkipTokenState | TokenComment \<Rightarrow> CommentState | TokenNone \<Rightarrow> MarkCompleteState
   | _ \<Rightarrow> InvalidState)"
| "parseTable ASTKindExprStatement t = (case t of
     TokenLit \<Rightarrow> ValueState | TokenSep \<Rightarrow> ValueState | TokenOp \<Rightarrow> ValueState
   | TokenWS \<Rightarrow> ValueState | TokenNL \<Rightarrow> MarkCompleteState | TokenComment \<Rightarrow> CommentState
   | TokenNone \<Rightarrow> TerminalState | TokenComma \<Rightarrow> SkipState)"
| "parseTable ASTKindSectionStatement t = (case t of
     TokenLit \<Rightarrow> SectionState | TokenOp \<Rightarrow> SectionState | TokenSep \<Rightarrow> CloseScopeState
   | TokenWS \<Rightarrow> SectionState | TokenNL \<Rightarrow> SkipTokenState | _ \<Rightarrow> InvalidState)"
| "parseTable ASTKindCompletedSectionStatement t = (case t of
     TokenWS \<Rightarrow> SkipTokenState | TokenNL \<Rightarrow> SkipTokenState | TokenLit \<Rightarrow> StatementState
   | TokenSep \<Rightarrow> OpenScopeState | TokenComment \<Rightarrow> CommentState | TokenNone \<Rightarrow> MarkCompleteState
   | _ \<Rightarrow> InvalidState)"
| "parseTable ASTKindSkipStatement t = (case t of
     TokenLit \<Rightarrow> StatementState | TokenSep \<Rightarrow> OpenScopeState | TokenWS \<Rightarrow> SkipTokenState
   | TokenNL \<Rightarrow> SkipTokenState | TokenComment \<Rightarrow> CommentState | TokenNone \<Rightarrow> TerminalState
   | _ \<Rightarrow> InvalidState)"
| "parseTable _ t = InvalidState"

section \<open>The parse loop\<close>

text \<open>How the body of the loop ends: \<open>break\<close>, \<open>continue\<close>, or its end, where a token is dropped.\<close>

datatype loop_end = BreakLoop | ContinueLoop | EndOfBody

type_synonym step_result = "ini_error + loop_end \<times> ParseStack \<times> skipper"

definition bind_res :: "'e + 'a \<Rightarrow> ('a \<Rightarrow> 'e + 'b) \<Rightarrow> 'e + 'b" where
  "bind_res m f = (case m of Inl e \<Rightarrow> Inl e | Inr x \<Rightarrow> f x)"

definition done_with :: "loop_end \<Rightarrow> skipper \<Rightarrow> ParseStack \<Rightarrow> step_result" where
  "done_with e s stack = Inr (e, stack, s)"

definition markUnlessStart :: "ParseStack \<Rightarrow> AST \<Rightarrow> ini_error + ParseStack" where
  "markUnlessStart stack k = (if Kind k \<noteq> ASTKindStart then MarkComplete stack k else Inr stack)"

text \<open>The case \<open>ValueState\<close>.\<close>

definition value_step :: "ParseStack \<Rightarrow> AST \<Rightarrow> Token \<Rightarrow> ini_error + ParseStack" where
  "value_step stack k tok = (case Kind k of
     ASTKindEqualExpr \<Rightarrow> Push stack (newExprStatement (AppendChild k (newExpression tok)))
   | ASTKindExpr \<Rightarrow> Push stack (appendRaw k (tok_raw tok))
   | ASTKindExprStatement \<Rightarrow>
       (let root = GetRoot k; children = GetChildren root in
        if children = [] then Inl (ParseError ''invalid expression: AST contains no children'')
        else
          let rhs = last children;
              rhs' = (if tok_ValueType (Root rhs) \<noteq> QuotedStringType
                      then AST (Kind rhs)
                        ((Root rhs)\<lparr>tok_ValueType := StringType, tok_raw := tok_raw (Root rhs) @ tok_raw tok\<rparr>)
                        (RootToken rhs) (Children rhs)
                      else rhs);
              root' = SetChildren root (butlast children @ [rhs'])
          in Push stack
               (if RootToken k then root'
                else AST (Kind k) (Root k) (RootToken k) (root' # tl (Children k))))
   | _ \<Rightarrow> Inr stack)"

text \<open>The case \<open>SectionState\<close>.\<close>

definition section_step :: "ParseStack \<Rightarrow> AST \<Rightarrow> Token \<Rightarrow> ini_error + ParseStack" where
  "section_step stack k tok = (case Kind k of
     ASTKindStatement \<Rightarrow> Push stack (newSectionStatement tok)
   | ASTKindSectionStatement \<Rightarrow> Push stack (appendRaw k (tok_raw tok))
   | _ \<Rightarrow> Inl (ParseError ''invalid statement: expected statement''))"

text \<open>The switch over the state; \<open>k\<close> has been popped.\<close>

definition state_step :: "ParseState \<Rightarrow> ParseStack \<Rightarrow> skipper \<Rightarrow> AST \<Rightarrow> Token \<Rightarrow> step_result" where
  "state_step state stack s k tok = (case state of
     TerminalState \<Rightarrow> bind_res (markUnlessStart stack k) (done_with BreakLoop s)
   | SkipTokenState \<Rightarrow> bind_res (Push stack k) (done_with EndOfBody s)
   | StatementState \<Rightarrow>
       bind_res (markUnlessStart stack k) (\<lambda>stack.
       bind_res (Push stack (newExpression tok)) (done_with EndOfBody s))
   | StatementPrimeState \<Rightarrow>
       (if tok_t tok \<noteq> TokenOp then bind_res (MarkComplete stack k) (done_with ContinueLoop s)
        else if Kind k \<noteq> ASTKindExpr then Inl (ParseError ''invalid expression: expected Expr type'')
        else bind_res (Push stack (newEqualExpr (trimSpaces k) tok)) (done_with EndOfBody s))
   | ValueState \<Rightarrow> bind_res (value_step stack k tok) (done_with EndOfBody s)
   | OpenScopeState \<Rightarrow>
       (if tok_raw tok \<noteq> openBrace then Inl (ParseError ''expected opening brace'')
        else bind_res (markUnlessStart stack k) (\<lambda>stack.
             bind_res (Push stack newStatement) (done_with EndOfBody s)))
   | CloseScopeState \<Rightarrow>
       (if tok_raw tok \<noteq> closeBrace then Inl (ParseError ''expected closing brace'')
        else bind_res (Push stack (newCompletedSectionStatement (trimSpaces k))) (done_with EndOfBody s))
   | SectionState \<Rightarrow> bind_res (section_step stack k tok) (done_with EndOfBody s)
   | MarkCompleteState \<Rightarrow>
       bind_res (markUnlessStart stack k) (\<lambda>stack.
       bind_res (if Len stack = 0 then Push stack Start else Inr stack) (done_with EndOfBody s))
   | SkipState \<Rightarrow> bind_res (Push stack (newSkipStatement k)) (done_with EndOfBody (skipper_Skip s))
   | CommentState \<Rightarrow>
       bind_res (if Kind k = ASTKindStart then Push stack k else MarkComplete stack k) (\<lambda>stack.
       bind_res (Push stack (newCommentStatement tok)) (done_with EndOfBody s))
   | InvalidState \<Rightarrow> Inl (ParseError ''invalid state''))"

definition parse_step :: "Token list \<Rightarrow> ParseStack \<Rightarrow> skipper \<Rightarrow> step_result" where
  "parse_step tokens stack s =
     bind_res (Pop stack) (\<lambda>(k, stack).
       let tok = (if tokens = [] then emptyToken else hd tokens);
           step = parseTable (Kind k) (tok_t tok);
           (skip, s) = ShouldSkip s tok
       in if skip \<and> tokens = [] then done_with BreakLoop s stack
          else state_step (if skip then SkipTokenState else step) stack s k tok)"

text \<open>
  The loop, on fuel: \<open>None\<close> is fuel that ran out. Each pass drops a token until none is left;
  then two more passes are enough (\<open>parse_loop_total\<close>).
\<close>

fun parse_loop :: "nat \<Rightarrow> Token list \<Rightarrow> ParseStack \<Rightarrow> skipper \<Rightarrow> (ini_error + ParseStack) option" where
  "parse_loop 0 tokens stack s = None"
| "parse_loop (Suc fuel) tokens stack s =
     (if Len stack = 0 then Some (Inr stack)
      else case parse_step tokens stack s of
        Inl e \<Rightarrow> Some (Inl e)
      | Inr (BreakLoop, stack', s') \<Rightarrow> Some (Inr stack')
      | Inr (ContinueLoop, stack', s') \<Rightarrow> parse_loop fuel tokens stack' s'
      | Inr (EndOfBody, stack', s') \<Rightarrow> parse_loop fuel (tl tokens) stack' s')"

definition parse :: "Token list \<Rightarrow> (ini_error + AST list) option" where
  "parse tokens =
     (case Push (newParseStack 3 (length tokens)) Start of
        Inl e \<Rightarrow> Some (Inl e)
      | Inr stack \<Rightarrow>
          (case parse_loop (Suc (Suc (Suc (length tokens)))) tokens stack newSkipper of
             None \<Rightarrow> None
           | Some (Inl e) \<Rightarrow> Some (Inl e)
           | Some (Inr stack') \<Rightarrow>
               Some (if 1 < Len stack' then Inl (ParseError ''incomplete ini expression'')
                     else Inr (ps_list stack'))))"

definition ParseASTBytes :: "byte list \<Rightarrow> (ini_error + AST list) option" where
  "ParseASTBytes b = (case tokenize b of Inl e \<Rightarrow> Some (Inl e) | Inr tokens \<Rightarrow> parse tokens)"

section \<open>The loop stops and never indexes out of range\<close>

text \<open>
  \<open>parser_inv n b\<close>: between two passes the container holds one tree, with the start symbol below
  it at most; the finished trees and the unfinished one together are no more than the \<open>b\<close> tokens
  read so far, for which the list of \<open>n\<close> slots has room.
\<close>

definition pending :: "AST \<Rightarrow> nat" where
  "pending k = (if Kind k = ASTKindStart then 0 else 1)"

definition popped_inv :: "nat \<Rightarrow> nat \<Rightarrow> AST \<Rightarrow> ParseStack \<Rightarrow> bool" where
  "popped_inv n b k st \<longleftrightarrow> ps_sizeContainer st = 3 \<and> ps_sizeList st = n \<and>
     (ps_container st = [] \<or>
      (\<exists>k0. ps_container st = [k0] \<and> Kind k0 = ASTKindStart \<and> Kind k \<noteq> ASTKindStart)) \<and>
     length (ps_list st) + pending k \<le> b \<and> b \<le> n"

definition parser_inv :: "nat \<Rightarrow> nat \<Rightarrow> ParseStack \<Rightarrow> bool" where
  "parser_inv n b st \<longleftrightarrow> (\<exists>k rest. ps_container st = k # rest \<and>
     popped_inv n b k (st\<lparr>ps_container := rest\<rparr>))"

definition step_ok :: "nat \<Rightarrow> nat \<Rightarrow> step_result \<Rightarrow> bool" where
  "step_ok n b r \<longleftrightarrow> (case r of
     Inl e \<Rightarrow> e \<noteq> PanicIndexOutOfRange
   | Inr (e, st, s) \<Rightarrow> e = BreakLoop \<and> length (ps_container st) \<le> 1 \<or> e = EndOfBody \<and> parser_inv n b st)"

named_theorems parser_defs \<open>definitions the proofs about a pass unfold\<close>

lemmas [parser_defs] = state_step_def bind_res_def done_with_def markUnlessStart_def value_step_def
  section_step_def Push_def MarkComplete_def Len_def pending_def popped_inv_def parser_inv_def step_ok_def

lemmas kind_simps = newAST_def newASTWithRootToken_def Start_def newExpression_def newEqualExpr_def
  newStatement_def newSectionStatement_def newExprStatement_def newCommentStatement_def
  newCompletedSectionStatement_def newSkipStatement_def appendRaw_def trimSpaces_def AppendChild_def
  SetChildren_def GetRoot_def

text \<open>A pass that consumes a token, whatever the state the table gives for it.\<close>

lemma state_step_token:
  assumes inv: "popped_inv n b k st" and room: "b < n"
    and state: "state = SkipTokenState \<or> state = parseTable (Kind k) (tok_t tok)"
  shows "step_ok n (Suc b) (state_step state st s k tok)"
proof (cases "state = SkipTokenState")
  case True
  with inv room show ?thesis by (auto simp: parser_defs)
next
  case False
  with state have "state = parseTable (Kind k) (tok_t tok)" by simp
  then show ?thesis
    using inv room
    by (cases "Kind k"; cases "tok_t tok")
      (auto simp: parser_defs kind_simps Let_def split: if_splits)
qed

lemma parse_step_token:
  assumes "parser_inv n b st" and "b < n" and "tokens \<noteq> []"
  shows "step_ok n (Suc b) (parse_step tokens st s)"
proof -
  from assms(1) obtain k rest where c: "ps_container st = k # rest"
    and inv: "popped_inv n b k (st\<lparr>ps_container := rest\<rparr>)"
    by (auto simp: parser_inv_def)
  obtain skip s' where skip: "ShouldSkip s (hd tokens) = (skip, s')" by fastforce
  have "parse_step tokens st s = state_step (if skip then SkipTokenState else parseTable (Kind k) (tok_t (hd tokens)))
      (st\<lparr>ps_container := rest\<rparr>) s' k (hd tokens)"
    using assms(3) by (simp add: parse_step_def Pop_def c bind_res_def skip Let_def)
  then show ?thesis
    using state_step_token [OF inv assms(2)] by simp
qed

text \<open>
  Once the tokens are used up there are at most three passes: an unfinished tree is marked, or
  skipped, and the start symbol ends the loop.
\<close>

lemma parse_loop_end_start:
  assumes "ps_container st = [k]" and "Kind k = ASTKindStart" and "shouldSkip s = False"
  shows "parse_loop (Suc f) [] st s = Some (Inr (st\<lparr>ps_container := []\<rparr>))"
  using assms by (simp add: parse_step_def Pop_def Len_def bind_res_def ShouldSkip_def emptyToken_def
      newToken_def state_step_def markUnlessStart_def done_with_def)

definition final_ok :: "nat \<Rightarrow> ini_error + ParseStack \<Rightarrow> bool" where
  "final_ok n r \<longleftrightarrow> (case r of Inl e \<Rightarrow> e \<noteq> PanicIndexOutOfRange | Inr st \<Rightarrow> True)"

lemma parse_loop_end:
  assumes "parser_inv n b st"
  shows "\<exists>r. parse_loop (Suc (Suc (Suc f))) [] st s = Some r \<and> final_ok n r"
proof -
  from assms obtain k rest where c: "ps_container st = k # rest"
    and inv: "popped_inv n b k (st\<lparr>ps_container := rest\<rparr>)"
    by (auto simp: parser_inv_def)
  obtain skip s' where skip: "ShouldSkip s emptyToken = (skip, s')" by fastforce
  have tok: "tok_t emptyToken = TokenNone" by (simp add: emptyToken_def newToken_def)
  show ?thesis
  proof (cases skip)
    case True
    then show ?thesis
      by (simp add: parse_step_def Pop_def Len_def c bind_res_def skip done_with_def final_ok_def)
  next
    case False
    note ns = this
    then have s': "shouldSkip s' = False" "tok_t (prevTok s') = TokenNone"
      using skip tok by (auto simp: ShouldSkip_def skipper_Continue_def split: if_splits)
    have step: "parse_step [] st s = state_step (parseTable (Kind k) TokenNone) (st\<lparr>ps_container := rest\<rparr>) s' k emptyToken"
      using ns by (simp add: parse_step_def Pop_def c bind_res_def skip tok)
    have pass: "parse_loop (Suc g) [] st s = (case state_step (parseTable (Kind k) TokenNone)
        (st\<lparr>ps_container := rest\<rparr>) s' k emptyToken of
        Inl e \<Rightarrow> Some (Inl e)
      | Inr (BreakLoop, stack', s') \<Rightarrow> Some (Inr stack')
      | Inr (ContinueLoop, stack', s') \<Rightarrow> parse_loop g [] stack' s'
      | Inr (EndOfBody, stack', s') \<Rightarrow> parse_loop g [] stack' s')" for g
      by (simp add: c Len_def step split: sum.splits prod.splits loop_end.splits)
    consider "parseTable (Kind k) TokenNone = TerminalState" | "parseTable (Kind k) TokenNone = InvalidState"
      | "parseTable (Kind k) TokenNone = MarkCompleteState" "Kind k \<noteq> ASTKindStart"
      | "parseTable (Kind k) TokenNone = SkipState"
      by (cases "Kind k") auto
    then show ?thesis
    proof cases
      case 1
      then show ?thesis using inv unfolding pass
        by (auto simp: parser_defs final_ok_def split: if_splits)
    next
      case 2
      then show ?thesis unfolding pass by (simp add: state_step_def final_ok_def)
    next
      case 3
      then obtain st' k0 where "state_step MarkCompleteState (st\<lparr>ps_container := rest\<rparr>) s' k emptyToken = Inr (EndOfBody, st', s')"
        and "ps_container st' = [k0]" "Kind k0 = ASTKindStart"
        using inv by (auto simp: parser_defs kind_simps)
      then show ?thesis
        unfolding pass using 3 parse_loop_end_start [of st' k0 s' "Suc f"] s'(1)
        by (simp add: final_ok_def)
    next
      case 4
      then obtain st' where "state_step SkipState (st\<lparr>ps_container := rest\<rparr>) s' k emptyToken = Inr (EndOfBody, st', skipper_Skip s')"
        and ne: "ps_container st' \<noteq> []"
        using inv by (auto simp: parser_defs kind_simps)
      moreover have "\<exists>st''. parse_loop (Suc (Suc f)) [] st' (skipper_Skip s') = Some (Inr st'')"
        using ne s'(2)
        by (cases "ps_container st'") (simp_all add: Len_def parse_step_def Pop_def bind_res_def
            ShouldSkip_def skipper_Skip_def done_with_def)
      ultimately show ?thesis
        unfolding pass using 4 by (auto simp: final_ok_def)
    qed
  qed
qed

lemma parse_loop_total:
  assumes "parser_inv n b st" and "n = b + length tokens"
  shows "\<exists>r. parse_loop (Suc (Suc (Suc (length tokens)))) tokens st s = Some r \<and> final_ok n r"
  using assms
proof (induction tokens arbitrary: b st s)
  case Nil
  then show ?case using parse_loop_end [of n b st 0 s] by simp
next
  case (Cons tok tokens)
  then have "b < n" by simp
  from parse_step_token [OF Cons.prems(1) this, of "tok # tokens" s]
  have step: "step_ok n (Suc b) (parse_step (tok # tokens) st s)" by simp
  have len: "Len st \<noteq> 0" using Cons.prems(1) by (auto simp: parser_inv_def Len_def)
  show ?case
  proof (cases "parse_step (tok # tokens) st s")
    case (Inl e)
    with step len show ?thesis by (simp add: step_ok_def final_ok_def)
  next
    case (Inr r)
    obtain e st' s' where r: "r = (e, st', s')" by (cases r) auto
    show ?thesis
    proof (cases e)
      case BreakLoop
      with Inr r len show ?thesis by (simp add: final_ok_def)
    next
      case ContinueLoop
      with Inr r step show ?thesis by (simp add: step_ok_def)
    next
      case EndOfBody
      with Inr r step have "parser_inv n (Suc b) st'" by (simp add: step_ok_def)
      with Cons.IH [of "Suc b" st' s'] Cons.prems(2) Inr r EndOfBody len show ?thesis by simp
    qed
  qed
qed

lemma parse_total: "\<exists>r. parse tokens = Some r \<and> r \<noteq> Inl PanicIndexOutOfRange"
proof -
  have start: "Push (newParseStack 3 (length tokens)) Start =
      Inr \<lparr>ps_sizeContainer = 3, ps_sizeList = length tokens, ps_container = [Start], ps_list = []\<rparr>"
    by (simp add: Push_def newParseStack_def)
  have "parser_inv (length tokens) 0
      \<lparr>ps_sizeContainer = 3, ps_sizeList = length tokens, ps_container = [Start], ps_list = []\<rparr>"
    by (simp add: parser_inv_def popped_inv_def pending_def Start_def newAST_def)
  from parse_loop_total [OF this, of tokens newSkipper] obtain r where
    "parse_loop (Suc (Suc (Suc (length tokens)))) tokens
      \<lparr>ps_sizeContainer = 3, ps_sizeList = length tokens, ps_container = [Start], ps_list = []\<rparr> newSkipper = Some r"
    and "final_ok (length tokens) r"
    by auto
  then show ?thesis
    by (cases r) (auto simp: parse_def start final_ok_def simp del: parse_loop.simps)
qed

end
