(* ===== verification/IniVisitor.thy ===== *)
theory IniVisitor
  imports IniParser
begin

text \<open>
  Values, sections and the whole INI reader, package \<open>internal/ini\<close>: the \<open>Value\<close> part of
  \<open>literal_tokens.go\<close>, \<open>visitor.go\<close>, \<open>walker.go\<close>, \<open>ini.go\<close> and the escapes of \<open>value_util.go\<close>.

  Keys, section names and values are kept as runes. \<open>StringValue\<close> of a quoted string rewrites the
  runes of the value in place, so here it returns the changed value with the string. The results
  of \<open>strconv\<close> for the number types, which no token has, are the parameter \<open>pnum\<close>.
\<close>

section \<open>Values\<close>

record Value =
  val_Type :: ValueType
  val_raw :: "rune list"
  val_str :: "rune list"

definition runesTrue :: "rune list" where "runesTrue = runes ''true''"
definition runesFalse :: "rune list" where "runesFalse = runes ''false''"

text \<open>
  \<open>unicode.ToLower\<close> as far as its results are ASCII letters: besides the ASCII capitals these are
  U+0130 and U+212A.
\<close>

definition unicode_ToLower :: "rune \<Rightarrow> rune" where
  "unicode_ToLower c =
     (if 65 \<le> c \<and> c \<le> 90 then c + 32 else if c = 0x130 then 105 else if c = 0x212A then 107 else c)"

fun isCaselessLitValue :: "rune list \<Rightarrow> rune list \<Rightarrow> bool" where
  "isCaselessLitValue [] have = True"
| "isCaselessLitValue (w # ws) [] = False"
| "isCaselessLitValue (w # ws) (h # hs) = (w = unicode_ToLower h \<and> isCaselessLitValue ws hs)"

fun isLitValue :: "rune list \<Rightarrow> rune list \<Rightarrow> bool" where
  "isLitValue [] have = True"
| "isLitValue (w # ws) [] = False"
| "isLitValue (w # ws) (h # hs) = (w = h \<and> isLitValue ws hs)"

definition isBoolValue :: "rune list \<Rightarrow> bool" where
  "isBoolValue b \<longleftrightarrow> isCaselessLitValue runesTrue b \<or> isCaselessLitValue runesFalse b"

datatype num_result = NumOk | NumErrRange | NumErrSyntax

type_synonym strconv = "ValueType \<Rightarrow> int \<Rightarrow> rune list \<Rightarrow> num_result"

definition newValue :: "strconv \<Rightarrow> ValueType \<Rightarrow> int \<Rightarrow> rune list \<Rightarrow> ini_error + Value" where
  "newValue pnum t base raw =
     (let v = \<lparr>val_Type = t, val_raw = raw, val_str = []\<rparr>;
          number = (\<lambda>r. case pnum t base r of
             NumOk \<Rightarrow> Inr v
           | NumErrRange \<Rightarrow> Inr (v\<lparr>val_Type := StringType, val_str := r\<rparr>)
           | NumErrSyntax \<Rightarrow> Inl (ParseError ''invalid syntax''))
      in case t of
        NoneType \<Rightarrow> Inr v
      | BoolType \<Rightarrow> Inr v
      | DecimalType \<Rightarrow> number raw
      | IntegerType \<Rightarrow>
          (if base \<noteq> 10
           then (if length raw < 2 then Inl PanicIndexOutOfRange else number (drop 2 raw))
           else number raw)
      | StringType \<Rightarrow> Inr (v\<lparr>val_str := raw\<rparr>)
      | QuotedStringType \<Rightarrow>
          (if length raw < 2 then Inl PanicIndexOutOfRange
           else Inr (v\<lparr>val_str := butlast (tl raw)\<rparr>)))"

definition isTrimmable :: "rune \<Rightarrow> bool" where
  "isTrimmable r \<longleftrightarrow> r = LF \<or> r = R CHR '' ''"

definition TrimFunc :: "(rune \<Rightarrow> bool) \<Rightarrow> rune list \<Rightarrow> rune list" where
  "TrimFunc f s = rev (dropWhile f (rev (dropWhile f s)))"

definition getEscapedByte :: "rune \<Rightarrow> rune option" where
  "getEscapedByte b =
     (if b = SQUOTE then Some SQUOTE
      else if b = DQUOTE then Some DQUOTE
      else if b = R CHR ''n'' then Some LF
      else if b = R CHR ''t'' then Some 9
      else if b = BACKSLASH then Some BACKSLASH
      else None)"

text \<open>
  \<open>removeEscapedCharacters\<close> on the array below the slice: \<open>n\<close> is the length of \<open>b\<close>. Replacing an
  escape overwrites the backslash and moves the rest of \<open>b\<close> down by one, in the array.
\<close>

function unescape_loop :: "nat \<Rightarrow> nat \<Rightarrow> rune list \<Rightarrow> nat \<times> rune list" where
  "unescape_loop i n arr =
     (if i < n then
        (if isEscaped (if i = 0 then None else Some (arr ! (i - 1))) (arr ! i) then
           (case getEscapedByte (arr ! i) of
              None \<Rightarrow> (n, arr)
            | Some c \<Rightarrow>
                (let arr1 = arr[i - 1 := c] in
                 unescape_loop i (n - 1) (take i arr1 @ drop (Suc i) (take n arr1) @ drop (n - 1) arr1)))
         else unescape_loop (Suc i) n arr)
      else (n, arr))"
  by pat_completeness auto
termination
  by (relation "measure (\<lambda>(i, n, arr). n - i)") auto

definition removeEscapedCharacters :: "rune list \<Rightarrow> rune list \<times> rune list" where
  "removeEscapedCharacters b = (case unescape_loop 0 (length b) b of (n, arr) \<Rightarrow> (take n arr, arr))"

definition StringValue :: "Value \<Rightarrow> ini_error + rune list \<times> Value" where
  "StringValue v = (case val_Type v of
     QuotedStringType \<Rightarrow>
       (if length (val_raw v) < 2 then Inl PanicIndexOutOfRange
        else case removeEscapedCharacters (butlast (tl (val_raw v))) of
          (s, arr) \<Rightarrow> Inr (s, v\<lparr>val_raw := hd (val_raw v) # arr @ [last (val_raw v)]\<rparr>))
   | _ \<Rightarrow> Inr (TrimFunc isTrimmable (val_raw v), v))"

definition Value_BoolValue :: "Value \<Rightarrow> bool \<times> bool" where
  "Value_BoolValue v =
     (if isCaselessLitValue runesTrue (val_raw v) then (True, True)
      else if isCaselessLitValue runesFalse (val_raw v) then (False, True)
      else (False, False))"

section \<open>Sections and the visitor\<close>

record Section =
  sec_Name :: "rune list"
  sec_values :: "rune list \<rightharpoonup> Value"

type_synonym Sections = "rune list \<rightharpoonup> Section"

record DefaultVisitor =
  dv_scope :: "rune list"
  dv_Sections :: Sections

definition NewDefaultVisitor :: DefaultVisitor where
  "NewDefaultVisitor = \<lparr>dv_scope = [], dv_Sections = Map.empty\<rparr>"

definition emptySection :: Section where
  "emptySection = \<lparr>sec_Name = [], sec_values = Map.empty\<rparr>"

definition VisitExpr :: "strconv \<Rightarrow> DefaultVisitor \<Rightarrow> AST \<Rightarrow> ini_error + DefaultVisitor" where
  "VisitExpr pnum v expr =
     (let t = (case dv_Sections v (dv_scope v) of None \<Rightarrow> emptySection | Some t \<Rightarrow> t) in
      if Kind expr \<noteq> ASTKindExprStatement then Inl (ParseError ''unsupported expression'')
      else
        let opExpr = GetRoot expr in
        if Kind opExpr \<noteq> ASTKindEqualExpr then Inl (ParseError ''unsupported expression'')
        else
          let children = GetChildren opExpr in
          if length children \<le> 1 then Inl (ParseError ''unexpected token type'')
          else
            let rhs = children ! 1 in
            if \<not> (tok_t (Root rhs) = TokenLit \<or> tok_t (Root rhs) = TokenOp \<or> tok_t (Root rhs) = TokenSep)
            then Inl (ParseError ''unexpected token type'')
            else
              case newValue pnum (tok_ValueType (Root rhs)) (tok_base (Root rhs)) (tok_raw (Root rhs)) of
                Inl e \<Rightarrow> Inl e
              | Inr val \<Rightarrow>
                  Inr (v\<lparr>dv_Sections := (dv_Sections v)(dv_scope v \<mapsto>
                    t\<lparr>sec_values := (sec_values t)(EqualExprKey opExpr \<mapsto> val)\<rparr>)\<rparr>))"

definition VisitStatement :: "DefaultVisitor \<Rightarrow> AST \<Rightarrow> ini_error + DefaultVisitor" where
  "VisitStatement v stmt =
     (if Kind stmt \<noteq> ASTKindCompletedSectionStatement then Inl (ParseError ''unsupported statement'')
      else
        let child = GetRoot stmt in
        if Kind child \<noteq> ASTKindSectionStatement then Inl (ParseError ''unsupported child statement'')
        else
          let name = tok_raw (Root child) in
          Inr (v\<lparr>dv_Sections := (dv_Sections v)(name \<mapsto> emptySection), dv_scope := name\<rparr>))"

fun Walk :: "strconv \<Rightarrow> AST list \<Rightarrow> DefaultVisitor \<Rightarrow> ini_error + DefaultVisitor" where
  "Walk pnum [] v = Inr v"
| "Walk pnum (node # tree) v =
     bind_res
       (if Kind node = ASTKindExpr \<or> Kind node = ASTKindExprStatement then VisitExpr pnum v node
        else if Kind node = ASTKindStatement \<or> Kind node = ASTKindCompletedSectionStatement \<or>
          Kind node = ASTKindNestedSectionStatement \<or> Kind node = ASTKindCompletedNestedSectionStatement
        then VisitStatement v node
        else Inr v)
       (\<lambda>v'. Walk pnum tree v')"

definition ParseBytes :: "strconv \<Rightarrow> byte list \<Rightarrow> (ini_error + Sections) option" where
  "ParseBytes pnum b =
     (case ParseASTBytes b of
        None \<Rightarrow> None
      | Some (Inl e) \<Rightarrow> Some (Inl e)
      | Some (Inr tree) \<Rightarrow>
          Some (bind_res (Walk pnum tree NewDefaultVisitor) (\<lambda>v. Inr (dv_Sections v))))"

definition GetSection :: "Sections \<Rightarrow> rune list \<Rightarrow> Section option" where
  "GetSection t p = t p"

definition Section_Has :: "Section \<Rightarrow> rune list \<Rightarrow> bool" where
  "Section_Has t k \<longleftrightarrow> sec_values t k \<noteq> None"

definition Section_ValueType :: "Section \<Rightarrow> rune list \<Rightarrow> ValueType \<times> bool" where
  "Section_ValueType t k = (case sec_values t k of None \<Rightarrow> (NoneType, False) | Some v \<Rightarrow> (val_Type v, True))"

definition Section_Bool :: "Section \<Rightarrow> rune list \<Rightarrow> bool \<times> bool" where
  "Section_Bool t k = Value_BoolValue
     (case sec_values t k of None \<Rightarrow> \<lparr>val_Type = NoneType, val_raw = [], val_str = []\<rparr> | Some v \<Rightarrow> v)"

definition Section_String :: "Section \<Rightarrow> rune list \<Rightarrow> ini_error + rune list \<times> Section" where
  "Section_String t k = (case sec_values t k of
     None \<Rightarrow> Inr ([], t)
   | Some v \<Rightarrow> bind_res (StringValue v) (\<lambda>(s, v').
       Inr (s, t\<lparr>sec_values := (sec_values t)(k \<mapsto> v')\<rparr>)))"

declare unescape_loop.simps [simp del]

section \<open>The reader never indexes out of range\<close>

text \<open>
  A quoted literal keeps its two quotes: \<open>tok_ok\<close>. The trees the parser works on keep it for the
  right-hand side of every assignment.
\<close>

definition tok_ok :: "Token \<Rightarrow> bool" where
  "tok_ok t \<longleftrightarrow> (tok_ValueType t = QuotedStringType \<longrightarrow> 2 \<le> length (tok_raw t)) \<and>
     (tok_ValueType t = NoneType \<or> tok_ValueType t = StringType \<or> tok_ValueType t = QuotedStringType)"

definition equal_ok :: "nat \<Rightarrow> AST \<Rightarrow> bool" where
  "equal_ok n e \<longleftrightarrow> Kind e = ASTKindEqualExpr \<and> RootToken e \<and> length (Children e) = n \<and>
     (\<forall>c \<in> set (tl (Children e)). tok_ok (Root c))"

definition ast_ok :: "AST \<Rightarrow> bool" where
  "ast_ok k \<longleftrightarrow> (Kind k = ASTKindEqualExpr \<longrightarrow> equal_ok 1 k) \<and>
     (Kind k = ASTKindExprStatement \<longrightarrow> \<not> RootToken k \<and> (\<exists>e. Children k = [e] \<and> equal_ok 2 e))"

definition stack_asts_ok :: "ParseStack \<Rightarrow> bool" where
  "stack_asts_ok st \<longleftrightarrow> (\<forall>k \<in> set (ps_container st) \<union> set (ps_list st). ast_ok k)"

lemma lex_tok_ok: "lex_all b = Some toks \<Longrightarrow> tok \<in> set toks \<Longrightarrow> tok_ok tok"
proof (induction b arbitrary: toks rule: lex_all.induct)
  case (1 b)
  then have ne: "b \<noteq> []" by (auto simp: lex_all.simps)
  with "1.prems" obtain tok' n toks' where t: "next_token b = Inr (tok', n)"
    and l: "lex_all (drop n b) = Some toks'" "toks = tok' # toks'"
    by (auto simp: lex_all.simps [of b] split: sum.splits)
  obtain c cs where b: "b = c # cs" using ne by (cases b) auto
  have "tok_ok tok'"
    using t closing_quote_bound [of c cs]
    by (auto simp: b next_token_def newWSToken_def newCommaToken_def newCommentToken_def
        newNewlineToken_def newSepToken_def newOpToken_def newLitToken_def getStringValue_def
        newToken_def tok_ok_def Let_def split: if_splits option.splits sum.splits)
  with "1.IH" [OF ne t refl l(1)] "1.prems"(2) l(2) show ?case by auto
qed

definition asts_step_ok :: "step_result \<Rightarrow> bool" where
  "asts_step_ok r \<longleftrightarrow> (case r of Inl e \<Rightarrow> True | Inr (e, st, s) \<Rightarrow> stack_asts_ok st)"

lemma ast_ok_simple:
  "Kind k \<noteq> ASTKindEqualExpr \<Longrightarrow> Kind k \<noteq> ASTKindExprStatement \<Longrightarrow> ast_ok k"
  by (simp add: ast_ok_def)

lemma ast_ok_constructors:
  "ast_ok Start" "ast_ok (newExpression tok)" "ast_ok newStatement" "ast_ok (newSectionStatement tok)"
  "ast_ok (newCommentStatement tok)" "ast_ok (newCompletedSectionStatement k)" "ast_ok (newSkipStatement k)"
  "ast_ok (newEqualExpr k tok)"
  by (simp_all add: ast_ok_def equal_ok_def kind_simps)

lemma ast_ok_appendRaw: "Kind k = ASTKindExpr \<or> Kind k = ASTKindSectionStatement \<Longrightarrow> ast_ok (appendRaw k r)"
  by (auto simp: ast_ok_def appendRaw_def)

lemma ast_ok_assign:
  assumes "ast_ok k" and "Kind k = ASTKindEqualExpr" and "tok_ok tok"
  shows "ast_ok (newExprStatement (AppendChild k (newExpression tok)))"
proof -
  from assms(1,2) obtain key where "Children k = [key]" and "RootToken k"
    by (auto simp: ast_ok_def equal_ok_def length_Suc_conv)
  with assms show ?thesis
    by (simp add: ast_ok_def equal_ok_def kind_simps)
qed

lemma value_step_exprStatement:
  assumes "ast_ok k" and "Kind k = ASTKindExprStatement"
  shows "\<exists>k'. value_step st k tok = Push st k' \<and> ast_ok k'"
proof -
  from assms obtain e key rhs where k: "\<not> RootToken k" "Children k = [e]"
    and e: "equal_ok 2 e" "Children e = [key, rhs]" "tok_ok (Root rhs)"
    by (auto simp: ast_ok_def equal_ok_def length_Suc_conv numeral_2_eq_2)
  then show ?thesis
    using assms(2)
    by (auto simp: value_step_def Let_def GetRoot_def GetChildren_def SetChildren_def ast_ok_def
        equal_ok_def tok_ok_def)
qed

lemma Push_asts: "Push st k = Inr st' \<Longrightarrow> stack_asts_ok st \<Longrightarrow> ast_ok k \<Longrightarrow> stack_asts_ok st'"
  by (auto simp: Push_def stack_asts_ok_def split: if_splits)

lemma MarkComplete_asts:
  "MarkComplete st k = Inr st' \<Longrightarrow> stack_asts_ok st \<Longrightarrow> ast_ok k \<Longrightarrow> stack_asts_ok st'"
  by (auto simp: MarkComplete_def stack_asts_ok_def split: if_splits)

lemma markUnlessStart_asts:
  "markUnlessStart st k = Inr st' \<Longrightarrow> stack_asts_ok st \<Longrightarrow> ast_ok k \<Longrightarrow> stack_asts_ok st'"
  by (auto simp: markUnlessStart_def elim: MarkComplete_asts split: if_splits)

lemma asts_bind: "(\<And>x. m = Inr x \<Longrightarrow> asts_step_ok (f x)) \<Longrightarrow> asts_step_ok (bind_res m f)"
  by (cases m) (simp_all add: bind_res_def asts_step_ok_def)

lemma asts_done [simp]: "asts_step_ok (done_with e s st) = stack_asts_ok st"
  by (simp add: done_with_def asts_step_ok_def)

lemma asts_Inl [simp]: "asts_step_ok (Inl e)"
  by (simp add: asts_step_ok_def)

lemma value_step_asts:
  assumes "stack_asts_ok st" and "ast_ok k" and "tok_ok tok" and "value_step st k tok = Inr st'"
  shows "stack_asts_ok st'"
proof (cases "Kind k")
  case ASTKindExprStatement
  from value_step_exprStatement [OF assms(2) this, of st tok] obtain k' where
    "value_step st k tok = Push st k'" and "ast_ok k'" by blast
  with assms Push_asts show ?thesis by auto
next
  case ASTKindEqualExpr
  with assms Push_asts [OF _ assms(1) ast_ok_assign [OF assms(2) _ assms(3)]] show ?thesis
    by (simp add: value_step_def)
next
  case ASTKindExpr
  with assms Push_asts [OF _ assms(1) ast_ok_appendRaw] show ?thesis
    by (simp add: value_step_def)
qed (use assms in \<open>simp_all add: value_step_def\<close>)

lemma section_step_asts:
  assumes "stack_asts_ok st" and "section_step st k tok = Inr st'"
  shows "stack_asts_ok st'"
  using assms Push_asts [OF _ assms(1) ast_ok_appendRaw, of k] Push_asts [OF _ assms(1) ast_ok_constructors(4)]
  by (cases "Kind k") (simp_all add: section_step_def)

lemma state_step_asts:
  assumes "stack_asts_ok st" and "ast_ok k" and "tok_ok tok"
  shows "asts_step_ok (state_step state st s k tok)"
  using assms
  by (cases state)
    (auto simp: state_step_def intro!: asts_bind ast_ok_constructors split: if_splits
      elim: Push_asts MarkComplete_asts markUnlessStart_asts value_step_asts section_step_asts
      intro: Push_asts [OF _ markUnlessStart_asts] Push_asts [OF _ MarkComplete_asts] Push_asts [OF _ Push_asts]
        ast_ok_constructors)

lemma parse_step_asts:
  assumes "stack_asts_ok st" and "\<forall>t \<in> set tokens. tok_ok t"
  shows "asts_step_ok (parse_step tokens st s)"
proof (cases "ps_container st")
  case Nil
  then show ?thesis by (simp add: parse_step_def Pop_def bind_res_def asts_step_ok_def)
next
  case (Cons k rest)
  then have st: "stack_asts_ok (st\<lparr>ps_container := rest\<rparr>)" and k: "ast_ok k"
    using assms(1) by (auto simp: stack_asts_ok_def)
  define tok where "tok = (if tokens = [] then emptyToken else hd tokens)"
  have tok: "tok_ok tok"
    using assms(2) by (auto simp: tok_def emptyToken_def newToken_def tok_ok_def)
  obtain skip s' where skip: "ShouldSkip s tok = (skip, s')" by fastforce
  have "parse_step tokens st s =
      (if skip \<and> tokens = [] then done_with BreakLoop s' (st\<lparr>ps_container := rest\<rparr>)
       else state_step (if skip then SkipTokenState else parseTable (Kind k) (tok_t tok))
         (st\<lparr>ps_container := rest\<rparr>) s' k tok)"
    by (simp add: parse_step_def Pop_def Cons bind_res_def skip Let_def flip: tok_def)
  then show ?thesis
    using state_step_asts [OF st k tok] st by simp
qed

lemma parse_loop_asts:
  "stack_asts_ok st \<Longrightarrow> \<forall>t \<in> set tokens. tok_ok t \<Longrightarrow> parse_loop f tokens st s = Some (Inr st') \<Longrightarrow>
    stack_asts_ok st'"
proof (induction f tokens st s rule: parse_loop.induct)
  case (2 fuel tokens st s)
  have tl: "\<forall>t \<in> set (tl tokens). tok_ok t" using "2.prems"(2) by (cases tokens) auto
  from parse_step_asts [OF "2.prems"(1,2), of s] "2.prems" "2.IH" tl show ?case
    by (auto simp: asts_step_ok_def split: if_splits sum.splits prod.splits loop_end.splits)
qed simp

lemma ParseASTBytes_total:
  "\<exists>r. ParseASTBytes b = Some r \<and> r \<noteq> Inl PanicIndexOutOfRange \<and>
    (\<forall>tree. r = Inr tree \<longrightarrow> (\<forall>k \<in> set tree. ast_ok k))"
proof -
  define toks where "toks = (case lex_all (bytes_Runes b) of None \<Rightarrow> [] | Some toks \<Rightarrow> toks)"
  have toks: "tokenize b = Inr toks"
    by (auto simp: toks_def tokenize_def tokenize_runes_lex split: option.splits)
  have ok: "\<forall>t \<in> set toks. tok_ok t"
    using lex_tok_ok [of "bytes_Runes b"] by (cases "lex_all (bytes_Runes b)") (auto simp: toks_def)
  obtain r where r: "parse toks = Some r" "r \<noteq> Inl PanicIndexOutOfRange" using parse_total by blast
  have "\<forall>k \<in> set tree. ast_ok k" if "r = Inr tree" for tree
  proof -
    have "stack_asts_ok \<lparr>ps_sizeContainer = 3, ps_sizeList = length toks, ps_container = [Start], ps_list = []\<rparr>"
      by (simp add: stack_asts_ok_def ast_ok_constructors)
    from parse_loop_asts [OF this ok] r that show ?thesis
      by (auto simp: parse_def Push_def newParseStack_def stack_asts_ok_def simp del: parse_loop.simps
          split: option.splits sum.splits if_splits)
  qed
  with r toks show ?thesis by (auto simp: ParseASTBytes_def)
qed

lemma VisitExpr_no_panic:
  assumes "ast_ok k" and "Kind k = ASTKindExprStatement"
  shows "VisitExpr pnum v k \<noteq> Inl PanicIndexOutOfRange"
proof -
  from assms obtain e key rhs where k: "\<not> RootToken k" "Children k = [e]"
    and e: "RootToken e" "Children e = [key, rhs]" "tok_ok (Root rhs)"
    by (auto simp: ast_ok_def equal_ok_def length_Suc_conv numeral_2_eq_2)
  then show ?thesis
    by (auto simp: VisitExpr_def GetRoot_def GetChildren_def Let_def newValue_def tok_ok_def
        split: ValueType.splits)
qed

lemma Walk_no_panic: "\<forall>k \<in> set tree. ast_ok k \<Longrightarrow> Walk pnum tree v \<noteq> Inl PanicIndexOutOfRange"
proof (induction tree arbitrary: v)
  case (Cons node tree)
  have "VisitStatement v node \<noteq> Inl PanicIndexOutOfRange"
    by (simp add: VisitStatement_def Let_def)
  moreover have "Kind node = ASTKindExpr \<or> Kind node = ASTKindExprStatement \<Longrightarrow>
      VisitExpr pnum v node \<noteq> Inl PanicIndexOutOfRange"
    using VisitExpr_no_panic [of node] Cons.prems by (auto simp: VisitExpr_def)
  ultimately show ?case
    using Cons by (auto simp: bind_res_def split: sum.splits)
qed simp

lemma ParseBytes_total: "\<exists>r. ParseBytes pnum b = Some r \<and> r \<noteq> Inl PanicIndexOutOfRange"
proof -
  obtain r where r: "ParseASTBytes b = Some r" "r \<noteq> Inl PanicIndexOutOfRange"
    "\<forall>tree. r = Inr tree \<longrightarrow> (\<forall>k \<in> set tree. ast_ok k)"
    using ParseASTBytes_total by blast
  then show ?thesis
    using Walk_no_panic [of _ pnum NewDefaultVisitor]
    by (cases r) (auto simp: ParseBytes_def bind_res_def split: sum.splits)
qed

end
