(* ===== verification/IniRoundtrip.thy ===== *)
theory IniRoundtrip
  imports IniVisitor
begin

text \<open>
  Reading back a configuration file: \<open>file_text\<close> writes sections and their entries one per line,
  as the shared configuration and credentials files have them, and the INI reader of
  \<open>internal/ini\<close> returns those sections. The names, keys and values are printable ASCII with inner
  spaces, colons and equal signs (\<open>[profile dev]\<close>, \<open>endpoint = https://host\<close>); what starts a
  comment, a quoted string or a list is left out.
\<close>

section \<open>The files\<close>

type_synonym entry = "rune list \<times> rune list"
type_synonym ini_file = "(rune list \<times> entry list) list"

definition text_rune :: "rune \<Rightarrow> bool" where
  "text_rune c \<longleftrightarrow> 32 \<le> c \<and> c \<le> 126 \<and> c \<noteq> 34 \<and> c \<noteq> 35 \<and> c \<noteq> 44 \<and> c \<noteq> 59"

definition lit_rune :: "rune \<Rightarrow> bool" where
  "lit_rune c \<longleftrightarrow> text_rune c \<and> c \<noteq> 32 \<and> c \<noteq> 58 \<and> c \<noteq> 61 \<and> c \<noteq> 91 \<and> c \<noteq> 93"

definition value_ok :: "rune list \<Rightarrow> bool" where
  "value_ok v \<longleftrightarrow> v \<noteq> [] \<and> (\<forall>c \<in> set v. text_rune c) \<and> lit_rune (hd v) \<and> last v \<noteq> 32"

definition name_ok :: "rune list \<Rightarrow> bool" where
  "name_ok v \<longleftrightarrow> value_ok v \<and> 91 \<notin> set v \<and> 93 \<notin> set v"

definition key_ok :: "rune list \<Rightarrow> bool" where
  "key_ok v \<longleftrightarrow> name_ok v \<and> 58 \<notin> set v \<and> 61 \<notin> set v"

definition entry_text :: "entry \<Rightarrow> rune list" where
  "entry_text e = fst e @ 61 # snd e @ [10]"

definition section_text :: "rune list \<times> entry list \<Rightarrow> rune list" where
  "section_text s = 91 # fst s @ 93 # 10 # concat (map entry_text (snd s))"

definition file_text :: "ini_file \<Rightarrow> rune list" where
  "file_text f = concat (map section_text f)"

definition file_bytes :: "ini_file \<Rightarrow> byte list" where
  "file_bytes f = map of_nat (file_text f)"

definition section_ok :: "rune list \<times> entry list \<Rightarrow> bool" where
  "section_ok s \<longleftrightarrow> name_ok (fst s) \<and> (\<forall>e \<in> set (snd s). key_ok (fst e) \<and> value_ok (snd e))"

definition file_ok :: "ini_file \<Rightarrow> bool" where
  "file_ok f \<longleftrightarrow> (\<forall>s \<in> set f. section_ok s)"

text \<open>What the file says: a section that comes again replaces the one before, as a key does.\<close>

definition text_value :: "rune list \<Rightarrow> Value" where
  "text_value v = \<lparr>val_Type = StringType, val_raw = v, val_str = v\<rparr>"

definition entries_section :: "entry list \<Rightarrow> Section" where
  "entries_section es = \<lparr>sec_Name = [], sec_values = map_of (rev (map (map_prod id text_value) es))\<rparr>"

definition file_sections :: "ini_file \<Rightarrow> Sections" where
  "file_sections f = map_of (rev (map (map_prod id entries_section) f))"

section \<open>Tokens of a line\<close>

definition text_token :: "Token \<Rightarrow> bool" where
  "text_token tok \<longleftrightarrow> tok_t tok \<in> {TokenLit, TokenWS, TokenOp, TokenSep} \<and>
     (tok_t tok = TokenLit \<longrightarrow> tok = newToken TokenLit (tok_raw tok) StringType)"

definition token_of :: "rune \<Rightarrow> Token \<Rightarrow> bool" where
  "token_of c tok \<longleftrightarrow> text_token tok \<and> (lit_rune c \<longrightarrow> tok_t tok = TokenLit) \<and>
     (tok_t tok = TokenOp \<longrightarrow> c = 58 \<or> c = 61) \<and> (tok_t tok = TokenSep \<longrightarrow> c = 91 \<or> c = 93)"

abbreviation stop_rune :: "rune \<Rightarrow> bool" where
  "stop_rune c \<equiv> c = 10 \<or> c = 61 \<or> c = 93"

lemma getValue_stop: "stop_rune c \<Longrightarrow> getValue (x @ c # r) \<le> length x"
  by (induction x) (auto simp: isNewline_def isOp_def isValid_def isValidRune_def rune_consts)

lemma not_whitespace_stop: "stop_rune c \<Longrightarrow> \<not> isWhitespace c"
  by (auto simp: isWhitespace_def unicode_IsSpace_def rune_consts)

lemma takeWhile_stop:
  "stop_rune c \<Longrightarrow> length (takeWhile isWhitespace (x @ c # r)) \<le> length x"
  using not_whitespace_stop [of c] by (simp add: takeWhile_append length_takeWhile_le)

lemma text_whitespace: "text_rune c \<Longrightarrow> isWhitespace c \<longleftrightarrow> c = 32"
  by (auto simp: isWhitespace_def unicode_IsSpace_def text_rune_def rune_consts)

lemma text_starts:
  assumes "text_rune c"
  shows "\<not> isComma c" and "\<not> isComment (c # cs)" and "\<not> isNewline (c # cs)" and "c \<noteq> DQUOTE"
  using assms by (auto simp: isComma_def isComment_def isNewline_def text_rune_def rune_consts split: list.splits)

lemma next_token_text:
  assumes "text_rune c" and "stop_rune d"
  shows "\<exists>tok n. next_token (c # x @ d # r) = Inr (tok, n) \<and> n \<le> Suc (length x) \<and> token_of c tok"
proof -
  note start = text_starts [OF assms(1)]
  consider "c = 32" | "c = 91 \<or> c = 93" | "c = 58 \<or> c = 61" | "lit_rune c"
    using assms(1) by (auto simp: lit_rune_def)
  then show ?thesis
  proof cases
    case 1
    then show ?thesis
      using text_whitespace [OF assms(1)] takeWhile_stop [OF assms(2), of x r]
      by (simp add: next_token_def newWSToken_def newToken_def token_of_def text_token_def lit_rune_def Let_def)
  next
    case 2
    then show ?thesis
      using text_whitespace [OF assms(1)] start
      by (auto simp: next_token_def isSep_def newSepToken_def newToken_def token_of_def text_token_def lit_rune_def)
  next
    case 3
    then show ?thesis
      using text_whitespace [OF assms(1)] start
      by (auto simp: next_token_def isSep_def isOp_def newOpToken_def newToken_def token_of_def text_token_def lit_rune_def)
  next
    case 4
    then have "\<not> isSep (c # x @ d # r)" "\<not> isOp (c # x @ d # r)" "\<not> isWhitespace c"
      using text_whitespace [OF assms(1)] by (auto simp: isSep_def isOp_def lit_rune_def)
    with start getValue_stop [OF assms(2), of "c # x" r] show ?thesis
      by (simp add: next_token_def newLitToken_def newToken_def token_of_def text_token_def Let_def
          lit_rune_def del: getValue.simps)
  qed
qed

definition tokens_of :: "rune list \<Rightarrow> Token list \<Rightarrow> bool" where
  "tokens_of x toks \<longleftrightarrow> concat (map tok_raw toks) = x \<and>
     (\<forall>tok \<in> set toks. tok_raw tok \<noteq> [] \<and> (\<exists>c \<in> set x. token_of c tok)) \<and>
     (x \<noteq> [] \<longrightarrow> toks \<noteq> [] \<and> token_of (hd x) (hd toks))"

lemma lex_text:
  assumes "\<forall>c \<in> set x. text_rune c" and "stop_rune d"
  shows "\<exists>toks. tokens_of x toks \<and>
    lex_all (x @ d # r) = map_option (\<lambda>ts. toks @ ts) (lex_all (d # r))"
  using assms(1)
proof (induction x rule: length_induct)
  case (1 x)
  show ?case
  proof (cases x)
    case Nil
    then show ?thesis
      by (intro exI [of _ "[]"]) (simp add: tokens_of_def option.map_ident)
  next
    case (Cons c cs)
    with "1.prems" have "text_rune c" by simp
    from next_token_text [OF this assms(2), of cs r] obtain tok n
      where t: "next_token (x @ d # r) = Inr (tok, n)" and n: "n \<le> length x" and tok: "token_of c tok"
      by (auto simp: Cons)
    from next_token_raw [OF _ t] n have raw: "tok_raw tok = take n x" "0 < n"
      by simp_all
    then have ne: "tok_raw tok \<noteq> []" by (simp add: Cons)
    have "length (drop n x) < length x" using raw(2) Cons by simp
    moreover have "\<forall>c \<in> set (drop n x). text_rune c" using "1.prems" by (meson in_set_dropD)
    ultimately obtain toks where toks: "tokens_of (drop n x) toks"
      and l: "lex_all (drop n x @ d # r) = map_option (\<lambda>ts. toks @ ts) (lex_all (d # r))"
      using "1.IH" by blast
    have "lex_all (x @ d # r) = map_option (Cons tok) (lex_all (drop n x @ d # r))"
      using n by (simp add: lex_all.simps [of "x @ d # r"] t)
    then have "lex_all (x @ d # r) = map_option (\<lambda>ts. (tok # toks) @ ts) (lex_all (d # r))"
      by (simp add: l option.map_comp comp_def)
    moreover have "tokens_of x (tok # toks)"
      using toks raw(1) tok ne in_set_dropD [of _ n x] by (auto simp: tokens_of_def Cons)
    ultimately show ?thesis by blast
  qed
qed

definition opToken :: Token where "opToken = newToken TokenOp (runes ''='') NoneType"
definition openToken :: Token where "openToken = newToken TokenSep openBrace NoneType"
definition closeToken :: Token where "closeToken = newToken TokenSep closeBrace NoneType"
definition nlToken :: Token where "nlToken = newToken TokenNL [10] NoneType"

lemmas mark_tokens = opToken_def openToken_def closeToken_def nlToken_def

lemma next_marks:
  "next_token (10 # r) = Inr (nlToken, 1)"
  "next_token (61 # r) = Inr (opToken, 1)"
  "next_token (91 # r) = Inr (openToken, 1)"
  "next_token (93 # r) = Inr (closeToken, 1)"
  by (simp_all add: next_token_def isWhitespace_def unicode_IsSpace_def isComma_def isComment_def
      isNewline_def newNewlineToken_def rune_consts mark_tokens isSep_def newSepToken_def
      isOp_def newOpToken_def openBrace_def closeBrace_def runes_def split: list.splits)

lemma lex_marks:
  "lex_all (10 # r) = map_option (Cons nlToken) (lex_all r)"
  "lex_all (61 # r) = map_option (Cons opToken) (lex_all r)"
  "lex_all (91 # r) = map_option (Cons openToken) (lex_all r)"
  "lex_all (93 # r) = map_option (Cons closeToken) (lex_all r)"
  by (simp_all add: lex_all.simps [of "_ # r"] next_marks)

section \<open>Passes of the parse loop\<close>

text \<open>\<open>stk n k dn\<close>: one unfinished tree \<open>k\<close>, the finished trees \<open>dn\<close>, room for \<open>n\<close>.\<close>

definition stk :: "nat \<Rightarrow> AST \<Rightarrow> AST list \<Rightarrow> ParseStack" where
  "stk n k dn = \<lparr>ps_sizeContainer = 3, ps_sizeList = n, ps_container = [k], ps_list = dn\<rparr>"

definition flush :: "AST \<Rightarrow> AST list \<Rightarrow> AST list" where
  "flush k dn = (if Kind k = ASTKindStart then dn else dn @ [k])"

text \<open>\<open>steps toks st st'\<close>: reading \<open>toks\<close>, whatever follows, the loop goes from \<open>st\<close> to \<open>st'\<close>.\<close>

definition steps :: "Token list \<Rightarrow> ParseStack \<Rightarrow> ParseStack \<Rightarrow> bool" where
  "steps toks st st' \<longleftrightarrow> (\<forall>f rest s. \<not> shouldSkip s \<longrightarrow> (\<exists>s'. \<not> shouldSkip s' \<and>
     parse_loop (length toks + f) (toks @ rest) st s = parse_loop f rest st' s'))"

lemma steps_Nil: "steps [] st st"
  by (auto simp: steps_def)

lemma steps_append: "steps xs st st' \<Longrightarrow> steps ys st' st'' \<Longrightarrow> steps (xs @ ys) st st''"
  unfolding steps_def by (metis append.assoc length_append add.assoc)

lemma steps_token:
  assumes "\<And>s. \<not> shouldSkip s \<Longrightarrow>
    state_step (parseTable (Kind k) (tok_t tok)) (stk n k dn\<lparr>ps_container := []\<rparr>) s k tok = done_with EndOfBody s st'"
  shows "steps [tok] (stk n k dn) st'"
  unfolding steps_def
proof (intro allI impI)
  fix f rest and s :: skipper
  assume s: "\<not> shouldSkip s"
  have "parse_step ([tok] @ rest) (stk n k dn) s = done_with EndOfBody (s\<lparr>prevTok := tok\<rparr>) st'"
    using assms [of "s\<lparr>prevTok := tok\<rparr>"] s
    by (simp add: parse_step_def Pop_def bind_res_def stk_def ShouldSkip_def)
  then have "parse_loop (length [tok] + f) ([tok] @ rest) (stk n k dn) s = parse_loop f rest st' (s\<lparr>prevTok := tok\<rparr>)"
    by (simp add: Len_def stk_def done_with_def)
  then show "\<exists>s'. \<not> shouldSkip s' \<and> parse_loop (length [tok] + f) ([tok] @ rest) (stk n k dn) s = parse_loop f rest st' s'"
    using s by (intro exI [of _ "s\<lparr>prevTok := tok\<rparr>"]) simp
qed

lemma steps_Cons: "steps [tok] st st' \<Longrightarrow> steps toks st' st'' \<Longrightarrow> steps (tok # toks) st st''"
  using steps_append [of "[tok]"] by simp

lemmas pass_defs = stk_def flush_def state_step_def bind_res_def done_with_def markUnlessStart_def
  MarkComplete_def Push_def Len_def

text \<open>Tokens appended to a name or a key, and to a value.\<close>

definition words :: "Token list \<Rightarrow> rune list" where
  "words toks = concat (map tok_raw toks)"

lemma appendRaw_appendRaw: "appendRaw (appendRaw k a) b = appendRaw k (a @ b)"
  by (simp add: appendRaw_def)

lemma appendRaw_Nil: "appendRaw k [] = k"
  by (cases k) (simp add: appendRaw_def)

lemma Kind_appendRaw [simp]: "Kind (appendRaw k a) = Kind k"
  by (simp add: appendRaw_def)

lemma steps_appendRaw:
  assumes "\<forall>tok \<in> set toks. tok_t tok \<in> T"
    and "\<And>k' tok. Kind k' = Kind k \<Longrightarrow> tok_t tok \<in> T \<Longrightarrow> steps [tok] (stk n k' dn) (stk n (appendRaw k' (tok_raw tok)) dn)"
  shows "steps toks (stk n k dn) (stk n (appendRaw k (words toks)) dn)"
  using assms
proof (induction toks arbitrary: k)
  case Nil
  then show ?case by (simp add: words_def appendRaw_Nil steps_Nil)
next
  case (Cons tok toks)
  have "steps [tok] (stk n k dn) (stk n (appendRaw k (tok_raw tok)) dn)" using Cons.prems by simp
  moreover have "steps toks (stk n (appendRaw k (tok_raw tok)) dn)
      (stk n (appendRaw (appendRaw k (tok_raw tok)) (words toks)) dn)"
    using Cons.prems by (intro Cons.IH) simp_all
  ultimately show ?case
    by (simp add: steps_Cons appendRaw_appendRaw words_def)
qed

lemma steps_section_word:
  assumes "Kind k = ASTKindSectionStatement" and "tok_t tok \<in> {TokenLit, TokenWS, TokenOp}"
  shows "steps [tok] (stk n k dn) (stk n (appendRaw k (tok_raw tok)) dn)"
  using assms by (intro steps_token) (auto simp: pass_defs section_step_def)

lemma steps_key_word:
  assumes "Kind k = ASTKindExpr" and "tok_t tok \<in> {TokenLit, TokenWS}"
  shows "steps [tok] (stk n k dn) (stk n (appendRaw k (tok_raw tok)) dn)"
  using assms by (intro steps_token) (auto simp: pass_defs value_step_def)

text \<open>The statement \<open>key = value\<close>, where the tokens of the value so far are the runes \<open>v\<close>.\<close>

definition assign_ast :: "rune list \<Rightarrow> rune list \<Rightarrow> AST" where
  "assign_ast key v = newExprStatement (AST ASTKindEqualExpr opToken True
     [newExpression (newToken TokenLit key StringType), newExpression (newToken TokenLit v StringType)])"

lemma steps_value_word:
  assumes "text_token tok"
  shows "steps [tok] (stk n (assign_ast key v) dn) (stk n (assign_ast key (v @ tok_raw tok)) dn)"
  using assms by (intro steps_token) (auto simp: pass_defs value_step_def text_token_def assign_ast_def kind_simps
      GetChildren_def newToken_def Let_def)

lemma steps_value_words:
  "\<forall>tok \<in> set toks. text_token tok \<Longrightarrow>
    steps toks (stk n (assign_ast key v) dn) (stk n (assign_ast key (v @ words toks)) dn)"
proof (induction toks arbitrary: v)
  case Nil
  then show ?case by (simp add: words_def steps_Nil)
next
  case (Cons tok toks)
  have "steps toks (stk n (assign_ast key (v @ tok_raw tok)) dn) (stk n (assign_ast key ((v @ tok_raw tok) @ words toks)) dn)"
    by (intro Cons.IH) (use Cons.prems in simp)
  moreover have "steps [tok] (stk n (assign_ast key v) dn) (stk n (assign_ast key (v @ tok_raw tok)) dn)"
    using Cons.prems by (intro steps_value_word) simp
  ultimately show ?case
    by (simp add: steps_Cons words_def)
qed

section \<open>Lines\<close>

definition section_ast :: "rune list \<Rightarrow> AST" where
  "section_ast name = newCompletedSectionStatement (newSectionStatement (newToken TokenLit name StringType))"

definition line_start :: "AST \<Rightarrow> bool" where
  "line_start k \<longleftrightarrow> Kind k = ASTKindStart \<or> Kind k = ASTKindCompletedSectionStatement"

lemma tokens_of_split:
  assumes "tokens_of x toks" and "x \<noteq> []" and "lit_rune (hd x)"
  obtains tok toks' where "toks = tok # toks'" and "tok = newToken TokenLit (tok_raw tok) StringType"
    and "tok_raw tok @ words toks' = x" and "\<forall>t \<in> set toks'. \<exists>c \<in> set x. token_of c t"
proof (cases toks)
  case (Cons tok toks')
  moreover have "tok = newToken TokenLit (tok_raw tok) StringType"
    using assms Cons by (auto simp: tokens_of_def token_of_def text_token_def)
  ultimately show ?thesis
    using assms(1) that by (auto simp: tokens_of_def words_def)
qed (use assms in \<open>simp add: tokens_of_def\<close>)

lemma trim_text:
  assumes "value_ok v"
  shows "trim_right (trim_left v) = v"
proof -
  from assms have "hd v \<in> set v" "last v \<in> set v" and ne: "v \<noteq> []"
    by (auto simp: value_ok_def)
  with assms have "\<not> isWhitespace (hd v)" "\<not> isWhitespace (last v)"
    using text_whitespace by (auto simp: value_ok_def lit_rune_def)
  with ne have "trim_left v = v" "trim_right v = v"
    by (cases v, simp_all add: trim_left_def) (cases v rule: rev_cases, simp_all add: trim_right_def)
  then show ?thesis by simp
qed

lemma steps_section_line:
  assumes name: "name_ok name" and toks: "tokens_of name toks" and k: "line_start k"
    and room: "length (flush k dn) \<le> n"
  shows "steps (openToken # toks @ [closeToken, nlToken]) (stk n k dn) (stk n (section_ast name) (flush k dn))"
proof -
  from name have v: "name \<noteq> []" "lit_rune (hd name)" by (auto simp: name_ok_def value_ok_def)
  obtain tok toks' where t: "toks = tok # toks'" and lit: "tok = newToken TokenLit (tok_raw tok) StringType"
    and raw: "tok_raw tok @ words toks' = name" and ts: "\<forall>t \<in> set toks'. \<exists>c \<in> set name. token_of c t"
    by (rule tokens_of_split [OF toks v])
  have "\<forall>t \<in> set toks'. tok_t t \<in> {TokenLit, TokenWS, TokenOp}"
    using ts name by (fastforce simp: token_of_def text_token_def name_ok_def)
  then have words: "steps toks' (stk n (newSectionStatement tok) (flush k dn))
      (stk n (appendRaw (newSectionStatement tok) (words toks')) (flush k dn))"
    by (rule steps_appendRaw) (auto intro!: steps_section_word simp: newSectionStatement_def newASTWithRootToken_def)
  have sec: "appendRaw (newSectionStatement tok) (words toks') = newSectionStatement (newToken TokenLit name StringType)"
    using raw by (subst (1) lit) (simp add: kind_simps newToken_def)
  have "steps [openToken] (stk n k dn) (stk n newStatement (flush k dn))"
    using k room by (intro steps_token) (auto simp: pass_defs line_start_def mark_tokens newToken_def openBrace_def)
  moreover have "steps [tok] (stk n newStatement (flush k dn)) (stk n (newSectionStatement tok) (flush k dn))"
    by (intro steps_token; subst lit) (simp add: pass_defs section_step_def newToken_def kind_simps)
  moreover have "steps [closeToken] (stk n (newSectionStatement (newToken TokenLit name StringType)) (flush k dn))
      (stk n (section_ast name) (flush k dn))"
    using trim_text [of name] name
    by (intro steps_token) (simp add: pass_defs mark_tokens newToken_def section_ast_def kind_simps name_ok_def)
  moreover have "steps [nlToken] (stk n (section_ast name) (flush k dn)) (stk n (section_ast name) (flush k dn))"
    by (intro steps_token) (simp add: pass_defs mark_tokens newToken_def section_ast_def kind_simps)
  ultimately show ?thesis
    using words unfolding sec t by (auto intro: steps_Cons steps_append)
qed

lemma steps_entry_line:
  assumes key: "key_ok key" and kt: "tokens_of key ktoks" and val: "value_ok v" and vt: "tokens_of v vtoks"
    and k: "line_start k" and room: "length (flush k dn) < n"
  shows "steps (ktoks @ opToken # vtoks @ [nlToken]) (stk n k dn) (stk n Start (flush k dn @ [assign_ast key v]))"
proof -
  let ?dn = "flush k dn"
  from key have kk: "key \<noteq> []" "lit_rune (hd key)" by (auto simp: key_ok_def name_ok_def value_ok_def)
  from val have vv: "v \<noteq> []" "lit_rune (hd v)" by (auto simp: value_ok_def)
  obtain kt0 kts where k0: "ktoks = kt0 # kts" and klit: "kt0 = newToken TokenLit (tok_raw kt0) StringType"
    and kraw: "tok_raw kt0 @ words kts = key" and kts: "\<forall>t \<in> set kts. \<exists>c \<in> set key. token_of c t"
    by (rule tokens_of_split [OF kt kk])
  obtain vt0 vts where v0: "vtoks = vt0 # vts" and vlit: "vt0 = newToken TokenLit (tok_raw vt0) StringType"
    and vraw: "tok_raw vt0 @ words vts = v" and vts: "\<forall>t \<in> set vts. \<exists>c \<in> set v. token_of c t"
    by (rule tokens_of_split [OF vt vv])
  have "\<forall>t \<in> set kts. tok_t t \<in> {TokenLit, TokenWS}"
    using kts key by (fastforce simp: token_of_def text_token_def key_ok_def name_ok_def)
  then have "steps kts (stk n (newExpression kt0) ?dn) (stk n (appendRaw (newExpression kt0) (words kts)) ?dn)"
    by (rule steps_appendRaw) (auto intro!: steps_key_word simp: newExpression_def newASTWithRootToken_def)
  moreover have "appendRaw (newExpression kt0) (words kts) = newExpression (newToken TokenLit key StringType)"
    using kraw by (subst (1) klit) (simp add: kind_simps newToken_def)
  ultimately have kwords: "steps kts (stk n (newExpression kt0) ?dn) (stk n (newExpression (newToken TokenLit key StringType)) ?dn)"
    by simp
  let ?eq = "newEqualExpr (newExpression (newToken TokenLit key StringType)) opToken"
  have s1: "steps [kt0] (stk n k dn) (stk n (newExpression kt0) ?dn)"
    using k room by (intro steps_token; subst klit) (auto simp: pass_defs line_start_def newToken_def)
  have s2: "steps [opToken] (stk n (newExpression (newToken TokenLit key StringType)) ?dn) (stk n ?eq ?dn)"
    using trim_text [of key] key
    by (intro steps_token) (simp add: pass_defs mark_tokens newToken_def kind_simps key_ok_def name_ok_def)
  have s3: "steps [vt0] (stk n ?eq ?dn) (stk n (assign_ast key (tok_raw vt0)) ?dn)"
    by (intro steps_token; subst (1 2) vlit) (simp add: pass_defs value_step_def newToken_def kind_simps assign_ast_def)
  have s4: "steps vts (stk n (assign_ast key (tok_raw vt0)) ?dn) (stk n (assign_ast key v) ?dn)"
    using steps_value_words [of vts n key "tok_raw vt0" ?dn] vts by (auto simp: vraw token_of_def)
  have s5: "steps [nlToken] (stk n (assign_ast key v) ?dn) (stk n Start (?dn @ [assign_ast key v]))"
    using room by (intro steps_token) (simp add: pass_defs mark_tokens newToken_def kind_simps assign_ast_def)
  show ?thesis
    using steps_Cons [OF s1 steps_append [OF kwords steps_Cons [OF s2 steps_Cons [OF s3 steps_append [OF s4 s5]]]]]
    by (simp add: k0 v0)
qed

section \<open>Texts\<close>

text \<open>
  \<open>adds_trees toks ks\<close>: from the start of a line the tokens \<open>toks\<close> add the trees \<open>ks\<close>, the last
  of them perhaps still unfinished. \<open>parses_text x ks\<close>: the text \<open>x\<close> has such tokens.
\<close>

definition adds_trees :: "Token list \<Rightarrow> AST list \<Rightarrow> bool" where
  "adds_trees toks ks \<longleftrightarrow> length ks \<le> length toks \<and>
     (\<forall>n k dn. line_start k \<longrightarrow> length (flush k dn) + length ks \<le> n \<longrightarrow>
       (\<exists>k' dn'. steps toks (stk n k dn) (stk n k' dn') \<and> line_start k' \<and> flush k' dn' = flush k dn @ ks))"

definition parses_text :: "rune list \<Rightarrow> AST list \<Rightarrow> bool" where
  "parses_text x ks \<longleftrightarrow> (\<forall>r. \<exists>toks. adds_trees toks ks \<and>
     lex_all (x @ r) = map_option (\<lambda>ts. toks @ ts) (lex_all r))"

lemma line_start_simps: "line_start Start" "line_start (section_ast name)"
  by (simp_all add: line_start_def section_ast_def kind_simps)

lemma flush_simps: "flush Start dn = dn" "flush (section_ast name) dn = dn @ [section_ast name]"
  by (simp_all add: flush_def section_ast_def kind_simps)

lemma adds_trees_Nil: "adds_trees [] []"
  unfolding adds_trees_def using steps_Nil by fastforce

lemma adds_trees_append:
  assumes xs: "adds_trees xs ks" and ys: "adds_trees ys ls"
  shows "adds_trees (xs @ ys) (ks @ ls)"
  unfolding adds_trees_def
proof (intro conjI allI impI)
  show "length (ks @ ls) \<le> length (xs @ ys)"
    using xs ys by (simp add: adds_trees_def)
next
  fix n k dn
  assume k: "line_start k" and room: "length (flush k dn) + length (ks @ ls) \<le> n"
  then have "length (flush k dn) + length ks \<le> n" by simp
  with xs k obtain k1 dn1 where 1: "steps xs (stk n k dn) (stk n k1 dn1)" "line_start k1" "flush k1 dn1 = flush k dn @ ks"
    unfolding adds_trees_def by blast
  with room have "length (flush k1 dn1) + length ls \<le> n" by simp
  with ys 1(2) obtain k2 dn2 where 2: "steps ys (stk n k1 dn1) (stk n k2 dn2)" "line_start k2"
    "flush k2 dn2 = flush k1 dn1 @ ls"
    unfolding adds_trees_def by blast
  from steps_append [OF 1(1) 2(1)] 1(3) 2(2,3)
  show "\<exists>k' dn'. steps (xs @ ys) (stk n k dn) (stk n k' dn') \<and> line_start k' \<and> flush k' dn' = flush k dn @ ks @ ls"
    by auto
qed

lemma adds_section_line:
  assumes "name_ok name" and "tokens_of name toks"
  shows "adds_trees (openToken # toks @ [closeToken, nlToken]) [section_ast name]"
  unfolding adds_trees_def
proof (intro conjI allI impI)
  fix n k dn
  assume "line_start k" and "length (flush k dn) + length [section_ast name] \<le> n"
  then show "\<exists>k' dn'. steps (openToken # toks @ [closeToken, nlToken]) (stk n k dn) (stk n k' dn') \<and>
      line_start k' \<and> flush k' dn' = flush k dn @ [section_ast name]"
    using steps_section_line [OF assms, of k dn n] line_start_simps(2) flush_simps(2) by fastforce
qed simp

lemma adds_entry_line:
  assumes "key_ok key" and "tokens_of key ktoks" and "value_ok v" and "tokens_of v vtoks"
  shows "adds_trees (ktoks @ opToken # vtoks @ [nlToken]) [assign_ast key v]"
  unfolding adds_trees_def
proof (intro conjI allI impI)
  fix n k dn
  assume "line_start k" and "length (flush k dn) + length [assign_ast key v] \<le> n"
  then show "\<exists>k' dn'. steps (ktoks @ opToken # vtoks @ [nlToken]) (stk n k dn) (stk n k' dn') \<and>
      line_start k' \<and> flush k' dn' = flush k dn @ [assign_ast key v]"
    using steps_entry_line [OF assms, of k dn n] line_start_simps(1) flush_simps(1) by fastforce
qed simp

lemma parses_text_Nil: "parses_text [] []"
  unfolding parses_text_def
  by (intro allI exI [of _ "[]"]) (simp add: adds_trees_Nil option.map_ident_strong)

lemma parses_text_append:
  assumes "parses_text x ks" and "parses_text y ls"
  shows "parses_text (x @ y) (ks @ ls)"
  unfolding parses_text_def
proof
  fix r
  obtain ys where y: "adds_trees ys ls" "lex_all (y @ r) = map_option (\<lambda>ts. ys @ ts) (lex_all r)"
    using assms(2) unfolding parses_text_def by blast
  obtain xs where x: "adds_trees xs ks" "lex_all (x @ y @ r) = map_option (\<lambda>ts. xs @ ts) (lex_all (y @ r))"
    using assms(1) unfolding parses_text_def by blast
  show "\<exists>toks. adds_trees toks (ks @ ls) \<and> lex_all ((x @ y) @ r) = map_option (\<lambda>ts. toks @ ts) (lex_all r)"
    by (intro exI [of _ "xs @ ys"] conjI adds_trees_append x(1) y(1))
      (simp only: append_assoc x(2) y(2) option.map_comp comp_def)
qed

lemma parses_text_concat:
  "\<forall>x \<in> set xs. parses_text (g x) (h x) \<Longrightarrow> parses_text (concat (map g xs)) (concat (map h xs))"
  by (induction xs) (simp_all add: parses_text_Nil parses_text_append)

lemma parses_section_line:
  assumes "name_ok name"
  shows "parses_text (91 # name @ [93, 10]) [section_ast name]"
  unfolding parses_text_def
proof
  fix r
  have "\<forall>c \<in> set name. text_rune c" using assms by (simp add: name_ok_def value_ok_def)
  then obtain toks where toks: "tokens_of name toks"
    and l: "lex_all (name @ 93 # 10 # r) = map_option (\<lambda>ts. toks @ ts) (lex_all (93 # 10 # r))"
    using lex_text [of name 93] by auto
  show "\<exists>toks. adds_trees toks [section_ast name] \<and>
      lex_all ((91 # name @ [93, 10]) @ r) = map_option (\<lambda>ts. toks @ ts) (lex_all r)"
    by (intro exI [of _ "openToken # toks @ [closeToken, nlToken]"] conjI adds_section_line assms toks)
      (simp add: lex_marks l option.map_comp comp_def)
qed

lemma parses_entry_line:
  assumes "key_ok (fst e)" and "value_ok (snd e)"
  shows "parses_text (entry_text e) [assign_ast (fst e) (snd e)]"
  unfolding parses_text_def
proof
  fix r
  have "\<forall>c \<in> set (fst e). text_rune c" "\<forall>c \<in> set (snd e). text_rune c"
    using assms by (simp_all add: key_ok_def name_ok_def value_ok_def)
  then obtain kt vt where kt: "tokens_of (fst e) kt" and vt: "tokens_of (snd e) vt"
    and lv: "lex_all (snd e @ 10 # r) = map_option (\<lambda>ts. vt @ ts) (lex_all (10 # r))"
    and lk: "lex_all (fst e @ 61 # snd e @ 10 # r) = map_option (\<lambda>ts. kt @ ts) (lex_all (61 # snd e @ 10 # r))"
    using lex_text [of "fst e" 61 "snd e @ 10 # r"] lex_text [of "snd e" 10 r] by auto
  show "\<exists>toks. adds_trees toks [assign_ast (fst e) (snd e)] \<and>
      lex_all (entry_text e @ r) = map_option (\<lambda>ts. toks @ ts) (lex_all r)"
    by (intro exI [of _ "kt @ opToken # vt @ [nlToken]"] conjI adds_entry_line assms kt vt)
      (simp add: entry_text_def lex_marks lv lk option.map_comp comp_def)
qed

definition section_trees :: "rune list \<times> entry list \<Rightarrow> AST list" where
  "section_trees s = section_ast (fst s) # concat (map (\<lambda>e. [assign_ast (fst e) (snd e)]) (snd s))"

lemma parses_section:
  assumes "section_ok s"
  shows "parses_text (section_text s) (section_trees s)"
proof -
  have "parses_text (concat (map entry_text (snd s))) (concat (map (\<lambda>e. [assign_ast (fst e) (snd e)]) (snd s)))"
    using assms parses_entry_line by (intro parses_text_concat) (auto simp: section_ok_def)
  with parses_text_append [OF parses_section_line [of "fst s"]] assms show ?thesis
    by (fastforce simp: section_text_def section_trees_def section_ok_def)
qed

lemma parses_file: "file_ok f \<Longrightarrow> parses_text (file_text f) (concat (map section_trees f))"
  using parses_section unfolding file_text_def by (intro parses_text_concat) (auto simp: file_ok_def)

section \<open>The whole file\<close>

lemma parse_loop_finish:
  assumes "line_start k" and "length (flush k dn) \<le> n" and "\<not> shouldSkip s"
  shows "\<exists>st. parse_loop (Suc (Suc (Suc 0))) [] (stk n k dn) s = Some (Inr st) \<and>
    ps_list st = flush k dn \<and> ps_container st = []"
proof (cases "Kind k = ASTKindStart")
  case True
  with assms(3) show ?thesis
    using parse_loop_end_start [of "stk n k dn" k s "Suc (Suc 0)"]
    by (simp add: stk_def flush_def)
next
  case False
  with assms(1) have k: "Kind k = ASTKindCompletedSectionStatement" by (simp add: line_start_def)
  have "parse_step [] (stk n k dn) s = done_with EndOfBody (s\<lparr>prevTok := emptyToken\<rparr>) (stk n Start (flush k dn))"
    using k assms(2,3)
    by (simp add: parse_step_def Pop_def ShouldSkip_def pass_defs emptyToken_def newToken_def)
  then have "parse_loop (Suc (Suc (Suc 0))) [] (stk n k dn) s =
      parse_loop (Suc (Suc 0)) [] (stk n Start (flush k dn)) (s\<lparr>prevTok := emptyToken\<rparr>)"
    by (subst parse_loop.simps(2)) (simp add: Len_def stk_def done_with_def del: parse_loop.simps)
  then show ?thesis
    using parse_loop_end_start [of "stk n Start (flush k dn)" Start "s\<lparr>prevTok := emptyToken\<rparr>" "Suc 0"] assms(3)
    by (simp add: stk_def kind_simps del: parse_loop.simps)
qed

lemma parse_adds_trees:
  assumes "adds_trees toks ks"
  shows "parse toks = Some (Inr ks)"
proof -
  let ?n = "length toks"
  have "length (flush Start []) + length ks \<le> ?n"
    using assms by (simp add: adds_trees_def flush_simps)
  with assms line_start_simps(1) obtain k dn where st: "steps toks (stk ?n Start []) (stk ?n k dn)"
    and k: "line_start k" and ks: "flush k dn = ks"
    unfolding adds_trees_def flush_simps by (metis append_Nil flush_simps(1))
  have "\<not> shouldSkip newSkipper" by (simp add: newSkipper_def)
  with st obtain s where s: "\<not> shouldSkip s" and run: "parse_loop (length toks + 3) (toks @ []) (stk ?n Start []) newSkipper =
      parse_loop 3 [] (stk ?n k dn) s"
    unfolding steps_def by blast
  have "length (flush k dn) \<le> ?n" using assms by (simp add: adds_trees_def ks)
  from parse_loop_finish [OF k this s] obtain st' where
    "parse_loop (Suc (Suc (Suc 0))) [] (stk ?n k dn) s = Some (Inr st')" "ps_list st' = ks" "ps_container st' = []"
    using ks by blast
  moreover have "parse_loop (Suc (Suc (Suc (length toks)))) toks (stk ?n Start []) newSkipper =
      parse_loop (Suc (Suc (Suc 0))) [] (stk ?n k dn) s"
    using run by (simp add: numeral_3_eq_3 del: parse_loop.simps)
  moreover have "Push (newParseStack 3 (length toks)) Start = Inr (stk ?n Start [])"
    by (simp add: Push_def newParseStack_def stk_def)
  ultimately show ?thesis
    by (simp add: parse_def Len_def del: parse_loop.simps)
qed

lemma utf8_ascii: "\<forall>c \<in> set rs. c < 128 \<Longrightarrow> utf8_decode rs = rs"
  by (induction rs) auto

lemma bytes_Runes_ascii: "\<forall>c \<in> set rs. c < 128 \<Longrightarrow> bytes_Runes (map of_nat rs) = rs"
proof -
  assume a: "\<forall>c \<in> set rs. c < 128"
  then have "map unat (map (of_nat :: nat \<Rightarrow> byte) rs) = rs"
    by (induction rs) (simp_all add: unsigned_of_nat take_bit_nat_eq_self)
  with a show ?thesis by (simp add: bytes_Runes_def utf8_ascii)
qed

lemma text_rune_ascii: "text_rune c \<Longrightarrow> c < 128"
  unfolding text_rune_def by (elim conjE) linarith

lemma value_ascii: "value_ok v \<Longrightarrow> c \<in> set v \<Longrightarrow> c < 128"
  by (simp add: value_ok_def text_rune_ascii)

lemma section_ascii: "section_ok s \<Longrightarrow> c \<in> set (section_text s) \<Longrightarrow> c < 128"
  by (auto simp: section_ok_def section_text_def entry_text_def key_ok_def name_ok_def
      dest: value_ascii split: if_splits)

lemma file_ascii: "file_ok f \<Longrightarrow> \<forall>c \<in> set (file_text f). c < 128"
  using section_ascii by (auto simp: file_ok_def file_text_def)

lemma parse_file: "file_ok f \<Longrightarrow> ParseASTBytes (file_bytes f) = Some (Inr (concat (map section_trees f)))"
proof -
  assume f: "file_ok f"
  then obtain toks where toks: "adds_trees toks (concat (map section_trees f))"
    and l: "lex_all (file_text f @ []) = map_option (\<lambda>ts. toks @ ts) (lex_all [])"
    using parses_file unfolding parses_text_def by blast
  then have "tokenize (file_bytes f) = Inr toks"
    using f by (simp add: tokenize_def tokenize_runes_lex file_bytes_def bytes_Runes_ascii file_ascii lex_all.simps [of "[]"])
  with parse_adds_trees [OF toks] show ?thesis by (simp add: ParseASTBytes_def)
qed

text \<open>The walk over the trees.\<close>

lemma VisitExpr_assign:
  "VisitExpr pnum v (assign_ast key r) = Inr (v\<lparr>dv_Sections := (dv_Sections v)(dv_scope v \<mapsto>
    (case dv_Sections v (dv_scope v) of None \<Rightarrow> emptySection | Some t \<Rightarrow> t)\<lparr>sec_values :=
      (sec_values (case dv_Sections v (dv_scope v) of None \<Rightarrow> emptySection | Some t \<Rightarrow> t))(key \<mapsto> text_value r)\<rparr>)\<rparr>)"
  by (simp add: VisitExpr_def assign_ast_def kind_simps GetChildren_def EqualExprKey_def newToken_def
      newValue_def text_value_def Let_def)

lemma Walk_entries:
  assumes "dv_Sections v (dv_scope v) = Some t"
  shows "Walk pnum (map (\<lambda>e. assign_ast (fst e) (snd e)) es @ rest) v =
    Walk pnum rest (v\<lparr>dv_Sections := (dv_Sections v)(dv_scope v \<mapsto>
      t\<lparr>sec_values := sec_values t ++ map_of (rev (map (map_prod id text_value) es))\<rparr>)\<rparr>)"
  using assms
proof (induction es arbitrary: v t)
  case Nil
  then show ?case by (simp add: fun_upd_idem)
next
  case (Cons e es)
  let ?t = "t\<lparr>sec_values := (sec_values t)(fst e \<mapsto> text_value (snd e))\<rparr>"
  let ?v = "v\<lparr>dv_Sections := (dv_Sections v)(dv_scope v \<mapsto> ?t)\<rparr>"
  define m where "m = sec_values t ++ map_of (rev (map (map_prod id text_value) (e # es)))"
  have "Walk pnum (map (\<lambda>e. assign_ast (fst e) (snd e)) (e # es) @ rest) v =
      Walk pnum (map (\<lambda>e. assign_ast (fst e) (snd e)) es @ rest) ?v"
    using Cons.prems by (simp add: VisitExpr_assign bind_res_def) (simp add: assign_ast_def kind_simps)
  also have "\<dots> = Walk pnum rest (?v\<lparr>dv_Sections := (dv_Sections ?v)(dv_scope ?v \<mapsto>
      ?t\<lparr>sec_values := sec_values ?t ++ map_of (rev (map (map_prod id text_value) es))\<rparr>)\<rparr>)"
    by (rule Cons.IH) simp
  also have "sec_values ?t ++ map_of (rev (map (map_prod id text_value) es)) = m"
    by (cases e) (simp add: m_def fun_eq_iff map_add_def map_of_append split: option.splits)
  finally show ?case unfolding m_def [symmetric] by (simp cong: if_cong)
qed

lemma Walk_section:
  "\<exists>v'. Walk pnum (section_trees s @ rest) v = Walk pnum rest v' \<and>
    dv_Sections v' = (dv_Sections v)(fst s \<mapsto> entries_section (snd s))"
proof -
  let ?v = "v\<lparr>dv_Sections := (dv_Sections v)(fst s \<mapsto> emptySection), dv_scope := fst s\<rparr>"
  have "Walk pnum (section_trees s @ rest) v =
      Walk pnum (map (\<lambda>e. assign_ast (fst e) (snd e)) (snd s) @ rest) ?v"
    by (simp add: section_trees_def bind_res_def VisitStatement_def section_ast_def kind_simps newToken_def
        concat_map_singleton Let_def)
  also have "\<dots> = Walk pnum rest (?v\<lparr>dv_Sections := (dv_Sections ?v)(dv_scope ?v \<mapsto>
      emptySection\<lparr>sec_values := sec_values emptySection ++ map_of (rev (map (map_prod id text_value) (snd s)))\<rparr>)\<rparr>)"
    by (rule Walk_entries) simp
  finally show ?thesis
    by (intro exI conjI) (assumption, simp add: entries_section_def emptySection_def)
qed

lemma Walk_file:
  "\<exists>v'. Walk pnum (concat (map section_trees f)) v = Inr v' \<and> dv_Sections v' = dv_Sections v ++ file_sections f"
proof (induction f arbitrary: v)
  case Nil
  then show ?case by (simp add: file_sections_def)
next
  case (Cons s f)
  obtain v1 where v1: "Walk pnum (section_trees s @ concat (map section_trees f)) v = Walk pnum (concat (map section_trees f)) v1"
    "dv_Sections v1 = (dv_Sections v)(fst s \<mapsto> entries_section (snd s))"
    using Walk_section by blast
  obtain v2 where "Walk pnum (concat (map section_trees f)) v1 = Inr v2" "dv_Sections v2 = dv_Sections v1 ++ file_sections f"
    using Cons.IH by blast
  with v1 show ?case
    by (cases s) (auto simp: file_sections_def map_add_def fun_eq_iff map_of_append split: option.splits)
qed

lemma ParseBytes_file: "file_ok f \<Longrightarrow> ParseBytes pnum (file_bytes f) = Some (Inr (file_sections f))"
  using Walk_file [of pnum f NewDefaultVisitor]
  by (auto simp: ParseBytes_def parse_file bind_res_def NewDefaultVisitor_def)

end
