(* ===== verification/AwsErrors.thy ===== *)
theory AwsErrors
  imports GoPrelude "HOL-Library.Monad_Syntax"
begin

text \<open>
  Errors and what the SDK makes of them: package \<open>aws/awserr\<close>, \<open>aws/request/retryer.go\<close> and
  \<open>aws/request/connection_reset_error.go\<close>.

  A Go error is a value of \<open>goerror\<close>: the two wrappers of \<open>awserr\<close>, the errors of \<open>net\<close> and
  \<open>net/url\<close> the classification looks for, errors with a \<open>Temporary\<close> method, and any other error,
  of which only the text counts. A type switch of the code is a case distinction here.
\<close>

section \<open>Error values\<close>

datatype goerror =
    BaseError (be_code: string) (be_message: string) (be_errs: "goerror list")
  | RequestError (re_err: goerror) (re_statusCode: int) (re_requestID: string)
  | URLError (ue_Op: string) (ue_URL: string) (ue_Err: goerror)
  | NetOpError (ne_Op: string) (ne_Temporary: bool) (ne_text: string)
  | TemporaryError (te_Temporary: bool) (te_text: string)
  | PlainError (pe_text: string)

text \<open>\<open>err.(awserr.Error)\<close> with \<open>Code\<close> and \<open>Message\<close>; \<open>None\<close> where the assertion fails.\<close>

fun Code :: "goerror \<Rightarrow> string option" where
  "Code (BaseError c m es) = Some c"
| "Code (RequestError e s r) = Code e"
| "Code _ = None"

fun Message :: "goerror \<Rightarrow> string" where
  "Message (BaseError c m es) = m"
| "Message (RequestError e s r) = Message e"
| "Message _ = []"

definition awserr_New :: "string \<Rightarrow> string \<Rightarrow> goerror option \<Rightarrow> goerror" where
  "awserr_New c m orig = BaseError c m (case orig of None \<Rightarrow> [] | Some e \<Rightarrow> [e])"

definition NewBatchError :: "string \<Rightarrow> string \<Rightarrow> goerror list \<Rightarrow> goerror" where
  "NewBatchError c m errs = BaseError c m errs"

fun OrigErr :: "goerror \<Rightarrow> goerror option" where
  "OrigErr (BaseError c m []) = None"
| "OrigErr (BaseError c m [e]) = Some e"
| "OrigErr (BaseError c m (e # e' # es)) =
     (case Code e of
        Some c' \<Rightarrow> Some (NewBatchError c' (Message e) (e' # es))
      | None \<Rightarrow> Some (NewBatchError ''BatchedErrors'' ''multiple errors occurred'' (e # e' # es)))"
| "OrigErr (RequestError e s r) = OrigErr e"
| "OrigErr _ = None"

section \<open>Texts\<close>

fun nat_digits :: "nat \<Rightarrow> string" where
  "nat_digits n = (if n < 10 then [char_of (48 + n)] else nat_digits (n div 10) @ [char_of (48 + n mod 10)])"

declare nat_digits.simps [simp del]

definition int_digits :: "int \<Rightarrow> string" where
  "int_digits i = (if i < 0 then ''-'' @ nat_digits (nat (- i)) else nat_digits (nat i))"

definition newline :: string where
  "newline = [CHR 0x0A]"

definition SprintError :: "string \<Rightarrow> string \<Rightarrow> string \<Rightarrow> string option \<Rightarrow> string" where
  "SprintError c m extra orig =
     (let msg = c @ '': '' @ m;
          msg = (if extra \<noteq> [] then msg @ newline @ [CHR 0x09] @ extra else msg)
      in case orig of None \<Rightarrow> msg | Some t \<Rightarrow> msg @ newline @ ''caused by: '' @ t)"

text \<open>
  \<open>Error()\<close>, with \<open>OrigErr\<close> of a wrapped error opened up so that the recursion stays on the parts
  of the error.
\<close>

fun error_text :: "goerror \<Rightarrow> string"
  and orig_text :: "goerror \<Rightarrow> string option"
  and errorList_text :: "goerror list \<Rightarrow> string"
where
  "error_text (BaseError c m es) =
     SprintError c m [] (if es = [] then None else Some (errorList_text es))"
| "error_text (RequestError e s r) =
     SprintError (case Code e of Some c \<Rightarrow> c | None \<Rightarrow> []) (Message e)
       (''status code: '' @ int_digits s @ '', request id: '' @ r) (orig_text e)"
| "error_text (URLError p u e) = p @ '' '' @ u @ '': '' @ error_text e"
| "error_text (NetOpError p t x) = x"
| "error_text (TemporaryError t x) = x"
| "error_text (PlainError x) = x"
| "orig_text (BaseError c m []) = None"
| "orig_text (BaseError c m [e]) = Some (error_text e)"
| "orig_text (BaseError c m (e # e' # es)) =
     (case Code e of
        Some c' \<Rightarrow> Some (SprintError c' (Message e) [] (Some (errorList_text (e' # es))))
      | None \<Rightarrow> Some (SprintError ''BatchedErrors'' ''multiple errors occurred'' []
                        (Some (errorList_text (e # e' # es)))))"
| "orig_text (RequestError e s r) = orig_text e"
| "orig_text _ = None"
| "errorList_text [] = []"
| "errorList_text [e] = error_text e"
| "errorList_text (e # e' # es) = error_text e @ newline @ errorList_text (e' # es)"

lemma orig_text_OrigErr: "orig_text e = map_option error_text (OrigErr e)"
  by (induction e rule: OrigErr.induct) (auto simp: NewBatchError_def split: option.splits)

text \<open>\<open>strings.Contains\<close>.\<close>

fun prefix_of :: "string \<Rightarrow> string \<Rightarrow> bool" where
  "prefix_of [] t = True"
| "prefix_of (c # cs) [] = False"
| "prefix_of (c # cs) (d # ds) = (c = d \<and> prefix_of cs ds)"

fun contains :: "string \<Rightarrow> string \<Rightarrow> bool" where
  "contains [] sub = (sub = [])"
| "contains (c # cs) sub = (prefix_of sub (c # cs) \<or> contains cs sub)"

section \<open>Classification\<close>

definition ErrCodeSerialization :: string where "ErrCodeSerialization = ''SerializationError''"
definition ErrCodeRead :: string where "ErrCodeRead = ''ReadError''"
definition ErrCodeResponseTimeout :: string where "ErrCodeResponseTimeout = ''ResponseTimeout''"
definition CanceledErrorCode :: string where "CanceledErrorCode = ''RequestCanceled''"
definition ErrCodeRequestError :: string where "ErrCodeRequestError = ''RequestError''"

lemmas err_codes = ErrCodeSerialization_def ErrCodeRead_def ErrCodeResponseTimeout_def
  CanceledErrorCode_def ErrCodeRequestError_def

definition retryableCodes :: "string list" where
  "retryableCodes = [ErrCodeRequestError, ''RequestTimeout'', ErrCodeResponseTimeout, ''RequestTimeoutException'']"

definition throttleCodes :: "string list" where
  "throttleCodes = [''ProvisionedThroughputExceededException'', ''ThrottledException'', ''Throttling'',
     ''ThrottlingException'', ''RequestLimitExceeded'', ''RequestThrottled'', ''RequestThrottledException'',
     ''TooManyRequestsException'', ''PriorRequestNotComplete'', ''TransactionInProgressException'',
     ''EC2ThrottledException'']"

definition credsExpiredCodes :: "string list" where
  "credsExpiredCodes = [''ExpiredToken'', ''ExpiredTokenException'', ''RequestExpired'']"

definition isCodeThrottle :: "string \<Rightarrow> bool" where
  "isCodeThrottle c \<longleftrightarrow> c \<in> set throttleCodes"

definition isCodeExpiredCreds :: "string \<Rightarrow> bool" where
  "isCodeExpiredCreds c \<longleftrightarrow> c \<in> set credsExpiredCodes"

definition isCodeRetryable :: "string \<Rightarrow> bool" where
  "isCodeRetryable c \<longleftrightarrow> c \<in> set retryableCodes \<or> isCodeExpiredCreds c"

definition isErrConnectionReset :: "goerror \<Rightarrow> bool" where
  "isErrConnectionReset e =
     (let t = error_text e in
      if contains t ''read: connection reset'' then False
      else contains t ''use of closed network connection'' \<or> contains t ''connection reset'' \<or>
           contains t ''broken pipe'')"

text \<open>\<open>err.(temporary)\<close>; a \<open>url.Error\<close> asks the error it wraps.\<close>

fun Temporary :: "goerror \<Rightarrow> bool option" where
  "Temporary (URLError p u e) = Some (case Temporary e of None \<Rightarrow> False | Some t \<Rightarrow> t)"
| "Temporary (NetOpError p t x) = Some t"
| "Temporary (TemporaryError t x) = Some t"
| "Temporary _ = None"

definition validParentCodes :: "string list" where
  "validParentCodes = [ErrCodeSerialization, ErrCodeRead]"

definition isNestedErrorRetryable :: "goerror \<Rightarrow> bool" where
  "isNestedErrorRetryable parent = (case Code parent of
     None \<Rightarrow> False
   | Some c \<Rightarrow>
       if c \<notin> set validParentCodes then False
       else case OrigErr parent of
         None \<Rightarrow> False
       | Some err \<Rightarrow>
           (case Code err of
              Some c' \<Rightarrow> isCodeRetryable c'
            | None \<Rightarrow>
                (case Temporary err of
                   Some t \<Rightarrow> t \<or> isErrConnectionReset err
                 | None \<Rightarrow> isErrConnectionReset err)))"

definition knownCanceled :: "string list" where
  "knownCanceled = [''net/http: request canceled'', ''net/http: request canceled while waiting for connection'']"

text \<open>\<open>shouldRetryError\<close> of an error that is not nil; \<open>None\<close> where the recursion does not end.\<close>

partial_function (option) shouldRetryError :: "goerror \<Rightarrow> bool option" where
  "shouldRetryError err =
     (case Code err of
        Some c \<Rightarrow>
          (if c = CanceledErrorCode then Some False
           else if isNestedErrorRetryable err then Some True
           else
             (case OrigErr err of
                None \<Rightarrow> Some (isCodeRetryable c)
              | Some orig \<Rightarrow>
                  shouldRetryError orig \<bind> (\<lambda>shouldRetry.
                    Some (if c = ErrCodeRequestError \<and> \<not> shouldRetry then False
                          else if isCodeRetryable c then True else shouldRetry))))
      | None \<Rightarrow>
          (case err of
             URLError p u e \<Rightarrow>
               (if contains (error_text err) ''connection refused'' then Some True else shouldRetryError e)
           | NetOpError p t x \<Rightarrow> Some (if p = ''dial'' then True else t \<or> isErrConnectionReset err)
           | TemporaryError t x \<Rightarrow> Some (t \<or> isErrConnectionReset err)
           | _ \<Rightarrow> Some (error_text err \<notin> set knownCanceled)))"

definition IsErrorRetryable :: "goerror option \<Rightarrow> bool option" where
  "IsErrorRetryable err = (case err of None \<Rightarrow> Some False | Some e \<Rightarrow> shouldRetryError e)"

definition IsErrorThrottle :: "goerror option \<Rightarrow> bool" where
  "IsErrorThrottle err = (case err of None \<Rightarrow> False | Some e \<Rightarrow>
     (case Code e of None \<Rightarrow> False | Some c \<Rightarrow> isCodeThrottle c))"

definition IsErrorExpiredCreds :: "goerror option \<Rightarrow> bool" where
  "IsErrorExpiredCreds err = (case err of None \<Rightarrow> False | Some e \<Rightarrow>
     (case Code e of None \<Rightarrow> False | Some c \<Rightarrow> isCodeExpiredCreds c))"

definition isErrCode :: "goerror option \<Rightarrow> string list \<Rightarrow> bool" where
  "isErrCode err codes = (case err of None \<Rightarrow> False | Some e \<Rightarrow>
     (case Code e of None \<Rightarrow> False | Some c \<Rightarrow> c \<in> set codes))"

section \<open>When the classification ends\<close>

text \<open>
  The recursion follows \<open>OrigErr\<close>. A batch whose first error is not an \<open>awserr.Error\<close> is its own
  original error but for the code, so there it goes on for ever; \<open>chain_ok\<close> rules such batches out.
\<close>

fun chain_ok :: "goerror \<Rightarrow> bool" where
  "chain_ok (BaseError c m es) =
     ((\<forall>e \<in> set es. chain_ok e) \<and> (2 \<le> length es \<longrightarrow> (\<forall>e \<in> set (butlast es). Code e \<noteq> None)))"
| "chain_ok (RequestError e s r) = chain_ok e"
| "chain_ok (URLError p u e) = chain_ok e"
| "chain_ok _ = True"

fun err_weight :: "goerror \<Rightarrow> nat" where
  "err_weight (BaseError c m es) = Suc (sum_list (map err_weight es))"
| "err_weight (RequestError e s r) = Suc (err_weight e)"
| "err_weight (URLError p u e) = Suc (err_weight e)"
| "err_weight _ = 1"

lemma err_weight_pos: "0 < err_weight e"
  by (cases e) auto

lemma OrigErr_weight: "chain_ok e \<Longrightarrow> OrigErr e = Some e' \<Longrightarrow> chain_ok e' \<and> err_weight e' < err_weight e"
proof (induction e arbitrary: e' rule: OrigErr.induct)
  case (3 c m e1 e2 es)
  have "Code e1 \<noteq> None" using "3.prems"(1) by simp
  with "3.prems" err_weight_pos [of e1] show ?case by (auto simp: NewBatchError_def)
qed (auto simp: less_SucI)

lemma shouldRetryError_total: "chain_ok e \<Longrightarrow> shouldRetryError e \<noteq> None"
proof (induction "err_weight e" arbitrary: e rule: less_induct)
  case less
  have orig: "shouldRetryError e' \<noteq> None" if "OrigErr e = Some e'" for e'
    using less.hyps OrigErr_weight [OF less.prems that] by blast
  have url: "shouldRetryError e' \<noteq> None" if "e = URLError p u e'" for p u e'
    using less.hyps [of e'] less.prems that by simp
  show ?case
    using orig url by (subst shouldRetryError.simps) (auto split: option.splits goerror.splits)
qed

lemma shouldRetryError_plain_batch:
  "shouldRetryError err = Some b \<Longrightarrow>
    \<forall>c m. err = BaseError c m (e1 # e2 # es) \<longrightarrow> Code e1 = None \<longrightarrow> c \<noteq> CanceledErrorCode \<longrightarrow>
      c \<notin> set validParentCodes \<longrightarrow> False"
proof (induction err b rule: shouldRetryError.raw_induct [rotated, consumes 1, case_names step])
  case (step f err b)
  show ?case
  proof (intro allI impI)
    fix c m
    assume e: "err = BaseError c m (e1 # e2 # es)" "Code e1 = None"
      and c: "c \<noteq> CanceledErrorCode" "c \<notin> set validParentCodes"
    then obtain b' where "f (BaseError ''BatchedErrors'' ''multiple errors occurred'' (e1 # e2 # es)) = Some b'"
      using step(2) by (auto simp: isNestedErrorRetryable_def NewBatchError_def bind_eq_Some_conv)
    from step(1) [OF this] e show False
      by (simp add: err_codes validParentCodes_def)
  qed
qed

lemma shouldRetryError_loops:
  assumes "Code e1 = None" and "c \<noteq> CanceledErrorCode" and "c \<notin> set validParentCodes"
  shows "shouldRetryError (NewBatchError c m (e1 # e2 # es)) = None"
proof (cases "shouldRetryError (BaseError c m (e1 # e2 # es))")
  case (Some b)
  from shouldRetryError_plain_batch [OF this] assms show ?thesis by blast
qed (simp add: NewBatchError_def)

end
