(* ===== verification/AwsHandlers.thy ===== *)
theory AwsHandlers
  imports AwsErrors
begin

text \<open>
  Handler lists, \<open>aws/request/handlers.go\<close>, over any type \<open>'r\<close> of requests. A handler is a named
  function on the request. \<open>AfterEachFn\<close> gets the index, the handler and the request, and says
  whether the run goes on.

  \<open>PushFrontNamed\<close> and \<open>RemoveByName\<close> shift elements inside the slice; here the list is a value,
  as it is for the lists the SDK uses, which \<open>Handlers.Copy\<close> gives arrays of their own.
\<close>

record 'r NamedHandler =
  nh_Name :: string
  nh_Fn :: "'r \<Rightarrow> 'r"

type_synonym 'r AfterEachFn = "nat \<Rightarrow> 'r NamedHandler \<Rightarrow> 'r \<Rightarrow> bool"

record 'r HandlerList =
  hl_list :: "'r NamedHandler list"
  hl_AfterEachFn :: "'r AfterEachFn option"

section \<open>Operations\<close>

definition HandlerList_Clear :: "'r HandlerList \<Rightarrow> 'r HandlerList" where
  "HandlerList_Clear l = l\<lparr>hl_list := []\<rparr>"

definition HandlerList_Len :: "'r HandlerList \<Rightarrow> nat" where
  "HandlerList_Len l = length (hl_list l)"

definition PushBackNamed :: "'r NamedHandler \<Rightarrow> 'r HandlerList \<Rightarrow> 'r HandlerList" where
  "PushBackNamed n l = l\<lparr>hl_list := hl_list l @ [n]\<rparr>"

definition PushBack :: "('r \<Rightarrow> 'r) \<Rightarrow> 'r HandlerList \<Rightarrow> 'r HandlerList" where
  "PushBack f = PushBackNamed \<lparr>nh_Name = ''__anonymous'', nh_Fn = f\<rparr>"

definition PushFrontNamed :: "'r NamedHandler \<Rightarrow> 'r HandlerList \<Rightarrow> 'r HandlerList" where
  "PushFrontNamed n l = l\<lparr>hl_list := n # hl_list l\<rparr>"

definition PushFront :: "('r \<Rightarrow> 'r) \<Rightarrow> 'r HandlerList \<Rightarrow> 'r HandlerList" where
  "PushFront f = PushFrontNamed \<lparr>nh_Name = ''__anonymous'', nh_Fn = f\<rparr>"

text \<open>The index loops, on the list and the index; the comparison is made at every index again.\<close>

function remove_loop :: "string \<Rightarrow> 'r NamedHandler list \<Rightarrow> nat \<Rightarrow> 'r NamedHandler list" where
  "remove_loop name l i =
     (if i < length l then
        (if nh_Name (l ! i) = name then remove_loop name (take i l @ drop (Suc i) l) i
         else remove_loop name l (Suc i))
      else l)"
  by pat_completeness auto
termination
  by (relation "measure (\<lambda>(name, l, i). length l - i)") auto

declare remove_loop.simps [simp del]

definition RemoveByName :: "string \<Rightarrow> 'r HandlerList \<Rightarrow> 'r HandlerList" where
  "RemoveByName name l = l\<lparr>hl_list := remove_loop name (hl_list l) 0\<rparr>"

definition Remove :: "'r NamedHandler \<Rightarrow> 'r HandlerList \<Rightarrow> 'r HandlerList" where
  "Remove n = RemoveByName (nh_Name n)"

function swap_loop :: "string \<Rightarrow> ('r NamedHandler \<Rightarrow> 'r NamedHandler) \<Rightarrow> 'r NamedHandler list \<Rightarrow> nat \<Rightarrow> bool \<Rightarrow>
    'r NamedHandler list \<times> bool" where
  "swap_loop name replace l i swapped =
     (if i < length l then
        (if nh_Name (l ! i) = name then swap_loop name replace (l[i := replace (l ! i)]) (Suc i) True
         else swap_loop name replace l (Suc i) swapped)
      else (l, swapped))"
  by pat_completeness auto
termination
  by (relation "measure (\<lambda>(name, replace, l, i, swapped). length l - i)") auto

declare swap_loop.simps [simp del]

definition SwapNamed :: "'r NamedHandler \<Rightarrow> 'r HandlerList \<Rightarrow> 'r HandlerList \<times> bool" where
  "SwapNamed n l = (case swap_loop (nh_Name n) (\<lambda>m. m\<lparr>nh_Fn := nh_Fn n\<rparr>) (hl_list l) 0 False of
     (hs, swapped) \<Rightarrow> (l\<lparr>hl_list := hs\<rparr>, swapped))"

definition Swap :: "string \<Rightarrow> 'r NamedHandler \<Rightarrow> 'r HandlerList \<Rightarrow> 'r HandlerList \<times> bool" where
  "Swap name replace l = (case swap_loop name (\<lambda>m. replace) (hl_list l) 0 False of
     (hs, swapped) \<Rightarrow> (l\<lparr>hl_list := hs\<rparr>, swapped))"

definition SetBackNamed :: "'r NamedHandler \<Rightarrow> 'r HandlerList \<Rightarrow> 'r HandlerList" where
  "SetBackNamed n l = (case SwapNamed n l of (l', swapped) \<Rightarrow> if \<not> swapped then PushBackNamed n l' else l')"

definition SetFrontNamed :: "'r NamedHandler \<Rightarrow> 'r HandlerList \<Rightarrow> 'r HandlerList" where
  "SetFrontNamed n l = (case SwapNamed n l of (l', swapped) \<Rightarrow> if \<not> swapped then PushFrontNamed n l' else l')"

fun run_loop :: "'r AfterEachFn option \<Rightarrow> nat \<Rightarrow> 'r NamedHandler list \<Rightarrow> 'r \<Rightarrow> 'r" where
  "run_loop after i [] r = r"
| "run_loop after i (h # hs) r =
     (let r' = nh_Fn h r in
      case after of
        Some f \<Rightarrow> if \<not> f i h r' then r' else run_loop after (Suc i) hs r'
      | None \<Rightarrow> run_loop after (Suc i) hs r')"

definition Run :: "'r HandlerList \<Rightarrow> 'r \<Rightarrow> 'r" where
  "Run l r = run_loop (hl_AfterEachFn l) 0 (hl_list l) r"

definition HandlerListStopOnError :: "('r \<Rightarrow> goerror option) \<Rightarrow> 'r AfterEachFn" where
  "HandlerListStopOnError err i h r \<longleftrightarrow> err r = None"

section \<open>The lists of a request\<close>

record 'r Handlers =
  Validate :: "'r HandlerList"
  Build :: "'r HandlerList"
  BuildStream :: "'r HandlerList"
  Sign :: "'r HandlerList"
  Send :: "'r HandlerList"
  ValidateResponse :: "'r HandlerList"
  Unmarshal :: "'r HandlerList"
  UnmarshalStream :: "'r HandlerList"
  UnmarshalMeta :: "'r HandlerList"
  UnmarshalError :: "'r HandlerList"
  Retry :: "'r HandlerList"
  AfterRetry :: "'r HandlerList"
  CompleteAttempt :: "'r HandlerList"
  Complete :: "'r HandlerList"

definition HandlerList_copy :: "'r HandlerList \<Rightarrow> 'r HandlerList" where
  "HandlerList_copy l =
     (let n = \<lparr>hl_list = [], hl_AfterEachFn = hl_AfterEachFn l\<rparr> in
      if length (hl_list l) = 0 then n else n\<lparr>hl_list := hl_list l\<rparr>)"

definition Handlers_Copy :: "'r Handlers \<Rightarrow> 'r Handlers" where
  "Handlers_Copy h = \<lparr>
     Validate = HandlerList_copy (Validate h),
     Build = HandlerList_copy (Build h),
     BuildStream = HandlerList_copy (BuildStream h),
     Sign = HandlerList_copy (Sign h),
     Send = HandlerList_copy (Send h),
     ValidateResponse = HandlerList_copy (ValidateResponse h),
     Unmarshal = HandlerList_copy (Unmarshal h),
     UnmarshalStream = HandlerList_copy (UnmarshalStream h),
     UnmarshalMeta = HandlerList_copy (UnmarshalMeta h),
     UnmarshalError = HandlerList_copy (UnmarshalError h),
     Retry = HandlerList_copy (Retry h),
     AfterRetry = HandlerList_copy (AfterRetry h),
     CompleteAttempt = HandlerList_copy (CompleteAttempt h),
     Complete = HandlerList_copy (Complete h)\<rparr>"

definition Handlers_Clear :: "'r Handlers \<Rightarrow> 'r Handlers" where
  "Handlers_Clear h = h\<lparr>
     Validate := HandlerList_Clear (Validate h),
     Build := HandlerList_Clear (Build h),
     BuildStream := HandlerList_Clear (BuildStream h),
     Send := HandlerList_Clear (Send h),
     Sign := HandlerList_Clear (Sign h),
     Unmarshal := HandlerList_Clear (Unmarshal h),
     UnmarshalStream := HandlerList_Clear (UnmarshalStream h),
     UnmarshalMeta := HandlerList_Clear (UnmarshalMeta h),
     UnmarshalError := HandlerList_Clear (UnmarshalError h),
     ValidateResponse := HandlerList_Clear (ValidateResponse h),
     Retry := HandlerList_Clear (Retry h),
     AfterRetry := HandlerList_Clear (AfterRetry h),
     CompleteAttempt := HandlerList_Clear (CompleteAttempt h),
     Complete := HandlerList_Clear (Complete h)\<rparr>"

definition Handlers_IsEmpty :: "'r Handlers \<Rightarrow> bool" where
  "Handlers_IsEmpty h =
     (if HandlerList_Len (Validate h) \<noteq> 0 then False
      else if HandlerList_Len (Build h) \<noteq> 0 then False
      else if HandlerList_Len (BuildStream h) \<noteq> 0 then False
      else if HandlerList_Len (Send h) \<noteq> 0 then False
      else if HandlerList_Len (Sign h) \<noteq> 0 then False
      else if HandlerList_Len (Unmarshal h) \<noteq> 0 then False
      else if HandlerList_Len (UnmarshalStream h) \<noteq> 0 then False
      else if HandlerList_Len (UnmarshalMeta h) \<noteq> 0 then False
      else if HandlerList_Len (UnmarshalError h) \<noteq> 0 then False
      else if HandlerList_Len (ValidateResponse h) \<noteq> 0 then False
      else if HandlerList_Len (Retry h) \<noteq> 0 then False
      else if HandlerList_Len (AfterRetry h) \<noteq> 0 then False
      else if HandlerList_Len (CompleteAttempt h) \<noteq> 0 then False
      else if HandlerList_Len (Complete h) \<noteq> 0 then False
      else True)"

section \<open>What the operations do\<close>

text \<open>The index loops are a filter and a map.\<close>

lemma remove_loop_filter:
  "i \<le> length l \<Longrightarrow> remove_loop name l i = take i l @ filter (\<lambda>h. nh_Name h \<noteq> name) (drop i l)"
proof (induction name l i rule: remove_loop.induct)
  case (1 name l i)
  show ?case
  proof (cases "i < length l")
    case True
    then have drop: "drop i l = l ! i # drop (Suc i) l" by (rule Cons_nth_drop_Suc [symmetric])
    show ?thesis
    proof (cases "nh_Name (l ! i) = name")
      case eq: True
      have "remove_loop name l i = remove_loop name (take i l @ drop (Suc i) l) i"
        using True eq by (subst remove_loop.simps) simp
      also have "\<dots> = take i (take i l @ drop (Suc i) l) @
          filter (\<lambda>h. nh_Name h \<noteq> name) (drop i (take i l @ drop (Suc i) l))"
        using "1.IH"(1) [OF True eq] True by simp
      finally show ?thesis using True eq by (simp add: drop)
    next
      case False
      have "remove_loop name l i = remove_loop name l (Suc i)"
        using True False by (subst remove_loop.simps) simp
      with "1.IH"(2) [OF True False] True False show ?thesis
        by (simp add: drop take_Suc_conv_app_nth)
    qed
  next
    case False
    with "1.prems" show ?thesis by (subst remove_loop.simps) simp
  qed
qed

lemma swap_loop_map:
  "i \<le> length l \<Longrightarrow> swap_loop name f l i swapped =
    (take i l @ map (\<lambda>h. if nh_Name h = name then f h else h) (drop i l),
     swapped \<or> (\<exists>h \<in> set (drop i l). nh_Name h = name))"
proof (induction name f l i swapped rule: swap_loop.induct)
  case (1 name f l i swapped)
  show ?case
  proof (cases "i < length l")
    case True
    then have drop: "drop i l = l ! i # drop (Suc i) l" by (rule Cons_nth_drop_Suc [symmetric])
    show ?thesis
    proof (cases "nh_Name (l ! i) = name")
      case eq: True
      have "swap_loop name f l i swapped = swap_loop name f (l[i := f (l ! i)]) (Suc i) True"
        using True eq by (subst swap_loop.simps) simp
      also have "\<dots> = (take (Suc i) (l[i := f (l ! i)]) @
          map (\<lambda>h. if nh_Name h = name then f h else h) (drop (Suc i) (l[i := f (l ! i)])), True)"
        using "1.IH"(1) [OF True eq] True by simp
      also have "take (Suc i) (l[i := f (l ! i)]) = take i l @ [f (l ! i)]"
        using True by (simp add: take_Suc_conv_app_nth)
      finally show ?thesis using True eq by (simp add: drop)
    next
      case False
      have "swap_loop name f l i swapped = swap_loop name f l (Suc i) swapped"
        using True False by (subst swap_loop.simps) simp
      with "1.IH"(2) [OF True False] True False show ?thesis
        by (simp add: drop take_Suc_conv_app_nth)
    qed
  next
    case False
    with "1.prems" show ?thesis by (subst swap_loop.simps) simp
  qed
qed

lemma RemoveByName_filter:
  "RemoveByName name l = l\<lparr>hl_list := filter (\<lambda>h. nh_Name h \<noteq> name) (hl_list l)\<rparr>"
  by (simp add: RemoveByName_def remove_loop_filter)

lemma SwapNamed_map:
  "SwapNamed n l = (l\<lparr>hl_list := map (\<lambda>h. if nh_Name h = nh_Name n then h\<lparr>nh_Fn := nh_Fn n\<rparr> else h) (hl_list l)\<rparr>,
     \<exists>h \<in> set (hl_list l). nh_Name h = nh_Name n)"
  by (simp add: SwapNamed_def swap_loop_map)

lemma Swap_map:
  "Swap name n l = (l\<lparr>hl_list := map (\<lambda>h. if nh_Name h = name then n else h) (hl_list l)\<rparr>,
     \<exists>h \<in> set (hl_list l). nh_Name h = name)"
  by (simp add: Swap_def swap_loop_map)

text \<open>\<open>handler_at name l\<close>: the functions run under a name, in order.\<close>

definition handlers_named :: "string \<Rightarrow> 'r HandlerList \<Rightarrow> ('r \<Rightarrow> 'r) list" where
  "handlers_named name l = map nh_Fn (filter (\<lambda>h. nh_Name h = name) (hl_list l))"

lemma map_swap_names:
  "map nh_Name (map (\<lambda>h. if nh_Name h = nh_Name n then h\<lparr>nh_Fn := nh_Fn n\<rparr> else h) hs) = map nh_Name hs"
  by (induction hs) auto

lemma named_after_swap:
  "map nh_Fn (filter (\<lambda>h. nh_Name h = name)
      (map (\<lambda>h. if nh_Name h = nh_Name n then h\<lparr>nh_Fn := nh_Fn n\<rparr> else h) hs)) =
    (if name = nh_Name n then replicate (length (filter (\<lambda>h. nh_Name h = name) hs)) (nh_Fn n)
     else map nh_Fn (filter (\<lambda>h. nh_Name h = name) hs))"
  by (induction hs) auto

lemma no_named: "(\<exists>h \<in> set hs. nh_Name h = name) \<longleftrightarrow> filter (\<lambda>h. nh_Name h = name) hs \<noteq> []"
  by (induction hs) auto

lemma handlers_named_SetBackNamed:
  "handlers_named name (SetBackNamed n l) =
    (if name = nh_Name n then replicate (max 1 (length (handlers_named name l))) (nh_Fn n)
     else handlers_named name l)"
  by (auto simp: SetBackNamed_def SwapNamed_map PushBackNamed_def handlers_named_def named_after_swap no_named
      Suc_le_eq max_def)

lemma handlers_named_SetFrontNamed:
  "handlers_named name (SetFrontNamed n l) =
    (if name = nh_Name n then replicate (max 1 (length (handlers_named name l))) (nh_Fn n)
     else handlers_named name l)"
  by (auto simp: SetFrontNamed_def SwapNamed_map PushFrontNamed_def handlers_named_def named_after_swap no_named
      Suc_le_eq max_def)

lemma handlers_named_Remove:
  "handlers_named name (RemoveByName name' l) = (if name = name' then [] else handlers_named name l)"
  by (auto simp: RemoveByName_filter handlers_named_def filter_empty_conv intro!: arg_cong [where f = "map nh_Fn"] filter_cong)

text \<open>A run without a condition runs every handler; one that stops on an error runs a prefix.\<close>

lemma run_loop_all: "run_loop None i hs r = fold nh_Fn hs r"
  by (induction hs arbitrary: i r) (simp_all add: Let_def)

lemma run_loop_prefix:
  "\<exists>n \<le> length hs. run_loop (Some f) i hs r = fold nh_Fn (take n hs) r \<and>
    (n < length hs \<longrightarrow> 0 < n \<and> \<not> f (i + n - 1) (hs ! (n - 1)) (fold nh_Fn (take n hs) r)) \<and>
    (\<forall>j < n - 1. f (i + j) (hs ! j) (fold nh_Fn (take (Suc j) hs) r))"
proof (induction hs arbitrary: i r)
  case Nil
  then show ?case by simp
next
  case (Cons h hs)
  show ?case
  proof (cases "f i h (nh_Fn h r)")
    case False
    then show ?thesis by (intro exI [of _ 1]) (simp add: Let_def)
  next
    case True
    obtain n where n: "n \<le> length hs" "run_loop (Some f) (Suc i) hs (nh_Fn h r) = fold nh_Fn (take n hs) (nh_Fn h r)"
      "n < length hs \<longrightarrow> 0 < n \<and> \<not> f (Suc i + n - 1) (hs ! (n - 1)) (fold nh_Fn (take n hs) (nh_Fn h r))"
      "\<forall>j < n - 1. f (Suc i + j) (hs ! j) (fold nh_Fn (take (Suc j) hs) (nh_Fn h r))"
      using Cons.IH by blast
    have "f (i + j) ((h # hs) ! j) (fold nh_Fn (take (Suc j) (h # hs)) r)" if "j < Suc n - 1" for j
      using n(4) True that by (cases j) (auto simp: less_diff_conv)
    then show ?thesis
      using n True by (intro exI [of _ "Suc n"]) (auto simp: Let_def nth_Cons')
  qed
qed

lemma HandlerList_copy_id: "HandlerList_copy l = l"
  by (cases "hl_list l") (simp_all add: HandlerList_copy_def Let_def)

lemma Handlers_Copy_id: "Handlers_Copy h = h"
  by (simp add: Handlers_Copy_def HandlerList_copy_id)

lemma Handlers_Clear_empty: "Handlers_IsEmpty (Handlers_Clear h)"
  by (simp add: Handlers_IsEmpty_def Handlers_Clear_def HandlerList_Clear_def HandlerList_Len_def)

end
