(* ===== verification/AwsBody.thy ===== *)
theory AwsBody
  imports AwsErrors
begin

text \<open>
  Request bodies: \<open>aws/types.go\<close> (\<open>ReaderSeekerCloser\<close>, \<open>SeekerLen\<close>, \<open>WriteAtBuffer\<close>) and
  \<open>aws/request/offset_reader.go\<close>.

  A \<open>body\<close> is a reader over bytes in memory with what the code asks of readers: whether it came
  wrapped in a \<open>ReaderSeekerCloser\<close>, whether the reader inside can seek and has a \<open>Len\<close> method, and
  an error its \<open>Seek\<close> fails with, if any. Offsets are \<open>int\<close>: the lengths of readers stay far below
  the 64-bit limit.
\<close>

datatype whence = SeekStart | SeekCurrent | SeekEnd

record body =
  bd_wrapped :: bool
  bd_isSeeker :: bool
  bd_hasLen :: bool
  bd_seekErr :: "goerror option"
  bd_data :: "byte list"
  bd_pos :: nat

text \<open>A reader that is not wrapped has a \<open>Seek\<close> method: the type of \<open>Request.Body\<close> asks for it.\<close>

definition body_ok :: "body \<Rightarrow> bool" where
  "body_ok b \<longleftrightarrow> (bd_wrapped b \<or> bd_isSeeker b) \<and> bd_pos b \<le> length (bd_data b)"

section \<open>Readers and seekers\<close>

definition negativePosition :: goerror where
  "negativePosition = PlainError ''bytes.Reader.Seek: negative position''"

text \<open>
  \<open>Seek\<close> of the reader inside, as \<open>bytes.Reader\<close> has it, and \<open>ReaderSeekerCloser.Seek\<close>, which does
  nothing where the reader inside cannot seek.
\<close>

definition reader_Seek :: "int \<Rightarrow> whence \<Rightarrow> (body, goerror, int) action" where
  "reader_Seek offset whence b =
     (case bd_seekErr b of
        Some e \<Rightarrow> (Inl e, b)
      | None \<Rightarrow>
          let base = (case whence of SeekStart \<Rightarrow> 0 | SeekCurrent \<Rightarrow> int (bd_pos b)
                        | SeekEnd \<Rightarrow> int (length (bd_data b)));
              p = base + offset
          in if p < 0 then (Inl negativePosition, b) else (Inr p, b\<lparr>bd_pos := nat p\<rparr>))"

definition Body_Seek :: "int \<Rightarrow> whence \<Rightarrow> (body, goerror, int) action" where
  "Body_Seek offset whence b =
     (if bd_wrapped b \<and> \<not> bd_isSeeker b then (Inr 0, b) else reader_Seek offset whence b)"

definition Body_Read :: "nat \<Rightarrow> body \<Rightarrow> byte list \<times> body" where
  "Body_Read n b = (take n (drop (bd_pos b) (bd_data b)),
     b\<lparr>bd_pos := max (bd_pos b) (min (bd_pos b + n) (length (bd_data b)))\<rparr>)"

definition IsReaderSeekable :: "body \<Rightarrow> bool" where
  "IsReaderSeekable b = (if bd_wrapped b then bd_isSeeker b else True)"

definition HasLen :: "body \<Rightarrow> nat option" where
  "HasLen b = (if bd_hasLen b then Some (length (bd_data b) - bd_pos b) else None)"

text \<open>\<open>seekerLen\<close> works through any \<open>Seek\<close>.\<close>

definition seekerLen :: "(int \<Rightarrow> whence \<Rightarrow> ('s, 'e, int) action) \<Rightarrow> ('s, 'e, int) action" where
  "seekerLen seek =
     act_bind (seek 0 SeekCurrent) (\<lambda>curOffset.
     act_bind (seek 0 SeekEnd) (\<lambda>endOffset.
     act_bind (seek curOffset SeekStart) (\<lambda>_.
     act_ret (endOffset - curOffset))))"

definition GetLen :: "(body, goerror, int) action" where
  "GetLen b = (case HasLen b of
     Some l \<Rightarrow> (Inr (int l), b)
   | None \<Rightarrow> if bd_isSeeker b then seekerLen reader_Seek b else (Inr (-1), b))"

definition SeekerLen :: "(body, goerror, int) action" where
  "SeekerLen b = (if bd_wrapped b then GetLen b else seekerLen reader_Seek b)"

section \<open>The interface of a seeker\<close>

text \<open>
  What a seeker over fixed data promises its clients: \<open>Seek\<close> goes where it is told when that is not
  before the start, and says where it is. \<open>seekerLen\<close> then tells the bytes that are left and moves
  nothing.
\<close>

locale seeker =
  fixes seek :: "int \<Rightarrow> whence \<Rightarrow> ('s, 'e, int) action"
    and pos :: "'s \<Rightarrow> nat"
    and size :: "'s \<Rightarrow> nat"
    and ok :: "'s \<Rightarrow> bool"
  assumes seek_Start: "ok s \<Longrightarrow> 0 \<le> i \<Longrightarrow> \<exists>s'. seek i SeekStart s = (Inr i, s') \<and> pos s' = nat i \<and> ok s' \<and> size s' = size s"
    and seek_Current: "ok s \<Longrightarrow> seek 0 SeekCurrent s = (Inr (int (pos s)), s)"
    and seek_End: "ok s \<Longrightarrow> \<exists>s'. seek 0 SeekEnd s = (Inr (int (size s)), s') \<and> ok s' \<and> size s' = size s"
    and seek_back: "ok s \<Longrightarrow> seek i w s = (Inr p, s') \<Longrightarrow> seek (int (pos s)) SeekStart s' = (Inr (int (pos s)), s)"
begin

lemma seekerLen_remaining:
  assumes "ok s"
  shows "seekerLen seek s = (Inr (int (size s) - int (pos s)), s)"
proof -
  obtain s' where s': "seek 0 SeekEnd s = (Inr (int (size s)), s')"
    using seek_End [OF assms] by blast
  from seek_back [OF assms s'] show ?thesis
    by (simp add: seekerLen_def act_bind_def seek_Current [OF assms] s')
qed

end

interpretation memory: seeker reader_Seek bd_pos "\<lambda>b. length (bd_data b)" "\<lambda>b. bd_seekErr b = None"
  by unfold_locales (auto simp: reader_Seek_def Let_def split: if_splits whence.splits)

lemma SeekerLen_remaining:
  assumes "body_ok b" and "bd_seekErr b = None"
  shows "SeekerLen b = (Inr (if bd_isSeeker b \<or> bd_hasLen b then int (length (bd_data b) - bd_pos b) else -1), b)"
  using assms memory.seekerLen_remaining [of b]
  by (auto simp: SeekerLen_def GetLen_def HasLen_def body_ok_def of_nat_diff split: option.splits)

section \<open>offsetReader\<close>

text \<open>
  An \<open>offsetReader\<close> works on the body it shares with the request: its operations take both.
\<close>

record offsetReader =
  or_closed :: bool

definition newOffsetReader :: "int \<Rightarrow> (body, goerror, offsetReader) action" where
  "newOffsetReader offset = act_bind (Body_Seek offset SeekStart) (\<lambda>_. act_ret \<lparr>or_closed = False\<rparr>)"

definition offsetReader_Close :: "offsetReader \<Rightarrow> offsetReader" where
  "offsetReader_Close r = r\<lparr>or_closed := True\<rparr>"

definition offsetReader_Read :: "offsetReader \<Rightarrow> nat \<Rightarrow> body \<Rightarrow> (io_error + byte list) \<times> body" where
  "offsetReader_Read r n b =
     (if or_closed r then (Inl EOF, b)
      else case Body_Read n b of (bs, b') \<Rightarrow> (if 0 < n \<and> bs = [] then Inl EOF else Inr bs, b'))"

definition offsetReader_Seek :: "offsetReader \<Rightarrow> int \<Rightarrow> whence \<Rightarrow> (body, goerror, int) action" where
  "offsetReader_Seek r = Body_Seek"

definition CloseAndCopy :: "offsetReader \<Rightarrow> int \<Rightarrow> body \<Rightarrow> (goerror + offsetReader) \<times> offsetReader \<times> body" where
  "CloseAndCopy r offset b = (case newOffsetReader offset b of (x, b') \<Rightarrow> (x, offsetReader_Close r, b'))"

text \<open>Reading an open reader to its end gives the rest of the body; a closed one leaves it alone.\<close>

definition unread :: "body \<Rightarrow> byte list" where
  "unread b = drop (bd_pos b) (bd_data b)"

lemma closed_reader_inert: "offsetReader_Read (offsetReader_Close r) n b = (Inl EOF, b)"
  by (simp add: offsetReader_Read_def offsetReader_Close_def)

lemma open_reader_read:
  assumes "\<not> or_closed r" and "bd_pos b \<le> length (bd_data b)" and "offsetReader_Read r n b = (Inr bs, b')"
  shows "unread b = bs @ unread b'"
  using assms
  by (auto simp: offsetReader_Read_def Body_Read_def unread_def min_def max_def split: if_splits)
    (metis append_take_drop_id drop_drop add.commute)+

lemma newOffsetReader_rewinds:
  assumes "body_ok b" and "bd_isSeeker b" and "bd_seekErr b = None" and "0 \<le> offset" and "nat offset \<le> length (bd_data b)"
  shows "newOffsetReader offset b = (Inr \<lparr>or_closed = False\<rparr>, b\<lparr>bd_pos := nat offset\<rparr>)"
  using assms by (simp add: newOffsetReader_def act_bind_def Body_Seek_def reader_Seek_def)

section \<open>WriteAtBuffer\<close>

text \<open>
  \<open>WriteAt\<close> on the bytes of the buffer: grown with zeros to the end of the write, then overwritten.
  The capacity of the slice, and with it \<open>GrowthCoeff\<close>, only says when it is reallocated; a buffer
  handed in with spare capacity is taken to have zeros there.
\<close>

definition WriteAt :: "byte list \<Rightarrow> nat \<Rightarrow> byte list \<Rightarrow> byte list" where
  "WriteAt buf pos p =
     (let expLen = pos + length p;
          buf = (if length buf < expLen then buf @ replicate (expLen - length buf) 0 else buf)
      in take pos buf @ p @ drop expLen buf)"

lemma length_WriteAt: "length (WriteAt buf pos p) = max (length buf) (pos + length p)"
  by (simp add: WriteAt_def Let_def)

lemma nth_WriteAt:
  assumes "i < length (WriteAt buf pos p)"
  shows "WriteAt buf pos p ! i =
    (if pos \<le> i \<and> i < pos + length p then p ! (i - pos) else if i < length buf then buf ! i else 0)"
  using assms by (auto simp: WriteAt_def Let_def nth_append)

lemma WriteAt_commute:
  assumes "pos + length p \<le> pos' \<or> pos' + length p' \<le> pos"
  shows "WriteAt (WriteAt buf pos p) pos' p' = WriteAt (WriteAt buf pos' p') pos p"
proof (rule nth_equalityI)
  show "length (WriteAt (WriteAt buf pos p) pos' p') = length (WriteAt (WriteAt buf pos' p') pos p)"
    by (simp add: length_WriteAt max.assoc max.commute max.left_commute)
next
  fix i
  assume "i < length (WriteAt (WriteAt buf pos p) pos' p')"
  then have i: "i < length buf \<or> i < pos + length p \<or> i < pos' + length p'"
    by (auto simp: length_WriteAt less_max_iff_disj)
  then show "WriteAt (WriteAt buf pos p) pos' p' ! i = WriteAt (WriteAt buf pos' p') pos p ! i"
    using assms by (auto simp: nth_WriteAt length_WriteAt less_max_iff_disj)
qed

end
