(* ===== verification/AwsRequest.thy ===== *)
theory AwsRequest
  imports AwsHandlers AwsBody
begin

text \<open>
  The life of a request: \<open>aws/request/request.go\<close>, \<open>request_1_8.go\<close> and the handlers of
  \<open>aws/corehandlers/handlers.go\<close>.

  A \<open>Request\<close> holds the fields the send loop reads and writes; \<open>rq_world\<close> is everything else the
  handlers work on (parameters, signatures, logs, the network, credentials, time). The handler
  lists, which Go keeps inside the request, are an argument, so a handler does not change them
  while the request runs. The HTTP client, the context, the sleep between attempts and the expiry
  of credentials are parameters. A nil dereference is the error \<open>nilDereference\<close>.
\<close>

section \<open>State\<close>

record http_response =
  hr_StatusCode :: int
  hr_RetryAfter :: string

datatype http_body = BodyNil | NoBody | SafeBody | StreamingBody

record 'w Request =
  rq_Error :: "goerror option"
  rq_Retryable :: "bool option"
  rq_RetryCount :: int
  rq_RetryDelay :: int
  rq_HTTPResponse :: "http_response option"
  rq_built :: bool
  rq_Body :: body
  rq_BodyStart :: int
  rq_hasStreaming :: bool
  rq_safeBody :: "offsetReader option"
  rq_httpBody :: http_body
  rq_ContentLength :: int
  rq_hdrContentLength :: string
  rq_Host :: string
  rq_URLHost :: string
  rq_URLScheme :: string
  rq_HTTPMethod :: string
  rq_RetryErrorCodes :: "string list"
  rq_ThrottleErrorCodes :: "string list"
  rq_EnforceShouldRetryCheck :: bool
  rq_world :: 'w

definition nilDereference :: goerror where
  "nilDereference = PlainError ''invalid memory address or nil pointer dereference''"

text \<open>The interface \<open>Retryer\<close>.\<close>

record 'w Retryer =
  rt_RetryRules :: "'w Request \<Rightarrow> int"
  rt_ShouldRetry :: "'w Request \<Rightarrow> bool"
  rt_MaxRetries :: int

definition noOpRetryer :: "'w Retryer" where
  "noOpRetryer = \<lparr>rt_RetryRules = (\<lambda>_. 0), rt_ShouldRetry = (\<lambda>_. False), rt_MaxRetries = 0\<rparr>"

section \<open>The body of an attempt\<close>

definition getNextRequestBody :: "('w Request, goerror, http_body) action" where
  "getNextRequestBody r =
     (if rq_hasStreaming r then (Inr StreamingBody, r)
      else
        case newOffsetReader (rq_BodyStart r) (rq_Body r) of
          (Inl e, b) \<Rightarrow>
            (Inl (awserr_New ErrCodeSerialization ''failed to get next request body reader'' (Some e)),
             r\<lparr>rq_Body := b, rq_safeBody := None\<rparr>)
        | (Inr rd, b) \<Rightarrow>
            (let r = r\<lparr>rq_Body := b, rq_safeBody := Some rd\<rparr> in
             case SeekerLen (rq_Body r) of
               (Inl e, b) \<Rightarrow>
                 (Inl (awserr_New ErrCodeSerialization ''failed to compute request body size'' (Some e)),
                  r\<lparr>rq_Body := b\<rparr>)
             | (Inr l, b) \<Rightarrow>
                 (Inr (if l = 0 then NoBody
                       else if 0 < l then SafeBody
                       else if rq_HTTPMethod r \<in> {''GET'', ''HEAD'', ''DELETE''} then NoBody
                       else SafeBody),
                  r\<lparr>rq_Body := b\<rparr>)))"

definition ResetBody :: "'w Request \<Rightarrow> 'w Request" where
  "ResetBody r = (case getNextRequestBody r of
     (Inl e, r') \<Rightarrow> r'\<lparr>rq_Error := Some (awserr_New ErrCodeSerialization ''failed to reset request body'' (Some e))\<rparr>
   | (Inr hb, r') \<Rightarrow> r'\<lparr>rq_httpBody := hb\<rparr>)"

definition SetReaderBody :: "body \<Rightarrow> 'w Request \<Rightarrow> 'w Request" where
  "SetReaderBody reader r =
     (let r = r\<lparr>rq_Body := reader\<rparr> in
      if IsReaderSeekable reader then
        (case Body_Seek 0 SeekCurrent reader of
           (Inl e, b) \<Rightarrow>
             r\<lparr>rq_Body := b, rq_BodyStart := 0, rq_Error := Some (awserr_New ErrCodeSerialization
               ''failed to determine start of request body'' (Some e))\<rparr>
         | (Inr p, b) \<Rightarrow> ResetBody (r\<lparr>rq_Body := b, rq_BodyStart := p\<rparr>))
      else ResetBody r)"

definition SetBufferBody :: "byte list \<Rightarrow> 'w Request \<Rightarrow> 'w Request" where
  "SetBufferBody buf = SetReaderBody \<lparr>bd_wrapped = False, bd_isSeeker = True, bd_hasLen = True,
     bd_seekErr = None, bd_data = buf, bd_pos = 0\<rparr>"

definition SetStreamingBody :: "body \<Rightarrow> 'w Request \<Rightarrow> 'w Request" where
  "SetStreamingBody reader r = SetReaderBody (reader\<lparr>bd_wrapped := True\<rparr>) (r\<lparr>rq_hasStreaming := True\<rparr>)"

definition WillRetry :: "'w Retryer \<Rightarrow> 'w Request \<Rightarrow> bool" where
  "WillRetry retryer r =
     (if \<not> IsReaderSeekable (rq_Body r) \<and> rq_httpBody r \<noteq> NoBody then False
      else rq_Error r \<noteq> None \<and> rq_Retryable r = Some True \<and> rq_RetryCount r < rt_MaxRetries retryer)"

section \<open>The host header\<close>

definition getHost :: "'w Request \<Rightarrow> string" where
  "getHost r = (if rq_Host r \<noteq> [] then rq_Host r else rq_URLHost r)"

definition before :: "char \<Rightarrow> string \<Rightarrow> string" where
  "before c s = takeWhile (\<lambda>d. d \<noteq> c) s"

fun after_bracket_colon :: "string \<Rightarrow> string option" where
  "after_bracket_colon (c # d # s) =
     (if c = CHR '']'' \<and> d = CHR '':'' then Some s else after_bracket_colon (d # s))"
| "after_bracket_colon _ = None"

definition stripPort :: "string \<Rightarrow> string" where
  "stripPort hostport =
     (if CHR '':'' \<notin> set hostport then hostport
      else if CHR '']'' \<in> set hostport then
        (let h = before CHR '']'' hostport in if prefix_of ''['' h then tl h else h)
      else before CHR '':'' hostport)"

definition portOnly :: "string \<Rightarrow> string" where
  "portOnly hostport =
     (if CHR '':'' \<notin> set hostport then []
      else case after_bracket_colon hostport of
        Some p \<Rightarrow> p
      | None \<Rightarrow>
          if CHR '']'' \<in> set hostport then [] else tl (dropWhile (\<lambda>d. d \<noteq> CHR '':'') hostport))"

definition char_lower :: "char \<Rightarrow> char" where
  "char_lower c = (if of_char c \<in> {65..90 :: nat} then char_of (of_char c + 32 :: nat) else c)"

definition isDefaultPort :: "string \<Rightarrow> string \<Rightarrow> bool" where
  "isDefaultPort scheme port =
     (if port = [] then True
      else let s = map char_lower scheme in
        s = ''http'' \<and> port = ''80'' \<or> s = ''https'' \<and> port = ''443'')"

definition SanitizeHostForHeader :: "'w Request \<Rightarrow> 'w Request" where
  "SanitizeHostForHeader r =
     (let host = getHost r; port = portOnly host in
      if port \<noteq> [] \<and> isDefaultPort (rq_URLScheme r) port then r\<lparr>rq_Host := stripPort host\<rparr> else r)"

section \<open>Build, sign and send\<close>

definition Request_Build :: "'w Request Handlers \<Rightarrow> 'w Request \<Rightarrow> goerror option \<times> 'w Request" where
  "Request_Build hs r =
     (if \<not> rq_built r then
        let r = Run (Validate hs) r in
        if rq_Error r \<noteq> None then (rq_Error r, r)
        else let r = Run (Build hs) r in
          if rq_Error r \<noteq> None then (rq_Error r, r)
          else let r = r\<lparr>rq_built := True\<rparr> in (rq_Error r, r)
      else (rq_Error r, r))"

definition Request_Sign :: "'w Request Handlers \<Rightarrow> 'w Request \<Rightarrow> goerror option \<times> 'w Request" where
  "Request_Sign hs r =
     (let r = snd (Request_Build hs r) in
      if rq_Error r \<noteq> None then (rq_Error r, r)
      else let r = Run (Sign hs) (SanitizeHostForHeader r) in (rq_Error r, r))"

definition sendRequest :: "'w Request Handlers \<Rightarrow> 'w Request \<Rightarrow> goerror option \<times> 'w Request" where
  "sendRequest hs r =
     (let (err, r) =
        (let r = Run (Send hs) (r\<lparr>rq_Retryable := None\<rparr>) in
         if rq_Error r \<noteq> None then (rq_Error r, r)
         else let r = Run (ValidateResponse hs) (Run (UnmarshalMeta hs) r) in
           if rq_Error r \<noteq> None then (let r = Run (UnmarshalError hs) r in (rq_Error r, r))
           else let r = Run (Unmarshal hs) r in
             if rq_Error r \<noteq> None then (rq_Error r, r) else (None, r))
      in (err, Run (CompleteAttempt hs) r))"

definition prepareRetry :: "'w Request \<Rightarrow> goerror option \<times> 'w Request" where
  "prepareRetry r =
     (let r = ResetBody (r\<lparr>rq_httpBody := BodyNil\<rparr>) in
      case rq_Error r of
        Some e \<Rightarrow> (Some (awserr_New ErrCodeSerialization ''failed to prepare body for retry'' (Some e)), r)
      | None \<Rightarrow> (None, r))"

text \<open>One pass of the loop of \<open>Send\<close>: \<open>Inl\<close> where it returns, with the error; \<open>Inr\<close> for the next pass.\<close>

definition send_attempt :: "'w Request Handlers \<Rightarrow> 'w Request \<Rightarrow> (goerror option \<times> 'w Request) + 'w Request" where
  "send_attempt hs r =
     (case Request_Sign hs (r\<lparr>rq_Error := None\<rparr>) of
        (Some e, r) \<Rightarrow> Inl (Some e, r)
      | (None, r) \<Rightarrow>
          (case sendRequest hs r of
             (None, r) \<Rightarrow> Inl (None, r)
           | (Some _, r) \<Rightarrow>
               (let r = Run (AfterRetry hs) (Run (Retry hs) r) in
                if rq_Error r \<noteq> None \<or> rq_Retryable r \<noteq> Some True then Inl (rq_Error r, r)
                else case prepareRetry r of
                  (Some e, r) \<Rightarrow> Inl (Some e, r\<lparr>rq_Error := Some e\<rparr>)
                | (None, r) \<Rightarrow> Inr r)))"

text \<open>The loop, on fuel: \<open>None\<close> is fuel that ran out.\<close>

fun send_loop :: "nat \<Rightarrow> 'w Request Handlers \<Rightarrow> 'w Request \<Rightarrow> (goerror option \<times> 'w Request) option" where
  "send_loop 0 hs r = None"
| "send_loop (Suc n) hs r = (case send_attempt hs r of
     Inl res \<Rightarrow> Some res
   | Inr r' \<Rightarrow> send_loop n hs r')"

definition emptyResponse :: http_response where
  "emptyResponse = \<lparr>hr_StatusCode = 0, hr_RetryAfter = []\<rparr>"

text \<open>The deferred function of \<open>Send\<close>.\<close>

definition send_deferred :: "'w Request Handlers \<Rightarrow> 'w Request \<Rightarrow> 'w Request" where
  "send_deferred hs r =
     Run (Complete hs) (if rq_HTTPResponse r = None then r\<lparr>rq_HTTPResponse := Some emptyResponse\<rparr> else r)"

definition Request_Send :: "nat \<Rightarrow> 'w Request Handlers \<Rightarrow> 'w Request \<Rightarrow> (goerror option \<times> 'w Request) option" where
  "Request_Send fuel hs r =
     (case (if rq_Error r \<noteq> None then Some (rq_Error r, r) else send_loop fuel hs r) of
        None \<Rightarrow> None
      | Some (err, r) \<Rightarrow> Some (err, send_deferred hs r))"

section \<open>The core handlers\<close>

definition int64_max :: int where "int64_max = 2 ^ 63 - 1"

text \<open>\<open>strconv.ParseInt(s, 10, 64)\<close> and \<open>Atoi\<close>: the value and whether there was an error.\<close>

definition digit_value :: "char \<Rightarrow> int" where
  "digit_value c = of_char c - 48"

definition is_digit :: "char \<Rightarrow> bool" where
  "is_digit c \<longleftrightarrow> of_char c \<in> {48..57 :: nat}"

definition ParseInt :: "string \<Rightarrow> int \<times> bool" where
  "ParseInt s =
     (let neg = prefix_of ''-'' s;
          ds = (if neg \<or> prefix_of ''+'' s then tl s else s)
      in if ds = [] \<or> \<not> (\<forall>c \<in> set ds. is_digit c) then (0, True)
         else let n = foldl (\<lambda>acc c. 10 * acc + digit_value c) 0 ds in
           if \<not> neg \<and> int64_max < n then (int64_max, True)
           else if neg \<and> int64_max + 1 < n then (- int64_max - 1, True)
           else (if neg then - n else n, False))"

definition BuildContentLengthHandler :: "'w Request \<Rightarrow> 'w Request" where
  "BuildContentLengthHandler r =
     (let set_length = (\<lambda>length r.
        if 0 < length then r\<lparr>rq_ContentLength := length, rq_hdrContentLength := int_digits length\<rparr>
        else r\<lparr>rq_ContentLength := 0, rq_hdrContentLength := []\<rparr>)
      in if rq_hdrContentLength r \<noteq> [] then set_length (fst (ParseInt (rq_hdrContentLength r))) r
         else case SeekerLen (rq_Body r) of
           (Inl e, b) \<Rightarrow> r\<lparr>rq_Body := b, rq_Error := Some (awserr_New ErrCodeSerialization
             ''failed to get request body's length'' (Some e))\<rparr>
         | (Inr l, b) \<Rightarrow> set_length l (r\<lparr>rq_Body := b\<rparr>))"

text \<open>Decimal numerals are read back.\<close>

definition digits_value :: "string \<Rightarrow> int" where
  "digits_value ds = foldl (\<lambda>acc c. 10 * acc + digit_value c) 0 ds"

lemma digit_char:
  assumes "k < 10"
  shows "is_digit (char_of (48 + k))" and "digit_value (char_of (48 + k)) = int k"
proof -
  have "(of_char (char_of (48 + k) :: char) :: int) = int (of_char (char_of (48 + k) :: char))"
    by (simp only: of_nat_of_char)
  with assms show "is_digit (char_of (48 + k))" and "digit_value (char_of (48 + k)) = int k"
    by (simp_all add: is_digit_def digit_value_def)
qed

lemma nat_digits_props:
  "nat_digits n \<noteq> [] \<and> (\<forall>c \<in> set (nat_digits n). is_digit c) \<and> digits_value (nat_digits n) = int n"
proof (induction n rule: nat_digits.induct)
  case (1 n)
  show ?case
  proof (cases "n < 10")
    case True
    then show ?thesis by (simp add: nat_digits.simps [of n] digits_value_def digit_char)
  next
    case False
    have "n mod 10 < 10" by simp
    moreover have "int n = 10 * int (n div 10) + int (n mod 10)"
      by (metis mult_div_mod_eq of_nat_add of_nat_mult of_nat_numeral)
    ultimately show ?thesis
      using "1.IH" [OF False] False by (simp add: nat_digits.simps [of n] digits_value_def digit_char)
  qed
qed

lemma digit_not: "is_digit c \<Longrightarrow> c \<noteq> CHR ''-'' \<and> c \<noteq> CHR ''+'' \<and> c \<noteq> CHR ''/'' \<and> c \<noteq> CHR ''*''"
  by (auto simp: is_digit_def)

lemma prefix_of_single: "prefix_of [c] s \<longleftrightarrow> s \<noteq> [] \<and> hd s = c"
  by (cases s) auto

lemma ParseInt_int_digits:
  assumes "- (2 ^ 63) \<le> i" and "i < 2 ^ 63"
  shows "ParseInt (int_digits i) = (i, False)"
proof (cases "i < 0")
  case True
  have "int_digits i = CHR ''-'' # nat_digits (nat (- i))" using True by (simp add: int_digits_def)
  moreover have "nat_digits (nat (- i)) \<noteq> []" "\<forall>c \<in> set (nat_digits (nat (- i))). is_digit c"
    "digits_value (nat_digits (nat (- i))) = - i"
    using nat_digits_props [of "nat (- i)"] True by auto
  ultimately show ?thesis
    using assms by (simp add: ParseInt_def Let_def prefix_of_single digits_value_def int64_max_def)
next
  case False
  define ds where "ds = nat_digits (nat i)"
  have ds: "ds \<noteq> []" "\<forall>c \<in> set ds. is_digit c" "digits_value ds = i"
    using nat_digits_props [of "nat i"] False by (auto simp: ds_def)
  then have "hd ds \<noteq> CHR ''-'' \<and> hd ds \<noteq> CHR ''+''" using digit_not by auto
  with ds assms False show ?thesis
    by (simp add: int_digits_def ds_def [symmetric] ParseInt_def Let_def prefix_of_single digits_value_def int64_max_def)
qed

text \<open>\<open>reStatusCode\<close>: three digits at the start of the text.\<close>

definition leading_status :: "string \<Rightarrow> int option" where
  "leading_status t =
     (if 3 \<le> length t \<and> (\<forall>c \<in> set (take 3 t). is_digit c)
      then Some (foldl (\<lambda>acc c. 10 * acc + digit_value c) 0 (take 3 t)) else None)"

definition handleSendError :: "('w \<Rightarrow> goerror option) \<Rightarrow> goerror \<Rightarrow> 'w Request \<Rightarrow> 'w Request" where
  "handleSendError ctxErr err r =
     (case (case err of URLError p u e \<Rightarrow> leading_status (error_text e) | _ \<Rightarrow> None) of
        Some code \<Rightarrow> r\<lparr>rq_HTTPResponse := Some \<lparr>hr_StatusCode = code, hr_RetryAfter = []\<rparr>\<rparr>
      | None \<Rightarrow>
          (let r = (if rq_HTTPResponse r = None then r\<lparr>rq_HTTPResponse := Some emptyResponse\<rparr> else r);
               r = r\<lparr>rq_Error := Some (awserr_New ErrCodeRequestError ''send request failed'' (Some err))\<rparr>
           in case ctxErr (rq_world r) of
                Some ce \<Rightarrow> r\<lparr>rq_Error := Some (awserr_New CanceledErrorCode ''request context canceled'' (Some ce)),
                              rq_Retryable := Some False\<rparr>
              | None \<Rightarrow> r))"

type_synonym 'w http_client = "'w Request \<Rightarrow> http_response option \<times> goerror option \<times> body \<times> 'w"

definition SendHandler :: "'w http_client \<Rightarrow> ('w \<Rightarrow> goerror option) \<Rightarrow> 'w Request \<Rightarrow> 'w Request" where
  "SendHandler http ctxErr r =
     (let req = (if rq_httpBody r = NoBody then r\<lparr>rq_httpBody := BodyNil\<rparr> else r) in
      case http req of (resp, err, b, w) \<Rightarrow>
        let r = r\<lparr>rq_HTTPResponse := resp, rq_Body := b, rq_world := w\<rparr> in
        case err of Some e \<Rightarrow> handleSendError ctxErr e r | None \<Rightarrow> r)"

definition ValidateResponseHandler :: "'w Request \<Rightarrow> 'w Request" where
  "ValidateResponseHandler r = (case rq_HTTPResponse r of
     None \<Rightarrow> r\<lparr>rq_Error := Some nilDereference\<rparr>
   | Some resp \<Rightarrow>
       if hr_StatusCode resp = 0 \<or> 300 \<le> hr_StatusCode resp
       then r\<lparr>rq_Error := Some (awserr_New ''UnknownError'' ''unknown error'' (rq_Error r))\<rparr> else r)"

definition IsErrorExpired :: "'w Request \<Rightarrow> bool" where
  "IsErrorExpired r = IsErrorExpiredCreds (rq_Error r)"

definition AfterRetryHandler ::
  "'w Retryer \<Rightarrow> (int \<Rightarrow> 'w \<Rightarrow> goerror option \<times> 'w) \<Rightarrow> ('w \<Rightarrow> 'w) \<Rightarrow> 'w Request \<Rightarrow> 'w Request" where
  "AfterRetryHandler retryer sleep expire r =
     (let r = (if rq_Retryable r = None \<or> rq_EnforceShouldRetryCheck r
               then r\<lparr>rq_Retryable := Some (rt_ShouldRetry retryer r)\<rparr> else r)
      in if WillRetry retryer r then
           (let r = r\<lparr>rq_RetryDelay := rt_RetryRules retryer r\<rparr> in
            case sleep (rq_RetryDelay r) (rq_world r) of
              (Some e, w) \<Rightarrow>
                r\<lparr>rq_world := w, rq_Retryable := Some False,
                  rq_Error := Some (awserr_New CanceledErrorCode ''request context canceled'' (Some e))\<rparr>
            | (None, w) \<Rightarrow>
                r\<lparr>rq_world := (if IsErrorExpired r then expire w else w),
                  rq_RetryCount := rq_RetryCount r + 1, rq_Error := None\<rparr>)
         else r)"

section \<open>The body is sent from its start again\<close>

lemma SeekerLen_at:
  assumes "body_ok b" and "bd_isSeeker b" and "bd_seekErr b = None" and "0 \<le> p" and "nat p \<le> length (bd_data b)"
  shows "SeekerLen (b\<lparr>bd_pos := nat p\<rparr>) = (Inr (int (length (bd_data b)) - p), b\<lparr>bd_pos := nat p\<rparr>)"
  using assms SeekerLen_remaining [of "b\<lparr>bd_pos := nat p\<rparr>"] by (simp add: body_ok_def of_nat_diff)

lemma ResetBody_rewinds:
  assumes "body_ok (rq_Body r)" and "bd_isSeeker (rq_Body r)" and "bd_seekErr (rq_Body r) = None"
    and "0 \<le> rq_BodyStart r" and "nat (rq_BodyStart r) \<le> length (bd_data (rq_Body r))" and "\<not> rq_hasStreaming r"
  shows "ResetBody r = r\<lparr>rq_safeBody := Some \<lparr>or_closed = False\<rparr>,
     rq_Body := (rq_Body r)\<lparr>bd_pos := nat (rq_BodyStart r)\<rparr>,
     rq_httpBody := if nat (rq_BodyStart r) = length (bd_data (rq_Body r)) then NoBody else SafeBody\<rparr>"
proof -
  have new: "newOffsetReader (rq_BodyStart r) (rq_Body r) =
      (Inr \<lparr>or_closed = False\<rparr>, (rq_Body r)\<lparr>bd_pos := nat (rq_BodyStart r)\<rparr>)"
    using assms by (intro newOffsetReader_rewinds) simp_all
  define l where "l = int (length (bd_data (rq_Body r))) - rq_BodyStart r"
  have len: "SeekerLen ((rq_Body r)\<lparr>bd_pos := nat (rq_BodyStart r)\<rparr>) =
      (Inr l, (rq_Body r)\<lparr>bd_pos := nat (rq_BodyStart r)\<rparr>)"
    using assms unfolding l_def by (intro SeekerLen_at) simp_all
  have eq: "nat (rq_BodyStart r) = length (bd_data (rq_Body r)) \<longleftrightarrow> l = 0" and pos: "0 \<le> l"
    using assms(4,5) unfolding l_def by linarith+
  show ?thesis
    using assms(6) pos unfolding eq
    by (cases "l = 0") (simp_all add: ResetBody_def getNextRequestBody_def new len Let_def)
qed

lemma prepareRetry_rewinds:
  assumes "body_ok (rq_Body r)" and "bd_isSeeker (rq_Body r)" and "bd_seekErr (rq_Body r) = None"
    and "0 \<le> rq_BodyStart r" and "nat (rq_BodyStart r) \<le> length (bd_data (rq_Body r))" and "\<not> rq_hasStreaming r"
    and "rq_Error r = None"
  shows "\<exists>r'. prepareRetry r = (None, r') \<and> rq_safeBody r' = Some \<lparr>or_closed = False\<rparr> \<and>
     unread (rq_Body r') = drop (nat (rq_BodyStart r)) (bd_data (rq_Body r)) \<and>
     rq_httpBody r' = (if nat (rq_BodyStart r) = length (bd_data (rq_Body r)) then NoBody else SafeBody) \<and>
     rq_RetryCount r' = rq_RetryCount r"
  using ResetBody_rewinds [of "r\<lparr>rq_httpBody := BodyNil\<rparr>"] assms
  by (simp add: prepareRetry_def unread_def Let_def)

section \<open>The loop ends\<close>

text \<open>
  \<open>keeps_count\<close> and \<open>keeps_error\<close>: the handlers of a list leave the number of retries alone and do
  not clear an error. What the loop needs of a configuration to end: only the after-retry handler
  counts retries, and nothing between the attempt and it clears the error of the attempt.
\<close>

definition keeps_count :: "'w Request HandlerList \<Rightarrow> bool" where
  "keeps_count l \<longleftrightarrow> (\<forall>h \<in> set (hl_list l). \<forall>r. rq_RetryCount (nh_Fn h r) = rq_RetryCount r)"

definition keeps_error :: "'w Request HandlerList \<Rightarrow> bool" where
  "keeps_error l \<longleftrightarrow> (\<forall>h \<in> set (hl_list l). \<forall>r. rq_Error r \<noteq> None \<longrightarrow> rq_Error (nh_Fn h r) \<noteq> None)"

definition only_handler :: "string \<Rightarrow> ('w Request \<Rightarrow> 'w Request) \<Rightarrow> 'w Request HandlerList" where
  "only_handler name f = \<lparr>hl_list = [\<lparr>nh_Name = name, nh_Fn = f\<rparr>], hl_AfterEachFn = None\<rparr>"

definition retry_config ::
  "'w Retryer \<Rightarrow> (int \<Rightarrow> 'w \<Rightarrow> goerror option \<times> 'w) \<Rightarrow> ('w \<Rightarrow> 'w) \<Rightarrow> 'w Request Handlers \<Rightarrow> bool" where
  "retry_config retryer sleep expire hs \<longleftrightarrow>
     AfterRetry hs = only_handler ''core.AfterRetryHandler'' (AfterRetryHandler retryer sleep expire) \<and>
     keeps_count (Validate hs) \<and> keeps_count (Build hs) \<and> keeps_count (Sign hs) \<and> keeps_count (Send hs) \<and>
     keeps_count (UnmarshalMeta hs) \<and> keeps_count (ValidateResponse hs) \<and> keeps_count (UnmarshalError hs) \<and>
     keeps_count (Unmarshal hs) \<and> keeps_count (CompleteAttempt hs) \<and> keeps_count (Retry hs) \<and>
     keeps_error (CompleteAttempt hs) \<and> keeps_error (Retry hs)"

lemma Run_induct:
  assumes "\<forall>h \<in> set (hl_list l). \<forall>r. P r \<longrightarrow> P (nh_Fn h r)" and "P r"
  shows "P (Run l r)"
proof -
  have "\<forall>h \<in> set hs. \<forall>r. P r \<longrightarrow> P (nh_Fn h r) \<Longrightarrow> P r \<Longrightarrow> P (run_loop f i hs r)" for f i hs
    by (induction f i hs r rule: run_loop.induct) (auto simp: Let_def split: option.splits)
  with assms show ?thesis by (simp add: Run_def)
qed

lemma Run_count [simp]: "keeps_count l \<Longrightarrow> rq_RetryCount (Run l r) = rq_RetryCount r"
  by (rule Run_induct [where P = "\<lambda>r'. rq_RetryCount r' = rq_RetryCount r"]) (simp_all add: keeps_count_def)

lemma Run_error: "keeps_error l \<Longrightarrow> rq_Error r \<noteq> None \<Longrightarrow> rq_Error (Run l r) \<noteq> None"
  by (rule Run_induct [where P = "\<lambda>r. rq_Error r \<noteq> None"]) (simp_all add: keeps_error_def)

lemma Run_only: "Run (only_handler name f) r = f r"
  by (simp add: Run_def only_handler_def)

lemma Sanitize_count [simp]: "rq_RetryCount (SanitizeHostForHeader r) = rq_RetryCount r"
  by (simp add: SanitizeHostForHeader_def Let_def)

lemma ResetBody_count [simp]: "rq_RetryCount (ResetBody r) = rq_RetryCount r"
  by (auto simp: ResetBody_def getNextRequestBody_def Let_def split: prod.splits sum.splits if_splits)

lemma prepareRetry_count: "prepareRetry r = (x, r') \<Longrightarrow> rq_RetryCount r' = rq_RetryCount r"
  by (auto simp: prepareRetry_def Let_def split: option.splits)

lemma Request_Sign_count:
  "retry_config retryer sleep expire hs \<Longrightarrow> Request_Sign hs r = (x, r') \<Longrightarrow> rq_RetryCount r' = rq_RetryCount r"
  by (auto simp: Request_Sign_def Request_Build_def retry_config_def Let_def split: if_splits)

lemma sendRequest_count:
  "retry_config retryer sleep expire hs \<Longrightarrow> sendRequest hs r = (x, r') \<Longrightarrow> rq_RetryCount r' = rq_RetryCount r"
  by (auto simp: sendRequest_def retry_config_def Let_def split: if_splits prod.splits)

lemma sendRequest_error:
  "retry_config retryer sleep expire hs \<Longrightarrow> sendRequest hs r = (Some e, r') \<Longrightarrow> rq_Error r' \<noteq> None"
  by (auto simp: sendRequest_def retry_config_def Let_def dest: Run_error split: if_splits prod.splits)

lemma AfterRetryHandler_again:
  assumes "rq_Error r \<noteq> None" and "rq_Error (AfterRetryHandler retryer sleep expire r) = None"
  shows "rq_RetryCount (AfterRetryHandler retryer sleep expire r) = rq_RetryCount r + 1"
    and "rq_RetryCount r < rt_MaxRetries retryer"
  using assms by (auto simp: AfterRetryHandler_def Let_def WillRetry_def split: if_splits prod.splits option.splits)

lemma send_attempt_again:
  assumes cfg: "retry_config retryer sleep expire hs" and again: "send_attempt hs r = Inr r'"
  shows "rq_RetryCount r' = rq_RetryCount r + 1 \<and> rq_RetryCount r < rt_MaxRetries retryer"
proof -
  obtain r1 where sign: "Request_Sign hs (r\<lparr>rq_Error := None\<rparr>) = (None, r1)"
    using again by (auto simp: send_attempt_def split: prod.splits option.splits)
  obtain e r2 where req: "sendRequest hs r1 = (Some e, r2)"
    using again sign by (auto simp: send_attempt_def split: prod.splits option.splits)
  define r3 where "r3 = Run (Retry hs) r2"
  define r4 where "r4 = AfterRetryHandler retryer sleep expire r3"
  have r4: "Run (AfterRetry hs) (Run (Retry hs) r2) = r4"
    using cfg by (simp add: retry_config_def Run_only r3_def r4_def)
  have ok: "rq_Error r4 = None" and prep: "prepareRetry r4 = (None, r')"
    using again by (auto simp: send_attempt_def sign req r4 Let_def split: if_splits prod.splits option.splits)
  have "rq_Error r3 \<noteq> None"
    using sendRequest_error [OF cfg req] cfg Run_error by (auto simp: retry_config_def r3_def)
  from AfterRetryHandler_again [OF this] ok r4_def
  have "rq_RetryCount r4 = rq_RetryCount r3 + 1" "rq_RetryCount r3 < rt_MaxRetries retryer" by auto
  moreover have "rq_RetryCount r3 = rq_RetryCount r"
    using cfg Request_Sign_count [OF cfg sign] sendRequest_count [OF cfg req] by (simp add: retry_config_def r3_def)
  ultimately show ?thesis using prepareRetry_count [OF prep] by simp
qed

lemma send_loop_ends:
  assumes "retry_config retryer sleep expire hs"
  shows "nat (rt_MaxRetries retryer - rq_RetryCount r) < n \<Longrightarrow> send_loop n hs r \<noteq> None"
proof (induction n arbitrary: r)
  case (Suc n)
  show ?case
  proof (cases "send_attempt hs r")
    case (Inr r')
    from send_attempt_again [OF assms Inr] Suc.prems have "nat (rt_MaxRetries retryer - rq_RetryCount r') < n"
      by linarith
    with Suc.IH Inr show ?thesis by simp
  qed simp
qed simp

lemma send_deferred_response:
  "\<exists>r0. send_deferred hs r = Run (Complete hs) r0 \<and> rq_HTTPResponse r0 \<noteq> None"
  by (auto simp: send_deferred_def)

end
