(* ===== verification/AwsRetryer.thy ===== *)
theory AwsRetryer
  imports AwsRequest
begin

text \<open>
  The default retryer, \<open>aws/client/default_retryer.go\<close>, and the questions about a request it asks,
  from \<open>aws/request/retryer.go\<close>.

  A \<open>time.Duration\<close> is a 64-bit count of nanoseconds: every operation on one is followed by
  \<open>wrap64\<close>. \<open>rnd n\<close> is the \<open>Int63n(n)\<close> of the seeded source, which panics where \<open>n\<close> is not
  positive; a panic is \<open>None\<close>. \<open>math.Log2\<close> of a delay is taken rounded down, which is what the
  conversion of the \<open>float64\<close> gives below \<open>2^48\<close> nanoseconds.
\<close>

section \<open>Questions about a request\<close>

definition Request_IsErrorRetryable :: "'w Request \<Rightarrow> bool option" where
  "Request_IsErrorRetryable r =
     (if isErrCode (rq_Error r) (rq_RetryErrorCodes r) then Some True
      else if (case rq_HTTPResponse r of None \<Rightarrow> False | Some resp \<Rightarrow> hr_StatusCode resp = 500) then Some True
      else IsErrorRetryable (rq_Error r))"

definition Request_IsErrorThrottle :: "'w Request \<Rightarrow> bool" where
  "Request_IsErrorThrottle r =
     (if isErrCode (rq_Error r) (rq_ThrottleErrorCodes r) then True
      else if (case rq_HTTPResponse r of None \<Rightarrow> False
                 | Some resp \<Rightarrow> hr_StatusCode resp \<in> {429, 502, 503, 504}) then True
      else IsErrorThrottle (rq_Error r))"

section \<open>The default retryer\<close>

record DefaultRetryer =
  NumMaxRetries :: int
  MinRetryDelay :: int
  MinThrottleDelay :: int
  MaxRetryDelay :: int
  MaxThrottleDelay :: int

definition DefaultRetryerMinRetryDelay :: int where "DefaultRetryerMinRetryDelay = 30 * 1000000"
definition DefaultRetryerMinThrottleDelay :: int where "DefaultRetryerMinThrottleDelay = 500 * 1000000"
definition DefaultRetryerMaxRetryDelay :: int where "DefaultRetryerMaxRetryDelay = 300 * 1000000000"
definition DefaultRetryerMaxThrottleDelay :: int where "DefaultRetryerMaxThrottleDelay = 300 * 1000000000"

lemmas retryer_defaults = DefaultRetryerMinRetryDelay_def DefaultRetryerMinThrottleDelay_def
  DefaultRetryerMaxRetryDelay_def DefaultRetryerMaxThrottleDelay_def

definition setRetryerDefaults :: "DefaultRetryer \<Rightarrow> DefaultRetryer" where
  "setRetryerDefaults d = d\<lparr>
     MinRetryDelay := (if MinRetryDelay d = 0 then DefaultRetryerMinRetryDelay else MinRetryDelay d),
     MaxRetryDelay := (if MaxRetryDelay d = 0 then DefaultRetryerMaxRetryDelay else MaxRetryDelay d),
     MinThrottleDelay := (if MinThrottleDelay d = 0 then DefaultRetryerMinThrottleDelay else MinThrottleDelay d),
     MaxThrottleDelay := (if MaxThrottleDelay d = 0 then DefaultRetryerMaxThrottleDelay else MaxThrottleDelay d)\<rparr>"

text \<open>\<open>None\<close> where the response is nil.\<close>

definition canUseRetryAfterHeader :: "'w Request \<Rightarrow> bool option" where
  "canUseRetryAfterHeader r = map_option (\<lambda>resp. hr_StatusCode resp \<in> {429, 503}) (rq_HTTPResponse r)"

definition getRetryAfterDelay :: "'w Request \<Rightarrow> (int \<times> bool) option" where
  "getRetryAfterDelay r = (case canUseRetryAfterHeader r of
     None \<Rightarrow> None
   | Some False \<Rightarrow> Some (0, False)
   | Some True \<Rightarrow>
       (let delayStr = (case rq_HTTPResponse r of None \<Rightarrow> [] | Some resp \<Rightarrow> hr_RetryAfter resp) in
        if length delayStr = 0 then Some (0, False)
        else case ParseInt delayStr of
          (delay, err) \<Rightarrow> if err then Some (0, False) else Some (wrap64 (delay * 1000000000), True)))"

definition getJitterDelay :: "(int \<Rightarrow> int) \<Rightarrow> int \<Rightarrow> int option" where
  "getJitterDelay rnd duration = (if duration \<le> 0 then None else Some (wrap64 (rnd duration + duration)))"

fun ilog2 :: "nat \<Rightarrow> nat" where
  "ilog2 n = (if n < 2 then 0 else Suc (ilog2 (n div 2)))"

declare ilog2.simps [simp del]

definition backoff :: "(int \<Rightarrow> int) \<Rightarrow> int \<Rightarrow> int \<Rightarrow> int \<Rightarrow> int option" where
  "backoff rnd minDelay maxDelay retryCount =
     (let actualRetryCount = int (ilog2 (nat minDelay)) + 1 in
      if actualRetryCount < 63 - retryCount then
        getJitterDelay rnd minDelay \<bind> (\<lambda>jitter.
          let delay = wrap64 (wrap64 (if 0 \<le> retryCount \<and> retryCount < 64 then 2 ^ nat retryCount else 0) * jitter) in
          if maxDelay < delay then getJitterDelay rnd (maxDelay sdiv 2) else Some delay)
      else getJitterDelay rnd (maxDelay sdiv 2))"

definition RetryRules :: "(int \<Rightarrow> int) \<Rightarrow> DefaultRetryer \<Rightarrow> 'w Request \<Rightarrow> int option" where
  "RetryRules rnd d r =
     (if NumMaxRetries d = 0 then Some 0
      else
        let d = setRetryerDefaults d;
            isThrottle = Request_IsErrorThrottle r
        in (if isThrottle then
              (case getRetryAfterDelay r of
                 None \<Rightarrow> None
               | Some (delay, ok) \<Rightarrow> Some (if ok then delay else 0))
            else Some 0) \<bind> (\<lambda>initialDelay.
           let minDelay = (if isThrottle then MinThrottleDelay d else MinRetryDelay d);
               maxDelay = (if isThrottle then MaxThrottleDelay d else MaxRetryDelay d)
           in backoff rnd minDelay maxDelay (rq_RetryCount r) \<bind> (\<lambda>delay.
              Some (wrap64 (delay + initialDelay)))))"

definition ShouldRetry :: "DefaultRetryer \<Rightarrow> 'w Request \<Rightarrow> bool option" where
  "ShouldRetry d r =
     (if NumMaxRetries d = 0 then Some False
      else case rq_Retryable r of
        Some b \<Rightarrow> Some b
      | None \<Rightarrow> Request_IsErrorRetryable r \<bind> (\<lambda>b. Some (b \<or> Request_IsErrorThrottle r)))"

definition default_Retryer :: "(int \<Rightarrow> int) \<Rightarrow> DefaultRetryer \<Rightarrow> 'w Retryer" where
  "default_Retryer rnd d = \<lparr>
     rt_RetryRules = (\<lambda>r. case RetryRules rnd d r of None \<Rightarrow> 0 | Some delay \<Rightarrow> delay),
     rt_ShouldRetry = (\<lambda>r. ShouldRetry d r = Some True),
     rt_MaxRetries = NumMaxRetries d\<rparr>"

section \<open>Delays\<close>

lemma ilog2_bounds: "0 < n \<Longrightarrow> 2 ^ ilog2 n \<le> n \<and> n < 2 ^ Suc (ilog2 n)"
proof (induction n rule: ilog2.induct)
  case (1 n)
  show ?case
  proof (cases "n < 2")
    case True
    with "1.prems" show ?thesis by (simp add: ilog2.simps)
  next
    case False
    with "1.IH" have "2 ^ ilog2 (n div 2) \<le> n div 2 \<and> n div 2 < 2 ^ Suc (ilog2 (n div 2))" by simp
    then have "2 ^ Suc (ilog2 (n div 2)) \<le> n" "n < 2 ^ Suc (Suc (ilog2 (n div 2)))" by auto
    moreover have "ilog2 n = Suc (ilog2 (n div 2))" using False by (subst ilog2.simps) simp
    ultimately show ?thesis by simp
  qed
qed

lemma getJitterDelay_bounds:
  assumes "0 < n" and "n < 2 ^ 62" and "\<forall>n > 0. 0 \<le> rnd n \<and> rnd n < n"
  shows "\<exists>j. getJitterDelay rnd n = Some j \<and> n \<le> j \<and> j < 2 * n"
proof -
  from assms have "0 \<le> rnd n" "rnd n < n" by auto
  with assms show ?thesis by (auto simp: getJitterDelay_def wrap64_id)
qed

lemma half_bounds: "2 \<le> m \<Longrightarrow> m < 2 ^ 63 \<Longrightarrow> 0 < m sdiv 2 \<and> m sdiv 2 < 2 ^ 62 \<and> 2 * (m sdiv 2) \<le> m" for m :: int
  by (auto simp: signed_divide_int_def sgn_if)

lemma backoff_bounds:
  assumes "0 < lo" and "2 \<le> hi" and "hi < 2 ^ 63" and rc: "0 \<le> rc" and rnd: "\<forall>n > 0. 0 \<le> rnd n \<and> rnd n < n"
  shows "\<exists>d. backoff rnd lo hi rc = Some d \<and> min (lo * 2 ^ nat rc) (hi sdiv 2) \<le> d \<and> d \<le> hi"
proof -
  from half_bounds [OF assms(2,3)] have half: "0 < hi sdiv 2" "hi sdiv 2 < 2 ^ 62" "2 * (hi sdiv 2) \<le> hi" by auto
  obtain c where c: "getJitterDelay rnd (hi sdiv 2) = Some c" "hi sdiv 2 \<le> c" "c < 2 * (hi sdiv 2)"
    using getJitterDelay_bounds [OF half(1,2) rnd] by blast
  with half have capped: "\<exists>d. getJitterDelay rnd (hi sdiv 2) = Some d \<and> min (lo * 2 ^ nat rc) (hi sdiv 2) \<le> d \<and> d \<le> hi"
    by auto
  show ?thesis
  proof (cases "int (ilog2 (nat lo)) + 1 < 63 - rc")
    case False
    with capped show ?thesis by (simp add: backoff_def)
  next
    case True
    define k where "k = ilog2 (nat lo)"
    have k: "Suc (Suc k) + nat rc \<le> 63" using True rc by (simp add: k_def)
    have "nat lo < 2 ^ Suc k" using ilog2_bounds [of "nat lo"] assms(1) by (simp add: k_def)
    then have lo: "lo < 2 ^ Suc k"
      using assms(1) by (metis nat_less_iff of_nat_numeral of_nat_power order_less_imp_le)
    have "(2 :: int) ^ Suc k \<le> 2 ^ 62" using k by (intro power_increasing) auto
    with lo have "lo < 2 ^ 62" by linarith
    then obtain j where j: "getJitterDelay rnd lo = Some j" "lo \<le> j" "j < 2 * lo"
      using getJitterDelay_bounds [OF assms(1) _ rnd] by blast
    have "j < 2 ^ Suc (Suc k)" using j(3) lo by simp
    then have "2 ^ nat rc * j < 2 ^ nat rc * 2 ^ Suc (Suc k)" by simp
    also have "\<dots> = (2 :: int) ^ (Suc (Suc k) + nat rc)" by (simp add: power_add)
    also have "\<dots> \<le> 2 ^ 63" using k by (intro power_increasing) auto
    finally have small: "2 ^ nat rc * j < 2 ^ 63" .
    have pos: "0 \<le> 2 ^ nat rc * j" using j(2) assms(1) by simp
    have "(2 :: int) ^ nat rc \<le> 2 ^ 62" using k by (intro power_increasing) auto
    then have "wrap64 (2 ^ nat rc) = 2 ^ nat rc" by (intro wrap64_id) (auto intro: order_trans [of _ 0])
    moreover have "wrap64 (2 ^ nat rc * j) = 2 ^ nat rc * j" using small pos by (intro wrap64_id) auto
    ultimately have "backoff rnd lo hi rc = (if hi < 2 ^ nat rc * j then getJitterDelay rnd (hi sdiv 2) else Some (2 ^ nat rc * j))"
      using True rc j(1) by (simp add: backoff_def k_def [symmetric])
    moreover have "min (lo * 2 ^ nat rc) (hi sdiv 2) \<le> 2 ^ nat rc * j"
      using j(2) by (simp add: min_le_iff_disj mult.commute)
    ultimately show ?thesis using capped by (cases "hi < 2 ^ nat rc * j") auto
  qed
qed

lemma shouldRetryError_canceled: "Code e = Some CanceledErrorCode \<Longrightarrow> shouldRetryError e = Some False"
  by (subst shouldRetryError.simps) simp

lemma ShouldRetry_total:
  assumes "\<forall>e. rq_Error r = Some e \<longrightarrow> chain_ok e"
  shows "ShouldRetry d r \<noteq> None"
proof -
  have "IsErrorRetryable (rq_Error r) \<noteq> None"
    using assms shouldRetryError_total by (auto simp: IsErrorRetryable_def split: option.splits)
  then show ?thesis by (auto simp: ShouldRetry_def Request_IsErrorRetryable_def split: option.splits)
qed

text \<open>The delay of a request that was not throttled stays between its bounds.\<close>

lemma RetryRules_bounds:
  assumes "NumMaxRetries d \<noteq> 0" and "\<not> Request_IsErrorThrottle r" and "0 \<le> rq_RetryCount r"
    and "0 \<le> MinRetryDelay d" and "MaxRetryDelay d = 0 \<or> 2 \<le> MaxRetryDelay d" and "MaxRetryDelay d < 2 ^ 63"
    and rnd: "\<forall>n > 0. 0 \<le> rnd n \<and> rnd n < n"
  shows "\<exists>t. RetryRules rnd d r = Some t \<and> t \<le> MaxRetryDelay (setRetryerDefaults d) \<and>
    min (MinRetryDelay (setRetryerDefaults d) * 2 ^ nat (rq_RetryCount r)) (MaxRetryDelay (setRetryerDefaults d) sdiv 2) \<le> t"
proof -
  define lo hi where "lo = MinRetryDelay (setRetryerDefaults d)" and "hi = MaxRetryDelay (setRetryerDefaults d)"
  have b: "0 < lo" "2 \<le> hi" "hi < 2 ^ 63"
    using assms(4-6) by (auto simp: lo_def hi_def setRetryerDefaults_def retryer_defaults)
  from backoff_bounds [OF b assms(3) rnd] obtain t where
    t: "backoff rnd lo hi (rq_RetryCount r) = Some t" "min (lo * 2 ^ nat (rq_RetryCount r)) (hi sdiv 2) \<le> t" "t \<le> hi" by blast
  have "0 \<le> hi sdiv 2" using half_bounds [OF b(2,3)] by simp
  then have "0 \<le> min (lo * 2 ^ nat (rq_RetryCount r)) (hi sdiv 2)" using b(1) by (simp add: min_def)
  then have "wrap64 t = t" using t(2,3) b(3) by (intro wrap64_id) auto
  with t assms(1,2) show ?thesis
    by (simp add: RetryRules_def Let_def lo_def [symmetric] hi_def [symmetric])
qed

text \<open>A \<open>Retry-After\<close> is neither bounded nor checked: in nanoseconds it wraps around.\<close>

definition throttled :: "string \<Rightarrow> 'w Request \<Rightarrow> bool" where
  "throttled after r \<longleftrightarrow> rq_HTTPResponse r = Some \<lparr>hr_StatusCode = 429, hr_RetryAfter = after\<rparr>"

lemma throttled_delay:
  assumes "throttled after r" and "after \<noteq> []" and "ParseInt after = (n, False)"
  shows "Request_IsErrorThrottle r" and "getRetryAfterDelay r = Some (wrap64 (n * 1000000000), True)"
  using assms by (simp_all add: throttled_def Request_IsErrorThrottle_def getRetryAfterDelay_def canUseRetryAfterHeader_def Let_def)

lemma parse_seconds: "ParseInt ''9223372037'' = (9223372037, False)"
  by (simp add: ParseInt_def prefix_of_single is_digit_def digit_value_def int64_max_def Let_def)

section \<open>Retryers and decisions already made\<close>

text \<open>
  What the after-retry handler relies on when a handler before it has decided against a retry: the
  retryer, asked or not, does not overrule it.
\<close>

locale obedient_retryer =
  fixes retryer :: "'w Retryer"
  assumes obeys: "rq_Retryable r = Some False \<Longrightarrow> \<not> rt_ShouldRetry retryer r"
begin

lemma AfterRetry_obeys:
  assumes "rq_Retryable r = Some False"
  shows "AfterRetryHandler retryer sleep expire r = r"
  using assms obeys [OF assms] by (simp add: AfterRetryHandler_def WillRetry_def Let_def)

end

interpretation default: obedient_retryer "default_Retryer rnd d" for rnd d
  by unfold_locales (simp add: default_Retryer_def ShouldRetry_def)

interpretation noOp: obedient_retryer noOpRetryer
  by unfold_locales (simp add: noOpRetryer_def)

end
