(* ===== verification/AwsSend.thy ===== *)
theory AwsSend
  imports AwsRetryer
begin

text \<open>
  The send loop with the handlers of \<open>aws/defaults/defaults.go\<close>: how often a request is sent, and that
  a canceled one is not sent again. The handlers of the core that are not modelled (endpoint
  validation, the two user agent handlers, the check of the signature's age) are parameters.
\<close>

section \<open>The default handlers\<close>

definition noHandlers :: "'r HandlerList" where
  "noHandlers = \<lparr>hl_list = [], hl_AfterEachFn = None\<rparr>"

definition defaults_Handlers ::
  "('w Request \<Rightarrow> 'w Request) \<Rightarrow> ('w Request \<Rightarrow> 'w Request) \<Rightarrow> ('w Request \<Rightarrow> 'w Request) \<Rightarrow> ('w Request \<Rightarrow> 'w Request) \<Rightarrow>
   'w http_client \<Rightarrow> ('w \<Rightarrow> goerror option) \<Rightarrow> 'w Retryer \<Rightarrow> (int \<Rightarrow> 'w \<Rightarrow> goerror option \<times> 'w) \<Rightarrow> ('w \<Rightarrow> 'w) \<Rightarrow>
   'w Request Handlers" where
  "defaults_Handlers validateEndpoint userAgent execEnv validateReqSig http ctxErr retryer sleep expire =
     (let stop = (\<lambda>l. l\<lparr>hl_AfterEachFn := Some (HandlerListStopOnError rq_Error)\<rparr>);
          push = (\<lambda>name f. PushBackNamed \<lparr>nh_Name = name, nh_Fn = f\<rparr>)
      in \<lparr>Validate = stop (push ''core.ValidateEndpointHandler'' validateEndpoint noHandlers),
          Build = stop (push ''core.AddHostExecEnvUserAgentHander'' execEnv
                    (push ''core.SDKVersionUserAgentHandler'' userAgent noHandlers)),
          BuildStream = noHandlers,
          Sign = push ''core.BuildContentLengthHandler'' BuildContentLengthHandler noHandlers,
          Send = push ''core.SendHandler'' (SendHandler http ctxErr)
                   (push ''core.ValidateReqSigHandler'' validateReqSig noHandlers),
          ValidateResponse = push ''core.ValidateResponseHandler'' ValidateResponseHandler noHandlers,
          Unmarshal = noHandlers, UnmarshalStream = noHandlers, UnmarshalMeta = noHandlers, UnmarshalError = noHandlers,
          Retry = noHandlers,
          AfterRetry = push ''core.AfterRetryHandler'' (AfterRetryHandler retryer sleep expire) noHandlers,
          CompleteAttempt = noHandlers, Complete = noHandlers\<rparr>)"

lemmas handlers_defs = defaults_Handlers_def noHandlers_def PushBackNamed_def Let_def

lemma Run_noHandlers [simp]: "Run noHandlers r = r"
  by (simp add: Run_def noHandlers_def)

lemma handleSendError_count [simp]: "rq_RetryCount (handleSendError ctxErr e r) = rq_RetryCount r"
  by (simp add: handleSendError_def Let_def split: option.splits)

lemma SendHandler_count [simp]: "rq_RetryCount (SendHandler http ctxErr r) = rq_RetryCount r"
  by (simp add: SendHandler_def Let_def split: prod.splits option.splits)

lemma BuildContentLengthHandler_count [simp]: "rq_RetryCount (BuildContentLengthHandler r) = rq_RetryCount r"
  by (simp add: BuildContentLengthHandler_def Let_def split: prod.splits sum.splits)

lemma ValidateResponseHandler_count [simp]: "rq_RetryCount (ValidateResponseHandler r) = rq_RetryCount r"
  by (simp add: ValidateResponseHandler_def split: option.splits)

lemma defaults_retry_config:
  assumes "\<And>r. rq_RetryCount (validateEndpoint r) = rq_RetryCount r" and "\<And>r. rq_RetryCount (userAgent r) = rq_RetryCount r"
    and "\<And>r. rq_RetryCount (execEnv r) = rq_RetryCount r" and "\<And>r. rq_RetryCount (validateReqSig r) = rq_RetryCount r"
  shows "retry_config retryer sleep expire
    (defaults_Handlers validateEndpoint userAgent execEnv validateReqSig http ctxErr retryer sleep expire)"
  using assms by (simp add: retry_config_def handlers_defs only_handler_def keeps_count_def keeps_error_def)

lemma Request_Send_returns: "send_loop fuel hs r \<noteq> None \<Longrightarrow> Request_Send fuel hs r \<noteq> None"
  by (auto simp: Request_Send_def split: option.splits)

section \<open>A canceled request is not sent again\<close>

text \<open>
  When the context is done the transport fails, the handler of that error asks for no retry, and
  the after-retry handler leaves the cancellation error and the count alone.
\<close>

lemma canceled_not_sent_again:
  assumes "ctxErr (rq_world r) = Some ce"
    and "\<forall>p u t. e = URLError p u t \<longrightarrow> leading_status (error_text t) = None"
  shows "let r' = AfterRetryHandler (default_Retryer rnd d) sleep expire (handleSendError ctxErr e r) in
    rq_Error r' = Some (awserr_New CanceledErrorCode ''request context canceled'' (Some ce)) \<and>
    rq_Retryable r' = Some False \<and> rq_RetryCount r' = rq_RetryCount r \<and> rq_world r' = rq_world r"
proof -
  define r1 where "r1 = handleSendError ctxErr e r"
  have none: "(case e of URLError p u t \<Rightarrow> leading_status (error_text t) | _ \<Rightarrow> None) = None"
    using assms(2) by (cases e) simp_all
  have r1: "rq_Error r1 = Some (awserr_New CanceledErrorCode ''request context canceled'' (Some ce))"
    "rq_Retryable r1 = Some False" "rq_RetryCount r1 = rq_RetryCount r" "rq_world r1 = rq_world r"
    using assms(1) by (simp_all add: r1_def handleSendError_def none Let_def)
  from default.AfterRetry_obeys [OF r1(2)]
  have "AfterRetryHandler (default_Retryer rnd d) sleep expire r1 = r1" .
  with r1 show ?thesis by (simp add: r1_def [symmetric] Let_def)
qed

section \<open>How often a request is sent\<close>

text \<open>A request whose body can be sent again.\<close>

definition resendable :: "'w Request \<Rightarrow> bool" where
  "resendable r \<longleftrightarrow> body_ok (rq_Body r) \<and> bd_isSeeker (rq_Body r) \<and> bd_seekErr (rq_Body r) = None \<and>
     0 \<le> rq_BodyStart r \<and> nat (rq_BodyStart r) \<le> length (bd_data (rq_Body r)) \<and> \<not> rq_hasStreaming r"

definition same_but_length :: "'w Request \<Rightarrow> 'w Request \<Rightarrow> bool" where
  "same_but_length r r' \<longleftrightarrow> rq_Error r' = rq_Error r \<and> rq_Body r' = rq_Body r \<and> rq_BodyStart r' = rq_BodyStart r \<and>
     rq_hasStreaming r' = rq_hasStreaming r \<and> rq_world r' = rq_world r \<and> rq_RetryCount r' = rq_RetryCount r \<and>
     rq_HTTPResponse r' = rq_HTTPResponse r"

lemma BuildContentLength_same: "resendable r \<Longrightarrow> same_but_length r (BuildContentLengthHandler r)"
  by (simp add: resendable_def BuildContentLengthHandler_def SeekerLen_remaining same_but_length_def Let_def)

lemma Sanitize_same: "same_but_length r (SanitizeHostForHeader r)"
  by (simp add: SanitizeHostForHeader_def same_but_length_def Let_def)

lemma same_trans: "same_but_length r r' \<Longrightarrow> same_but_length r' r'' \<Longrightarrow> same_but_length r r''"
  by (simp add: same_but_length_def)

lemma same_resendable: "same_but_length r r' \<Longrightarrow> resendable r \<Longrightarrow> resendable r'"
  by (simp add: same_but_length_def resendable_def)

text \<open>
  A transport that always fails and counts the attempts in the world, with a retryer that always
  asks for a retry.
\<close>

definition failing_client :: "goerror \<Rightarrow> nat http_client" where
  "failing_client e q = (None, Some e, rq_Body q, Suc (rq_world q))"

definition eager_Retryer :: "int \<Rightarrow> 'w Retryer" where
  "eager_Retryer n = \<lparr>rt_RetryRules = (\<lambda>_. 0), rt_ShouldRetry = (\<lambda>_. True), rt_MaxRetries = n\<rparr>"

definition failing_handlers :: "goerror \<Rightarrow> int \<Rightarrow> nat Request Handlers" where
  "failing_handlers e n = defaults_Handlers (\<lambda>r. r) (\<lambda>r. r) (\<lambda>r. r) (\<lambda>r. r) (failing_client e) (\<lambda>_. None)
     (eager_Retryer n) (\<lambda>_ w. (None, w)) (\<lambda>w. w)"

definition plain_send_error :: "goerror \<Rightarrow> bool" where
  "plain_send_error e \<longleftrightarrow> (\<forall>p u t. e = URLError p u t \<longrightarrow> leading_status (error_text t) = None)"

abbreviation sendError :: "goerror \<Rightarrow> goerror" where
  "sendError e \<equiv> awserr_New ErrCodeRequestError ''send request failed'' (Some e)"

lemma sign_failing:
  assumes "resendable r" and "rq_Error r = None"
  obtains r1 where "Request_Sign (failing_handlers e n) r = (None, r1)" and "same_but_length r r1"
proof -
  define r0 where "r0 = r\<lparr>rq_built := True\<rparr>"
  have r0: "same_but_length r r0" "rq_Error r0 = None" using assms(2) by (simp_all add: r0_def same_but_length_def)
  have "r = r0" if "rq_built r" using that by (simp add: r0_def)
  then have build: "snd (Request_Build (failing_handlers e n) r) = r0"
    using assms(2)
    by (simp add: Request_Build_def failing_handlers_def handlers_defs Run_def HandlerListStopOnError_def r0_def)
  have sign: "Run (Sign (failing_handlers e n)) x = BuildContentLengthHandler x" for x
    by (simp add: Run_def failing_handlers_def handlers_defs)
  define r1 where "r1 = BuildContentLengthHandler (SanitizeHostForHeader r0)"
  have same0: "same_but_length r (SanitizeHostForHeader r0)" using r0(1) Sanitize_same by (rule same_trans)
  from BuildContentLength_same [OF same_resendable [OF this assms(1)]]
  have same: "same_but_length r r1" unfolding r1_def by (rule same_trans [OF same0])
  moreover have "Request_Sign (failing_handlers e n) r = (None, r1)"
    using same r0(2) assms(2) by (simp add: Request_Sign_def build sign r1_def same_but_length_def)
  ultimately show thesis using that by blast
qed

lemma send_failing:
  assumes "plain_send_error e" and "rq_Error r = None"
  shows "\<exists>r2. sendRequest (failing_handlers e n) r = (Some (sendError e), r2) \<and> rq_Error r2 = Some (sendError e) \<and>
    rq_Retryable r2 = None \<and> rq_Body r2 = rq_Body r \<and> rq_BodyStart r2 = rq_BodyStart r \<and>
    rq_hasStreaming r2 = rq_hasStreaming r \<and> rq_world r2 = Suc (rq_world r) \<and> rq_RetryCount r2 = rq_RetryCount r"
proof -
  define q where "q = r\<lparr>rq_Retryable := None\<rparr>"
  define r2 where "r2 = SendHandler (failing_client e) (\<lambda>_. None) q"
  have none: "(case e of URLError p u t \<Rightarrow> leading_status (error_text t) | _ \<Rightarrow> None) = None"
    using assms(1) by (cases e) (simp_all add: plain_send_error_def)
  have r2: "rq_Error r2 = Some (sendError e)" "rq_Retryable r2 = None" "rq_Body r2 = rq_Body r"
    "rq_BodyStart r2 = rq_BodyStart r" "rq_hasStreaming r2 = rq_hasStreaming r" "rq_world r2 = Suc (rq_world r)"
    "rq_RetryCount r2 = rq_RetryCount r"
    by (simp_all add: r2_def q_def SendHandler_def failing_client_def handleSendError_def none Let_def)
  have "Run (Send (failing_handlers e n)) q = r2"
    by (simp add: Run_def failing_handlers_def handlers_defs r2_def)
  moreover have "Run (CompleteAttempt (failing_handlers e n)) x = x" for x
    by (simp add: Run_def failing_handlers_def handlers_defs)
  ultimately show ?thesis
    using r2 by (simp add: sendRequest_def q_def)
qed

lemma after_failing:
  assumes "rq_Retryable r = None" and "rq_Error r = Some err" and "bd_isSeeker (rq_Body r)"
  shows "AfterRetryHandler (eager_Retryer n) (\<lambda>_ w. (None, w)) (\<lambda>w. w) r =
    (if rq_RetryCount r < n
     then r\<lparr>rq_Retryable := Some True, rq_RetryDelay := 0, rq_RetryCount := rq_RetryCount r + 1, rq_Error := None\<rparr>
     else r\<lparr>rq_Retryable := Some True\<rparr>)"
proof -
  have "IsReaderSeekable (rq_Body r)" using assms(3) by (simp add: IsReaderSeekable_def)
  with assms show ?thesis by (simp add: AfterRetryHandler_def eager_Retryer_def WillRetry_def Let_def)
qed

lemma attempt_failing:
  assumes "plain_send_error e" and "resendable r"
  shows "if rq_RetryCount r < n
    then \<exists>r'. send_attempt (failing_handlers e n) r = Inr r' \<and> resendable r' \<and>
      rq_world r' = Suc (rq_world r) \<and> rq_RetryCount r' = rq_RetryCount r + 1
    else \<exists>r'. send_attempt (failing_handlers e n) r = Inl (Some (sendError e), r') \<and>
      rq_world r' = Suc (rq_world r) \<and> rq_RetryCount r' = rq_RetryCount r"
proof -
  let ?hs = "failing_handlers e n"
  define r0 where "r0 = r\<lparr>rq_Error := None\<rparr>"
  have r0: "resendable r0" "rq_Error r0 = None" using assms(2) by (simp_all add: r0_def resendable_def)
  obtain r1 where sign: "Request_Sign ?hs r0 = (None, r1)" and same: "same_but_length r0 r1"
    by (rule sign_failing [OF r0])
  have "rq_Error r1 = None" using same r0 by (simp add: same_but_length_def)
  from send_failing [OF assms(1) this] obtain r2 where
    send: "sendRequest ?hs r1 = (Some (sendError e), r2)" and err: "rq_Error r2 = Some (sendError e)" "rq_Retryable r2 = None"
    and keep: "rq_Body r2 = rq_Body r1" "rq_BodyStart r2 = rq_BodyStart r1" "rq_hasStreaming r2 = rq_hasStreaming r1"
      "rq_world r2 = Suc (rq_world r1)" "rq_RetryCount r2 = rq_RetryCount r1" by blast
  have r2: "resendable r2" "rq_world r2 = Suc (rq_world r)" "rq_RetryCount r2 = rq_RetryCount r"
    using same_resendable [OF same r0(1)] keep same by (simp_all add: resendable_def same_but_length_def r0_def)
  have after: "Run (AfterRetry ?hs) (Run (Retry ?hs) r2) =
      AfterRetryHandler (eager_Retryer n) (\<lambda>_ w. (None, w)) (\<lambda>w. w) r2"
    by (simp add: Run_def failing_handlers_def handlers_defs)
  have seek: "bd_isSeeker (rq_Body r2)" using r2(1) by (simp add: resendable_def)
  note handled = after_failing [OF err(2,1) seek, of n]
  have attempt: "send_attempt ?hs r = (let r = AfterRetryHandler (eager_Retryer n) (\<lambda>_ w. (None, w)) (\<lambda>w. w) r2 in
      if rq_Error r \<noteq> None \<or> rq_Retryable r \<noteq> Some True then Inl (rq_Error r, r)
      else case prepareRetry r of (Some e, r) \<Rightarrow> Inl (Some e, r\<lparr>rq_Error := Some e\<rparr>) | (None, r) \<Rightarrow> Inr r)"
    by (simp add: send_attempt_def sign [unfolded r0_def] send after)
  show ?thesis
  proof (cases "rq_RetryCount r < n")
    case False
    then show ?thesis using r2 err by (simp add: attempt handled Let_def)
  next
    case True
    define r3 where "r3 = r2\<lparr>rq_Retryable := Some True, rq_RetryDelay := 0, rq_RetryCount := rq_RetryCount r2 + 1, rq_Error := None\<rparr>"
    have r3: "AfterRetryHandler (eager_Retryer n) (\<lambda>_ w. (None, w)) (\<lambda>w. w) r2 = r3"
      using True r2(3) by (simp add: handled r3_def)
    have reset: "ResetBody (r3\<lparr>rq_httpBody := BodyNil\<rparr>) = (r3\<lparr>rq_httpBody := BodyNil\<rparr>)\<lparr>
        rq_safeBody := Some \<lparr>or_closed = False\<rparr>,
        rq_Body := (rq_Body r3)\<lparr>bd_pos := nat (rq_BodyStart r3)\<rparr>,
        rq_httpBody := if nat (rq_BodyStart r3) = length (bd_data (rq_Body r3)) then NoBody else SafeBody\<rparr>"
      using ResetBody_rewinds [of "r3\<lparr>rq_httpBody := BodyNil\<rparr>"] r2(1) by (simp add: r3_def resendable_def)
    define r4 where "r4 = ResetBody (r3\<lparr>rq_httpBody := BodyNil\<rparr>)"
    have r4: "resendable r4" "rq_world r4 = Suc (rq_world r)" "rq_RetryCount r4 = rq_RetryCount r + 1" "rq_Error r4 = None"
      using r2 unfolding r4_def reset by (simp_all add: r3_def resendable_def body_ok_def)
    have "prepareRetry r3 = (None, r4)" using r4(4) by (simp add: prepareRetry_def r4_def [symmetric] Let_def)
    with True r4 show ?thesis by (simp add: attempt r3 r3_def [symmetric]) (simp add: r3_def)
  qed
qed

lemma loop_failing:
  assumes "plain_send_error e"
  shows "resendable r \<Longrightarrow> rq_RetryCount r \<le> n \<Longrightarrow> fuel = Suc (nat (n - rq_RetryCount r)) \<Longrightarrow>
    \<exists>r'. send_loop fuel (failing_handlers e n) r = Some (Some (sendError e), r') \<and>
      rq_world r' = rq_world r + fuel \<and> rq_RetryCount r' = n"
proof (induction fuel arbitrary: r)
  case (Suc fuel)
  show ?case
  proof (cases "rq_RetryCount r < n")
    case False
    with Suc.prems attempt_failing [OF assms Suc.prems(1), of n] show ?thesis by auto
  next
    case True
    with attempt_failing [OF assms Suc.prems(1), of n] obtain r' where
      r': "send_attempt (failing_handlers e n) r = Inr r'" "resendable r'" "rq_world r' = Suc (rq_world r)"
        "rq_RetryCount r' = rq_RetryCount r + 1" by auto
    have "fuel = Suc (nat (n - rq_RetryCount r'))" using Suc.prems(3) True r'(4) by simp
    with Suc.IH [of r'] r' True show ?thesis by simp
  qed
qed simp

end
