(* ===== verification/AwsWaiter.thy ===== *)
theory AwsWaiter
  imports AwsErrors
begin

text \<open>
  Waiters, \<open>aws/request/waiter.go\<close>. What a waiter does to the outside is a parameter: making a
  request, sending it, sleeping. The answer to a request has a status and the values at the paths
  an acceptor may ask for; \<open>'v\<close> is the type of those values. A failed type assertion is \<open>None\<close>.
  Attempts are counted without the 64-bit wrap-around.
\<close>

datatype WaiterState = SuccessWaiterState | FailureWaiterState | RetryWaiterState | OtherWaiterState int

datatype WaiterMatchMode =
    PathAllWaiterMatch | PathWaiterMatch | PathAnyWaiterMatch | PathListWaiterMatch
  | StatusWaiterMatch | ErrorWaiterMatch | OtherWaiterMatch int

datatype 'v expected = ExpInt int | ExpString string | ExpValue 'v

record 'v WaiterAcceptor =
  wa_State :: WaiterState
  wa_Matcher :: WaiterMatchMode
  wa_Argument :: string
  wa_Expected :: "'v expected"

record 'v answer =
  an_status :: int
  an_values :: "string \<Rightarrow> 'v expected list"

definition WaiterResourceNotReadyErrorCode :: string where
  "WaiterResourceNotReadyErrorCode = ''ResourceNotReady''"

text \<open>The switch over the matcher.\<close>

definition matcher_result :: "'v WaiterAcceptor \<Rightarrow> 'v answer \<Rightarrow> goerror option \<Rightarrow> bool option" where
  "matcher_result a req err = (case wa_Matcher a of
     PathAllWaiterMatch \<Rightarrow>
       (let vals = an_values req (wa_Argument a) in
        Some (if length vals = 0 then False else list_all (\<lambda>val. val = wa_Expected a) vals))
   | PathWaiterMatch \<Rightarrow>
       (let vals = an_values req (wa_Argument a) in
        Some (if length vals = 0 then False else list_all (\<lambda>val. val = wa_Expected a) vals))
   | PathAnyWaiterMatch \<Rightarrow> Some (list_ex (\<lambda>val. val = wa_Expected a) (an_values req (wa_Argument a)))
   | PathListWaiterMatch \<Rightarrow> Some False
   | StatusWaiterMatch \<Rightarrow>
       (case wa_Expected a of ExpInt s \<Rightarrow> Some (s = an_status req) | _ \<Rightarrow> None)
   | ErrorWaiterMatch \<Rightarrow>
       (case err of
          None \<Rightarrow> Some False
        | Some e \<Rightarrow>
            (case Code e of
               None \<Rightarrow> Some False
             | Some c \<Rightarrow> (case wa_Expected a of ExpString s \<Rightarrow> Some (c = s) | _ \<Rightarrow> None)))
   | OtherWaiterMatch _ \<Rightarrow> Some False)"

definition acceptor_match ::
  "'v WaiterAcceptor \<Rightarrow> 'v answer \<Rightarrow> goerror option \<Rightarrow> (bool \<times> goerror option) option" where
  "acceptor_match a req err = map_option (\<lambda>result.
     if \<not> result then (False, None)
     else case wa_State a of
       SuccessWaiterState \<Rightarrow> (True, None)
     | FailureWaiterState \<Rightarrow>
         (True, Some (awserr_New WaiterResourceNotReadyErrorCode
            ''failed waiting for successful resource state'' err))
     | RetryWaiterState \<Rightarrow> (False, None)
     | OtherWaiterState _ \<Rightarrow> (False, None)) (matcher_result a req err)"

text \<open>The loop over the acceptors: the first that matches decides.\<close>

fun acceptors_loop ::
  "'v WaiterAcceptor list \<Rightarrow> 'v answer \<Rightarrow> goerror option \<Rightarrow> goerror option option option" where
  "acceptors_loop [] req err = Some None"
| "acceptors_loop (a # as) req err = (case acceptor_match a req err of
     None \<Rightarrow> None
   | Some (matched, matchErr) \<Rightarrow> if matched then Some (Some matchErr) else acceptors_loop as req err)"

record ('v, 'w) Waiter =
  wt_Acceptors :: "'v WaiterAcceptor list"
  wt_MaxAttempts :: int
  wt_Delay :: "int \<Rightarrow> int"
  wt_NewRequest :: "'w \<Rightarrow> goerror option \<times> 'w"
  wt_Send :: "'w \<Rightarrow> (goerror option \<times> 'v answer) \<times> 'w"
  wt_Sleep :: "int \<Rightarrow> 'w \<Rightarrow> goerror option \<times> 'w"

definition ConstantWaiterDelay :: "int \<Rightarrow> int \<Rightarrow> int" where
  "ConstantWaiterDelay delay attempt = delay"

text \<open>
  How a pass ends: with the value \<open>WaitWithContext\<close> returns, a panic, or in the next pass.
\<close>

datatype 'w pass = Returns "goerror option" 'w | Panics | NextPass 'w

definition wait_pass :: "('v, 'w) Waiter \<Rightarrow> int \<Rightarrow> 'w \<Rightarrow> 'w pass" where
  "wait_pass w attempt world =
     (case wt_NewRequest w world of
        (Some err, world) \<Rightarrow> Returns (Some err) world
      | (None, world) \<Rightarrow>
          (case wt_Send w world of
             ((err, req), world) \<Rightarrow>
               (case acceptors_loop (wt_Acceptors w) req err of
                  None \<Rightarrow> Panics
                | Some (Some matchErr) \<Rightarrow> Returns matchErr world
                | Some None \<Rightarrow>
                    if attempt = wt_MaxAttempts w
                    then Returns (Some (awserr_New WaiterResourceNotReadyErrorCode ''exceeded wait attempts'' None)) world
                    else case wt_Sleep w (wt_Delay w attempt) world of
                      (Some err, world) \<Rightarrow>
                        Returns (Some (awserr_New CanceledErrorCode ''waiter context canceled'' (Some err))) world
                    | (None, world) \<Rightarrow> NextPass world)))"

text \<open>The loop, on fuel: \<open>None\<close> is fuel that ran out.\<close>

fun wait_loop :: "nat \<Rightarrow> ('v, 'w) Waiter \<Rightarrow> int \<Rightarrow> 'w \<Rightarrow> 'w pass option" where
  "wait_loop 0 w attempt world = None"
| "wait_loop (Suc fuel) w attempt world = (case wait_pass w attempt world of
     NextPass world' \<Rightarrow> wait_loop fuel w (attempt + 1) world'
   | res \<Rightarrow> Some res)"

definition WaitWithContext :: "nat \<Rightarrow> ('v, 'w) Waiter \<Rightarrow> 'w \<Rightarrow> 'w pass option" where
  "WaitWithContext fuel w = wait_loop fuel w 1"

section \<open>The loop ends after the allowed attempts\<close>

lemma wait_pass_last: "wait_pass w (wt_MaxAttempts w) world \<noteq> NextPass world'"
  by (auto simp: wait_pass_def split: prod.splits option.splits)

lemma wait_loop_ends:
  "attempt \<le> wt_MaxAttempts w \<Longrightarrow> nat (wt_MaxAttempts w - attempt) < fuel \<Longrightarrow>
    \<exists>res. wait_loop fuel w attempt world = Some res \<and> (\<forall>world'. res \<noteq> NextPass world')"
proof (induction fuel arbitrary: attempt world)
  case (Suc fuel)
  show ?case
  proof (cases "wait_pass w attempt world")
    case (NextPass world')
    then have "attempt \<noteq> wt_MaxAttempts w" using wait_pass_last [of w world world'] by auto
    with Suc.prems have "attempt + 1 \<le> wt_MaxAttempts w" "nat (wt_MaxAttempts w - (attempt + 1)) < fuel" by auto
    from Suc.IH [OF this] NextPass show ?thesis by simp
  qed simp_all
qed simp

text \<open>Without a positive bound on the attempts the waiter goes on as long as nothing matches.\<close>

lemma wait_loop_unbounded:
  assumes next_pass: "\<And>attempt. 1 \<le> attempt \<Longrightarrow> wait_pass w attempt world = NextPass world"
  shows "1 \<le> attempt \<Longrightarrow> wait_loop fuel w attempt world = None"
proof (induction fuel arbitrary: attempt)
  case (Suc fuel)
  have "wait_loop fuel w (attempt + 1) world = None" using Suc by simp
  with next_pass [OF Suc.prems] show ?case by simp
qed simp

text \<open>A waiter that reports success has seen an answer whose first matching acceptor is a success state.\<close>

lemma acceptor_match_cases:
  "acceptor_match a req err = Some (True, None) \<Longrightarrow> wa_State a = SuccessWaiterState \<and> matcher_result a req err = Some True"
  "acceptor_match a req err = Some (False, e) \<Longrightarrow> e = None"
  by (cases "matcher_result a req err"; cases "wa_State a"; simp add: acceptor_match_def split: if_splits)+

lemma acceptors_loop_success:
  "acceptors_loop as req err = Some (Some None) \<Longrightarrow>
    \<exists>pre a post. as = pre @ a # post \<and> wa_State a = SuccessWaiterState \<and> matcher_result a req err = Some True \<and>
      (\<forall>b \<in> set pre. acceptor_match b req err = Some (False, None))"
proof (induction as)
  case (Cons a as)
  obtain m e where match: "acceptor_match a req err = Some (m, e)"
    using Cons.prems by (auto split: option.splits prod.splits)
  show ?case
  proof (cases m)
    case True
    with match Cons.prems have "acceptor_match a req err = Some (True, None)" by simp
    with acceptor_match_cases(1) show ?thesis by (intro exI [of _ "[]"]) auto
  next
    case False
    with match acceptor_match_cases(2) [of a req err e] have "acceptor_match a req err = Some (False, None)"
      by simp
    moreover from False match Cons.prems have "acceptors_loop as req err = Some (Some None)" by simp
    then obtain pre b post where "as = pre @ b # post" "wa_State b = SuccessWaiterState"
      "matcher_result b req err = Some True" "\<forall>c \<in> set pre. acceptor_match c req err = Some (False, None)"
      using Cons.IH by blast
    ultimately show ?thesis by (intro exI [of _ "a # pre"]) auto
  qed
qed simp

lemma wait_pass_success:
  assumes "wait_pass w attempt world = Returns None world'"
  shows "\<exists>world0 err req. wt_Send w world0 = ((err, req), world') \<and>
    acceptors_loop (wt_Acceptors w) req err = Some (Some None)"
  using assms by (auto simp: wait_pass_def split: prod.splits option.splits if_splits)

lemma wait_loop_success:
  "wait_loop fuel w attempt world = Some (Returns None world') \<Longrightarrow>
    \<exists>world0 err req. wt_Send w world0 = ((err, req), world') \<and>
      acceptors_loop (wt_Acceptors w) req err = Some (Some None)"
proof (induction fuel arbitrary: attempt world)
  case (Suc fuel)
  show ?case
  proof (cases "wait_pass w attempt world")
    case (Returns e world1)
    with Suc.prems have "wait_pass w attempt world = Returns None world'" by simp
    then show ?thesis by (rule wait_pass_success)
  next
    case Panics
    with Suc.prems show ?thesis by simp
  next
    case (NextPass world1)
    with Suc.prems have "wait_loop fuel w (attempt + 1) world1 = Some (Returns None world')" by simp
    then show ?thesis by (rule Suc.IH)
  qed
qed simp

end
