(* ===== verification/AwsPagination.thy ===== *)
theory AwsPagination
  imports AwsErrors
begin

text \<open>
  Pagination, \<open>aws/request/request_pagination.go\<close>. The pages are values of a type \<open>'d\<close>;
  \<open>values_at\<close> finds the values at a path of a page, as \<open>awsutil.ValuesAtPath\<close> does. A request for a
  page is a parameter, which gets the tokens set at the input paths.
\<close>

datatype token_value = TString string | TStringPtr "string option" | TBool bool | TBoolPtr "bool option" | TOther nat

type_synonym 'd values_at = "'d \<Rightarrow> string \<Rightarrow> token_value list"

record Paginator =
  pg_InputTokens :: "string list"
  pg_OutputTokens :: "string list"
  pg_TruncationToken :: string

section \<open>The tokens of the next page\<close>

text \<open>The switch over the first value at the truncation path: whether it says there is no more.\<close>

fun not_truncated :: "token_value \<Rightarrow> bool" where
  "not_truncated (TBoolPtr v) = (v \<noteq> Some True)"
| "not_truncated (TBool v) = (\<not> v)"
| "not_truncated _ = False"

fun empty_token :: "token_value \<Rightarrow> bool" where
  "empty_token (TStringPtr v) = (case v of None \<Rightarrow> True | Some s \<Rightarrow> length s = 0)"
| "empty_token (TString s) = (length s = 0)"
| "empty_token _ = False"

fun tokens_loop :: "'d values_at \<Rightarrow> 'd \<Rightarrow> string list \<Rightarrow> token_value option list \<Rightarrow> bool \<Rightarrow>
    token_value option list \<times> bool" where
  "tokens_loop values_at data [] tokens tokenAdded = (tokens, tokenAdded)"
| "tokens_loop values_at data (outToken # outs) tokens tokenAdded =
     (case values_at data outToken of
        [] \<Rightarrow> tokens_loop values_at data outs (tokens @ [None]) tokenAdded
      | v # vs \<Rightarrow>
          if empty_token v then tokens_loop values_at data outs (tokens @ [None]) tokenAdded
          else tokens_loop values_at data outs (tokens @ [Some v]) True)"

definition nextPageTokens :: "'d values_at \<Rightarrow> Paginator option \<Rightarrow> 'd \<Rightarrow> token_value option list" where
  "nextPageTokens values_at paginator data = (case paginator of
     None \<Rightarrow> []
   | Some p \<Rightarrow>
       if pg_TruncationToken p \<noteq> [] \<and>
          (case values_at data (pg_TruncationToken p) of [] \<Rightarrow> True | v # _ \<Rightarrow> not_truncated v)
       then []
       else case tokens_loop values_at data (pg_OutputTokens p) [] False of
         (tokens, tokenAdded) \<Rightarrow> if \<not> tokenAdded then [] else tokens)"

section \<open>Pagination\<close>

record 'd Pagination =
  pn_started :: bool
  pn_prevTokens :: "token_value option list"
  pn_nextTokens :: "token_value option list"
  pn_err :: "goerror option"
  pn_curPage :: "'d option"
  pn_EndPageOnSameToken :: bool

definition newPagination :: "bool \<Rightarrow> 'd Pagination" where
  "newPagination same = \<lparr>pn_started = False, pn_prevTokens = [], pn_nextTokens = [], pn_err = None,
     pn_curPage = None, pn_EndPageOnSameToken = same\<rparr>"

definition HasNextPage :: "'d Pagination \<Rightarrow> bool" where
  "HasNextPage p =
     (if \<not> pn_started p then True
      else let hasNextPage = length (pn_nextTokens p) \<noteq> 0 in
        if pn_EndPageOnSameToken p then hasNextPage \<and> pn_nextTokens p \<noteq> pn_prevTokens p else hasNextPage)"

text \<open>
  A client of pages: \<open>cl_NewRequest\<close> fails or not, \<open>cl_Send\<close> gets what \<open>SetValueAtPath\<close> set at the
  input paths of the request, nothing for the first page.
\<close>

record ('d, 'w) page_client =
  cl_NewRequest :: "'w \<Rightarrow> goerror option \<times> 'w"
  cl_Send :: "(string \<times> token_value option) list \<Rightarrow> 'w \<Rightarrow> (goerror + 'd) \<times> 'w"
  cl_Paginator :: "Paginator option"
  cl_values_at :: "'d values_at"

definition input_tokens :: "Paginator option \<Rightarrow> string list" where
  "input_tokens paginator = (case paginator of None \<Rightarrow> [] | Some p \<Rightarrow> pg_InputTokens p)"

text \<open>\<open>Next\<close>: \<open>None\<close> where an input token has no output token, an index out of range.\<close>

definition Next :: "('d, 'w) page_client \<Rightarrow> 'd Pagination \<Rightarrow> 'w \<Rightarrow> (bool \<times> 'd Pagination \<times> 'w) option" where
  "Next c p w =
     (if \<not> HasNextPage p then Some (False, p, w)
      else case cl_NewRequest c w of
        (Some err, w) \<Rightarrow> Some (False, p\<lparr>pn_err := Some err\<rparr>, w)
      | (None, w) \<Rightarrow>
          (let ins = input_tokens (cl_Paginator c) in
           if pn_started p \<and> length (pn_nextTokens p) < length ins then None
           else
             let params = (if pn_started p then zip ins (pn_nextTokens p) else []);
                 p = p\<lparr>pn_started := True\<rparr>
             in case cl_Send c params w of
               (Inl err, w) \<Rightarrow> Some (False, p\<lparr>pn_err := Some err\<rparr>, w)
             | (Inr data, w) \<Rightarrow>
                 Some (True, p\<lparr>pn_prevTokens := pn_nextTokens p,
                   pn_nextTokens := nextPageTokens (cl_values_at c) (cl_Paginator c) data,
                   pn_curPage := Some data\<rparr>, w)))"

text \<open>\<open>for p.Next() { ... p.Page() ... }\<close>, on fuel: the pages, and the pagination at the end.\<close>

fun all_pages :: "nat \<Rightarrow> ('d, 'w) page_client \<Rightarrow> 'd Pagination \<Rightarrow> 'w \<Rightarrow> ('d option list \<times> 'd Pagination \<times> 'w) option" where
  "all_pages 0 c p w = None"
| "all_pages (Suc fuel) c p w = (case Next c p w of
     None \<Rightarrow> None
   | Some (False, p, w) \<Rightarrow> Some ([], p, w)
   | Some (True, p, w) \<Rightarrow> map_option (\<lambda>(ds, p', w'). (pn_curPage p # ds, p', w')) (all_pages fuel c p w))"

section \<open>The tokens\<close>

definition page_token :: "'d values_at \<Rightarrow> 'd \<Rightarrow> string \<Rightarrow> token_value option" where
  "page_token values_at data path = (case values_at data path of
     [] \<Rightarrow> None | v # _ \<Rightarrow> if empty_token v then None else Some v)"

lemma tokens_loop_map:
  "tokens_loop values_at data outs tokens added =
    (tokens @ map (page_token values_at data) outs, added \<or> (\<exists>o' \<in> set outs. page_token values_at data o' \<noteq> None))"
  by (induction values_at data outs tokens added rule: tokens_loop.induct)
    (auto simp: page_token_def split: list.splits)

lemma length_nextPageTokens:
  "nextPageTokens values_at (Some p) data \<noteq> [] \<Longrightarrow>
    length (nextPageTokens values_at (Some p) data) = length (pg_OutputTokens p)"
  by (auto simp: nextPageTokens_def tokens_loop_map split: if_splits)

section \<open>Reading all pages\<close>

text \<open>
  A server that holds the pages \<open>ds\<close>: the first request gets the first page, a request with the
  tokens of a page the page after it, and the last page has no tokens.
\<close>

definition serves :: "('d, 'w) page_client \<Rightarrow> 'd list \<Rightarrow> bool" where
  "serves c ds \<longleftrightarrow> ds \<noteq> [] \<and> (\<forall>w. cl_NewRequest c w = (None, w)) \<and>
     (\<forall>w. cl_Send c [] w = (Inr (hd ds), w)) \<and>
     (\<forall>i w. Suc i < length ds \<longrightarrow>
        cl_Send c (zip (input_tokens (cl_Paginator c)) (nextPageTokens (cl_values_at c) (cl_Paginator c) (ds ! i))) w =
          (Inr (ds ! Suc i), w) \<and>
        nextPageTokens (cl_values_at c) (cl_Paginator c) (ds ! i) \<noteq> [] \<and>
        length (input_tokens (cl_Paginator c)) \<le> length (nextPageTokens (cl_values_at c) (cl_Paginator c) (ds ! i))) \<and>
     nextPageTokens (cl_values_at c) (cl_Paginator c) (last ds) = []"

lemma all_pages_from:
  assumes "serves c ds" and "\<not> pn_EndPageOnSameToken p"
  shows "pn_started p \<Longrightarrow> i < length ds \<Longrightarrow>
    pn_nextTokens p = nextPageTokens (cl_values_at c) (cl_Paginator c) (ds ! i) \<Longrightarrow> pn_err p = None \<Longrightarrow>
    \<not> pn_EndPageOnSameToken p \<Longrightarrow> length ds - i \<le> fuel \<Longrightarrow>
    \<exists>p'. all_pages fuel c p w = Some (map Some (drop (Suc i) ds), p', w) \<and> pn_err p' = None"
proof (induction fuel arbitrary: p i)
  case 0
  then show ?case by simp
next
  case (Suc fuel)
  show ?case
  proof (cases "Suc i < length ds")
    case False
    with Suc.prems(2) have "ds ! i = last ds" by (metis last_conv_nth less_imp_Suc_add Suc_lessI diff_Suc_1 list.size(3) not_less_zero)
    with assms(1) Suc.prems have "\<not> HasNextPage p" by (simp add: serves_def HasNextPage_def)
    with False Suc.prems show ?thesis by (simp add: Next_def)
  next
    case True
    let ?p = "p\<lparr>pn_prevTokens := pn_nextTokens p,
      pn_nextTokens := nextPageTokens (cl_values_at c) (cl_Paginator c) (ds ! Suc i), pn_curPage := Some (ds ! Suc i)\<rparr>"
    have "Next c p w = Some (True, ?p, w)"
      using assms(1) True Suc.prems by (simp add: Next_def HasNextPage_def serves_def Let_def not_less)
    moreover have "length ds - Suc i \<le> fuel" using Suc.prems(6) by linarith
    then obtain p' where "all_pages fuel c ?p w = Some (map Some (drop (Suc (Suc i)) ds), p', w)" "pn_err p' = None"
      using Suc.IH [of ?p "Suc i"] True Suc.prems by auto
    ultimately show ?thesis
      using True by (simp add: Cons_nth_drop_Suc [symmetric])
  qed
qed

lemma all_pages_served:
  assumes "serves c ds" and "length ds < fuel"
  shows "\<exists>p'. all_pages fuel c (newPagination False) w = Some (map Some ds, p', w) \<and> pn_err p' = None"
proof -
  obtain f where f: "fuel = Suc f" "length ds \<le> f" using assms(2) by (cases fuel) auto
  let ?p = "\<lparr>pn_started = True, pn_prevTokens = [],
    pn_nextTokens = nextPageTokens (cl_values_at c) (cl_Paginator c) (hd ds), pn_err = None,
    pn_curPage = Some (hd ds), pn_EndPageOnSameToken = False\<rparr>"
  have ne: "ds \<noteq> []" using assms(1) by (simp add: serves_def)
  have "Next c (newPagination False) w = Some (True, ?p, w)"
    using assms(1) by (simp add: Next_def HasNextPage_def newPagination_def serves_def Let_def)
  moreover obtain p' where "all_pages f c ?p w = Some (map Some (drop (Suc 0) ds), p', w)" "pn_err p' = None"
    using all_pages_from [OF assms(1), of ?p 0 f w] ne f(2) by (auto simp: hd_conv_nth)
  ultimately show ?thesis
    using ne by (cases ds) (auto simp: f(1))
qed

text \<open>With \<open>EndPageOnSameToken\<close> a server that repeats its tokens is left.\<close>

lemma same_token_ends:
  assumes "pn_started p" and "pn_EndPageOnSameToken p" and "pn_nextTokens p = pn_prevTokens p"
  shows "Next c p w = Some (False, p, w)"
  using assms by (simp add: Next_def HasNextPage_def)

end
