(* ===== verification/S3Download.thy ===== *)
theory S3Download
  imports AwsRequest
begin

text \<open>
  The download manager, \<open>service/s3/s3manager/download.go\<close>.

  A download is a state machine: the main goroutine gets the first chunk, then either queues the
  rest for the workers or, when the service does not tell the size, gets one chunk after the other
  until a 416. A chunk is downloaded in small steps (request, writes of any size, interruption and
  retry), so a run is any interleaving of the goroutines. The destination is an
  \<open>aws.WriteAtBuffer\<close>.

  The service holds the object \<open>obj\<close> and answers a range that starts inside it with its bytes, a
  range that starts behind it with status 416, and any request or body may fail otherwise.
\<close>

section \<open>Chunks\<close>

record dlchunk =
  ck_start :: int
  ck_size :: int
  ck_cur :: int
  ck_withRange :: string

definition ByteRange :: "dlchunk \<Rightarrow> string" where
  "ByteRange c = (if length (ck_withRange c) \<noteq> 0 then ck_withRange c
     else ''bytes='' @ int_digits (ck_start c) @ ''-'' @ int_digits (ck_start c + ck_size c - 1))"

text \<open>\<open>dlchunk.Write\<close> into a buffer; \<open>None\<close> is \<open>io.EOF\<close>.\<close>

definition dlchunk_Write :: "dlchunk \<Rightarrow> byte list \<Rightarrow> byte list \<Rightarrow> (dlchunk \<times> byte list) option" where
  "dlchunk_Write c buf p =
     (if ck_size c \<le> ck_cur c \<and> length (ck_withRange c) = 0 then None
      else Some (c\<lparr>ck_cur := ck_cur c + int (length p)\<rparr>, WriteAt buf (nat (ck_start c + ck_cur c)) p))"

section \<open>The state of a download\<close>

definition DefaultDownloadPartSize :: nat where "DefaultDownloadPartSize = 1024 * 1024 * 5"
definition DefaultDownloadConcurrency :: nat where "DefaultDownloadConcurrency = 5"

record Downloader =
  dc_PartSize :: nat
  dc_Concurrency :: nat
  dc_maxRetries :: nat

text \<open>The defaults \<open>DownloadWithContext\<close> fills in.\<close>

definition downloader_defaults :: "Downloader \<Rightarrow> Downloader" where
  "downloader_defaults d = d\<lparr>
     dc_Concurrency := (if dc_Concurrency d = 0 then DefaultDownloadConcurrency else dc_Concurrency d),
     dc_PartSize := (if dc_PartSize d = 0 then DefaultDownloadPartSize else dc_PartSize d)\<rparr>"

text \<open>
  A goroutine: waiting, gone, or busy with a chunk: its retry and, once the response is there, the
  rest of the body.
\<close>

datatype worker = Idle | Exited | Busy dlchunk nat "byte list option"

datatype phase = FirstChunk | Queueing | Sending | Waiting | Sequential | Finished

record downloader =
  d_phase :: phase
  d_main :: worker
  d_workers :: "worker list"
  d_chan :: "dlchunk list"
  d_pos :: int
  d_totalBytes :: int
  d_written :: int
  d_err :: "goerror option"
  d_buf :: "byte list"

record GetObjectOutput =
  go_ContentRange :: "string option"
  go_ContentLength :: "int option"

text \<open>\<open>strings.Split(s, "/")\<close>, its last part.\<close>

definition last_part :: "string \<Rightarrow> string" where
  "last_part s = rev (takeWhile (\<lambda>c. c \<noteq> CHR ''/'') (rev s))"

definition parseIntError :: "string \<Rightarrow> goerror" where
  "parseIntError s = PlainError (''strconv.ParseInt: parsing '' @ s)"

definition setTotalBytes :: "GetObjectOutput \<Rightarrow> downloader \<Rightarrow> downloader" where
  "setTotalBytes resp d =
     (if 0 \<le> d_totalBytes d then d
      else case go_ContentRange resp of
        None \<Rightarrow> (case go_ContentLength resp of None \<Rightarrow> d | Some n \<Rightarrow> d\<lparr>d_totalBytes := n\<rparr>)
      | Some cr \<Rightarrow>
          (let totalStr = last_part cr in
           if totalStr \<noteq> ''*'' then
             (case ParseInt totalStr of
                (n, err) \<Rightarrow> if err then d\<lparr>d_err := Some (parseIntError totalStr)\<rparr> else d\<lparr>d_totalBytes := n\<rparr>)
           else d\<lparr>d_totalBytes := -1\<rparr>))"

definition incrWritten :: "int \<Rightarrow> downloader \<Rightarrow> downloader" where
  "incrWritten n d = d\<lparr>d_written := d_written d + n\<rparr>"

definition setErr :: "goerror \<Rightarrow> downloader \<Rightarrow> downloader" where
  "setErr e d = d\<lparr>d_err := Some e\<rparr>"

definition next_chunk :: "Downloader \<Rightarrow> downloader \<Rightarrow> dlchunk" where
  "next_chunk cfg d = \<lparr>ck_start = d_pos d, ck_size = int (dc_PartSize cfg), ck_cur = 0, ck_withRange = []\<rparr>"

definition advance :: "Downloader \<Rightarrow> downloader \<Rightarrow> downloader" where
  "advance cfg d = d\<lparr>d_pos := d_pos d + int (dc_PartSize cfg)\<rparr>"

text \<open>The check for \<open>http.StatusRequestedRangeNotSatisfiable\<close>.\<close>

fun is_416 :: "goerror \<Rightarrow> bool" where
  "is_416 (RequestError e status rid) = (status = 416)"
| "is_416 _ = False"

section \<open>Downloading a chunk\<close>

text \<open>What the service says of the size: a \<open>Content-Range\<close>, the size in it perhaps unknown.\<close>

definition service_response :: "byte list \<Rightarrow> bool \<Rightarrow> GetObjectOutput" where
  "service_response obj known = \<lparr>go_ContentRange = Some (''bytes 0-0/'' @
     (if known then int_digits (int (length obj)) else ''*'')), go_ContentLength = None\<rparr>"

text \<open>
  One step of \<open>downloadChunk\<close> for a goroutine, with the shared state. \<open>request_error\<close> returns at
  once; \<open>interrupted\<close> is an error of the body with retries left, \<open>gives_up\<close> the last of them.
\<close>

inductive chunk_step :: "Downloader \<Rightarrow> byte list \<Rightarrow> bool \<Rightarrow> worker \<Rightarrow> downloader \<Rightarrow> worker \<Rightarrow> downloader \<Rightarrow> bool"
  for cfg :: Downloader and obj :: "byte list" and known :: bool
where
  response: "ck_start c < int (length obj) \<Longrightarrow>
    chunk_step cfg obj known (Busy c retry None) d
      (Busy c retry (Some (take (nat (ck_size c)) (drop (nat (ck_start c)) obj))))
      (setTotalBytes (service_response obj known) d)"
| out_of_range: "int (length obj) \<le> ck_start c \<Longrightarrow> is_416 e \<Longrightarrow>
    chunk_step cfg obj known (Busy c retry None) d Idle (setErr e d)"
| request_error: "\<not> is_416 e \<Longrightarrow> chunk_step cfg obj known (Busy c retry None) d Idle (setErr e d)"
| written: "0 < n \<Longrightarrow> n \<le> length bs \<Longrightarrow> dlchunk_Write c (d_buf d) (take n bs) = Some (c', buf') \<Longrightarrow>
    chunk_step cfg obj known (Busy c retry (Some bs)) d (Busy c' retry (Some (drop n bs))) (d\<lparr>d_buf := buf'\<rparr>)"
| interrupted: "retry < dc_maxRetries cfg \<Longrightarrow> \<not> is_416 e \<Longrightarrow>
    chunk_step cfg obj known (Busy c retry (Some bs)) d (Busy (c\<lparr>ck_cur := 0\<rparr>) (Suc retry) None) d"
| gives_up: "dc_maxRetries cfg \<le> retry \<Longrightarrow> \<not> is_416 e \<Longrightarrow>
    chunk_step cfg obj known (Busy c retry (Some bs)) d Idle (setErr e (incrWritten (ck_cur c) d))"
| complete: "chunk_step cfg obj known (Busy c retry (Some [])) d Idle (incrWritten (ck_cur c) d)"

section \<open>The goroutines together\<close>

definition start_state :: "Downloader \<Rightarrow> downloader" where
  "start_state cfg =
     (let d = \<lparr>d_phase = FirstChunk, d_main = Idle, d_workers = [], d_chan = [], d_pos = 0,
                d_totalBytes = -1, d_written = 0, d_err = None, d_buf = []\<rparr>
      in advance cfg (d\<lparr>d_main := Busy (next_chunk cfg d) 0 None\<rparr>))"

inductive dl_step :: "Downloader \<Rightarrow> byte list \<Rightarrow> bool \<Rightarrow> downloader \<Rightarrow> downloader \<Rightarrow> bool"
  for cfg :: Downloader and obj :: "byte list" and known :: bool
where
  main_works: "chunk_step cfg obj known (d_main d) d w d' \<Longrightarrow> d_phase d = FirstChunk \<or> d_phase d = Sequential \<Longrightarrow>
    dl_step cfg obj known d (d'\<lparr>d_main := w\<rparr>)"
| spin_up: "d_phase d = FirstChunk \<Longrightarrow> d_main d = Idle \<Longrightarrow> 0 \<le> d_totalBytes d \<Longrightarrow>
    dl_step cfg obj known d (d\<lparr>d_phase := Queueing, d_workers := replicate (dc_Concurrency cfg) Idle\<rparr>)"
| no_total: "d_phase d = FirstChunk \<Longrightarrow> d_main d = Idle \<Longrightarrow> d_totalBytes d < 0 \<Longrightarrow>
    dl_step cfg obj known d (d\<lparr>d_phase := Sequential\<rparr>)"
| checked: "d_phase d = Queueing \<Longrightarrow> d_err d = None \<Longrightarrow> d_pos d < d_totalBytes d \<Longrightarrow>
    dl_step cfg obj known d (d\<lparr>d_phase := Sending\<rparr>)"
| queued: "d_phase d = Sending \<Longrightarrow> length (d_chan d) < dc_Concurrency cfg \<Longrightarrow>
    dl_step cfg obj known d (advance cfg (d\<lparr>d_phase := Queueing, d_chan := d_chan d @ [next_chunk cfg d]\<rparr>))"
| closed: "d_phase d = Queueing \<Longrightarrow> d_err d \<noteq> None \<or> d_totalBytes d \<le> d_pos d \<Longrightarrow>
    dl_step cfg obj known d (d\<lparr>d_phase := Waiting\<rparr>)"
| takes: "i < length (d_workers d) \<Longrightarrow> d_workers d ! i = Idle \<Longrightarrow> d_chan d = c # cs \<Longrightarrow> d_err d = None \<Longrightarrow>
    dl_step cfg obj known d (d\<lparr>d_chan := cs, d_workers := (d_workers d)[i := Busy c 0 None]\<rparr>)"
| drains: "i < length (d_workers d) \<Longrightarrow> d_workers d ! i = Idle \<Longrightarrow> d_chan d = c # cs \<Longrightarrow> d_err d \<noteq> None \<Longrightarrow>
    dl_step cfg obj known d (d\<lparr>d_chan := cs\<rparr>)"
| works: "i < length (d_workers d) \<Longrightarrow> chunk_step cfg obj known (d_workers d ! i) d w d' \<Longrightarrow>
    dl_step cfg obj known d (d'\<lparr>d_workers := (d_workers d')[i := w]\<rparr>)"
| leaves: "d_phase d = Waiting \<Longrightarrow> i < length (d_workers d) \<Longrightarrow> d_workers d ! i = Idle \<Longrightarrow> d_chan d = [] \<Longrightarrow>
    dl_step cfg obj known d (d\<lparr>d_workers := (d_workers d)[i := Exited]\<rparr>)"
| all_left: "d_phase d = Waiting \<Longrightarrow> \<forall>w \<in> set (d_workers d). w = Exited \<Longrightarrow>
    dl_step cfg obj known d (d\<lparr>d_phase := Finished\<rparr>)"
| next_in_turn: "d_phase d = Sequential \<Longrightarrow> d_main d = Idle \<Longrightarrow> d_err d = None \<Longrightarrow>
    dl_step cfg obj known d (advance cfg (d\<lparr>d_main := Busy (next_chunk cfg d) 0 None\<rparr>))"
| turn_over: "d_phase d = Sequential \<Longrightarrow> d_main d = Idle \<Longrightarrow> d_err d = Some e \<Longrightarrow>
    dl_step cfg obj known d (d\<lparr>d_phase := Finished, d_err := (if is_416 e then None else Some e)\<rparr>)"

inductive reaches :: "Downloader \<Rightarrow> byte list \<Rightarrow> bool \<Rightarrow> downloader \<Rightarrow> bool"
  for cfg :: Downloader and obj :: "byte list" and known :: bool
where
  start: "reaches cfg obj known (start_state cfg)"
| step: "reaches cfg obj known d \<Longrightarrow> dl_step cfg obj known d d' \<Longrightarrow> reaches cfg obj known d'"

section \<open>One goroutine\<close>

abbreviation osize :: "byte list \<Rightarrow> int" where
  "osize obj \<equiv> int (length obj)"

definition fresh_chunk :: "Downloader \<Rightarrow> dlchunk \<Rightarrow> bool" where
  "fresh_chunk cfg c \<longleftrightarrow> 0 \<le> ck_start c \<and> ck_size c = int (dc_PartSize cfg) \<and> ck_cur c = 0 \<and> ck_withRange c = []"

text \<open>The bytes of a chunk, and a goroutine in the middle of one.\<close>

definition chunk_bytes :: "byte list \<Rightarrow> dlchunk \<Rightarrow> byte list" where
  "chunk_bytes obj c = take (nat (ck_size c)) (drop (nat (ck_start c)) obj)"

definition worker_ok :: "Downloader \<Rightarrow> byte list \<Rightarrow> worker \<Rightarrow> bool" where
  "worker_ok cfg obj w \<longleftrightarrow> (case w of
     Busy c retry None \<Rightarrow> fresh_chunk cfg c
   | Busy c retry (Some bs) \<Rightarrow> fresh_chunk cfg (c\<lparr>ck_cur := 0\<rparr>) \<and> 0 \<le> ck_cur c \<and> ck_start c < osize obj \<and>
       nat (ck_cur c) \<le> length (chunk_bytes obj c) \<and> bs = drop (nat (ck_cur c)) (chunk_bytes obj c)
   | _ \<Rightarrow> True)"

text \<open>What a goroutine has still to write, and how many bytes its chunk has.\<close>

definition chunk_todo :: "dlchunk \<Rightarrow> int set" where
  "chunk_todo c = {ck_start c + ck_cur c ..< ck_start c + ck_size c}"

definition worker_todo :: "worker \<Rightarrow> int set" where
  "worker_todo w = (case w of Busy c retry body \<Rightarrow> chunk_todo c | _ \<Rightarrow> {})"

definition chunk_count :: "byte list \<Rightarrow> dlchunk \<Rightarrow> int" where
  "chunk_count obj c = max 0 (min (ck_size c) (osize obj - ck_start c))"

definition worker_count :: "byte list \<Rightarrow> worker \<Rightarrow> int" where
  "worker_count obj w = (case w of Busy c retry body \<Rightarrow> chunk_count obj c | _ \<Rightarrow> 0)"

definition at_right :: "byte list \<Rightarrow> byte list \<Rightarrow> int \<Rightarrow> bool" where
  "at_right obj buf x \<longleftrightarrow> nat x < length buf \<and> buf ! nat x = obj ! nat x"

definition no_failure :: "downloader \<Rightarrow> bool" where
  "no_failure d \<longleftrightarrow> (case d_err d of None \<Rightarrow> True | Some e \<Rightarrow> is_416 e)"

lemma last_part_digits: "\<forall>c \<in> set t. c \<noteq> CHR ''/'' \<Longrightarrow> last_part (u @ CHR ''/'' # t) = t"
  by (simp add: last_part_def takeWhile_append)

lemma service_total:
  assumes "osize obj < 2 ^ 63"
  shows "setTotalBytes (service_response obj known) d =
    d\<lparr>d_totalBytes := if 0 \<le> d_totalBytes d then d_totalBytes d else if known then osize obj else -1\<rparr>"
proof -
  have "int_digits (osize obj) = nat_digits (length obj)" by (simp add: int_digits_def)
  then have ds: "\<forall>c \<in> set (int_digits (osize obj)). c \<noteq> CHR ''/''" "int_digits (osize obj) \<noteq> ''*''"
    using nat_digits_props [of "length obj"] digit_not by (auto simp: Ball_def is_digit_def)
  have "last_part (''bytes 0-0/'' @ t) = t" if "\<forall>c \<in> set t. c \<noteq> CHR ''/''" for t
    using last_part_digits [OF that, of "''bytes 0-0''"] by simp
  with ds ParseInt_int_digits [of "osize obj"] assms show ?thesis
    by (simp add: setTotalBytes_def service_response_def Let_def)
qed

lemma chunk_count_bytes:
  "fresh_chunk cfg (c\<lparr>ck_cur := 0\<rparr>) \<Longrightarrow> ck_start c < osize obj \<Longrightarrow> chunk_count obj c = int (length (chunk_bytes obj c))"
  by (auto simp: chunk_count_def chunk_bytes_def fresh_chunk_def of_nat_diff)

text \<open>A write puts the right bytes in place and spoils none.\<close>

lemma write_right:
  assumes ok: "worker_ok cfg obj (Busy c retry (Some bs))" and n: "0 < n" "n \<le> length bs"
    and len: "length buf \<le> length obj"
    and wr: "dlchunk_Write c buf (take n bs) = Some (c', buf')"
  shows "worker_ok cfg obj (Busy c' retry (Some (drop n bs)))" and "length buf' \<le> length obj"
    and "\<And>x. at_right obj buf x \<Longrightarrow> at_right obj buf' x"
    and "\<And>x. x \<in> chunk_todo c \<Longrightarrow> x \<notin> chunk_todo c' \<Longrightarrow> at_right obj buf' x"
    and "chunk_count obj c' = chunk_count obj c" and "ck_start c' = ck_start c"
proof -
  define s where "s = nat (ck_start c)"
  define k where "k = nat (ck_cur c)"
  have start: "0 \<le> ck_start c" "0 \<le> ck_cur c" and bs: "bs = drop k (chunk_bytes obj c)"
    and fresh: "fresh_chunk cfg (c\<lparr>ck_cur := 0\<rparr>)"
    using ok by (auto simp: worker_ok_def fresh_chunk_def k_def)
  have pos: "nat (ck_start c + ck_cur c) = s + k" and sk: "ck_start c = int s" "ck_cur c = int k"
    using start by (simp_all add: s_def k_def nat_add_distrib)
  have lenbs: "k + n \<le> length (chunk_bytes obj c)" using n bs by simp
  have inside: "s + k + n \<le> length obj" using lenbs n by (auto simp: chunk_bytes_def s_def)
  have byte_at: "take n bs ! j = obj ! (s + k + j)" if "j < n" for j
    using that lenbs n by (simp add: bs chunk_bytes_def s_def add.assoc)
  have c': "c' = c\<lparr>ck_cur := int (k + n)\<rparr>" and buf': "buf' = WriteAt buf (s + k) (take n bs)"
    using wr n pos [unfolded sk(2)] by (auto simp: dlchunk_Write_def min_def sk(2) split: if_splits)
  have lenp: "length (take n bs) = n" using n by simp
  show "worker_ok cfg obj (Busy c' retry (Some (drop n bs)))"
  proof -
    have "chunk_bytes obj c' = chunk_bytes obj c" by (simp add: c' chunk_bytes_def)
    then show ?thesis
      using ok lenbs by (simp add: worker_ok_def bs c' sk(2) fresh_chunk_def nat_int_add add.commute)
  qed
  show "length buf' \<le> length obj"
    using len inside by (simp add: buf' length_WriteAt lenp)
  show "at_right obj buf' x" if "at_right obj buf x" for x
    using that byte_at [of "nat x - (s + k)"] lenp
    by (auto simp: at_right_def buf' nth_WriteAt length_WriteAt less_max_iff_disj)
  show "at_right obj buf' x" if "x \<in> chunk_todo c" "x \<notin> chunk_todo c'" for x
  proof -
    from that have x: "s + k \<le> nat x" "nat x < s + k + n" by (auto simp: chunk_todo_def c' sk)
    then show ?thesis
      using byte_at [of "nat x - (s + k)"] lenp
      by (auto simp: at_right_def buf' nth_WriteAt length_WriteAt less_max_iff_disj)
  qed
  show "chunk_count obj c' = chunk_count obj c" and "ck_start c' = ck_start c" by (simp_all add: c' chunk_count_def)
qed

text \<open>All that one step of a goroutine does to the shared state.\<close>

lemma chunk_step_frame:
  assumes "chunk_step cfg obj known w d w' d'" and "osize obj < 2 ^ 63"
  shows "d' = d\<lparr>d_totalBytes := d_totalBytes d', d_written := d_written d', d_err := d_err d', d_buf := d_buf d'\<rparr>"
    and "d_totalBytes d' = d_totalBytes d \<or> d_totalBytes d < 0 \<and> 0 < osize obj - ck_start (case w of Busy c r b \<Rightarrow> c) \<and>
      (d_totalBytes d' = osize obj \<or> d_totalBytes d' = -1)"
    and "\<exists>c retry body. w = Busy c retry body"
    and "w' = Idle \<or> (\<exists>c retry body c' retry' body'. w = Busy c retry body \<and> w' = Busy c' retry' body' \<and>
      ck_start c' = ck_start c \<and> ck_size c' = ck_size c \<and> d_err d' = d_err d)"
  using assms
  by (induction rule: chunk_step.induct)
    (auto simp: service_total setErr_def incrWritten_def dlchunk_Write_def split: if_splits)

lemma chunk_step_ok:
  assumes "chunk_step cfg obj known w d w' d'" and "osize obj < 2 ^ 63"
    and "worker_ok cfg obj w" and "length (d_buf d) \<le> length obj"
  shows "worker_ok cfg obj w' \<and> length (d_buf d') \<le> length obj \<and>
    (\<forall>x. at_right obj (d_buf d) x \<longrightarrow> at_right obj (d_buf d') x)"
  using assms
proof (induction rule: chunk_step.induct)
  case (response c d retry)
  then show ?case by (auto simp: worker_ok_def service_total chunk_bytes_def fresh_chunk_def)
next
  case (written n bs c d c' buf' retry)
  from write_right [OF written(5) written(1,2) written(6) written(3)] show ?case by simp
next
  case (interrupted retry e c bs d)
  then show ?case by (auto simp: worker_ok_def fresh_chunk_def)
qed (auto simp: worker_ok_def setErr_def incrWritten_def)

lemma chunk_step_progress:
  assumes "chunk_step cfg obj known w d w' d'" and "osize obj < 2 ^ 63"
    and "worker_ok cfg obj w" and "length (d_buf d) \<le> length obj"
    and "no_failure d'"
    and "no_failure d \<or> (\<forall>c r b. w = Busy c r b \<longrightarrow> ck_start c < osize obj)"
  shows "no_failure d \<and> (\<forall>x. x < osize obj \<longrightarrow> x \<in> worker_todo w \<longrightarrow> x \<notin> worker_todo w' \<longrightarrow> at_right obj (d_buf d') x) \<and>
    d_written d' + worker_count obj w' = d_written d + worker_count obj w"
  using assms
proof (induction rule: chunk_step.induct)
  case (response c d retry)
  then show ?case by (simp add: service_total no_failure_def worker_todo_def worker_count_def)
next
  case (out_of_range c e retry d)
  then have "no_failure d" by auto
  then show ?case using out_of_range(1,4)
    by (auto simp: worker_todo_def chunk_todo_def worker_count_def chunk_count_def setErr_def worker_ok_def fresh_chunk_def)
next
  case (request_error e c retry d)
  then show ?case by (simp add: no_failure_def setErr_def)
next
  case (written n bs c d c' buf' retry)
  from write_right [OF written(5) written(1,2) written(6) written(3)] written(7) show ?case
    by (simp add: worker_todo_def worker_count_def no_failure_def)
next
  case (interrupted retry e c bs d)
  then show ?case
    by (auto simp: worker_todo_def chunk_todo_def worker_count_def chunk_count_def worker_ok_def)
next
  case (gives_up retry e c bs d)
  then show ?case by (simp add: no_failure_def setErr_def)
next
  case (complete c retry d)
  then have ok: "fresh_chunk cfg (c\<lparr>ck_cur := 0\<rparr>)" "ck_start c < osize obj" "0 \<le> ck_cur c"
    "nat (ck_cur c) = length (chunk_bytes obj c)"
    by (auto simp: worker_ok_def)
  from chunk_count_bytes [OF ok(1,2)] ok(3,4) have "chunk_count obj c = ck_cur c" by simp
  then show ?case
    using complete(4) ok
    by (auto simp: worker_todo_def chunk_todo_def worker_count_def chunk_count_def incrWritten_def no_failure_def
        split: if_splits)
qed

end
