(* ===== verification/S3DownloadRuns.thy ===== *)
theory S3DownloadRuns
  imports S3Download
begin

text \<open>
  The runs of a download (\<open>S3Download\<close>): the invariant of all goroutines together, which gives that a
  download that ends without an error has put the object into the buffer; that no run gets stuck
  before it is finished; and that every run ends.
\<close>

section \<open>All goroutines\<close>

lemma chunk_step_416:
  assumes "chunk_step cfg obj known w d w' d'" and "d_err d' = Some e" and "is_416 e"
    and "osize obj < 2 ^ 63" and "\<forall>e. d_err d = Some e \<longrightarrow> \<not> is_416 e"
  shows "\<exists>c r. w = Busy c r None \<and> osize obj \<le> ck_start c \<and> d_totalBytes d' = d_totalBytes d"
  using assms by (induction rule: chunk_step.induct) (auto simp: service_total setErr_def incrWritten_def)

definition pending :: "downloader \<Rightarrow> int set" where
  "pending d = worker_todo (d_main d) \<union> (\<Union>w \<in> set (d_workers d). worker_todo w) \<union> (\<Union>c \<in> set (d_chan d). chunk_todo c)"

definition pending_count :: "byte list \<Rightarrow> downloader \<Rightarrow> int" where
  "pending_count obj d = worker_count obj (d_main d) + sum_list (map (worker_count obj) (d_workers d)) +
     sum_list (map (chunk_count obj) (d_chan d))"

text \<open>
  The invariant. \<open>local_ok\<close>: every goroutine and every queued chunk is in order. \<open>data_ok\<close>: unless a
  part failed, the buffer has the right byte at every position passed by and not still to be
  written, and the count of written bytes agrees. \<open>phase_ok\<close> says where the goroutines can be.
\<close>

definition local_ok :: "Downloader \<Rightarrow> byte list \<Rightarrow> downloader \<Rightarrow> bool" where
  "local_ok cfg obj d \<longleftrightarrow> length (d_buf d) \<le> length obj \<and> 0 \<le> d_pos d \<and> worker_ok cfg obj (d_main d) \<and>
     (\<forall>w \<in> set (d_workers d). worker_ok cfg obj w) \<and> (\<forall>c \<in> set (d_chan d). fresh_chunk cfg c)"

definition data_ok :: "byte list \<Rightarrow> downloader \<Rightarrow> bool" where
  "data_ok obj d \<longleftrightarrow> (no_failure d \<longrightarrow>
     (\<forall>x. 0 \<le> x \<longrightarrow> x < d_pos d \<longrightarrow> x < osize obj \<longrightarrow> x \<notin> pending d \<longrightarrow> at_right obj (d_buf d) x) \<and>
     d_written d + pending_count obj d = min (d_pos d) (osize obj))"

definition seq_ok :: "Downloader \<Rightarrow> byte list \<Rightarrow> downloader \<Rightarrow> bool" where
  "seq_ok cfg obj d \<longleftrightarrow> d_workers d = [] \<and> d_chan d = [] \<and>
     (d_main d = Idle \<or> d_err d = None \<and>
       (\<exists>c r b. d_main d = Busy c r b \<and> ck_start c + int (dc_PartSize cfg) = d_pos d)) \<and>
     (\<forall>e. d_err d = Some e \<longrightarrow> is_416 e \<longrightarrow> osize obj \<le> d_pos d)"

definition conc_ok :: "byte list \<Rightarrow> downloader \<Rightarrow> bool" where
  "conc_ok obj d \<longleftrightarrow> d_main d = Idle \<and> d_totalBytes d = osize obj \<and> d_workers d \<noteq> [] \<and>
     (\<forall>c r b. Busy c r b \<in> set (d_workers d) \<longrightarrow> ck_start c < osize obj) \<and>
     (\<forall>c \<in> set (d_chan d). ck_start c < osize obj) \<and> (\<forall>e. d_err d = Some e \<longrightarrow> \<not> is_416 e)"

definition phase_ok :: "Downloader \<Rightarrow> byte list \<Rightarrow> downloader \<Rightarrow> bool" where
  "phase_ok cfg obj d \<longleftrightarrow> (case d_phase d of
     FirstChunk \<Rightarrow> seq_ok cfg obj d \<and> d_pos d = int (dc_PartSize cfg) \<and>
       (0 \<le> d_totalBytes d \<longrightarrow> d_totalBytes d = osize obj \<and> obj \<noteq> []) \<and>
       (\<forall>e. d_err d = Some e \<longrightarrow> is_416 e \<longrightarrow> obj = [])
   | Sequential \<Rightarrow> seq_ok cfg obj d
   | Queueing \<Rightarrow> conc_ok obj d \<and> Exited \<notin> set (d_workers d)
   | Sending \<Rightarrow> conc_ok obj d \<and> Exited \<notin> set (d_workers d) \<and> d_pos d < osize obj
   | Waiting \<Rightarrow> conc_ok obj d \<and> (d_err d = None \<longrightarrow> osize obj \<le> d_pos d) \<and>
       (Exited \<in> set (d_workers d) \<longrightarrow> d_chan d = [])
   | Finished \<Rightarrow> d_main d = Idle \<and> (\<forall>w \<in> set (d_workers d). w = Exited) \<and> d_chan d = [] \<and>
       (d_err d = None \<longrightarrow> osize obj \<le> d_pos d))"

lemma set_update_cases: "w \<in> set (ws[i := v]) \<Longrightarrow> w = v \<or> w \<in> set ws"
  using set_update_subset_insert by fastforce

lemma chunk_step_eq:
  assumes "chunk_step cfg obj known w d w' d'" and "osize obj < 2 ^ 63"
  obtains t n e b where "d' = d\<lparr>d_totalBytes := t, d_written := n, d_err := e, d_buf := b\<rparr>"
  using chunk_step_frame(1) [OF assms] by blast

lemma local_step:
  assumes "dl_step cfg obj known d d'" and "osize obj < 2 ^ 63" and "local_ok cfg obj d"
  shows "local_ok cfg obj d'"
  using assms
proof (induction rule: dl_step.induct)
  case (main_works d w d')
  obtain t n e b where d': "d' = d\<lparr>d_totalBytes := t, d_written := n, d_err := e, d_buf := b\<rparr>"
    by (rule chunk_step_eq [OF main_works(1,3)])
  from chunk_step_ok [OF main_works(1,3)] main_works(4) show ?case
    by (simp add: local_ok_def d')
next
  case (works i d w d')
  obtain t n e b where d': "d' = d\<lparr>d_totalBytes := t, d_written := n, d_err := e, d_buf := b\<rparr>"
    by (rule chunk_step_eq [OF works(2,3)])
  from chunk_step_ok [OF works(2,3)] works(1,4) show ?case
    by (auto simp: local_ok_def d' dest!: set_update_cases)
qed (auto simp: local_ok_def advance_def next_chunk_def fresh_chunk_def worker_ok_def dest!: set_update_cases)

text \<open>Busy goroutines among the workers, when one of them moves on.\<close>

lemma todo_update:
  assumes "i < length ws" and "x \<in> (\<Union>w \<in> set ws. worker_todo w)" and "x \<notin> (\<Union>w \<in> set (ws[i := v]). worker_todo w)"
  shows "x \<in> worker_todo (ws ! i)" and "x \<notin> worker_todo v"
proof -
  show "x \<notin> worker_todo v" using assms(1,3) by (auto simp: set_update_memI)
  from assms(2) obtain j where j: "j < length ws" "x \<in> worker_todo (ws ! j)"
    by (auto simp: in_set_conv_nth)
  have "ws[i := v] ! j \<in> set (ws[i := v])" using j(1) by simp
  with assms(3) have "x \<notin> worker_todo (ws[i := v] ! j)" by blast
  with j show "x \<in> worker_todo (ws ! i)" by (cases "i = j") auto
qed

lemma count_update:
  "i < length ws \<Longrightarrow> sum_list (map f (ws[i := v])) = sum_list (map f ws) - f (ws ! i) + (f v :: int)"
  by (induction ws arbitrary: i) (auto split: nat.splits)

lemma main_data:
  assumes "chunk_step cfg obj known (d_main d) d w d'" and "osize obj < 2 ^ 63" and "local_ok cfg obj d" and "data_ok obj d"
    and "d_main d \<noteq> Idle \<longrightarrow> d_err d = None"
  shows "data_ok obj (d'\<lparr>d_main := w\<rparr>)"
proof -
  obtain t n e b where d': "d' = d\<lparr>d_totalBytes := t, d_written := n, d_err := e, d_buf := b\<rparr>"
    by (rule chunk_step_eq [OF assms(1,2)])
  have busy: "d_main d \<noteq> Idle" using chunk_step_frame(3) [OF assms(1,2)] by auto
  have loc: "worker_ok cfg obj (d_main d)" "length (d_buf d) \<le> length obj" using assms(3) by (auto simp: local_ok_def)
  show ?thesis
  proof (cases "no_failure d'")
    case False
    then show ?thesis by (simp add: data_ok_def no_failure_def)
  next
    case True
    have "no_failure d" using busy assms(5) by (simp add: no_failure_def)
    with chunk_step_progress [OF assms(1,2) loc True] chunk_step_ok [OF assms(1,2) loc] assms(4)
    show ?thesis
      by (simp add: data_ok_def d' pending_def pending_count_def) blast
  qed
qed

lemma worker_data:
  assumes "i < length (d_workers d)" and "chunk_step cfg obj known (d_workers d ! i) d w d'"
    and "osize obj < 2 ^ 63" and "local_ok cfg obj d" and "data_ok obj d"
    and "\<forall>c r b. d_workers d ! i = Busy c r b \<longrightarrow> ck_start c < osize obj"
  shows "data_ok obj (d'\<lparr>d_workers := (d_workers d')[i := w]\<rparr>)"
proof -
  obtain t n e b where d': "d' = d\<lparr>d_totalBytes := t, d_written := n, d_err := e, d_buf := b\<rparr>"
    by (rule chunk_step_eq [OF assms(2,3)])
  have loc: "worker_ok cfg obj (d_workers d ! i)" "length (d_buf d) \<le> length obj"
    using assms(1,4) by (auto simp: local_ok_def)
  show ?thesis
  proof (cases "no_failure d'")
    case False
    then show ?thesis by (simp add: data_ok_def no_failure_def)
  next
    case True
    from chunk_step_progress [OF assms(2,3) loc True] assms(6)
    have nf: "no_failure d"
      and todo: "\<And>x. x < osize obj \<Longrightarrow> x \<in> worker_todo (d_workers d ! i) \<Longrightarrow> x \<notin> worker_todo w \<Longrightarrow> at_right obj b x"
      and cnt: "n + worker_count obj w = d_written d + worker_count obj (d_workers d ! i)"
      by (auto simp: d')
    have keep: "\<And>x. at_right obj (d_buf d) x \<Longrightarrow> at_right obj b x"
      using chunk_step_ok [OF assms(2,3) loc] by (simp add: d')
    have "at_right obj b x" if x: "0 \<le> x" "x < d_pos d" "x < osize obj"
      and new: "x \<notin> pending (d'\<lparr>d_workers := (d_workers d')[i := w]\<rparr>)" for x
    proof (cases "x \<in> pending d")
      case True
      with new todo_update [OF assms(1), of x w] todo [OF x(3)] show ?thesis
        by (auto simp: pending_def d')
    next
      case False
      with x assms(5) nf keep show ?thesis by (simp add: data_ok_def)
    qed
    moreover have "n + pending_count obj (d'\<lparr>d_workers := (d_workers d')[i := w]\<rparr>) = d_written d + pending_count obj d"
      using cnt by (simp add: pending_count_def d' count_update [OF assms(1)])
    ultimately show ?thesis
      using assms(5) nf by (simp add: data_ok_def d')
  qed
qed

lemma data_step:
  assumes "dl_step cfg obj known d d'" and "osize obj < 2 ^ 63" and "local_ok cfg obj d" and "data_ok obj d"
    and "phase_ok cfg obj d"
  shows "data_ok obj d'"
  using assms
proof (induction rule: dl_step.induct)
  case (main_works d w d')
  then have "d_main d \<noteq> Idle \<longrightarrow> d_err d = None" by (auto simp: phase_ok_def seq_ok_def)
  with main_works main_data show ?case by blast
next
  case (works i d w d')
  from chunk_step_frame(3) [OF works(2,3)] obtain c r b where w: "d_workers d ! i = Busy c r b" by blast
  then have mem: "Busy c r b \<in> set (d_workers d)" using works(1) by (metis nth_mem)
  have "\<forall>c r b. d_workers d ! i = Busy c r b \<longrightarrow> ck_start c < osize obj"
    using works(6) mem w by (auto simp: phase_ok_def conc_ok_def seq_ok_def split: phase.splits)
  with works worker_data show ?case by blast
next
  case (spin_up d)
  then have "d_workers d = []" by (simp add: phase_ok_def seq_ok_def)
  with spin_up show ?case by (simp add: data_ok_def no_failure_def pending_def pending_count_def worker_todo_def worker_count_def sum_list_replicate)
next
  case (queued d)
  have P: "x \<notin> pending d \<and> x < d_pos d"
    if "x < d_pos d + int (dc_PartSize cfg)" "x \<notin> pending (advance cfg (d\<lparr>d_phase := Queueing, d_chan := d_chan d @ [next_chunk cfg d]\<rparr>))" for x
    using that by (auto simp: pending_def advance_def next_chunk_def chunk_todo_def)
  have Q: "pending_count obj (advance cfg (d\<lparr>d_phase := Queueing, d_chan := d_chan d @ [next_chunk cfg d]\<rparr>)) =
    pending_count obj d + max 0 (min (int (dc_PartSize cfg)) (osize obj - d_pos d))"
    by (simp add: pending_count_def advance_def next_chunk_def chunk_count_def)
  have "d_pos d < osize obj" using queued(1,6) by (simp add: phase_ok_def)
  with queued(5) show ?case
    unfolding data_ok_def Q using P by (auto simp: advance_def no_failure_def)
next
  case (takes i d c cs)
  have mem: "Busy c 0 None \<in> set ((d_workers d)[i := Busy c 0 None])" using takes(1) by (rule set_update_memI)
  have "x \<notin> pending d" if new: "x \<notin> pending (d\<lparr>d_chan := cs, d_workers := (d_workers d)[i := Busy c 0 None]\<rparr>)" for x
  proof
    assume old: "x \<in> pending d"
    from new mem have c: "x \<notin> chunk_todo c" by (auto simp: pending_def worker_todo_def)
    with old new takes(3) have "x \<in> (\<Union>w \<in> set (d_workers d). worker_todo w)" by (auto simp: pending_def)
    moreover from new have "x \<notin> (\<Union>w \<in> set ((d_workers d)[i := Busy c 0 None]). worker_todo w)" by (auto simp: pending_def)
    ultimately have "x \<in> worker_todo (d_workers d ! i)" using todo_update(1) [OF takes(1)] by blast
    then show False using takes(2) by (simp add: worker_todo_def)
  qed
  moreover have "pending_count obj (d\<lparr>d_chan := cs, d_workers := (d_workers d)[i := Busy c 0 None]\<rparr>) = pending_count obj d"
    using takes(2,3) by (simp add: pending_count_def count_update [OF takes(1)] worker_count_def)
  ultimately show ?case using takes(7) by (auto simp: data_ok_def no_failure_def)
next
  case (drains i d c cs)
  then show ?case
    by (auto simp: data_ok_def no_failure_def phase_ok_def conc_ok_def seq_ok_def split: phase.splits)
next
  case (leaves d i)
  have "x \<notin> pending d" if new: "x \<notin> pending (d\<lparr>d_workers := (d_workers d)[i := Exited]\<rparr>)" for x
  proof
    assume old: "x \<in> pending d"
    with new have "x \<in> (\<Union>w \<in> set (d_workers d). worker_todo w)" "x \<notin> (\<Union>w \<in> set ((d_workers d)[i := Exited]). worker_todo w)"
      by (auto simp: pending_def)
    then have "x \<in> worker_todo (d_workers d ! i)" using todo_update(1) [OF leaves(2)] by blast
    then show False using leaves(3) by (simp add: worker_todo_def)
  qed
  moreover have "pending_count obj (d\<lparr>d_workers := (d_workers d)[i := Exited]\<rparr>) = pending_count obj d"
    using leaves(3) by (simp add: pending_count_def count_update [OF leaves(2)] worker_count_def)
  ultimately show ?case using leaves(7) by (auto simp: data_ok_def no_failure_def)
next
  case (next_in_turn d)
  have P: "x \<notin> pending d \<and> x < d_pos d"
    if "x < d_pos d + int (dc_PartSize cfg)" "x \<notin> pending (advance cfg (d\<lparr>d_main := Busy (next_chunk cfg d) 0 None\<rparr>))" for x
    using that next_in_turn(2) by (auto simp: pending_def advance_def next_chunk_def chunk_todo_def worker_todo_def)
  have Q: "pending_count obj (advance cfg (d\<lparr>d_main := Busy (next_chunk cfg d) 0 None\<rparr>)) =
    pending_count obj d + max 0 (min (int (dc_PartSize cfg)) (osize obj - d_pos d))"
    using next_in_turn(2) by (simp add: pending_count_def advance_def next_chunk_def chunk_count_def worker_count_def)
  from next_in_turn(6) show ?case
    unfolding data_ok_def Q using P by (auto simp: advance_def no_failure_def)
next
  case (turn_over d e)
  then show ?case by (auto simp: data_ok_def no_failure_def pending_def pending_count_def)
qed (auto simp: data_ok_def no_failure_def pending_def pending_count_def)

lemma seq_main_step:
  assumes "chunk_step cfg obj known (d_main d) d w d'" and "osize obj < 2 ^ 63" and "seq_ok cfg obj d"
    and "0 < dc_PartSize cfg"
  shows "seq_ok cfg obj (d'\<lparr>d_main := w\<rparr>)"
proof -
  obtain t n e b where d': "d' = d\<lparr>d_totalBytes := t, d_written := n, d_err := e, d_buf := b\<rparr>"
    by (rule chunk_step_eq [OF assms(1,2)])
  from chunk_step_frame(3) [OF assms(1,2)] obtain c r bd where w: "d_main d = Busy c r bd" by blast
  with assms(3) have err: "d_err d = None" and pos: "ck_start c + int (dc_PartSize cfg) = d_pos d" by (auto simp: seq_ok_def)
  have "osize obj \<le> d_pos d" if "e = Some e'" "is_416 e'" for e'
  proof -
    from that chunk_step_416 [OF assms(1) _ that(2) assms(2)] err w have "osize obj \<le> ck_start c" by (auto simp: d')
    with pos assms(4) show ?thesis by simp
  qed
  with chunk_step_frame(4) [OF assms(1,2)] assms(3) err pos w show ?thesis
    by (auto simp: seq_ok_def d')
qed

lemma conc_worker_step:
  assumes "i < length (d_workers d)" and "chunk_step cfg obj known (d_workers d ! i) d w d'"
    and "osize obj < 2 ^ 63" and "conc_ok obj d"
  shows "conc_ok obj (d'\<lparr>d_workers := (d_workers d')[i := w]\<rparr>)" and "d_err d \<noteq> None \<longrightarrow> d_err d' \<noteq> None"
proof -
  obtain t n e b where d': "d' = d\<lparr>d_totalBytes := t, d_written := n, d_err := e, d_buf := b\<rparr>"
    by (rule chunk_step_eq [OF assms(2,3)])
  from chunk_step_frame(3) [OF assms(2,3)] obtain c r bd where wi: "d_workers d ! i = Busy c r bd" by blast
  then have mem: "Busy c r bd \<in> set (d_workers d)" using assms(1) by (metis nth_mem)
  then have c: "ck_start c < osize obj" using assms(4) by (auto simp: conc_ok_def)
  have t: "t = osize obj" using chunk_step_frame(2) [OF assms(2,3)] assms(4) by (auto simp: d' conc_ok_def)
  have e: "\<forall>e'. e = Some e' \<longrightarrow> \<not> is_416 e'"
    using chunk_step_416 [OF assms(2) _ _ assms(3)] assms(4) wi c by (fastforce simp: d' conc_ok_def)
  have w: "\<forall>c r b. w = Busy c r b \<longrightarrow> ck_start c < osize obj"
    using chunk_step_frame(4) [OF assms(2,3)] wi c by auto
  show "conc_ok obj (d'\<lparr>d_workers := (d_workers d')[i := w]\<rparr>)"
  proof -
    have "ck_start c < osize obj" if "Busy c r b \<in> set ((d_workers d)[i := w])" for c r b
      using set_update_cases [OF that] w assms(4) unfolding conc_ok_def by blast
    then show ?thesis using assms(4) t e by (auto simp: conc_ok_def d')
  qed
  show "d_err d \<noteq> None \<longrightarrow> d_err d' \<noteq> None"
    using assms(2) by (induction rule: chunk_step.induct) (auto simp: setErr_def incrWritten_def setTotalBytes_def Let_def split: option.splits prod.splits)
qed

lemma phase_step:
  assumes "dl_step cfg obj known d d'" and "osize obj < 2 ^ 63" and "phase_ok cfg obj d"
    and "0 < dc_PartSize cfg" and "0 < dc_Concurrency cfg"
  shows "phase_ok cfg obj d'"
  using assms
proof (induction rule: dl_step.induct)
  case (main_works d w d')
  obtain t n e b where d': "d' = d\<lparr>d_totalBytes := t, d_written := n, d_err := e, d_buf := b\<rparr>"
    by (rule chunk_step_eq [OF main_works(1,3)])
  have seq: "seq_ok cfg obj d" using main_works(2,4) by (auto simp: phase_ok_def)
  note step = seq_main_step [OF main_works(1,3) seq main_works(5)]
  show ?case
  proof (cases "d_phase d = FirstChunk")
    case False
    with step main_works(2) show ?thesis by (simp add: phase_ok_def d')
  next
    case True
    with main_works(4) have first: "d_pos d = int (dc_PartSize cfg)"
      "0 \<le> d_totalBytes d \<longrightarrow> d_totalBytes d = osize obj \<and> obj \<noteq> []"
      by (auto simp: phase_ok_def)
    from chunk_step_frame(3) [OF main_works(1,3)] obtain c r bd where w: "d_main d = Busy c r bd" by blast
    with seq first have c: "ck_start c = 0" and err: "d_err d = None" by (auto simp: seq_ok_def)
    have "0 \<le> t \<longrightarrow> t = osize obj \<and> obj \<noteq> []"
      using chunk_step_frame(2) [OF main_works(1,3)] first(2) w c by (auto simp: d')
    moreover have "\<forall>e'. e = Some e' \<longrightarrow> is_416 e' \<longrightarrow> obj = []"
      using chunk_step_416 [OF main_works(1) _ _ main_works(3)] w c err by (auto simp: d')
    ultimately show ?thesis using step first True by (simp add: phase_ok_def d')
  qed
next
  case (works i d w d')
  obtain t n e b where d': "d' = d\<lparr>d_totalBytes := t, d_written := n, d_err := e, d_buf := b\<rparr>"
    by (rule chunk_step_eq [OF works(2,3)])
  from chunk_step_frame(3) [OF works(2,3)] obtain c r bd where wi: "d_workers d ! i = Busy c r bd" by blast
  then have "Busy c r bd \<in> set (d_workers d)" using works(1) by (metis nth_mem)
  with works(4) have conc: "conc_ok obj d" and ph: "d_phase d = Queueing \<or> d_phase d = Sending \<or> d_phase d = Waiting"
    by (auto simp: phase_ok_def seq_ok_def split: phase.splits)
  have "w \<noteq> Exited" using chunk_step_frame(4) [OF works(2,3)] by auto
  then have ex: "Exited \<in> set ((d_workers d)[i := w]) \<Longrightarrow> Exited \<in> set (d_workers d)" by (auto dest!: set_update_cases)
  with conc_worker_step [OF works(1-3) conc] works(4) ph show ?case
    by (auto simp: phase_ok_def d')
next
  case (spin_up d)
  then have "obj \<noteq> []" by (auto simp: phase_ok_def)
  with spin_up show ?case by (auto simp: phase_ok_def seq_ok_def conc_ok_def)
next
  case (takes i d c cs)
  then have "Exited \<notin> set (d_workers d)" and conc: "conc_ok obj d"
    and ph: "d_phase d = Queueing \<or> d_phase d = Sending \<or> d_phase d = Waiting"
    by (auto simp: phase_ok_def seq_ok_def split: phase.splits)
  then have "Exited \<notin> set ((d_workers d)[i := Busy c 0 None])" by (auto dest!: set_update_cases)
  moreover have "conc_ok obj (d\<lparr>d_chan := cs, d_workers := (d_workers d)[i := Busy c 0 None]\<rparr>)"
    using conc takes(3) by (auto simp: conc_ok_def dest!: set_update_cases)
  ultimately show ?case using ph takes(6) by (auto simp: phase_ok_def conc_ok_def)
next
  case (drains i d c cs)
  then show ?case by (auto simp: phase_ok_def conc_ok_def seq_ok_def split: phase.splits)
next
  case (leaves d i)
  then show ?case by (auto simp: phase_ok_def conc_ok_def dest!: set_update_cases)
next
  case (queued d)
  then show ?case by (auto simp: phase_ok_def conc_ok_def advance_def next_chunk_def)
next
  case (checked d)
  then show ?case by (auto simp: phase_ok_def conc_ok_def)
next
  case (closed d)
  then show ?case by (auto simp: phase_ok_def conc_ok_def)
next
  case (all_left d)
  then obtain v where "v \<in> set (d_workers d)" by (cases "d_workers d") (auto simp: phase_ok_def conc_ok_def)
  with all_left have "Exited \<in> set (d_workers d)" by auto
  with all_left show ?case by (auto simp: phase_ok_def conc_ok_def)
next
  case (next_in_turn d)
  then show ?case by (auto simp: phase_ok_def seq_ok_def advance_def next_chunk_def)
next
  case (turn_over d e)
  then show ?case by (auto simp: phase_ok_def seq_ok_def)
next
  case (no_total d)
  then show ?case by (auto simp: phase_ok_def seq_ok_def)
qed

lemma reaches_ok:
  assumes "reaches cfg obj known d" and "osize obj < 2 ^ 63" and "0 < dc_PartSize cfg" and "0 < dc_Concurrency cfg"
  shows "local_ok cfg obj d \<and> data_ok obj d \<and> phase_ok cfg obj d"
  using assms(1)
proof (induction rule: reaches.induct)
  case start
  have "x < int (dc_PartSize cfg) \<Longrightarrow> 0 \<le> x \<Longrightarrow> x \<in> pending (start_state cfg)" for x
    by (simp add: start_state_def pending_def worker_todo_def chunk_todo_def advance_def next_chunk_def Let_def)
  then have "data_ok obj (start_state cfg)"
    unfolding data_ok_def by (auto simp: start_state_def pending_count_def worker_count_def chunk_count_def advance_def next_chunk_def Let_def)
  then show ?case
    using assms by (auto simp: start_state_def local_ok_def phase_ok_def seq_ok_def worker_ok_def fresh_chunk_def advance_def next_chunk_def Let_def)
next
  case (step d d')
  with local_step data_step phase_step assms(2-) show ?case by blast
qed

text \<open>A finished download without an error has the object in the buffer.\<close>

lemma buffer_complete:
  assumes "local_ok cfg obj d" and "data_ok obj d" and "phase_ok cfg obj d"
    and "d_phase d = Finished" and "d_err d = None"
  shows "d_buf d = obj" and "d_written d = osize obj"
proof -
  have fin: "d_main d = Idle" "\<forall>w \<in> set (d_workers d). w = Exited" "d_chan d = []" "osize obj \<le> d_pos d"
    using assms(3-5) by (auto simp: phase_ok_def)
  have "map (worker_count obj) (d_workers d) = map (\<lambda>_. 0) (d_workers d)"
    using fin(2) by (auto simp: worker_count_def)
  then have pend: "pending d = {}" "pending_count obj d = 0"
    using fin by (auto simp: pending_def pending_count_def worker_todo_def worker_count_def simp del: map_eq_conv)
  have at: "at_right obj (d_buf d) (int x)" if "x < length obj" for x
    using assms(2,5) fin(4) pend that by (auto simp: data_ok_def no_failure_def)
  have "length obj \<le> length (d_buf d)"
  proof (rule ccontr)
    assume "\<not> length obj \<le> length (d_buf d)"
    with at [of "length (d_buf d)"] show False by (simp add: at_right_def)
  qed
  with assms(1) at show "d_buf d = obj" by (intro nth_equalityI) (auto simp: local_ok_def at_right_def)
  show "d_written d = osize obj"
    using assms(2,5) fin(4) pend by (auto simp: data_ok_def no_failure_def)
qed

section \<open>A download does not deadlock\<close>

text \<open>
  Some goroutine can always move on until the download is finished, whatever the service does: a
  chunk can always fail, and a queue that is full has a worker to take from it.
\<close>

lemma chunk_step_enabled:
  "\<exists>w' d'. chunk_step cfg obj known (Busy c r b) d w' d'"
proof (cases b)
  case None
  have "\<not> is_416 (PlainError [])" by simp
  with chunk_step.request_error None show ?thesis by blast
next
  case (Some bs)
  have e: "\<not> is_416 (PlainError [])" by simp
  show ?thesis
  proof (cases "r < dc_maxRetries cfg")
    case True
    with chunk_step.interrupted [OF _ e] Some show ?thesis by blast
  next
    case False
    then have "dc_maxRetries cfg \<le> r" by simp
    with chunk_step.gives_up [OF _ e] Some show ?thesis by blast
  qed
qed

lemma idle_or_busy: "w \<noteq> Exited \<Longrightarrow> w = Idle \<or> (\<exists>c r b. w = Busy c r b)"
  by (cases w) auto

lemma dl_progress:
  assumes "phase_ok cfg obj d" and "0 < dc_Concurrency cfg" and "d_phase d \<noteq> Finished"
  shows "\<exists>d'. dl_step cfg obj known d d'"
proof -
  have worker: "\<exists>d'. dl_step cfg obj known d d'"
    if "i < length (d_workers d)" "d_workers d ! i \<noteq> Exited" "d_chan d \<noteq> [] \<or> d_phase d = Waiting" for i
  proof (cases "d_workers d ! i = Idle")
    case True
    then show ?thesis
    proof (cases "d_chan d")
      case Nil
      with that True dl_step.leaves [of d i] show ?thesis by blast
    next
      case (Cons c cs)
      with that True dl_step.takes [of i d c cs] dl_step.drains [of i d c cs] show ?thesis by blast
    qed
  next
    case False
    with that idle_or_busy obtain c r b where "d_workers d ! i = Busy c r b" by blast
    with chunk_step_enabled dl_step.works [OF that(1)] show ?thesis by metis
  qed
  have main: "\<exists>d'. dl_step cfg obj known d d'"
    if "d_main d = Busy c r b" "d_phase d = FirstChunk \<or> d_phase d = Sequential" for c r b
    using that chunk_step_enabled dl_step.main_works by metis
  show ?thesis
  proof (cases "d_phase d")
    case FirstChunk
    show ?thesis
    proof (cases "d_main d = Idle")
      case True
      with FirstChunk dl_step.spin_up [of d] dl_step.no_total [of d] show ?thesis by (metis not_le)
    next
      case False
      with FirstChunk assms(1) main show ?thesis by (auto simp: phase_ok_def seq_ok_def)
    qed
  next
    case Sequential
    show ?thesis
    proof (cases "d_main d = Idle")
      case True
      with Sequential dl_step.next_in_turn [of d] dl_step.turn_over [of d] show ?thesis by (cases "d_err d") blast+
    next
      case False
      with Sequential assms(1) main show ?thesis by (auto simp: phase_ok_def seq_ok_def)
    qed
  next
    case Queueing
    with dl_step.checked [of d] dl_step.closed [of d] show ?thesis by (metis not_le)
  next
    case Sending
    show ?thesis
    proof (cases "length (d_chan d) < dc_Concurrency cfg")
      case True
      with Sending dl_step.queued [of d] show ?thesis by blast
    next
      case False
      with assms(2) have chan: "d_chan d \<noteq> []" by auto
      have "d_workers d \<noteq> []" "Exited \<notin> set (d_workers d)" using Sending assms(1) by (auto simp: phase_ok_def conc_ok_def)
      then have "0 < length (d_workers d)" "d_workers d ! 0 \<noteq> Exited" by (auto simp: in_set_conv_nth)
      with worker chan show ?thesis by blast
    qed
  next
    case Waiting
    show ?thesis
    proof (cases "\<forall>w \<in> set (d_workers d). w = Exited")
      case True
      with Waiting dl_step.all_left [of d] show ?thesis by blast
    next
      case False
      then obtain i where "i < length (d_workers d)" "d_workers d ! i \<noteq> Exited" by (metis in_set_conv_nth)
      with worker Waiting show ?thesis by blast
    qed
  next
    case Finished
    with assms(3) show ?thesis by simp
  qed
qed

section \<open>Every run ends\<close>

text \<open>
  A weight that every step makes smaller: what is left of the retries and the bodies of the chunks
  under way, of the queue, and of the object.
\<close>

definition chunk_weight :: "Downloader \<Rightarrow> nat" where
  "chunk_weight cfg = Suc (dc_maxRetries cfg) * (dc_PartSize cfg + 3)"

definition worker_weight :: "Downloader \<Rightarrow> worker \<Rightarrow> nat" where
  "worker_weight cfg w = (case w of Idle \<Rightarrow> 1 | Exited \<Rightarrow> 0
   | Busy c r None \<Rightarrow> Suc (dc_maxRetries cfg - r) * (dc_PartSize cfg + 3)
   | Busy c r (Some bs) \<Rightarrow> (dc_maxRetries cfg - r) * (dc_PartSize cfg + 3) + length bs + 2)"

definition turns_left :: "Downloader \<Rightarrow> byte list \<Rightarrow> downloader \<Rightarrow> nat" where
  "turns_left cfg obj d = nat (osize obj + int (dc_PartSize cfg) - d_pos d) * (chunk_weight cfg + 2)"

definition parts_left :: "Downloader \<Rightarrow> byte list \<Rightarrow> downloader \<Rightarrow> nat" where
  "parts_left cfg obj d = nat (osize obj - d_pos d) * (chunk_weight cfg + 4)"

definition phase_weight :: "Downloader \<Rightarrow> byte list \<Rightarrow> downloader \<Rightarrow> nat" where
  "phase_weight cfg obj d = (case d_phase d of
     FirstChunk \<Rightarrow> dc_Concurrency cfg + parts_left cfg obj d + turns_left cfg obj d + 10
   | Sequential \<Rightarrow> (if d_err d = None then 2 + turns_left cfg obj d else 1)
   | Queueing \<Rightarrow> parts_left cfg obj d + 3
   | Sending \<Rightarrow> parts_left cfg obj d + 2
   | Waiting \<Rightarrow> 1 | Finished \<Rightarrow> 0)"

definition weight :: "Downloader \<Rightarrow> byte list \<Rightarrow> downloader \<Rightarrow> nat" where
  "weight cfg obj d = phase_weight cfg obj d + worker_weight cfg (d_main d) +
     sum_list (map (worker_weight cfg) (d_workers d)) + length (d_chan d) * (chunk_weight cfg + 1)"

lemma worker_weight_step:
  assumes "chunk_step cfg obj known w d w' d'" and "worker_ok cfg obj w"
  shows "worker_weight cfg w' < worker_weight cfg w"
  using assms
proof (induction rule: chunk_step.induct)
  case (response c d retry)
  then have "length (take (nat (ck_size c)) (drop (nat (ck_start c)) obj)) \<le> dc_PartSize cfg"
    by (auto simp: worker_ok_def fresh_chunk_def)
  then show ?case by (simp add: worker_weight_def)
next
  case (interrupted retry e c bs d)
  then have "dc_maxRetries cfg - retry = Suc (dc_maxRetries cfg - Suc retry)" by simp
  then show ?case by (simp add: worker_weight_def)
qed (auto simp: worker_weight_def)

lemma weight_update:
  "i < length ws \<Longrightarrow> sum_list (map f (ws[i := v])) + f (ws ! i) = sum_list (map f ws) + (f v :: nat)"
  by (induction ws arbitrary: i) (auto split: nat.splits)

lemma weight_update_less:
  "i < length ws \<Longrightarrow> f v < f (ws ! i) \<Longrightarrow> sum_list (map f (ws[i := v])) < sum_list (map f ws)" for f :: "'a \<Rightarrow> nat"
  using weight_update [of i ws f v] by linarith

text \<open>When the main goroutine has nothing to do and nothing failed, the last part began inside the object.\<close>

definition turn_ok :: "Downloader \<Rightarrow> byte list \<Rightarrow> downloader \<Rightarrow> bool" where
  "turn_ok cfg obj d \<longleftrightarrow> (d_phase d = FirstChunk \<or> d_phase d = Sequential \<longrightarrow> d_main d = Idle \<longrightarrow> d_err d = None \<longrightarrow>
     d_pos d < osize obj + int (dc_PartSize cfg))"

lemma chunk_completed:
  assumes "chunk_step cfg obj known w d w' d'" and "worker_ok cfg obj w" and "w' = Idle" and "d_err d' = None"
  shows "\<exists>c r b. w = Busy c r b \<and> ck_start c < osize obj"
  using assms by (induction rule: chunk_step.induct) (auto simp: worker_ok_def setErr_def)

lemma turn_step:
  assumes "dl_step cfg obj known d d'" and "osize obj < 2 ^ 63" and "local_ok cfg obj d" and "phase_ok cfg obj d"
    and "turn_ok cfg obj d"
  shows "turn_ok cfg obj d'"
  using assms
proof (induction rule: dl_step.induct)
  case (main_works d w d')
  obtain t n e b where d': "d' = d\<lparr>d_totalBytes := t, d_written := n, d_err := e, d_buf := b\<rparr>"
    by (rule chunk_step_eq [OF main_works(1,3)])
  have seq: "seq_ok cfg obj d" using main_works(2,5) by (auto simp: phase_ok_def)
  have "worker_ok cfg obj (d_main d)" using main_works(4) by (simp add: local_ok_def)
  from chunk_completed [OF main_works(1) this] seq show ?case
    by (auto simp: turn_ok_def d' seq_ok_def)
next
  case (works i d w d')
  obtain t n e b where d': "d' = d\<lparr>d_totalBytes := t, d_written := n, d_err := e, d_buf := b\<rparr>"
    by (rule chunk_step_eq [OF works(2,3)])
  have "d_phase d \<noteq> FirstChunk" "d_phase d \<noteq> Sequential" using works(1,5) by (auto simp: phase_ok_def seq_ok_def)
  then show ?case by (simp add: turn_ok_def d')
qed (auto simp: turn_ok_def advance_def)

lemma reaches_turn:
  assumes "reaches cfg obj known d" and "osize obj < 2 ^ 63" and "0 < dc_PartSize cfg" and "0 < dc_Concurrency cfg"
  shows "turn_ok cfg obj d"
  using assms(1)
proof (induction rule: reaches.induct)
  case start
  show ?case by (simp add: turn_ok_def start_state_def advance_def next_chunk_def Let_def)
next
  case (step d d')
  with turn_step reaches_ok [OF step(1) assms(2-)] assms(2) show ?case by blast
qed

lemma times_less: "a < b \<Longrightarrow> a * k + k \<le> b * k" for a b k :: nat
  using mult_le_mono1 [of "Suc a" b k] by simp

lemma weight_step:
  assumes "dl_step cfg obj known d d'" and "osize obj < 2 ^ 63" and "local_ok cfg obj d" and "phase_ok cfg obj d"
    and "turn_ok cfg obj d" and "0 < dc_PartSize cfg"
  shows "weight cfg obj d' < weight cfg obj d"
  using assms
proof (induction rule: dl_step.induct)
  case (main_works d w d')
  obtain t n e b where d': "d' = d\<lparr>d_totalBytes := t, d_written := n, d_err := e, d_buf := b\<rparr>"
    by (rule chunk_step_eq [OF main_works(1,3)])
  have "d_err d = None"
    using main_works(2,5) chunk_step_frame(3) [OF main_works(1,3)] by (auto simp: phase_ok_def seq_ok_def)
  then have "phase_weight cfg obj (d'\<lparr>d_main := w\<rparr>) \<le> phase_weight cfg obj d"
    using main_works(2) by (auto simp: phase_weight_def d' parts_left_def turns_left_def)
  moreover have "worker_weight cfg w < worker_weight cfg (d_main d)"
    using worker_weight_step [OF main_works(1)] main_works(4) by (simp add: local_ok_def)
  ultimately show ?case by (simp add: weight_def d')
next
  case (works i d w d')
  obtain t n e b where d': "d' = d\<lparr>d_totalBytes := t, d_written := n, d_err := e, d_buf := b\<rparr>"
    by (rule chunk_step_eq [OF works(2,3)])
  have "d_phase d \<noteq> Sequential" using works(1,5) by (auto simp: phase_ok_def seq_ok_def)
  then have "phase_weight cfg obj (d'\<lparr>d_workers := (d_workers d)[i := w]\<rparr>) = phase_weight cfg obj d"
    by (cases "d_phase d") (auto simp: phase_weight_def d' parts_left_def turns_left_def)
  moreover have "worker_weight cfg w < worker_weight cfg (d_workers d ! i)"
    using worker_weight_step [OF works(2)] works(1,4) by (simp add: local_ok_def)
  note weight_update_less [OF works(1) this]
  ultimately show ?case by (simp add: weight_def d')
next
  case (spin_up d)
  then show ?case
    by (simp add: weight_def phase_weight_def parts_left_def phase_ok_def seq_ok_def sum_list_replicate worker_weight_def)
next
  case (no_total d)
  then show ?case by (simp add: weight_def phase_weight_def turns_left_def)
next
  case (queued d)
  then have "nat (osize obj - (d_pos d + int (dc_PartSize cfg))) < nat (osize obj - d_pos d)"
    by (simp add: phase_ok_def)
  from times_less [OF this, of "chunk_weight cfg + 4"] queued(1) show ?case
    by (simp add: weight_def phase_weight_def parts_left_def advance_def next_chunk_def)
next
  case (takes i d c cs)
  have "worker_weight cfg (Busy c 0 None) = chunk_weight cfg" "worker_weight cfg (d_workers d ! i) = 1"
    using takes(2) by (simp_all add: worker_weight_def chunk_weight_def)
  with weight_update [OF takes(1), of "worker_weight cfg" "Busy c 0 None"]
  have sum: "sum_list (map (worker_weight cfg) ((d_workers d)[i := Busy c 0 None])) + 1 =
    sum_list (map (worker_weight cfg) (d_workers d)) + chunk_weight cfg" by simp
  have "phase_weight cfg obj (d\<lparr>d_chan := cs, d_workers := (d_workers d)[i := Busy c 0 None]\<rparr>) = phase_weight cfg obj d"
    by (cases "d_phase d") (simp_all add: phase_weight_def parts_left_def turns_left_def)
  then show ?case using sum takes(3) by (simp add: weight_def)
next
  case (drains i d c cs)
  have "phase_weight cfg obj (d\<lparr>d_chan := cs\<rparr>) = phase_weight cfg obj d"
    by (cases "d_phase d") (simp_all add: phase_weight_def parts_left_def turns_left_def)
  then show ?case using drains(3) by (simp add: weight_def)
next
  case (leaves d i)
  have "worker_weight cfg Exited < worker_weight cfg (d_workers d ! i)" using leaves(3) by (simp add: worker_weight_def)
  from weight_update_less [OF leaves(2) this] leaves(1) show ?case
    by (simp add: weight_def phase_weight_def)
next
  case (next_in_turn d)
  then have "nat (osize obj + int (dc_PartSize cfg) - (d_pos d + int (dc_PartSize cfg))) <
    nat (osize obj + int (dc_PartSize cfg) - d_pos d)"
    by (simp add: turn_ok_def)
  from times_less [OF this, of "chunk_weight cfg + 2"] next_in_turn(1-3) show ?case
    by (simp add: weight_def phase_weight_def turns_left_def advance_def next_chunk_def worker_weight_def chunk_weight_def)
qed (auto simp: weight_def phase_weight_def parts_left_def)

lemma runs_end:
  assumes "osize obj < 2 ^ 63" and "0 < dc_PartSize cfg" and "0 < dc_Concurrency cfg"
  shows "\<not> (\<exists>run. run 0 = start_state cfg \<and> (\<forall>i. dl_step cfg obj known (run i) (run (Suc i))))"
proof
  assume "\<exists>run. run 0 = start_state cfg \<and> (\<forall>i. dl_step cfg obj known (run i) (run (Suc i)))"
  then obtain run where run: "run 0 = start_state cfg" "\<And>i. dl_step cfg obj known (run i) (run (Suc i))" by blast
  have reach: "reaches cfg obj known (run i)" for i
    by (induction i) (use run reaches.intros in \<open>auto simp: run(1)\<close>)
  have "weight cfg obj (run (Suc i)) < weight cfg obj (run i)" for i
    using weight_step [OF run(2)] reaches_ok [OF reach assms] reaches_turn [OF reach assms] assms by blast
  then have "(run (Suc i), run i) \<in> measure (weight cfg obj)" for i by simp
  then show False using wf_measure [of "weight cfg obj"] unfolding wf_iff_no_infinite_down_chain by blast
qed

section \<open>A run\<close>

text \<open>A run with one worker that downloads two parts of one byte.\<close>

definition sample_cfg :: Downloader where
  "sample_cfg = \<lparr>dc_PartSize = 1, dc_Concurrency = 1, dc_maxRetries = 0\<rparr>"

definition sample_state :: "phase \<Rightarrow> worker \<Rightarrow> worker list \<Rightarrow> dlchunk list \<Rightarrow> int \<Rightarrow> int \<Rightarrow> int \<Rightarrow> byte list \<Rightarrow> downloader" where
  "sample_state ph m ws ch pos tot n b = \<lparr>d_phase = ph, d_main = m, d_workers = ws, d_chan = ch, d_pos = pos,
     d_totalBytes = tot, d_written = n, d_err = None, d_buf = b\<rparr>"

definition sample_chunk :: "int \<Rightarrow> int \<Rightarrow> dlchunk" where
  "sample_chunk s k = \<lparr>ck_start = s, ck_size = 1, ck_cur = k, ck_withRange = []\<rparr>"

lemma sample_next:
  "reaches cfg obj known d \<Longrightarrow> dl_step cfg obj known d d' \<Longrightarrow> d' = e \<Longrightarrow> reaches cfg obj known e"
  by (auto intro: reaches.step)

lemma main_next:
  "reaches cfg obj known (sample_state ph w0 ws ch pos tot n b) \<Longrightarrow>
   chunk_step cfg obj known w0 (sample_state ph w0 ws ch pos tot n b) w d' \<Longrightarrow>
   ph = FirstChunk \<or> ph = Sequential \<Longrightarrow> d'\<lparr>d_main := w\<rparr> = e \<Longrightarrow> reaches cfg obj known e"
  using dl_step.main_works [of cfg obj known "sample_state ph w0 ws ch pos tot n b" w d'] reaches.step
  by (fastforce simp: sample_state_def)

lemma worker_next:
  "reaches cfg obj known (sample_state ph m [w0] ch pos tot n b) \<Longrightarrow>
   chunk_step cfg obj known w0 (sample_state ph m [w0] ch pos tot n b) w d' \<Longrightarrow>
   d'\<lparr>d_workers := (d_workers d')[0 := w]\<rparr> = e \<Longrightarrow> reaches cfg obj known e"
  using dl_step.works [of 0 "sample_state ph m [w0] ch pos tot n b" cfg obj known w d'] reaches.step
  by (fastforce simp: sample_state_def)

lemma sample_run:
  "reaches sample_cfg [7, 8] True (sample_state Finished Idle [Exited] [] 2 2 2 [7, 8])"
proof -
  note defs = sample_cfg_def sample_state_def sample_chunk_def next_chunk_def advance_def incrWritten_def service_total
  let ?R = "reaches sample_cfg [7, 8] True" and ?c = sample_chunk
  have w0: "dlchunk_Write (?c 0 0) [] (take 1 [7]) = Some (?c 0 1, [7])"
    and w1: "dlchunk_Write (?c 1 0) [7] (take 1 [8]) = Some (?c 1 1, [7, 8])"
    by (simp_all add: dlchunk_Write_def sample_chunk_def WriteAt_def)
  have "?R (sample_state FirstChunk (Busy (?c 0 0) 0 None) [] [] 1 (-1) 0 [])"
    using reaches.start [of sample_cfg "[7, 8]" True] by (simp add: start_state_def defs)
  then have "?R (sample_state FirstChunk (Busy (?c 0 0) 0 (Some [7])) [] [] 1 2 0 [])"
    by (rule main_next [OF _ chunk_step.response]) (simp_all add: defs)
  then have "?R (sample_state FirstChunk (Busy (?c 0 1) 0 (Some [])) [] [] 1 2 0 [7])"
    by (rule main_next [OF _ chunk_step.written [where n = 1 and c' = "?c 0 1" and buf' = "[7]"]])
      (use w0 in \<open>simp_all add: defs\<close>)
  then have "?R (sample_state FirstChunk Idle [] [] 1 2 1 [7])"
    by (rule main_next [OF _ chunk_step.complete]) (simp_all add: defs)
  then have "?R (sample_state Queueing Idle [Idle] [] 1 2 1 [7])"
    by (rule sample_next [OF _ dl_step.spin_up]) (simp_all add: defs)
  then have "?R (sample_state Sending Idle [Idle] [] 1 2 1 [7])"
    by (rule sample_next [OF _ dl_step.checked]) (simp_all add: defs)
  then have "?R (sample_state Queueing Idle [Idle] [?c 1 0] 2 2 1 [7])"
    by (rule sample_next [OF _ dl_step.queued]) (simp_all add: defs)
  then have "?R (sample_state Queueing Idle [Busy (?c 1 0) 0 None] [] 2 2 1 [7])"
    by (rule sample_next [OF _ dl_step.takes [where i = 0]]) (simp_all add: defs)
  then have "?R (sample_state Queueing Idle [Busy (?c 1 0) 0 (Some [8])] [] 2 2 1 [7])"
    by (rule worker_next [OF _ chunk_step.response]) (simp_all add: defs)
  then have "?R (sample_state Queueing Idle [Busy (?c 1 1) 0 (Some [])] [] 2 2 1 [7, 8])"
    by (rule worker_next [OF _ chunk_step.written [where n = 1 and c' = "?c 1 1" and buf' = "[7, 8]"]])
      (use w1 in \<open>simp_all add: defs\<close>)
  then have "?R (sample_state Queueing Idle [Idle] [] 2 2 2 [7, 8])"
    by (rule worker_next [OF _ chunk_step.complete]) (simp_all add: defs)
  then have "?R (sample_state Waiting Idle [Idle] [] 2 2 2 [7, 8])"
    by (rule sample_next [OF _ dl_step.closed]) (simp_all add: defs)
  then have "?R (sample_state Waiting Idle [Exited] [] 2 2 2 [7, 8])"
    by (rule sample_next [OF _ dl_step.leaves [where i = 0]]) (simp_all add: defs)
  then show ?thesis
    by (rule sample_next [OF _ dl_step.all_left]) (simp_all add: defs)
qed

end
