(* ===== verification/AwsArn.thy ===== *)
theory AwsArn
  imports AwsErrors
begin

text \<open>
  Resource names: package \<open>aws/arn\<close>, and what the transfer managers ask of one
  (\<open>service/s3/s3manager/arn.go\<close>).
\<close>

section \<open>Splitting\<close>

definition until :: "char \<Rightarrow> string \<Rightarrow> string" where
  "until d s = takeWhile (\<lambda>c. c \<noteq> d) s"

definition behind :: "char \<Rightarrow> string \<Rightarrow> string" where
  "behind d s = tl (dropWhile (\<lambda>c. c \<noteq> d) s)"

text \<open>\<open>strings.SplitN\<close> for a separator of one character and a positive bound, and \<open>strings.Count\<close>.\<close>

fun SplitN :: "nat \<Rightarrow> char \<Rightarrow> string \<Rightarrow> string list" where
  "SplitN 0 d s = []"
| "SplitN (Suc 0) d s = [s]"
| "SplitN (Suc (Suc n)) d s = (if d \<in> set s then until d s # SplitN (Suc n) d (behind d s) else [s])"

definition strings_Count :: "string \<Rightarrow> char \<Rightarrow> nat" where
  "strings_Count s d = length (filter (\<lambda>c. c = d) s)"

lemma split_at_first: "d \<in> set s \<Longrightarrow> s = until d s @ d # behind d s"
  unfolding until_def behind_def by (induction s) auto

lemma until_clean: "d \<notin> set (until d s)"
  unfolding until_def by (auto dest: set_takeWhileD)

lemma split_append [simp]: "d \<notin> set u \<Longrightarrow> until d (u @ d # t) = u" "d \<notin> set u \<Longrightarrow> behind d (u @ d # t) = t"
  unfolding until_def behind_def by (induction u) auto

lemma Count_behind: "d \<in> set s \<Longrightarrow> strings_Count s d = Suc (strings_Count (behind d s) d)"
  unfolding strings_Count_def behind_def by (induction s) auto

lemma length_SplitN: "0 < n \<Longrightarrow> length (SplitN n d s) = min n (Suc (strings_Count s d))"
proof (induction n d s rule: SplitN.induct)
  case (3 n d s)
  show ?case
  proof (cases "d \<in> set s")
    case True
    with 3 Count_behind [OF True] show ?thesis by simp
  next
    case False
    then have "strings_Count s d = 0" by (auto simp: strings_Count_def filter_empty_conv)
    with False show ?thesis by simp
  qed
qed auto

section \<open>Resource names\<close>

record ARN =
  Partition :: string
  Service :: string
  Region :: string
  AccountID :: string
  Resource :: string

definition arnPrefix :: string where "arnPrefix = ''arn:''"
definition arnSections :: nat where "arnSections = 6"

definition ARN_Parse :: "string \<Rightarrow> goerror + ARN" where
  "ARN_Parse arn =
     (if \<not> prefix_of arnPrefix arn then Inl (PlainError ''arn: invalid prefix'')
      else let sections = SplitN arnSections CHR '':'' arn in
        if length sections \<noteq> arnSections then Inl (PlainError ''arn: not enough sections'')
        else Inr \<lparr>Partition = sections ! 1, Service = sections ! 2, Region = sections ! 3,
                  AccountID = sections ! 4, Resource = sections ! 5\<rparr>)"

definition IsARN :: "string \<Rightarrow> bool" where
  "IsARN arn \<longleftrightarrow> prefix_of arnPrefix arn \<and> arnSections - 1 \<le> strings_Count arn CHR '':''"

definition ARN_String :: "ARN \<Rightarrow> string" where
  "ARN_String a = arnPrefix @ Partition a @ '':'' @ Service a @ '':'' @ Region a @ '':'' @ AccountID a @ '':'' @ Resource a"

definition validateSupportedARNType :: "string \<Rightarrow> goerror option" where
  "validateSupportedARNType bucket =
     (if \<not> IsARN bucket then None
      else case ARN_Parse bucket of
        Inl err \<Rightarrow> Some err
      | Inr parsed \<Rightarrow>
          if Service parsed = ''s3-object-lambda''
          then Some (PlainError ''manager does not support s3-object-lambda service ARNs'') else None)"

section \<open>Parsing and printing\<close>

text \<open>The fields of a name, but for the last, have no colon.\<close>

definition arn_ok :: "ARN \<Rightarrow> bool" where
  "arn_ok a \<longleftrightarrow> CHR '':'' \<notin> set (Partition a) \<and> CHR '':'' \<notin> set (Service a) \<and> CHR '':'' \<notin> set (Region a) \<and>
     CHR '':'' \<notin> set (AccountID a)"

lemma prefix_of_append: "prefix_of u s \<Longrightarrow> \<exists>t. s = u @ t"
  by (induction u s rule: prefix_of.induct) auto

lemma prefix_arn: "prefix_of arnPrefix s \<Longrightarrow> \<exists>t. s = ''arn'' @ CHR '':'' # t"
  using prefix_of_append [of arnPrefix s] by (simp add: arnPrefix_def)

lemma IsARN_parses: "IsARN s \<longleftrightarrow> (\<exists>a. ARN_Parse s = Inr a)"
  using length_SplitN [of arnSections "CHR '':''" s]
  by (auto simp: IsARN_def ARN_Parse_def arnSections_def Let_def)

lemma SplitN_six: "SplitN 6 d s = SplitN (Suc (Suc (Suc (Suc (Suc (Suc 0)))))) d s"
  by (simp add: numeral_eq_Suc)

lemma Parse_String:
  assumes "arn_ok a"
  shows "ARN_Parse (ARN_String a) = Inr a"
proof -
  have "prefix_of arnPrefix (ARN_String a)" by (simp add: ARN_String_def arnPrefix_def)
  moreover have "SplitN arnSections CHR '':'' (ARN_String a) =
      [''arn'', Partition a, Service a, Region a, AccountID a, Resource a]"
    using assms split_append [of "CHR '':''" "''arn''"]
    by (simp add: arnSections_def SplitN_six ARN_String_def arnPrefix_def arn_ok_def)
  ultimately show ?thesis by (simp add: ARN_Parse_def arnSections_def)
qed

lemma Parse_sound:
  assumes "ARN_Parse s = Inr a"
  shows "ARN_String a = s \<and> arn_ok a"
proof -
  have pre: "prefix_of arnPrefix s" and len: "length (SplitN 6 CHR '':'' s) = 6"
    and a: "a = \<lparr>Partition = SplitN 6 CHR '':'' s ! 1, Service = SplitN 6 CHR '':'' s ! 2, Region = SplitN 6 CHR '':'' s ! 3,
      AccountID = SplitN 6 CHR '':'' s ! 4, Resource = SplitN 6 CHR '':'' s ! 5\<rparr>"
    using assms by (auto simp: ARN_Parse_def arnSections_def Let_def split: if_splits)
  from prefix_arn [OF pre] obtain t where s: "s = ''arn'' @ CHR '':'' # t" by blast
  define p1 p2 p3 p4 where "p1 = behind CHR '':'' t" and "p2 = behind CHR '':'' p1" and "p3 = behind CHR '':'' p2"
    and "p4 = behind CHR '':'' p3"
  have split: "SplitN 6 CHR '':'' s = ''arn'' # SplitN 5 CHR '':'' t"
    using split_append [of "CHR '':''" "''arn''" t] by (simp add: s numeral_eq_Suc)
  have colons: "CHR '':'' \<in> set t" "CHR '':'' \<in> set p1" "CHR '':'' \<in> set p2" "CHR '':'' \<in> set p3"
    using len [unfolded split] by (auto simp: numeral_eq_Suc p1_def p2_def p3_def split: if_splits)
  then have "SplitN 6 CHR '':'' s = [''arn'', until CHR '':'' t, until CHR '':'' p1, until CHR '':'' p2, until CHR '':'' p3, p4]"
    unfolding split by (simp add: numeral_eq_Suc p1_def p2_def p3_def p4_def)
  then have eq: "a = \<lparr>Partition = until CHR '':'' t, Service = until CHR '':'' p1, Region = until CHR '':'' p2,
      AccountID = until CHR '':'' p3, Resource = p4\<rparr>"
    by (simp add: a)
  have "t = until CHR '':'' t @ '':'' @ until CHR '':'' p1 @ '':'' @ until CHR '':'' p2 @ '':'' @ until CHR '':'' p3 @ '':'' @ p4"
    using split_at_first [OF colons(1)] split_at_first [OF colons(2)] split_at_first [OF colons(3)] split_at_first [OF colons(4)]
    by (simp add: p1_def p2_def p3_def p4_def)
  then have "ARN_String a = s" by (simp add: ARN_String_def eq arnPrefix_def s)
  moreover have "arn_ok a" by (simp add: arn_ok_def eq until_clean)
  ultimately show ?thesis ..
qed

end
