(* ===== verification/S3Upload.thy ===== *)
theory S3Upload
  imports AwsArn AwsBody
begin

text \<open>
  The upload manager, \<open>service/s3/s3manager/upload.go\<close>.

  A body is a reader that also reads at an offset (\<open>readerAtSeeker\<close>), or any other reader, which
  delivers its bytes in pieces and may also be a seeker. The main goroutine cuts the body into
  parts and queues them, the workers send them; the multipart upload of the service is a map from
  part numbers to bytes, which completing puts together in the order of the parts listed. A request
  to the service may fail at any time, a part may be stored although the request failed. The pool of
  part buffers is not modelled: a part is a value, and getting a buffer does not fail.
\<close>

section \<open>Bodies\<close>

definition io_EOF :: goerror where
  "io_EOF = PlainError ''EOF''"

text \<open>
  A stream of pieces, in the end the error \<open>st_end\<close>, which comes with the last bytes already when
  \<open>st_eager\<close> is set. \<open>stream_Read\<close> is \<open>Read\<close> with a buffer of \<open>k\<close> bytes.
\<close>

record stream =
  st_pieces :: "byte list list"
  st_eager :: bool
  st_end :: goerror

definition stream_Read :: "nat \<Rightarrow> stream \<Rightarrow> (byte list \<times> goerror option) \<times> stream" where
  "stream_Read k s = (case st_pieces s of
     [] \<Rightarrow> (([], Some (st_end s)), s)
   | p # ps \<Rightarrow>
       if length p \<le> k
       then ((p, if ps = [] \<and> st_eager s then Some (st_end s) else None), s\<lparr>st_pieces := ps\<rparr>)
       else ((take k p, None), s\<lparr>st_pieces := drop k p # ps\<rparr>))"

datatype upload_body = ReaderAtSeeker body | OtherReader stream "(goerror + int) option"

section \<open>State\<close>

definition MaxUploadParts :: int where "MaxUploadParts = 10000"
definition MinUploadPartSize :: int where "MinUploadPartSize = 1024 * 1024 * 5"
definition DefaultUploadPartSize :: int where "DefaultUploadPartSize = MinUploadPartSize"
definition DefaultUploadConcurrency :: int where "DefaultUploadConcurrency = 5"

record Uploader =
  up_PartSize :: int
  up_Concurrency :: int
  up_LeavePartsOnError :: bool
  up_MaxUploadParts :: int

record uploader =
  ul_cfg :: Uploader
  ul_Bucket :: string
  ul_Body :: upload_body
  ul_readerPos :: int
  ul_totalSize :: int

section \<open>Preparing\<close>

text \<open>\<open>initSize\<close>: the size of a body that can seek, and a part size that makes it fit.\<close>

definition initSize :: "uploader \<Rightarrow> goerror + uploader" where
  "initSize u =
     (let u = u\<lparr>ul_totalSize := -1\<rparr>;
          seeker = (case ul_Body u of
            ReaderAtSeeker b \<Rightarrow> Some (fst (SeekerLen b))
          | OtherReader s sz \<Rightarrow> sz)
      in case seeker of
        None \<Rightarrow> Inr u
      | Some (Inl err) \<Rightarrow> Inl err
      | Some (Inr n) \<Rightarrow>
          (let u = u\<lparr>ul_totalSize := n\<rparr> in
           if up_MaxUploadParts (ul_cfg u) \<le> ul_totalSize u sdiv up_PartSize (ul_cfg u)
           then Inr (u\<lparr>ul_cfg := (ul_cfg u)\<lparr>up_PartSize := ul_totalSize u sdiv up_MaxUploadParts (ul_cfg u) + 1\<rparr>\<rparr>)
           else Inr u))"

definition uploader_defaults :: "Uploader \<Rightarrow> Uploader" where
  "uploader_defaults c = c\<lparr>
     up_Concurrency := (if up_Concurrency c = 0 then DefaultUploadConcurrency else up_Concurrency c),
     up_PartSize := (if up_PartSize c = 0 then DefaultUploadPartSize else up_PartSize c),
     up_MaxUploadParts := (if up_MaxUploadParts c = 0 then MaxUploadParts else up_MaxUploadParts c)\<rparr>"

definition uploader_init :: "uploader \<Rightarrow> goerror + uploader" where
  "uploader_init u =
     (case validateSupportedARNType (ul_Bucket u) of
        Some err \<Rightarrow> Inl err
      | None \<Rightarrow> initSize (u\<lparr>ul_cfg := uploader_defaults (ul_cfg u)\<rparr>))"

section \<open>Cutting the body\<close>

text \<open>\<open>readFillBuf\<close>: reads until the buffer of \<open>k\<close> bytes is full or there is an error.\<close>

function readFillBuf_loop :: "nat \<Rightarrow> stream \<Rightarrow> byte list \<Rightarrow> (byte list \<times> goerror option) \<times> stream" where
  "readFillBuf_loop k s b =
     (if length b < k then
        (case stream_Read (k - length b) s of
           ((p, Some err), s') \<Rightarrow> ((b @ p, Some err), s')
         | ((p, None), s') \<Rightarrow> readFillBuf_loop k s' (b @ p))
      else ((b, None), s))"
  by pat_completeness auto
termination
  by (relation "measure (\<lambda>(k, s, b). length (st_pieces s) + (k - length b))")
    (auto simp: stream_Read_def split: list.splits if_splits)

declare readFillBuf_loop.simps [simp del]

definition readFillBuf :: "nat \<Rightarrow> stream \<Rightarrow> (byte list \<times> goerror option) \<times> stream" where
  "readFillBuf k s = readFillBuf_loop k s []"

text \<open>\<open>nextReader\<close>: the bytes the reader it returns gives, their number, and the error.\<close>

definition nextReader :: "uploader \<Rightarrow> (byte list \<times> int \<times> goerror option) \<times> uploader" where
  "nextReader u = (case ul_Body u of
     ReaderAtSeeker b \<Rightarrow>
       (let (n, err) =
          (if 0 \<le> ul_totalSize u then
             (let bytesLeft = ul_totalSize u - ul_readerPos u in
              if bytesLeft \<le> up_PartSize (ul_cfg u) then (bytesLeft, Some io_EOF) else (up_PartSize (ul_cfg u), None))
           else (up_PartSize (ul_cfg u), None))
        in ((take (nat n) (drop (nat (ul_readerPos u)) (bd_data b)), n, err), u\<lparr>ul_readerPos := ul_readerPos u + n\<rparr>))
   | OtherReader s sz \<Rightarrow>
       (case readFillBuf (nat (up_PartSize (ul_cfg u))) s of
          ((bs, err), s') \<Rightarrow>
            ((bs, int (length bs), err),
             u\<lparr>ul_Body := OtherReader s' sz, ul_readerPos := ul_readerPos u + int (length bs)\<rparr>)))"

definition shouldContinue :: "Uploader \<Rightarrow> nat \<Rightarrow> int \<Rightarrow> goerror option \<Rightarrow> bool \<times> goerror option" where
  "shouldContinue cfg part nextChunkLen err =
     (if err \<noteq> None \<and> err \<noteq> Some io_EOF
      then (False, Some (awserr_New ''ReadRequestBody'' ''read multipart upload data failed'' err))
      else if nextChunkLen = 0 then (False, None)
      else let part = Suc part in
        if up_MaxUploadParts cfg < int part \<or> MaxUploadParts < int part then
          (let msg = (if up_MaxUploadParts cfg < int part
             then ''exceeded total allowed configured MaxUploadParts ('' @ int_digits (up_MaxUploadParts cfg) @
               ''). Adjust PartSize to fit in this limit''
             else ''exceeded total allowed S3 limit MaxUploadParts ('' @ int_digits MaxUploadParts @
               ''). Adjust PartSize to fit in this limit'')
           in (False, Some (awserr_New ''TotalPartsExceeded'' msg None)))
        else (True, err))"

section \<open>The multipart upload\<close>

type_synonym chunk = "nat \<times> byte list"

datatype sender = SIdle | SExited | Sending chunk

datatype mu_phase = Queue chunk | Looping | Reading | Closing | Done

record multiuploader =
  mu_up :: uploader
  mu_num :: nat
  mu_readErr :: "goerror option"
  mu_phase :: mu_phase
  mu_chan :: "chunk list"
  mu_senders :: "sender list"
  mu_parts :: "nat list"
  mu_store :: "nat \<Rightarrow> byte list option"
  mu_err :: "goerror option"
  mu_object :: "byte list option"
  mu_aborted :: bool

text \<open>
  What \<open>upload\<close> does before the goroutines: an error, a single part, or a multipart upload, which has been
  created (when the service refuses that, \<open>upload\<close> returns its error and nothing was sent).
\<close>

datatype upload_start = Failed goerror | SinglePart "byte list" | Multipart multiuploader

definition start_multi :: "byte list \<Rightarrow> uploader \<Rightarrow> multiuploader" where
  "start_multi firstBuf u = \<lparr>mu_up = u, mu_num = 1, mu_readErr = None, mu_phase = Queue (1, firstBuf), mu_chan = [],
     mu_senders = replicate (nat (up_Concurrency (ul_cfg u))) SIdle, mu_parts = [], mu_store = (\<lambda>_. None),
     mu_err = None, mu_object = None, mu_aborted = False\<rparr>"

definition upload :: "uploader \<Rightarrow> upload_start" where
  "upload u = (case uploader_init u of
     Inl err \<Rightarrow> Failed (awserr_New ''ReadRequestBody'' ''unable to initialize upload'' (Some err))
   | Inr u \<Rightarrow>
       if up_PartSize (ul_cfg u) < MinUploadPartSize
       then Failed (awserr_New ''ConfigError'' (''part size must be at least '' @ int_digits MinUploadPartSize @ '' bytes'') None)
       else (case nextReader u of
          ((bs, n, None), u) \<Rightarrow> Multipart (start_multi bs u)
        | ((bs, n, Some err), u) \<Rightarrow>
            if err = io_EOF then SinglePart bs
            else Failed (awserr_New ''ReadRequestBody'' ''read upload data failed'' (Some err))))"

definition mu_fail :: "multiuploader \<Rightarrow> multiuploader" where
  "mu_fail m = (if up_LeavePartsOnError (ul_cfg (mu_up m)) then m else m\<lparr>mu_aborted := True\<rparr>)"

text \<open>What the service makes of the parts listed in the request that completes the upload.\<close>

definition assemble :: "(nat \<Rightarrow> byte list option) \<Rightarrow> nat list \<Rightarrow> byte list" where
  "assemble store ps = concat (map (\<lambda>k. case store k of None \<Rightarrow> [] | Some bs \<Rightarrow> bs) ps)"

text \<open>The parts are sorted by number; \<open>failure\<close> is the error of the request, if it fails.\<close>

definition mu_complete :: "goerror option \<Rightarrow> multiuploader \<Rightarrow> multiuploader" where
  "mu_complete failure m =
     (if mu_err m \<noteq> None then mu_fail m
      else let m = m\<lparr>mu_parts := sort (mu_parts m)\<rparr> in
        case failure of
          Some err \<Rightarrow> mu_fail (m\<lparr>mu_err := Some err\<rparr>)
        | None \<Rightarrow> m\<lparr>mu_object := Some (assemble (mu_store m) (mu_parts m))\<rparr>)"

text \<open>The pass of the loop that reads the next part.\<close>

definition mu_read :: "multiuploader \<Rightarrow> multiuploader" where
  "mu_read m = (case nextReader (mu_up m) of
     ((bs, n, err), u) \<Rightarrow>
       (case shouldContinue (ul_cfg u) (mu_num m) n err of
          (True, err) \<Rightarrow>
            m\<lparr>mu_up := u, mu_readErr := err, mu_num := Suc (mu_num m), mu_phase := Queue (Suc (mu_num m), bs)\<rparr>
        | (False, None) \<Rightarrow> m\<lparr>mu_up := u, mu_readErr := None, mu_phase := Closing\<rparr>
        | (False, Some err) \<Rightarrow> m\<lparr>mu_up := u, mu_readErr := Some err, mu_err := Some err, mu_phase := Closing\<rparr>))"

inductive mu_step :: "multiuploader \<Rightarrow> multiuploader \<Rightarrow> bool"
where
  queued: "mu_phase m = Queue c \<Longrightarrow> int (length (mu_chan m)) < up_Concurrency (ul_cfg (mu_up m)) \<Longrightarrow>
    mu_step m (m\<lparr>mu_phase := Looping, mu_chan := mu_chan m @ [c]\<rparr>)"
| goes_on: "mu_phase m = Looping \<Longrightarrow> mu_err m = None \<Longrightarrow> mu_readErr m = None \<Longrightarrow>
    mu_step m (m\<lparr>mu_phase := Reading\<rparr>)"
| closes: "mu_phase m = Looping \<Longrightarrow> mu_err m \<noteq> None \<or> mu_readErr m \<noteq> None \<Longrightarrow>
    mu_step m (m\<lparr>mu_phase := Closing\<rparr>)"
| reads: "mu_phase m = Reading \<Longrightarrow> mu_step m (mu_read m)"
| takes: "i < length (mu_senders m) \<Longrightarrow> mu_senders m ! i = SIdle \<Longrightarrow> mu_chan m = c # cs \<Longrightarrow> mu_err m = None \<Longrightarrow>
    mu_step m (m\<lparr>mu_chan := cs, mu_senders := (mu_senders m)[i := Sending c]\<rparr>)"
| drains: "i < length (mu_senders m) \<Longrightarrow> mu_senders m ! i = SIdle \<Longrightarrow> mu_chan m = c # cs \<Longrightarrow> mu_err m \<noteq> None \<Longrightarrow>
    mu_step m (m\<lparr>mu_chan := cs\<rparr>)"
| sent: "i < length (mu_senders m) \<Longrightarrow> mu_senders m ! i = Sending (k, bs) \<Longrightarrow>
    mu_step m (m\<lparr>mu_senders := (mu_senders m)[i := SIdle], mu_store := (mu_store m)(k \<mapsto> bs), mu_parts := mu_parts m @ [k]\<rparr>)"
| send_fails: "i < length (mu_senders m) \<Longrightarrow> mu_senders m ! i = Sending (k, bs) \<Longrightarrow>
    mu_step m (m\<lparr>mu_senders := (mu_senders m)[i := SIdle],
      mu_store := (if stored then (mu_store m)(k \<mapsto> bs) else mu_store m), mu_err := Some err\<rparr>)"
| leaves: "mu_phase m = Closing \<Longrightarrow> i < length (mu_senders m) \<Longrightarrow> mu_senders m ! i = SIdle \<Longrightarrow> mu_chan m = [] \<Longrightarrow>
    mu_step m (m\<lparr>mu_senders := (mu_senders m)[i := SExited]\<rparr>)"
| completes: "mu_phase m = Closing \<Longrightarrow> \<forall>w \<in> set (mu_senders m). w = SExited \<Longrightarrow>
    mu_step m ((mu_complete failure m)\<lparr>mu_phase := Done\<rparr>)"

inductive mu_reaches :: "uploader \<Rightarrow> multiuploader \<Rightarrow> bool" for u :: uploader
where
  start: "upload u = Multipart m \<Longrightarrow> mu_reaches u m"
| step: "mu_reaches u m \<Longrightarrow> mu_step m m' \<Longrightarrow> mu_reaches u m'"

end
