(* ===== verification/S3UploadRuns.thy ===== *)
theory S3UploadRuns
  imports S3Upload "HOL-Library.Multiset"
begin

text \<open>
  The runs of an upload (\<open>S3Upload\<close>): the reader of parts as an interface, the part size chosen for a
  body of known size, and the invariant of all goroutines, which gives that a multipart upload that
  ends without an error has put the whole body into the object, whatever order the parts were sent
  in.
\<close>

section \<open>Reading parts\<close>

text \<open>
  What the main goroutine relies on: the reader gives the next part of what is left, of full size
  unless there is an error, and with an error nothing is left.
\<close>

locale part_source =
  fixes next_part :: "'s \<Rightarrow> (byte list \<times> int \<times> goerror option) \<times> 's"
    and left :: "'s \<Rightarrow> byte list" and psize :: "'s \<Rightarrow> nat" and ok :: "'s \<Rightarrow> bool"
  assumes next_bytes: "ok s \<Longrightarrow> next_part s = ((bs, n, err), s') \<Longrightarrow>
      bs = take (psize s) (left s) \<and> n = int (length bs) \<and> left s' = drop (psize s) (left s)"
    and next_ok: "ok s \<Longrightarrow> next_part s = ((bs, n, err), s') \<Longrightarrow> ok s' \<and> psize s' = psize s"
    and next_full: "ok s \<Longrightarrow> next_part s = ((bs, n, None), s') \<Longrightarrow> length bs = psize s"
    and next_end: "ok s \<Longrightarrow> next_part s = ((bs, n, Some e), s') \<Longrightarrow> left s' = []"
begin

lemma next_at:
  assumes "ok s" and "left s = drop (k * psize s) D" and "next_part s = ((bs, n, err), s')"
  shows "bs = take (psize s) (drop (k * psize s) D)" and "left s' = drop (Suc k * psize s) D"
    and "err \<noteq> None \<Longrightarrow> length D \<le> Suc k * psize s"
proof -
  show "bs = take (psize s) (drop (k * psize s) D)" and rest: "left s' = drop (Suc k * psize s) D"
    using next_bytes [OF assms(1,3)] assms(2) by (simp_all add: add.commute)
  show "length D \<le> Suc k * psize s" if "err \<noteq> None"
    using that rest next_end [OF assms(1)] assms(3) by auto
qed

end

text \<open>The parts of a body, counted from one.\<close>

definition part_no :: "nat \<Rightarrow> byte list \<Rightarrow> nat \<Rightarrow> byte list" where
  "part_no P D k = take P (drop ((k - 1) * P) D)"

lemma concat_parts: "concat (map (part_no P D) [1..<Suc n]) = take (n * P) D"
proof (induction n)
  case (Suc n)
  have "part_no P D (Suc n) = take P (drop (n * P) D)" by (simp add: part_no_def)
  with Suc show ?case by (simp add: take_add [symmetric] add.commute)
qed simp

lemma readFillBuf_loop_spec:
  "length b \<le> k \<Longrightarrow> readFillBuf_loop k s b = ((bs, err), s') \<Longrightarrow>
    bs = b @ take (k - length b) (concat (st_pieces s)) \<and> concat (st_pieces s') = drop (k - length b) (concat (st_pieces s)) \<and>
    (err = None \<longrightarrow> length bs = k) \<and> (err \<noteq> None \<longrightarrow> st_pieces s' = [] \<and> err = Some (st_end s)) \<and> st_end s' = st_end s"
proof (induction k s b rule: readFillBuf_loop.induct)
  case (1 k s b)
  show ?case
  proof (cases "length b < k")
    case False
    with "1.prems" show ?thesis by (subst (asm) readFillBuf_loop.simps) auto
  next
    case True
    note loop = readFillBuf_loop.simps [of k s b]
    show ?thesis
    proof (cases "st_pieces s")
      case Nil
      with True "1.prems" show ?thesis by (simp add: loop stream_Read_def) auto
    next
      case (Cons p ps)
      show ?thesis
      proof (cases "length p \<le> k - length b")
        case False
        let ?s = "s\<lparr>st_pieces := drop (k - length b) p # ps\<rparr>"
        have read: "stream_Read (k - length b) s = ((take (k - length b) p, None), ?s)"
          using Cons False by (simp add: stream_Read_def)
        have full: "length (b @ take (k - length b) p) = k" using True False by simp
        then have "readFillBuf_loop k s b = ((b @ take (k - length b) p, None), ?s)"
          using True by (simp add: loop read) (simp add: readFillBuf_loop.simps)
        with "1.prems" Cons False full show ?thesis by auto
      next
        case short: True
        let ?s = "s\<lparr>st_pieces := ps\<rparr>"
        show ?thesis
        proof (cases "ps = [] \<and> st_eager s")
          case True
          with short Cons \<open>length b < k\<close> "1.prems" show ?thesis by (simp add: loop stream_Read_def) auto
        next
          case False
          have read: "stream_Read (k - length b) s = ((p, None), ?s)"
            using Cons False short by (auto simp: stream_Read_def)
          have len: "length (b @ p) \<le> k" using short True by simp
          have "readFillBuf_loop k ?s (b @ p) = ((bs, err), s')"
            using "1.prems"(2) True by (simp add: loop read)
          from "1.IH" [OF True read [symmetric] refl refl len this]
          show ?thesis using short Cons by (auto simp: add.commute)
        qed
      qed
    qed
  qed
qed

text \<open>What is left of a body, and when a reader is in order.\<close>

definition body_left :: "uploader \<Rightarrow> byte list" where
  "body_left u = (case ul_Body u of
     ReaderAtSeeker b \<Rightarrow> drop (nat (ul_readerPos u)) (take (nat (ul_totalSize u)) (bd_data b))
   | OtherReader s sz \<Rightarrow> concat (st_pieces s))"

definition part_size :: "uploader \<Rightarrow> nat" where
  "part_size u = nat (up_PartSize (ul_cfg u))"

definition reader_ok :: "uploader \<Rightarrow> bool" where
  "reader_ok u \<longleftrightarrow> 0 < up_PartSize (ul_cfg u) \<and> (case ul_Body u of
     ReaderAtSeeker b \<Rightarrow> 0 \<le> ul_readerPos u \<and> ul_readerPos u \<le> ul_totalSize u \<and> nat (ul_totalSize u) \<le> length (bd_data b)
   | OtherReader s sz \<Rightarrow> True)"

lemma nextReader_cfg [simp]: "nextReader u = (x, u') \<Longrightarrow> ul_cfg u' = ul_cfg u"
  by (auto simp: nextReader_def Let_def split: upload_body.splits prod.splits)

lemma nextReader_at:
  assumes "reader_ok u" and "ul_Body u = ReaderAtSeeker b" and "nextReader u = ((bs, n, err), u')"
  shows "bs = take (part_size u) (body_left u) \<and> n = int (length bs) \<and> body_left u' = drop (part_size u) (body_left u) \<and>
    reader_ok u' \<and> (err = None \<longrightarrow> length bs = part_size u) \<and> (err \<noteq> None \<longrightarrow> body_left u' = [])"
proof (cases "ul_totalSize u - ul_readerPos u \<le> up_PartSize (ul_cfg u)")
  case True
  define n' where "n' = ul_totalSize u - ul_readerPos u"
  have ok: "0 \<le> ul_readerPos u" "ul_readerPos u \<le> ul_totalSize u" "nat (ul_totalSize u) \<le> length (bd_data b)" "0 < up_PartSize (ul_cfg u)"
    using assms(1,2) by (simp_all add: reader_ok_def)
  have eq: "bs = take (nat n') (drop (nat (ul_readerPos u)) (bd_data b))" "n = n'" "err = Some io_EOF"
    "u' = u\<lparr>ul_readerPos := ul_readerPos u + n\<rparr>"
    using assms(2,3) True ok by (auto simp: nextReader_def n'_def)
  have left: "body_left u = take (nat n') (drop (nat (ul_readerPos u)) (bd_data b))"
    using assms(2) ok by (simp add: body_left_def drop_take n'_def nat_diff_distrib)
  have "nat n' \<le> part_size u" using True by (simp add: part_size_def n'_def)
  moreover have "length (body_left u) = nat n'" using ok unfolding left n'_def by (simp add: nat_diff_distrib)
  moreover have "body_left u' = []" "reader_ok u'"
    using assms(2) ok unfolding eq(2,4) n'_def by (simp_all add: body_left_def reader_ok_def)
  ultimately show ?thesis using eq left ok by (simp add: n'_def)
next
  case False
  have ok: "0 \<le> ul_readerPos u" "nat (ul_totalSize u) \<le> length (bd_data b)" "0 < up_PartSize (ul_cfg u)"
    using assms(1,2) by (simp_all add: reader_ok_def)
  define P where "P = part_size u"
  have P: "nat (up_PartSize (ul_cfg u)) = P" "up_PartSize (ul_cfg u) = int P" using ok by (simp_all add: P_def part_size_def)
  define q where "q = nat (ul_readerPos u)"
  have q: "ul_readerPos u = int q" using ok by (simp add: q_def)
  define t where "t = nat (ul_totalSize u)"
  have t: "ul_totalSize u = int t" using False ok unfolding t_def by simp
  have qt: "q + P < t" using False by (simp add: q t P)
  have eq: "bs = take P (drop q (bd_data b))" "n = int P" "err = None" "u' = u\<lparr>ul_readerPos := ul_readerPos u + n\<rparr>"
    using assms(2,3) False ok P q by (auto simp: nextReader_def)
  have len: "t \<le> length (bd_data b)" using ok t by simp
  have left: "body_left u = drop q (take t (bd_data b))" "body_left u' = drop (P + q) (take t (bd_data b))"
    using assms(2) q t by (simp_all add: body_left_def eq(2,4) nat_int_add add.commute)
  have "bs = take P (body_left u)" "length bs = P"
    using qt len by (simp_all add: eq(1) left drop_take take_drop [symmetric])
  moreover have "reader_ok u'" using assms(1,2) qt q t by (simp add: reader_ok_def eq(2,4))
  ultimately show ?thesis using eq left by (simp add: P_def [symmetric])
qed

lemma nextReader_other:
  assumes "reader_ok u" and "ul_Body u = OtherReader s sz" and "nextReader u = ((bs, n, err), u')"
  shows "bs = take (part_size u) (body_left u) \<and> n = int (length bs) \<and> body_left u' = drop (part_size u) (body_left u) \<and>
    reader_ok u' \<and> (err = None \<longrightarrow> length bs = part_size u) \<and> (err \<noteq> None \<longrightarrow> body_left u' = [])"
proof -
  obtain bs0 err0 s' where loop: "readFillBuf_loop (part_size u) s [] = ((bs0, err0), s')" by (metis surj_pair)
  have "nextReader u = ((bs0, int (length bs0), err0),
      u\<lparr>ul_Body := OtherReader s' sz, ul_readerPos := ul_readerPos u + int (length bs0)\<rparr>)"
    using loop by (simp add: nextReader_def assms(2) readFillBuf_def part_size_def)
  from trans [OF assms(3) [symmetric] this]
  have "((bs, n, err), u') = ((bs0, int (length bs0), err0),
      u\<lparr>ul_Body := OtherReader s' sz, ul_readerPos := ul_readerPos u + int (length bs0)\<rparr>)" .
  then have eq: "bs0 = bs" "err0 = err" "n = int (length bs0)"
    "u' = u\<lparr>ul_Body := OtherReader s' sz, ul_readerPos := ul_readerPos u + int (length bs0)\<rparr>"
    unfolding prod.inject by blast+
  note fill = loop [unfolded eq(1,2)] and n = eq(3) [unfolded eq(1)] and u' = eq(4) [unfolded eq(1)]
  have "length ([] :: byte list) \<le> part_size u" by simp
  from readFillBuf_loop_spec [OF this fill, unfolded list.size(3) append_Nil minus_nat.diff_0] have fill:
    "bs = take (part_size u) (concat (st_pieces s))" "concat (st_pieces s') = drop (part_size u) (concat (st_pieces s))"
    "err = None \<longrightarrow> length bs = part_size u" "err \<noteq> None \<longrightarrow> st_pieces s' = []" by blast+
  have left: "body_left u = concat (st_pieces s)" "body_left u' = concat (st_pieces s')"
    using assms(2) by (simp_all add: body_left_def u')
  have "reader_ok u'" using assms(1,2) by (simp add: reader_ok_def u')
  with fill(3,4) show ?thesis
    unfolding left fill(2) by (intro conjI impI) (simp_all add: fill(1) n fill(2) [symmetric])
qed

lemma nextReader_spec:
  assumes "reader_ok u" and "nextReader u = ((bs, n, err), u')"
  shows "bs = take (part_size u) (body_left u) \<and> n = int (length bs) \<and> body_left u' = drop (part_size u) (body_left u) \<and>
    reader_ok u' \<and> (err = None \<longrightarrow> length bs = part_size u) \<and> (err \<noteq> None \<longrightarrow> body_left u' = [])"
  using nextReader_at [OF assms(1) _ assms(2)] nextReader_other [OF assms(1) _ assms(2)] by (cases "ul_Body u") blast+

interpretation body: part_source nextReader body_left part_size reader_ok
proof unfold_locales
  fix u u' bs n err
  assume a: "reader_ok u" "nextReader u = ((bs, n, err), u')"
  from nextReader_spec [OF a] show "bs = take (part_size u) (body_left u) \<and> n = int (length bs) \<and>
      body_left u' = drop (part_size u) (body_left u)" by simp
  from nextReader_spec [OF a] nextReader_cfg [OF a(2)] show "reader_ok u' \<and> part_size u' = part_size u"
    by (simp add: part_size_def)
next
  fix u u' bs n
  assume "reader_ok u" "nextReader u = ((bs, n, None), u')"
  from nextReader_spec [OF this] show "length bs = part_size u" by blast
next
  fix u u' bs n e
  assume "reader_ok u" "nextReader u = ((bs, n, Some e), u')"
  from nextReader_spec [OF this] show "body_left u' = []" by blast
qed

section \<open>The size of a part\<close>

text \<open>A body of known size always fits into the allowed number of parts.\<close>

lemma initSize_fits:
  assumes "initSize u = Inr u'" and "0 < up_PartSize (ul_cfg u)" and "0 < up_MaxUploadParts (ul_cfg u)"
    and "0 \<le> ul_totalSize u'"
  shows "up_PartSize (ul_cfg u) \<le> up_PartSize (ul_cfg u')" and "up_MaxUploadParts (ul_cfg u') = up_MaxUploadParts (ul_cfg u)"
    and "ul_totalSize u' < up_PartSize (ul_cfg u') * up_MaxUploadParts (ul_cfg u')"
proof -
  define P M where "P = up_PartSize (ul_cfg u)" and "M = up_MaxUploadParts (ul_cfg u)"
  define T where "T = ul_totalSize u'"
  have pos: "0 < P" "0 < M" "0 \<le> T" using assms(2-4) by (simp_all add: P_def M_def T_def)
  have div: "T sdiv P = T div P" "T sdiv M = T div M"
    using pos by (cases "T = 0"; simp add: signed_divide_int_def)+
  have cfg: "ul_cfg u' = (if M \<le> T div P then (ul_cfg u)\<lparr>up_PartSize := T div M + 1\<rparr> else ul_cfg u)"
    using assms(1,4) div
    by (auto simp: initSize_def P_def M_def T_def Let_def split: option.splits sum.splits if_splits)
  have mod: "T < (T div k + 1) * k" if "0 < k" for k
    using that by (metis add.commute distrib_right div_mod_decomp_int mult.commute mult_1 pos_mod_bound add_less_cancel_left)
  show "up_MaxUploadParts (ul_cfg u') = up_MaxUploadParts (ul_cfg u)" by (simp add: cfg)
  show "up_PartSize (ul_cfg u) \<le> up_PartSize (ul_cfg u')"
  proof (cases "M \<le> T div P")
    case True
    then have "M * P \<le> T div P * P" using pos by simp
    also have "\<dots> \<le> T" using pos div_mult_mod_eq [of T P] pos_mod_sign [of P T] by linarith
    finally have "M * P \<le> T" .
    from zdiv_mono1 [OF this pos(2)] have "P \<le> T div M" using pos by simp
    with True show ?thesis by (simp add: cfg P_def)
  qed (simp add: cfg)
  show "ul_totalSize u' < up_PartSize (ul_cfg u') * up_MaxUploadParts (ul_cfg u')"
  proof (cases "M \<le> T div P")
    case True
    with mod [OF pos(2)] show ?thesis by (simp add: cfg T_def M_def)
  next
    case False
    then have "T div P + 1 \<le> M" by simp
    then have "(T div P + 1) * P \<le> M * P" using pos by (intro mult_right_mono) simp_all
    with mod [OF pos(1)] False show ?thesis by (simp add: cfg T_def M_def P_def mult.commute)
  qed
qed

section \<open>The invariant of a multipart upload\<close>

definition phase_nums :: "mu_phase \<Rightarrow> nat list" where
  "phase_nums p = (case p of Queue c \<Rightarrow> [fst c] | _ \<Rightarrow> [])"

definition sender_nums :: "sender \<Rightarrow> nat list" where
  "sender_nums w = (case w of Sending c \<Rightarrow> [fst c] | _ \<Rightarrow> [])"

text \<open>The part numbers under way and done.\<close>

definition mu_nums :: "multiuploader \<Rightarrow> nat multiset" where
  "mu_nums m = mset (phase_nums (mu_phase m)) + mset (map fst (mu_chan m)) +
     mset (concat (map sender_nums (mu_senders m))) + mset (mu_parts m)"

definition chunk_of :: "nat \<Rightarrow> byte list \<Rightarrow> chunk \<Rightarrow> bool" where
  "chunk_of P D c \<longleftrightarrow> snd c = part_no P D (fst c)"

definition chunks_ok :: "nat \<Rightarrow> byte list \<Rightarrow> multiuploader \<Rightarrow> bool" where
  "chunks_ok P D m \<longleftrightarrow> (\<forall>c. mu_phase m = Queue c \<longrightarrow> chunk_of P D c) \<and> (\<forall>c \<in> set (mu_chan m). chunk_of P D c) \<and>
     (\<forall>c. Sending c \<in> set (mu_senders m) \<longrightarrow> chunk_of P D c) \<and>
     (\<forall>k bs. mu_store m k = Some bs \<longrightarrow> bs = part_no P D k) \<and> (\<forall>k \<in> set (mu_parts m). mu_store m k \<noteq> None)"

definition source_ok :: "nat \<Rightarrow> byte list \<Rightarrow> multiuploader \<Rightarrow> bool" where
  "source_ok P D m \<longleftrightarrow> reader_ok (mu_up m) \<and> part_size (mu_up m) = P \<and> 1 \<le> mu_num m \<and>
     (mu_phase m \<noteq> Closing \<longrightarrow> mu_phase m \<noteq> Done \<longrightarrow>
        body_left (mu_up m) = drop (mu_num m * P) D \<and> (mu_readErr m \<noteq> None \<longrightarrow> length D \<le> mu_num m * P))"

definition nums_ok :: "nat \<Rightarrow> byte list \<Rightarrow> multiuploader \<Rightarrow> bool" where
  "nums_ok P D m \<longleftrightarrow> (mu_err m = None \<longrightarrow>
     mu_nums m = mset [1..<Suc (mu_num m)] \<and> (mu_phase m = Closing \<longrightarrow> length D \<le> mu_num m * P))"

definition ends_ok :: "byte list \<Rightarrow> multiuploader \<Rightarrow> bool" where
  "ends_ok D m \<longleftrightarrow> 0 < length (mu_senders m) \<and>
     (SExited \<in> set (mu_senders m) \<longrightarrow> (mu_phase m = Closing \<or> mu_phase m = Done) \<and> mu_chan m = []) \<and>
     (mu_phase m = Done \<longrightarrow> (\<forall>w \<in> set (mu_senders m). w = SExited) \<and> (mu_err m = None \<longrightarrow> mu_object m = Some D) \<and>
        (mu_err m \<noteq> None \<longrightarrow> mu_aborted m \<noteq> up_LeavePartsOnError (ul_cfg (mu_up m)))) \<and>
     (mu_phase m \<noteq> Done \<longrightarrow> \<not> mu_aborted m \<and> mu_object m = None)"

definition limit_ok :: "multiuploader \<Rightarrow> bool" where
  "limit_ok m \<longleftrightarrow> 0 < up_Concurrency (ul_cfg (mu_up m)) \<and> (mu_num m = 1 \<or> int (mu_num m) \<le> up_MaxUploadParts (ul_cfg (mu_up m)) \<and> int (mu_num m) \<le> MaxUploadParts)"

definition mu_inv :: "nat \<Rightarrow> byte list \<Rightarrow> multiuploader \<Rightarrow> bool" where
  "mu_inv P D m \<longleftrightarrow> chunks_ok P D m \<and> source_ok P D m \<and> nums_ok P D m \<and> ends_ok D m \<and> limit_ok m"

lemmas mu_inv_defs = mu_inv_def chunks_ok_def source_ok_def nums_ok_def ends_ok_def limit_ok_def chunk_of_def

lemma nums_update:
  "i < length ws \<Longrightarrow> mset (concat (map f (ws[i := v]))) + mset (f (ws ! i)) = mset (concat (map f ws)) + mset (f v)"
  by (induction ws arbitrary: i) (auto split: nat.splits simp: ac_simps)

lemma sender_update: "w \<in> set (ws[i := v]) \<Longrightarrow> w = v \<or> w \<in> set ws"
  using set_update_subset_insert by fastforce

lemma shouldContinue_cases:
  assumes "shouldContinue cfg k n err = (ok, err')"
  shows "ok \<Longrightarrow> err' = err \<and> n \<noteq> 0 \<and> int (Suc k) \<le> up_MaxUploadParts cfg \<and> int (Suc k) \<le> MaxUploadParts"
    and "\<not> ok \<Longrightarrow> err' = None \<Longrightarrow> n = 0"
  using assms by (auto simp: shouldContinue_def Let_def split: if_splits)

text \<open>Reading the next part.\<close>

lemma mu_read_inv:
  assumes inv: "mu_inv P D m" and "mu_phase m = Reading" and "0 < P"
  shows "mu_inv P D (mu_read m)"
proof -
  obtain bs n err u where nxt: "nextReader (mu_up m) = ((bs, n, err), u)" by (metis surj_pair)
  have src: "reader_ok (mu_up m)" "part_size (mu_up m) = P" "body_left (mu_up m) = drop (mu_num m * P) D"
    using inv assms(2) by (simp_all add: mu_inv_def source_ok_def)
  from body.next_at [OF src(1) src(3) [folded src(2)] nxt, unfolded src(2)]
  have at: "bs = take P (drop (mu_num m * P) D)" "body_left u = drop (Suc (mu_num m) * P) D"
    "err \<noteq> None \<longrightarrow> length D \<le> Suc (mu_num m) * P" by blast+
  have u: "reader_ok u" "part_size u = P" "ul_cfg u = ul_cfg (mu_up m)" "n = int (length bs)"
    using body.next_ok [OF src(1) nxt] body.next_bytes [OF src(1) nxt] nextReader_cfg [OF nxt] src(2) by simp_all
  obtain ok err' where cont: "shouldContinue (ul_cfg u) (mu_num m) n err = (ok, err')" by (metis surj_pair)
  have read: "mu_read m = (if ok
      then m\<lparr>mu_up := u, mu_readErr := err', mu_num := Suc (mu_num m), mu_phase := Queue (Suc (mu_num m), bs)\<rparr>
      else m\<lparr>mu_up := u, mu_readErr := err', mu_err := (if err' = None then mu_err m else err'), mu_phase := Closing\<rparr>)"
    by (cases ok; cases err') (simp_all add: mu_read_def nxt cont)
  show ?thesis
  proof (cases ok)
    case True
    note c = shouldContinue_cases(1) [OF cont True]
    have "bs = part_no P D (Suc (mu_num m))" by (simp add: part_no_def at(1))
    moreover have "mu_nums (mu_read m) = mu_nums m + {#Suc (mu_num m)#}"
      using True assms(2) by (simp add: read mu_nums_def phase_nums_def)
    ultimately show ?thesis
      using inv True u at c assms(2) by (simp add: mu_inv_defs read)
  next
    case False
    have "length D \<le> mu_num m * P" if "err' = None"
    proof -
      have "bs = []" using shouldContinue_cases(2) [OF cont False that] u(4) by simp
      with at(1) assms(3) show ?thesis by simp
    qed
    moreover have "mu_nums (mu_read m) = mu_nums m"
      using False assms(2) by (simp add: read mu_nums_def phase_nums_def)
    ultimately show ?thesis
      using inv False u assms(2) by (auto simp: mu_inv_defs read)
  qed
qed

text \<open>Completing: the parts, sorted, are all of the body.\<close>

lemma assemble_all:
  assumes "mset ps = mset [1..<Suc n]" and "\<forall>k \<in> set ps. store k = Some (part_no P D k)" and "length D \<le> n * P"
  shows "assemble store (sort ps) = D"
proof -
  have sorted: "sort ps = [1..<Suc n]"
    using assms(1) by (intro properties_for_sort) (simp_all del: upt_Suc)
  have "set ps = set [1..<Suc n]" using assms(1) by (metis set_mset_mset)
  then have "map (\<lambda>k. case store k of None \<Rightarrow> [] | Some bs \<Rightarrow> bs) [1..<Suc n] = map (part_no P D) [1..<Suc n]"
    using assms(2) by (intro map_cong) auto
  then show ?thesis
    unfolding assemble_def sorted using assms(3) by (simp only: concat_parts) simp
qed

lemma mu_complete_inv:
  assumes inv: "mu_inv P D m" and "mu_phase m = Closing" and exited: "\<forall>w \<in> set (mu_senders m). w = SExited"
  shows "mu_inv P D ((mu_complete failure m)\<lparr>mu_phase := Done\<rparr>)"
proof -
  have chan: "mu_chan m = []"
  proof -
    have "mu_senders m \<noteq> []" using inv by (auto simp: mu_inv_def ends_ok_def)
    then have "SExited \<in> set (mu_senders m)" using exited by (cases "mu_senders m") auto
    with inv show ?thesis by (simp add: mu_inv_def ends_ok_def)
  qed
  have none: "concat (map sender_nums (mu_senders m)) = []" using exited by (auto simp: sender_nums_def)
  then have nums: "mu_nums m = mset (mu_parts m)"
    using chan assms(2) by (simp add: mu_nums_def phase_nums_def)
  have "assemble (mu_store m) (sort (mu_parts m)) = D" if "mu_err m = None"
  proof (rule assemble_all)
    show "mset (mu_parts m) = mset [1..<Suc (mu_num m)]" and "length D \<le> mu_num m * P"
      using inv that assms(2) nums by (simp_all add: mu_inv_def nums_ok_def)
    show "\<forall>k \<in> set (mu_parts m). mu_store m k = Some (part_no P D k)"
      using inv by (fastforce simp: mu_inv_def chunks_ok_def)
  qed
  moreover have "mu_nums ((mu_complete failure m)\<lparr>mu_phase := Done\<rparr>) = mu_nums m"
    using chan none assms(2) by (simp add: nums mu_complete_def mu_fail_def mu_nums_def phase_nums_def Let_def split: option.splits)
  ultimately show ?thesis
    using inv exited assms(2)
    by (auto simp: mu_inv_defs mu_complete_def mu_fail_def Let_def split: option.splits)
qed

text \<open>Every step keeps the invariant.\<close>

lemma sender_nums_simps [simp]:
  "sender_nums SIdle = []" "sender_nums SExited = []" "sender_nums (Sending c) = [fst c]"
  by (simp_all add: sender_nums_def)

lemma sending_chunk: "mu_inv P D m \<Longrightarrow> Sending c \<in> set (mu_senders m) \<Longrightarrow> chunk_of P D c"
  unfolding mu_inv_def chunks_ok_def by blast

lemma takes_inv:
  assumes "i < length (mu_senders m)" and "mu_senders m ! i = SIdle" and "mu_chan m = c # cs" and "mu_inv P D m"
  shows "mu_inv P D (m\<lparr>mu_chan := cs, mu_senders := (mu_senders m)[i := Sending c]\<rparr>)"
proof -
  let ?m = "m\<lparr>mu_chan := cs, mu_senders := (mu_senders m)[i := Sending c]\<rparr>"
  have "mu_nums ?m = mu_nums m"
    using nums_update [OF assms(1), of sender_nums "Sending c"] assms(2,3) by (simp add: mu_nums_def)
  moreover have "chunk_of P D c'" if "Sending c' \<in> set ((mu_senders m)[i := Sending c])" for c'
  proof (cases "c' = c")
    case True
    with assms(3,4) show ?thesis by (simp add: mu_inv_def chunks_ok_def)
  next
    case False
    with sender_update [OF that] sending_chunk [OF assms(4)] show ?thesis by blast
  qed
  moreover have "SExited \<notin> set ((mu_senders m)[i := Sending c])"
    using assms(3,4) by (auto simp: mu_inv_def ends_ok_def dest!: sender_update)
  moreover have "mu_phase m \<noteq> Done"
    using assms(1-4) nth_mem [OF assms(1)] by (auto simp: mu_inv_def ends_ok_def)
  ultimately show ?thesis using assms(3,4) by (simp add: mu_inv_def chunks_ok_def source_ok_def nums_ok_def ends_ok_def limit_ok_def)
qed

lemma sends_inv:
  assumes "i < length (mu_senders m)" and "mu_senders m ! i = Sending (k, bs)" and inv: "mu_inv P D m"
  shows "mu_inv P D (m\<lparr>mu_senders := (mu_senders m)[i := SIdle], mu_store := (mu_store m)(k \<mapsto> bs), mu_parts := mu_parts m @ [k]\<rparr>)"
    and "mu_inv P D (m\<lparr>mu_senders := (mu_senders m)[i := SIdle],
      mu_store := (if stored then (mu_store m)(k \<mapsto> bs) else mu_store m), mu_err := Some err\<rparr>)"
proof -
  have mem: "Sending (k, bs) \<in> set (mu_senders m)" using assms(1,2) by (metis nth_mem)
  then have bs: "bs = part_no P D k" using inv by (auto simp: mu_inv_def chunks_ok_def chunk_of_def)
  have open_phase: "mu_phase m \<noteq> Done" using mem inv by (auto simp: mu_inv_def ends_ok_def)
  have sending: "chunk_of P D c" if "Sending c \<in> set ((mu_senders m)[i := SIdle])" for c
    using sender_update [OF that] sending_chunk [OF inv] by blast
  have exited: "SExited \<in> set ((mu_senders m)[i := SIdle]) \<Longrightarrow> SExited \<in> set (mu_senders m)"
    by (auto dest!: sender_update)
  have nums: "mset (concat (map sender_nums ((mu_senders m)[i := SIdle]))) + {#k#} = mset (concat (map sender_nums (mu_senders m)))"
    using nums_update [OF assms(1), of sender_nums SIdle] assms(2) by simp
  let ?m = "m\<lparr>mu_senders := (mu_senders m)[i := SIdle], mu_store := (mu_store m)(k \<mapsto> bs), mu_parts := mu_parts m @ [k]\<rparr>"
  have "mu_nums ?m = mu_nums m" using nums by (simp add: mu_nums_def ac_simps)
  then show "mu_inv P D ?m"
    using inv bs sending exited open_phase by (auto simp: mu_inv_def chunks_ok_def source_ok_def nums_ok_def ends_ok_def limit_ok_def)
  show "mu_inv P D (m\<lparr>mu_senders := (mu_senders m)[i := SIdle],
      mu_store := (if stored then (mu_store m)(k \<mapsto> bs) else mu_store m), mu_err := Some err\<rparr>)"
    using inv bs sending exited open_phase by (auto simp: mu_inv_def chunks_ok_def source_ok_def nums_ok_def ends_ok_def limit_ok_def)
qed

lemma mu_step_inv:
  assumes "mu_step m m'" and "mu_inv P D m" and "0 < P"
  shows "mu_inv P D m'"
  using assms
proof (induction rule: mu_step.induct)
  case (queued m c)
  then show ?case by (auto simp: mu_inv_defs mu_nums_def phase_nums_def ac_simps)
next
  case (goes_on m)
  then show ?case by (simp add: mu_inv_defs mu_nums_def phase_nums_def)
next
  case (closes m)
  then show ?case by (auto simp: mu_inv_defs mu_nums_def phase_nums_def)
next
  case (reads m)
  then show ?case using mu_read_inv by blast
next
  case (takes i m c cs)
  then show ?case using takes_inv by blast
next
  case (drains i m c cs)
  then show ?case by (auto simp: mu_inv_defs)
next
  case (sent i m k bs)
  then show ?case using sends_inv(1) by blast
next
  case (send_fails i m k bs stored err)
  then show ?case using sends_inv(2) by blast
next
  case (leaves m i)
  have "mset (concat (map sender_nums ((mu_senders m)[i := SExited]))) = mset (concat (map sender_nums (mu_senders m)))"
    using nums_update [OF leaves(2), of sender_nums SExited] leaves(3) by simp
  then have "mu_nums (m\<lparr>mu_senders := (mu_senders m)[i := SExited]\<rparr>) = mu_nums m" by (simp add: mu_nums_def)
  moreover have "chunk_of P D c" if "Sending c \<in> set ((mu_senders m)[i := SExited])" for c
    using sender_update [OF that] sending_chunk [OF leaves(5)] by blast
  ultimately show ?case using leaves(1,4,5)
    by (simp add: mu_inv_def chunks_ok_def source_ok_def nums_ok_def ends_ok_def limit_ok_def)
next
  case (completes m failure)
  then show ?case using mu_complete_inv by blast
qed

section \<open>The start of an upload\<close>

text \<open>A fresh uploader, and the bytes it reads off its body: as many as the body has left.\<close>

definition upload_ok :: "uploader \<Rightarrow> bool" where
  "upload_ok u \<longleftrightarrow> ul_readerPos u = 0 \<and> 0 \<le> up_Concurrency (ul_cfg u) \<and> (case ul_Body u of
     ReaderAtSeeker b \<Rightarrow> body_ok b \<and> \<not> bd_wrapped b | OtherReader s sz \<Rightarrow> True)"

definition upload_content :: "uploader \<Rightarrow> byte list" where
  "upload_content u = (case ul_Body u of
     ReaderAtSeeker b \<Rightarrow> take (length (bd_data b) - bd_pos b) (bd_data b)
   | OtherReader s sz \<Rightarrow> concat (st_pieces s))"

lemma init_body:
  assumes "uploader_init u = Inr u'" and "upload_ok u" and "MinUploadPartSize \<le> up_PartSize (ul_cfg u')"
  shows "reader_ok u' \<and> body_left u' = upload_content u \<and> 0 < up_Concurrency (ul_cfg u')"
proof -
  define u0 where "u0 = u\<lparr>ul_cfg := uploader_defaults (ul_cfg u)\<rparr>"
  have init: "initSize u0 = Inr u'"
    using assms(1) by (auto simp: uploader_init_def u0_def split: option.splits)
  then have same: "ul_Body u' = ul_Body u" "ul_readerPos u' = ul_readerPos u"
    "up_Concurrency (ul_cfg u') = up_Concurrency (uploader_defaults (ul_cfg u))"
    by (auto simp: initSize_def u0_def Let_def split: option.splits sum.splits if_splits)
  have conc: "0 < up_Concurrency (ul_cfg u')"
    using assms(2) by (auto simp: same upload_ok_def uploader_defaults_def DefaultUploadConcurrency_def)
  have pos: "0 < up_PartSize (ul_cfg u')" using assms(3) by (simp add: MinUploadPartSize_def)
  show ?thesis
  proof (cases "ul_Body u")
    case (OtherReader s sz)
    with same pos conc show ?thesis by (simp add: reader_ok_def body_left_def upload_content_def)
  next
    case (ReaderAtSeeker b)
    with assms(2) have b: "body_ok b" "bd_isSeeker b" "\<not> bd_wrapped b" by (auto simp: upload_ok_def body_ok_def)
    have "bd_seekErr b = None"
      using init ReaderAtSeeker b(3)
      by (cases "bd_seekErr b") (auto simp: initSize_def u0_def SeekerLen_def seekerLen_def act_bind_def reader_Seek_def Let_def)
    with b SeekerLen_remaining [of b] have "fst (SeekerLen b) = Inr (int (length (bd_data b) - bd_pos b))" by simp
    with init ReaderAtSeeker have "ul_totalSize u' = int (length (bd_data b) - bd_pos b)"
      by (auto simp: initSize_def u0_def Let_def split: if_splits)
    with same pos conc ReaderAtSeeker assms(2) show ?thesis
      by (simp add: reader_ok_def body_left_def upload_content_def upload_ok_def)
  qed
qed

lemma upload_cases:
  assumes "upload_ok u"
  shows "upload u = SinglePart bs \<Longrightarrow> bs = upload_content u"
    and "upload u = Multipart m \<Longrightarrow> mu_inv (part_size (mu_up m)) (upload_content u) m \<and> 0 < part_size (mu_up m) \<and>
      MinUploadPartSize \<le> up_PartSize (ul_cfg (mu_up m))"
proof -
  have "\<exists>u'. uploader_init u = Inr u' \<and> MinUploadPartSize \<le> up_PartSize (ul_cfg u')" if "\<forall>e. upload u \<noteq> Failed e"
    using that by (cases "uploader_init u") (auto simp: upload_def not_less split: if_splits)
  then obtain u' where init: "uploader_init u = Inr u' \<and> MinUploadPartSize \<le> up_PartSize (ul_cfg u')"
    if "\<forall>e. upload u \<noteq> Failed e" by metis
  have start: "reader_ok u'" "body_left u' = upload_content u" "0 < up_Concurrency (ul_cfg u')" "0 < part_size u'"
    "MinUploadPartSize \<le> up_PartSize (ul_cfg u')" "uploader_init u = Inr u'"
    if "\<forall>e. upload u \<noteq> Failed e"
    using init [OF that] init_body [OF _ assms] by (auto simp: part_size_def MinUploadPartSize_def)
  obtain bs' n err u2 where nxt: "nextReader u' = ((bs', n, err), u2)" by (metis surj_pair)
  show "bs = upload_content u" if "upload u = SinglePart bs"
  proof -
    have s: "\<forall>e. upload u \<noteq> Failed e" using that by simp
    note st = start [OF s]
    have "bs' = bs" "err \<noteq> None"
      using that st(5,6) nxt by (auto simp: upload_def split: option.splits if_splits)
    moreover from this(2) body.next_end [OF st(1)] nxt have "body_left u2 = []" by auto
    ultimately show ?thesis using body.next_bytes [OF st(1) nxt] st(2) by simp
  qed
  show "mu_inv (part_size (mu_up m)) (upload_content u) m \<and> 0 < part_size (mu_up m) \<and>
      MinUploadPartSize \<le> up_PartSize (ul_cfg (mu_up m))" if "upload u = Multipart m"
  proof -
    have s: "\<forall>e. upload u \<noteq> Failed e" using that by simp
    note st = start [OF s]
    have m: "m = start_multi bs' u2" "err = None"
      using that st(5,6) nxt by (auto simp: upload_def split: option.splits if_splits)
    have u2: "reader_ok u2" "part_size u2 = part_size u'" "ul_cfg u2 = ul_cfg u'"
      "bs' = take (part_size u') (upload_content u)" "body_left u2 = drop (part_size u') (upload_content u)"
      using body.next_ok [OF st(1) nxt] body.next_bytes [OF st(1) nxt] nextReader_cfg [OF nxt] st(2) by simp_all
    have "mu_nums m = {#1#}" by (simp add: m mu_nums_def start_multi_def phase_nums_def)
    then show ?thesis
      using u2 st(3-5) by (simp add: m start_multi_def mu_inv_defs part_no_def)
  qed
qed

lemma mu_reaches_inv:
  assumes "mu_reaches u m" and "upload_ok u"
  shows "\<exists>P. 0 < P \<and> mu_inv P (upload_content u) m"
  using assms(1)
proof (induction rule: mu_reaches.induct)
  case (start m)
  with upload_cases(2) [OF assms(2)] show ?case by blast
next
  case (step m m')
  with mu_step_inv show ?case by blast
qed

section \<open>An upload does not get stuck and ends\<close>

lemma mu_progress:
  assumes "mu_inv P D m" and "mu_phase m \<noteq> Done"
  shows "\<exists>m'. mu_step m m'"
proof -
  have worker: "\<exists>m'. mu_step m m'"
    if i: "i < length (mu_senders m)" "mu_senders m ! i \<noteq> SExited" and "mu_chan m \<noteq> [] \<or> mu_phase m = Closing" for i
  proof (cases "mu_senders m ! i")
    case SIdle
    show ?thesis
    proof (cases "mu_chan m")
      case Nil
      with that SIdle mu_step.leaves [of m i] show ?thesis by blast
    next
      case (Cons c cs)
      with i SIdle mu_step.takes [of i m c cs] mu_step.drains [of i m c cs] show ?thesis by blast
    qed
  next
    case (Sending c)
    with i(1) mu_step.sent [of i m "fst c" "snd c"] show ?thesis by (metis prod.collapse)
  qed (use i in simp)
  show ?thesis
  proof (cases "mu_phase m")
    case (Queue c)
    show ?thesis
    proof (cases "int (length (mu_chan m)) < up_Concurrency (ul_cfg (mu_up m))")
      case True
      with Queue mu_step.queued [of m c] show ?thesis by blast
    next
      case False
      then have "mu_chan m \<noteq> []" using assms(1) by (auto simp: mu_inv_def limit_ok_def)
      moreover have "0 < length (mu_senders m)" "SExited \<notin> set (mu_senders m)"
        using assms(1) Queue by (auto simp: mu_inv_def ends_ok_def)
      then have "mu_senders m ! 0 \<noteq> SExited" by (metis nth_mem)
      ultimately show ?thesis using worker [of 0] \<open>0 < length (mu_senders m)\<close> by blast
    qed
  next
    case Looping
    with mu_step.goes_on [of m] mu_step.closes [of m] show ?thesis by blast
  next
    case Reading
    with mu_step.reads [of m] show ?thesis by blast
  next
    case Closing
    show ?thesis
    proof (cases "\<forall>w \<in> set (mu_senders m). w = SExited")
      case True
      with Closing mu_step.completes [of m] show ?thesis by blast
    next
      case False
      then obtain i where "i < length (mu_senders m)" "mu_senders m ! i \<noteq> SExited" by (metis in_set_conv_nth)
      with worker Closing show ?thesis by blast
    qed
  qed (use assms(2) in simp)
qed

definition mu_phase_weight :: "multiuploader \<Rightarrow> nat" where
  "mu_phase_weight m = (case mu_phase m of
     Queue c \<Rightarrow> (10000 - mu_num m) * 8 + 7 | Looping \<Rightarrow> (10000 - mu_num m) * 8 + 3
   | Reading \<Rightarrow> (10000 - mu_num m) * 8 + 2 | Closing \<Rightarrow> 1 | Done \<Rightarrow> 0)"

definition sender_weight :: "sender \<Rightarrow> nat" where
  "sender_weight w = (case w of SIdle \<Rightarrow> 1 | SExited \<Rightarrow> 0 | Sending c \<Rightarrow> 2)"

definition mu_weight :: "multiuploader \<Rightarrow> nat" where
  "mu_weight m = mu_phase_weight m + 3 * length (mu_chan m) + sum_list (map sender_weight (mu_senders m))"

lemma sender_weight_update:
  "i < length ws \<Longrightarrow> sum_list (map f (ws[i := v])) + f (ws ! i) = sum_list (map f ws) + (f v :: nat)"
  by (induction ws arbitrary: i) (auto split: nat.splits)

lemma mu_read_weight:
  assumes "mu_phase m = Reading"
  shows "mu_weight (mu_read m) < mu_weight m"
proof -
  obtain bs n err u where nxt: "nextReader (mu_up m) = ((bs, n, err), u)" by (metis surj_pair)
  obtain ok err' where cont: "shouldContinue (ul_cfg u) (mu_num m) n err = (ok, err')" by (metis surj_pair)
  have "Suc (mu_num m) \<le> 10000" if ok
    using shouldContinue_cases(1) [OF cont that] by (simp add: MaxUploadParts_def)
  then show ?thesis
    using assms(1) by (cases ok; cases err') (simp_all add: mu_read_def nxt cont mu_weight_def mu_phase_weight_def)
qed

lemma mu_step_weight:
  assumes "mu_step m m'" and "mu_inv P D m" and "0 < P"
  shows "mu_weight m' < mu_weight m"
  using assms
proof (induction rule: mu_step.induct)
  case (reads m)
  then show ?case using mu_read_weight by blast
next
  case (takes i m c cs)
  from sender_weight_update [OF takes(1), of sender_weight "Sending c"] takes(2,3) show ?case
    by (cases "mu_phase m") (simp_all add: mu_weight_def mu_phase_weight_def sender_weight_def)
next
  case (sent i m k bs)
  from sender_weight_update [OF sent(1), of sender_weight SIdle] sent(2) show ?case
    by (cases "mu_phase m") (simp_all add: mu_weight_def mu_phase_weight_def sender_weight_def)
next
  case (send_fails i m k bs stored err)
  from sender_weight_update [OF send_fails(1), of sender_weight SIdle] send_fails(2) show ?case
    by (cases "mu_phase m") (simp_all add: mu_weight_def mu_phase_weight_def sender_weight_def)
next
  case (leaves m i)
  from sender_weight_update [OF leaves(2), of sender_weight SExited] leaves(3) show ?case
    by (cases "mu_phase m") (simp_all add: mu_weight_def mu_phase_weight_def sender_weight_def)
next
  case (completes m failure)
  then show ?case
    by (simp add: mu_weight_def mu_phase_weight_def mu_complete_def mu_fail_def Let_def split: option.splits)
next
  case (drains i m c cs)
  then show ?case by (cases "mu_phase m") (simp_all add: mu_weight_def mu_phase_weight_def)
qed (simp_all add: mu_weight_def mu_phase_weight_def)

lemma uploads_end:
  assumes "upload_ok u"
  shows "\<not> (\<exists>run. upload u = Multipart (run 0) \<and> (\<forall>i. mu_step (run i) (run (Suc i))))"
proof
  assume "\<exists>run. upload u = Multipart (run 0) \<and> (\<forall>i. mu_step (run i) (run (Suc i)))"
  then obtain run where run: "upload u = Multipart (run 0)" "\<And>i. mu_step (run i) (run (Suc i))" by blast
  have reach: "mu_reaches u (run i)" for i
    by (induction i) (use run mu_reaches.intros in blast)+
  have "mu_weight (run (Suc i)) < mu_weight (run i)" for i
    using mu_step_weight [OF run(2)] mu_reaches_inv [OF reach assms] by blast
  then have "(run (Suc i), run i) \<in> measure mu_weight" for i by simp
  then show False using wf_measure [of mu_weight] unfolding wf_iff_no_infinite_down_chain by blast
qed

section \<open>A run\<close>

text \<open>An upload with one worker: a part of the least size, and one of a byte.\<close>

definition big_part :: "byte list" where
  "big_part = replicate (5 * 1024 * 1024) 1"

lemma length_big_part [simp]: "length big_part = 5242880"
  by (simp add: big_part_def)

definition sample_stream :: "byte list list \<Rightarrow> upload_body" where
  "sample_stream ps = OtherReader \<lparr>st_pieces = ps, st_eager = False, st_end = io_EOF\<rparr> None"

definition sample_upload_cfg :: Uploader where
  "sample_upload_cfg = \<lparr>up_PartSize = 5242880, up_Concurrency = 1, up_LeavePartsOnError = False, up_MaxUploadParts = 10000\<rparr>"

definition sample_uploader :: "byte list list \<Rightarrow> int \<Rightarrow> uploader" where
  "sample_uploader ps p = \<lparr>ul_cfg = sample_upload_cfg, ul_Bucket = ''b'', ul_Body = sample_stream ps, ul_readerPos = p, ul_totalSize = -1\<rparr>"

definition mu_state :: "uploader \<Rightarrow> nat \<Rightarrow> goerror option \<Rightarrow> mu_phase \<Rightarrow> chunk list \<Rightarrow> sender list \<Rightarrow> nat list \<Rightarrow>
    (nat \<Rightarrow> byte list option) \<Rightarrow> byte list option \<Rightarrow> multiuploader" where
  "mu_state u n re ph ch ws ps st ob = \<lparr>mu_up = u, mu_num = n, mu_readErr = re, mu_phase = ph, mu_chan = ch, mu_senders = ws,
     mu_parts = ps, mu_store = st, mu_err = None, mu_object = ob, mu_aborted = False\<rparr>"

lemma sample_upload:
  "upload (sample_uploader [big_part, [2]] 0) =
    Multipart (mu_state (sample_uploader [[2]] 5242880) 1 None (Queue (1, big_part)) [] [SIdle] [] (\<lambda>_. None) None)"
proof -
  have "readFillBuf 5242880 \<lparr>st_pieces = [big_part, [2]], st_eager = False, st_end = io_EOF\<rparr> =
      ((big_part, None), \<lparr>st_pieces = [[2]], st_eager = False, st_end = io_EOF\<rparr>)"
    by (simp add: readFillBuf_def readFillBuf_loop.simps [of _ _ "[]"] readFillBuf_loop.simps [of _ _ big_part] stream_Read_def)
  then show ?thesis
    by (simp add: upload_def uploader_init_def sample_uploader_def validateSupportedARNType_def IsARN_def arnPrefix_def
        initSize_def sample_stream_def uploader_defaults_def sample_upload_cfg_def MinUploadPartSize_def nextReader_def
        start_multi_def mu_state_def)
qed

lemma sample_read:
  "mu_read (mu_state (sample_uploader [[2]] 5242880) 1 None Reading [] [SIdle] [1] st None) =
    mu_state (sample_uploader [] 5242881) 2 (Some io_EOF) (Queue (2, [2])) [] [SIdle] [1] st None"
proof -
  have "readFillBuf 5242880 \<lparr>st_pieces = [[2]], st_eager = False, st_end = io_EOF\<rparr> =
      (([2], Some io_EOF), \<lparr>st_pieces = [], st_eager = False, st_end = io_EOF\<rparr>)"
    by (simp add: readFillBuf_def readFillBuf_loop.simps [of _ _ "[]"] readFillBuf_loop.simps [of _ _ "[_]"] stream_Read_def)
  then show ?thesis
    by (simp add: mu_read_def mu_state_def sample_uploader_def sample_stream_def nextReader_def sample_upload_cfg_def
        shouldContinue_def MaxUploadParts_def Let_def)
qed

lemma mu_next: "mu_reaches u m \<Longrightarrow> mu_step m m' \<Longrightarrow> m' = m'' \<Longrightarrow> mu_reaches u m''"
  by (auto intro: mu_reaches.step)

lemma sample_upload_ok: "upload_ok (sample_uploader ps 0)"
  by (simp add: upload_ok_def sample_uploader_def sample_stream_def sample_upload_cfg_def)

lemma sample_upload_run:
  "\<exists>m. mu_reaches (sample_uploader [big_part, [2]] 0) m \<and> mu_phase m = Done \<and> mu_err m = None"
proof -
  let ?u = "sample_uploader [[2]] 5242880" and ?u' = "sample_uploader [] 5242881"
  let ?R = "mu_reaches (sample_uploader [big_part, [2]] 0)"
  define st1 :: "nat \<Rightarrow> byte list option" where "st1 = [1 \<mapsto> big_part]"
  define st2 where "st2 = st1(2 \<mapsto> [2])"
  note defs = mu_state_def sample_uploader_def sample_upload_cfg_def
  have "?R (mu_state ?u 1 None (Queue (1, big_part)) [] [SIdle] [] (\<lambda>_. None) None)"
    by (rule mu_reaches.start [OF sample_upload])
  then have "?R (mu_state ?u 1 None Looping [(1, big_part)] [SIdle] [] (\<lambda>_. None) None)"
    by (rule mu_next [OF _ mu_step.queued]) (simp_all add: defs)
  then have "?R (mu_state ?u 1 None Looping [] [Sending (1, big_part)] [] (\<lambda>_. None) None)"
    by (rule mu_next [OF _ mu_step.takes [where i = 0]]) (simp_all add: defs)
  then have "?R (mu_state ?u 1 None Looping [] [SIdle] [1] st1 None)"
    by (rule mu_next [OF _ mu_step.sent [where i = 0 and k = 1 and bs = big_part]]) (simp_all add: defs st1_def)
  then have "?R (mu_state ?u 1 None Reading [] [SIdle] [1] st1 None)"
    by (rule mu_next [OF _ mu_step.goes_on]) (simp_all add: defs)
  then have "?R (mu_state ?u' 2 (Some io_EOF) (Queue (2, [2])) [] [SIdle] [1] st1 None)"
    by (rule mu_next [OF _ mu_step.reads sample_read]) (simp add: mu_state_def)
  then have "?R (mu_state ?u' 2 (Some io_EOF) Looping [(2, [2])] [SIdle] [1] st1 None)"
    by (rule mu_next [OF _ mu_step.queued]) (simp_all add: defs)
  then have "?R (mu_state ?u' 2 (Some io_EOF) Closing [(2, [2])] [SIdle] [1] st1 None)"
    by (rule mu_next [OF _ mu_step.closes]) (simp_all add: defs)
  then have "?R (mu_state ?u' 2 (Some io_EOF) Closing [] [Sending (2, [2])] [1] st1 None)"
    by (rule mu_next [OF _ mu_step.takes [where i = 0]]) (simp_all add: defs)
  then have "?R (mu_state ?u' 2 (Some io_EOF) Closing [] [SIdle] [1, 2] st2 None)"
    by (rule mu_next [OF _ mu_step.sent [where i = 0 and k = 2 and bs = "[2]"]]) (simp_all add: defs st2_def)
  then have "?R (mu_state ?u' 2 (Some io_EOF) Closing [] [SExited] [1, 2] st2 None)"
    by (rule mu_next [OF _ mu_step.leaves [where i = 0]]) (simp_all add: defs)
  then have "?R (mu_state ?u' 2 (Some io_EOF) Done [] [SExited] [1, 2] st2 (Some (big_part @ [2])))"
    by (rule mu_next [OF _ mu_step.completes [where failure = None]])
      (simp_all add: defs mu_complete_def assemble_def st2_def st1_def)
  then show ?thesis by (intro exI) (auto simp: mu_state_def)
qed

text \<open>The same upload where sending the first part fails.\<close>

lemma sample_failed_run:
  "\<exists>m. mu_reaches (sample_uploader [big_part, [2]] 0) m \<and> mu_phase m = Done \<and> mu_err m \<noteq> None"
proof -
  let ?u = "sample_uploader [[2]] 5242880"
  let ?R = "mu_reaches (sample_uploader [big_part, [2]] 0)"
  let ?m = "mu_state ?u 1 None Looping [] [SIdle] [] (\<lambda>_. None) None\<lparr>mu_err := Some io_EOF\<rparr>"
  note defs = mu_state_def sample_uploader_def sample_upload_cfg_def
  have "?R (mu_state ?u 1 None (Queue (1, big_part)) [] [SIdle] [] (\<lambda>_. None) None)"
    by (rule mu_reaches.start [OF sample_upload])
  then have "?R (mu_state ?u 1 None Looping [(1, big_part)] [SIdle] [] (\<lambda>_. None) None)"
    by (rule mu_next [OF _ mu_step.queued]) (simp_all add: defs)
  then have "?R (mu_state ?u 1 None Looping [] [Sending (1, big_part)] [] (\<lambda>_. None) None)"
    by (rule mu_next [OF _ mu_step.takes [where i = 0]]) (simp_all add: defs)
  then have "?R ?m"
    by (rule mu_next [OF _ mu_step.send_fails [where i = 0 and k = 1 and bs = big_part and stored = False and err = io_EOF]])
      (simp_all add: defs)
  then have "?R (?m\<lparr>mu_phase := Closing\<rparr>)"
    by (rule mu_next [OF _ mu_step.closes]) (simp_all add: defs)
  then have "?R (?m\<lparr>mu_phase := Closing, mu_senders := [SExited]\<rparr>)"
    by (rule mu_next [OF _ mu_step.leaves [where i = 0]]) (simp_all add: defs)
  then have "?R (?m\<lparr>mu_phase := Done, mu_senders := [SExited], mu_aborted := True\<rparr>)"
    by (rule mu_next [OF _ mu_step.completes [where failure = None]]) (simp_all add: defs mu_complete_def mu_fail_def)
  then show ?thesis by (intro exI) (auto simp: mu_state_def)
qed

end
