(* ===== verification/GoHttp.thy ===== *)
theory GoHttp
  imports AwsErrors "HOL-Library.AList" "HOL-Library.List_Lexorder" "HOL-Library.Char_ord"
begin

text \<open>
  What the components use of Go's \<open>net/http\<close>, \<open>net/url\<close> and \<open>encoding/base64\<close>.

  A map from strings to lists of strings, \<open>http.Header\<close> or \<open>url.Values\<close>, is an association list
  without duplicate keys (\<open>Values_wf\<close>); Go's order of iteration is arbitrary, so nothing that is
  proved depends on the order of the list.
\<close>

section \<open>Characters\<close>

abbreviation chr_code :: "char \<Rightarrow> nat" where "chr_code c \<equiv> of_char c"

definition upper_char :: "char \<Rightarrow> char" where
  "upper_char c = (if chr_code c \<in> {97..122} then char_of (chr_code c - 32) else c)"

definition lower_char :: "char \<Rightarrow> char" where
  "lower_char c = (if chr_code c \<in> {65..90} then char_of (chr_code c + 32) else c)"

definition is_alnum :: "char \<Rightarrow> bool" where
  "is_alnum c \<longleftrightarrow> chr_code c \<in> {48..57} \<union> {65..90} \<union> {97..122}"

section \<open>Maps of string lists\<close>

type_synonym Values = "(string \<times> string list) list"

definition Values_wf :: "Values \<Rightarrow> bool" where
  "Values_wf h \<longleftrightarrow> distinct (map fst h) \<and> (\<forall>kv \<in> set h. snd kv \<noteq> [])"

definition Values_list :: "Values \<Rightarrow> string \<Rightarrow> string list" where
  "Values_list h k = (case map_of h k of None \<Rightarrow> [] | Some vs \<Rightarrow> vs)"

text \<open>\<open>textproto.CanonicalMIMEHeaderKey\<close>, for keys of token characters.\<close>

fun canonical_from :: "bool \<Rightarrow> string \<Rightarrow> string" where
  "canonical_from up [] = []"
| "canonical_from up (c # cs) =
     (if up then upper_char c else lower_char c) # canonical_from (c = CHR ''-'') cs"

abbreviation canonical_key :: "string \<Rightarrow> string" where
  "canonical_key \<equiv> canonical_from True"

definition Header_Get :: "Values \<Rightarrow> string \<Rightarrow> string" where
  "Header_Get h k = (case Values_list h (canonical_key k) of [] \<Rightarrow> [] | v # _ \<Rightarrow> v)"

definition Header_Set :: "string \<Rightarrow> string \<Rightarrow> Values \<Rightarrow> Values" where
  "Header_Set k v h = AList.update (canonical_key k) [v] h"

definition Header_Add :: "string \<Rightarrow> string \<Rightarrow> Values \<Rightarrow> Values" where
  "Header_Add k v h = AList.update (canonical_key k) (Values_list h (canonical_key k) @ [v]) h"

definition Header_Del :: "string \<Rightarrow> Values \<Rightarrow> Values" where
  "Header_Del k h = AList.delete (canonical_key k) h"

lemma values_wf_Nil [simp]: "Values_wf []"
  by (simp add: Values_wf_def)

lemma update_values:
  "v \<noteq> [] \<Longrightarrow> Values_wf h \<Longrightarrow> Values_wf (AList.update k v h)"
proof -
  assume v: "v \<noteq> []" and h: "Values_wf h"
  have "snd kv \<noteq> []" if "kv \<in> set (AList.update k v h)" for kv
  proof -
    from that have "kv \<in> insert (k, v) (set h)"
      by (induction h) (auto split: if_splits)
    with v h show ?thesis by (auto simp: Values_wf_def)
  qed
  with h show ?thesis by (simp add: Values_wf_def distinct_update)
qed

lemma Header_Set_wf [simp]: "Values_wf h \<Longrightarrow> Values_wf (Header_Set k v h)"
  by (simp add: Header_Set_def update_values)

lemma Header_Add_wf [simp]: "Values_wf h \<Longrightarrow> Values_wf (Header_Add k v h)"
  by (simp add: Header_Add_def update_values)

lemma Header_Del_wf [simp]: "Values_wf h \<Longrightarrow> Values_wf (Header_Del k h)"
  by (auto simp: Header_Del_def Values_wf_def AList.delete_eq distinct_map_filter)

lemma Values_list_update:
  "Values_list (AList.update k v h) k' = (if k' = k then v else Values_list h k')"
  by (simp add: Values_list_def update_conv')

lemma Header_Get_Set [simp]: "Header_Get (Header_Set k v h) k = v"
  by (simp add: Header_Get_def Header_Set_def Values_list_update)

lemma Header_Get_Set_other [simp]:
  "canonical_key k \<noteq> canonical_key k' \<Longrightarrow> Header_Get (Header_Set k v h) k' = Header_Get h k'"
  by (simp add: Header_Get_def Header_Set_def Values_list_update)

section \<open>Escaping\<close>

definition hex_upper :: "nat \<Rightarrow> char" where
  "hex_upper n = ''0123456789ABCDEF'' ! n"

definition percent_char :: "char \<Rightarrow> string" where
  "percent_char c = [CHR ''%'', hex_upper (chr_code c div 16), hex_upper (chr_code c mod 16)]"

text \<open>\<open>url.QueryEscape\<close>: letters, digits and \<open>-_.~\<close> stand for themselves, a space is \<open>+\<close>. The
  signer of version 4 turns the \<open>+\<close> of an encoded query into \<open>%20\<close>: \<open>sp\<close> is what a space becomes.\<close>

definition unreserved :: "char \<Rightarrow> bool" where
  "unreserved c \<longleftrightarrow> is_alnum c \<or> c \<in> set ''-_.~''"

definition escape_char :: "string \<Rightarrow> char \<Rightarrow> string" where
  "escape_char sp c = (if unreserved c then [c] else if c = CHR '' '' then sp else percent_char c)"

definition escape_with :: "string \<Rightarrow> string \<Rightarrow> string" where
  "escape_with sp s = concat (map (escape_char sp) s)"

definition QueryEscape :: "string \<Rightarrow> string" where
  "QueryEscape s = escape_with ''+'' s"

text \<open>\<open>url.Values.Encode\<close>: the pairs in the order of their keys.\<close>

definition join :: "string \<Rightarrow> string list \<Rightarrow> string" where
  "join sep ss = (case ss of [] \<Rightarrow> [] | s # rest \<Rightarrow> s @ concat (map (\<lambda>r. sep @ r) rest))"

definition pair_text :: "string \<Rightarrow> string \<times> string \<Rightarrow> string" where
  "pair_text sp kv = escape_with sp (fst kv) @ ''='' @ escape_with sp (snd kv)"

definition Values_pairs :: "Values \<Rightarrow> (string \<times> string) list" where
  "Values_pairs h = concat (map (\<lambda>k. map (Pair k) (Values_list h k)) (sort (map fst h)))"

definition encode_with :: "string \<Rightarrow> Values \<Rightarrow> string" where
  "encode_with sp h = join ''&'' (map (pair_text sp) (Values_pairs h))"

definition Values_Encode :: "Values \<Rightarrow> string" where
  "Values_Encode h = encode_with ''+'' h"

text \<open>The operations of \<open>url.Values\<close>, whose keys are taken as they are.\<close>

definition Values_Get :: "Values \<Rightarrow> string \<Rightarrow> string" where
  "Values_Get h k = (case Values_list h k of [] \<Rightarrow> [] | v # _ \<Rightarrow> v)"

definition Values_Set :: "string \<Rightarrow> string \<Rightarrow> Values \<Rightarrow> Values" where
  "Values_Set k v h = AList.update k [v] h"

definition Values_Add :: "string \<Rightarrow> string \<Rightarrow> Values \<Rightarrow> Values" where
  "Values_Add k v h = AList.update k (Values_list h k @ [v]) h"

definition Values_Del :: "string \<Rightarrow> Values \<Rightarrow> Values" where
  "Values_Del k h = AList.delete k h"

text \<open>\<open>url.QueryUnescape\<close>, \<open>None\<close> for an error, and \<open>url.ParseQuery\<close>, which skips what it cannot read.\<close>

definition unhex :: "char \<Rightarrow> nat option" where
  "unhex c = (let n = chr_code c in
     if n \<in> {48..57} then Some (n - 48)
     else if n \<in> {65..70} then Some (n - 55)
     else if n \<in> {97..102} then Some (n - 87) else None)"

fun QueryUnescape :: "string \<Rightarrow> string option" where
  "QueryUnescape [] = Some []"
| "QueryUnescape (c # s) =
     (if c = CHR ''%'' then
        (case s of
           a # b # t \<Rightarrow>
             (case (unhex a, unhex b) of
                (Some x, Some y) \<Rightarrow> map_option (Cons (char_of (16 * x + y))) (QueryUnescape t)
              | _ \<Rightarrow> None)
         | _ \<Rightarrow> None)
      else map_option (Cons (if c = CHR ''+'' then CHR '' '' else c)) (QueryUnescape s))"

definition upto :: "char \<Rightarrow> string \<Rightarrow> string" where
  "upto d s = takeWhile (\<lambda>c. c \<noteq> d) s"

definition past :: "char \<Rightarrow> string \<Rightarrow> string" where
  "past d s = tl (dropWhile (\<lambda>c. c \<noteq> d) s)"

function split_at :: "char \<Rightarrow> string \<Rightarrow> string list" where
  "split_at d s = (if d \<in> set s then upto d s # split_at d (past d s) else [s])"
  by pat_completeness auto
termination
proof (relation "measure (\<lambda>(d, s). length s)")
  fix d :: char and s :: string
  assume d: "d \<in> set s"
  have "length (dropWhile (\<lambda>c. c \<noteq> d) s) \<le> length s" by (rule length_dropWhile_le)
  moreover have "0 < length s" using d by (cases s) auto
  ultimately have "length (past d s) < length s" unfolding past_def length_tl by linarith
  then show "((d, past d s), (d, s)) \<in> measure (\<lambda>(d, s). length s)" by simp
qed simp

declare split_at.simps [simp del]

definition query_piece :: "string \<Rightarrow> (string \<times> string) list" where
  "query_piece key =
     (if CHR '';'' \<in> set key \<or> key = [] then []
      else case (QueryUnescape (upto CHR ''='' key), QueryUnescape (past CHR ''='' key)) of
             (Some k, Some v) \<Rightarrow> [(k, v)]
           | _ \<Rightarrow> [])"

definition ParseQuery :: "string \<Rightarrow> Values" where
  "ParseQuery q = fold (\<lambda>(k, v). Values_Add k v) (concat (map query_piece (split_at CHR ''&'' q))) []"

text \<open>\<open>strings.Replace(s, "+", "%20", -1)\<close>.\<close>

definition plus_to_percent :: "string \<Rightarrow> string" where
  "plus_to_percent s = concat (map (\<lambda>c. if c = CHR ''+'' then ''%20'' else [c]) s)"

text \<open>\<open>EscapePath\<close> of \<open>private/protocol/rest\<close>.\<close>

definition EscapePath :: "string \<Rightarrow> bool \<Rightarrow> string" where
  "EscapePath path encodeSep = concat (map (\<lambda>c.
     if unreserved c \<or> (c = CHR ''/'' \<and> \<not> encodeSep) then [c] else percent_char c) path)"

section \<open>Reading back an encoded query\<close>

lemma unhex_hex: "n < 16 \<Longrightarrow> unhex (hex_upper n) = Some n"
proof -
  have "\<forall>n \<in> set [0..<16]. unhex (hex_upper n) = Some n" by code_simp
  then show "n < 16 \<Longrightarrow> ?thesis" by simp
qed

lemma chr_code_less: "chr_code c < 256"
  by (metis char_of_eq_iff of_char_mod_256 mod_less_divisor zero_less_numeral)

lemma chr_nibbles: "chr_code c div 16 < 16" "chr_code c mod 16 < 16"
  using chr_code_less [of c] less_mult_imp_div_less [of "chr_code c" 16 16] by auto

definition plain_char :: "char \<Rightarrow> bool" where
  "plain_char c \<longleftrightarrow> c \<notin> set ''&=;+/ ''"

lemma hex_upper_plain: "n < 16 \<Longrightarrow> plain_char (hex_upper n)"
proof -
  have "\<forall>n \<in> set [0..<16]. plain_char (hex_upper n)" by code_simp
  then show "n < 16 \<Longrightarrow> ?thesis" by simp
qed

lemma unreserved_plain: "unreserved c \<Longrightarrow> plain_char c"
  by (auto simp: unreserved_def is_alnum_def plain_char_def)

definition space_text :: "string \<Rightarrow> bool" where
  "space_text sp \<longleftrightarrow> sp = ''+'' \<or> sp = ''%20''"

lemma percent_plain: "x \<in> set (percent_char c) \<Longrightarrow> plain_char x"
proof -
  note chr_nibbles [of c]
  moreover have "plain_char CHR ''%''" by code_simp
  ultimately show "x \<in> set (percent_char c) \<Longrightarrow> plain_char x"
    unfolding percent_char_def using hex_upper_plain by auto
qed

lemma escape_chars: "space_text sp \<Longrightarrow> x \<in> set (escape_with sp s) \<Longrightarrow> plain_char x \<or> x = CHR ''+''"
  by (auto simp: escape_with_def escape_char_def space_text_def plain_char_def dest: percent_plain unreserved_plain
      split: if_splits simp: plain_char_def)

lemma unescape_percent: "QueryUnescape (percent_char c @ s) = map_option (Cons c) (QueryUnescape s)"
proof -
  note chr_nibbles [of c]
  moreover have "16 * (chr_code c div 16) + chr_code c mod 16 = chr_code c" by simp
  ultimately show ?thesis by (simp add: percent_char_def unhex_hex)
qed

lemma unescape_char:
  assumes "space_text sp"
  shows "QueryUnescape (escape_char sp c @ s) = map_option (Cons c) (QueryUnescape s)"
proof -
  have "percent_char CHR '' '' = ''%20''" by code_simp
  then have sp20: "QueryUnescape (''%20'' @ s) = map_option (Cons CHR '' '') (QueryUnescape s)"
    by (metis unescape_percent)
  have "c \<noteq> CHR ''%'' \<and> c \<noteq> CHR ''+''" if "unreserved c"
    using that by (auto simp: unreserved_def is_alnum_def)
  then show ?thesis using assms sp20 unescape_percent [of c s]
    by (auto simp: escape_char_def space_text_def)
qed

lemma unescape_escape: "space_text sp \<Longrightarrow> QueryUnescape (escape_with sp s) = Some s"
  by (induction s) (simp_all add: escape_with_def unescape_char)

lemma split_at_join:
  assumes "ss \<noteq> []" and "\<forall>s \<in> set ss. d \<notin> set s"
  shows "split_at d (join [d] ss) = ss"
  using assms
proof (induction ss)
  case (Cons s ss)
  show ?case
  proof (cases ss)
    case Nil
    with Cons.prems show ?thesis by (simp add: join_def split_at.simps)
  next
    case (Cons t ts)
    have j: "join [d] (s # ss) = s @ d # join [d] ss" by (simp add: join_def Cons)
    have "upto d (s @ d # join [d] ss) = s" "past d (s @ d # join [d] ss) = join [d] ss"
      using Cons.prems(2) by (auto simp: upto_def past_def takeWhile_append dropWhile_append)
    moreover have "split_at d (join [d] ss) = ss" using Cons.IH Cons.prems(2) local.Cons by simp
    ultimately show ?thesis unfolding j by (simp add: split_at.simps [of d "s @ d # join [d] ss"])
  qed
qed simp

lemma piece_pair:
  assumes "space_text sp"
  shows "query_piece (pair_text sp kv) = [kv]"
proof -
  have clean: "\<And>x s. x \<in> set (escape_with sp s) \<Longrightarrow> x \<noteq> CHR ''='' \<and> x \<noteq> CHR '';'' \<and> x \<noteq> CHR ''&''"
    using escape_chars [OF assms] by (fastforce simp: plain_char_def)
  have "upto CHR ''='' (pair_text sp kv) = escape_with sp (fst kv)" "past CHR ''='' (pair_text sp kv) = escape_with sp (snd kv)"
    using clean by (auto simp: pair_text_def upto_def past_def takeWhile_append dropWhile_append)
  moreover have "CHR '';'' \<notin> set (pair_text sp kv)" "pair_text sp kv \<noteq> []"
    using clean by (auto simp: pair_text_def)
  ultimately show ?thesis by (simp add: query_piece_def unescape_escape [OF assms])
qed

lemma update_other_last: "k \<notin> fst ` set h \<Longrightarrow> AList.update k v h = h @ [(k, v)]"
  by (induction h) auto

lemma update_last: "k \<notin> fst ` set h \<Longrightarrow> AList.update k v (h @ [(k, u)]) = h @ [(k, v)]"
  by (induction h) auto

lemma Values_list_last: "k \<notin> fst ` set h \<Longrightarrow> Values_list (h @ [(k, u)]) k = u"
  by (induction h) (auto simp: Values_list_def split: option.splits)

lemma Values_Add_last:
  "k \<notin> fst ` set h \<Longrightarrow> fold (Values_Add k) lv (h @ [(k, u)]) = h @ [(k, u @ lv)]"
  by (induction lv arbitrary: u) (simp_all add: Values_Add_def Values_list_last update_last)

lemma Values_Add_all:
  assumes "k \<notin> fst ` set h" and "lv \<noteq> []"
  shows "fold (Values_Add k) lv h = h @ [(k, lv)]"
proof -
  from assms(2) obtain v vs where lv: "lv = v # vs" by (cases lv) auto
  have "Values_list h k = []" using assms(1)
    by (force simp: Values_list_def split: option.splits dest: map_of_SomeD)
  then have "Values_Add k v h = h @ [(k, [v])]" using assms(1) by (simp add: Values_Add_def update_other_last)
  with Values_Add_last [OF assms(1)] lv show ?thesis by simp
qed

text \<open>The same values in the order of their keys.\<close>

definition sorted_values :: "Values \<Rightarrow> Values" where
  "sorted_values h = map (\<lambda>k. (k, Values_list h k)) (sort (map fst h))"

lemma fold_pairs:
  assumes "distinct ks" and "\<forall>k \<in> set ks. f k \<noteq> [] \<and> k \<notin> fst ` set h"
  shows "fold (\<lambda>(k, v). Values_Add k v) (concat (map (\<lambda>k. map (Pair k) (f k)) ks)) h = h @ map (\<lambda>k. (k, f k)) ks"
  using assms
proof (induction ks arbitrary: h)
  case (Cons k ks)
  have "fold (\<lambda>(k, v). Values_Add k v) (map (Pair k) (f k)) h = fold (Values_Add k) (f k) h"
    by (simp add: fold_map comp_def)
  also have "\<dots> = h @ [(k, f k)]" using Cons.prems by (intro Values_Add_all) auto
  finally show ?case using Cons.IH [of "h @ [(k, f k)]"] Cons.prems by auto
qed simp

lemma Values_list_not_Nil: "Values_wf h \<Longrightarrow> k \<in> fst ` set h \<Longrightarrow> Values_list h k \<noteq> []"
  by (auto simp: Values_wf_def Values_list_def)

lemma ParseQuery_encode:
  assumes "Values_wf h" and "space_text sp"
  shows "ParseQuery (encode_with sp h) = sorted_values h"
proof (cases "h = []")
  case True
  then show ?thesis
    by (simp add: ParseQuery_def encode_with_def Values_pairs_def join_def split_at.simps query_piece_def sorted_values_def)
next
  case False
  have clean: "\<forall>x \<in> set (escape_with sp s). x \<noteq> CHR ''&''" for s
    using escape_chars [OF assms(2)] by (fastforce simp: plain_char_def)
  have "Values_pairs h \<noteq> []"
  proof -
    obtain k v where "(k, v) \<in> set h" using False by (cases h) auto
    then have "k \<in> set (map fst h)" by force
    with Values_list_not_Nil [OF assms(1)] show ?thesis by (auto simp: Values_pairs_def)
  qed
  then have "split_at CHR ''&'' (encode_with sp h) = map (pair_text sp) (Values_pairs h)"
    unfolding encode_with_def using clean by (intro split_at_join) (auto simp: pair_text_def)
  then have "ParseQuery (encode_with sp h) = fold (\<lambda>(k, v). Values_Add k v) (Values_pairs h) []"
    by (simp add: ParseQuery_def comp_def piece_pair [OF assms(2)] concat_map_singleton)
  also have "\<dots> = sorted_values h"
    unfolding Values_pairs_def sorted_values_def
    using assms(1) Values_list_not_Nil [OF assms(1)] by (subst fold_pairs) (auto simp: Values_wf_def)
  finally show ?thesis .
qed

lemma plus_append [simp]: "plus_to_percent (s @ t) = plus_to_percent s @ plus_to_percent t"
  by (simp add: plus_to_percent_def)

lemma plus_Cons [simp]:
  "plus_to_percent [] = []" "plus_to_percent (c # s) = (if c = CHR ''+'' then ''%20'' else [c]) @ plus_to_percent s"
  by (simp_all add: plus_to_percent_def)

lemma plus_plain: "\<forall>x \<in> set s. plain_char x \<Longrightarrow> plus_to_percent s = s"
  by (induction s) (auto simp: plus_to_percent_def plain_char_def)

lemma plus_escape: "plus_to_percent (escape_with ''+'' s) = escape_with ''%20'' s"
proof (induction s)
  case (Cons c s)
  have "plus_to_percent (escape_char ''+'' c) = escape_char ''%20'' c"
    using plus_plain [of "percent_char c"] percent_plain [of _ c] unreserved_plain [of c]
    by (auto simp: escape_char_def plus_to_percent_def plain_char_def)
  with Cons show ?case by (simp add: escape_with_def)
qed (simp add: escape_with_def plus_to_percent_def)

lemma plus_encode: "plus_to_percent (Values_Encode h) = encode_with ''%20'' h"
proof -
  have p: "plus_to_percent (pair_text ''+'' kv) = pair_text ''%20'' kv" for kv
  proof -
    have "plus_to_percent ''='' = ''=''" by (simp add: plus_to_percent_def)
    then show ?thesis by (simp only: pair_text_def plus_append plus_escape)
  qed
  have "plus_to_percent (join ''&'' (map (pair_text ''+'') xs)) = join ''&'' (map (pair_text ''%20'') xs)" for xs
  proof (induction xs)
    case (Cons x xs)
    have "plus_to_percent ''&'' = ''&''" by (simp add: plus_to_percent_def)
    with Cons p show ?case by (cases xs) (auto simp: join_def)
  qed (simp add: join_def plus_to_percent_def)
  then show ?thesis by (simp add: Values_Encode_def encode_with_def)
qed

section \<open>Base64\<close>

definition base64_alphabet :: string where
  "base64_alphabet = ''ABCDEFGHIJKLMNOPQRSTUVWXYZabcdefghijklmnopqrstuvwxyz0123456789+/''"

definition base64_char :: "nat \<Rightarrow> char" where
  "base64_char n = base64_alphabet ! n"

fun base64_encode :: "nat list \<Rightarrow> string" where
  "base64_encode (a # b # c # rest) =
     [base64_char (a div 4), base64_char (a mod 4 * 16 + b div 16),
      base64_char (b mod 16 * 4 + c div 64), base64_char (c mod 64)] @ base64_encode rest"
| "base64_encode [a, b] =
     [base64_char (a div 4), base64_char (a mod 4 * 16 + b div 16), base64_char (b mod 16 * 4), CHR ''='']"
| "base64_encode [a] = [base64_char (a div 4), base64_char (a mod 4 * 16), CHR ''='', CHR ''='']"
| "base64_encode [] = []"

definition Base64_EncodeToString :: "byte list \<Rightarrow> string" where
  "Base64_EncodeToString bs = base64_encode (map unat bs)"

text \<open>\<open>base64.StdEncoding.DecodeString\<close>, \<open>None\<close> for its error; line ends are skipped.\<close>

definition base64_val :: "char \<Rightarrow> nat option" where
  "base64_val c = map_of (zip base64_alphabet [0..<64]) c"

fun base64_quads :: "string \<Rightarrow> nat list option" where
  "base64_quads [] = Some []"
| "base64_quads (a # b # c # d # rest) =
     (case (base64_val a, base64_val b) of
        (Some x, Some y) \<Rightarrow>
          if c = CHR ''='' then (if d = CHR ''='' \<and> rest = [] then Some [x * 4 + y div 16] else None)
          else (case base64_val c of
              None \<Rightarrow> None
            | Some z \<Rightarrow>
                if d = CHR ''='' then (if rest = [] then Some [x * 4 + y div 16, y mod 16 * 16 + z div 4] else None)
                else (case (base64_val d, base64_quads rest) of
                    (Some w, Some bs) \<Rightarrow> Some ([x * 4 + y div 16, y mod 16 * 16 + z div 4, z mod 4 * 64 + w] @ bs)
                  | _ \<Rightarrow> None))
      | _ \<Rightarrow> None)"
| "base64_quads _ = None"

definition Base64_DecodeString :: "string \<Rightarrow> byte list option" where
  "Base64_DecodeString s = map_option (map word_of_nat) (base64_quads (filter (\<lambda>c. chr_code c \<notin> {10, 13}) s))"

lemma base64_val_char: "n < 64 \<Longrightarrow> base64_val (base64_char n) = Some n \<and> base64_char n \<noteq> CHR ''='' \<and>
    chr_code (base64_char n) \<noteq> 10 \<and> chr_code (base64_char n) \<noteq> 13"
proof -
  assume n: "n < 64"
  have l: "length base64_alphabet = 64" and d: "distinct base64_alphabet"
    and c: "\<forall>c \<in> set base64_alphabet. c \<noteq> CHR ''='' \<and> chr_code c \<noteq> 10 \<and> chr_code c \<noteq> 13"
    by (simp_all add: base64_alphabet_def)
  have "base64_char n \<in> set base64_alphabet" using n l by (simp add: base64_char_def)
  moreover have "base64_val (base64_char n) = Some n" using map_of_zip_nth [of base64_alphabet "[0..<64]" n] n l d
    by (simp add: base64_val_def base64_char_def)
  ultimately show ?thesis using c by blast
qed

lemma digits: "y < k \<Longrightarrow> (x * k + y) div k = x" "y < k \<Longrightarrow> (x * k + y) mod k = (y :: nat)"
  by (simp_all add: add.commute)

lemma base64_arith:
  "b < 256 \<Longrightarrow> a div 4 * 4 + (a mod 4 * 16 + b div 16) div 16 = (a :: nat)"
  "c < 256 \<Longrightarrow> b < 256 \<Longrightarrow> (a mod 4 * 16 + b div 16) mod 16 * 16 + (b mod 16 * 4 + c div 64) div 4 = (b :: nat)"
  "c < 256 \<Longrightarrow> (b mod 16 * 4 + c div 64) mod 4 * 64 + c mod 64 = (c :: nat)"
  "b < 256 \<Longrightarrow> (a mod 4 * 16 + b div 16) mod 16 * 16 + b mod 16 = (b :: nat)"
  "a div 4 * 4 + a mod 4 * 16 div 16 = (a :: nat)"
proof -
  have d: "b div 16 < 16" if "b < 256" for b :: nat using that by (simp add: less_mult_imp_div_less)
  have e: "c div 64 < 4" if "c < 256" for c :: nat using that by (simp add: less_mult_imp_div_less)
  show "b < 256 \<Longrightarrow> a div 4 * 4 + (a mod 4 * 16 + b div 16) div 16 = a" using digits(1) [OF d] by simp
  show "c < 256 \<Longrightarrow> b < 256 \<Longrightarrow> (a mod 4 * 16 + b div 16) mod 16 * 16 + (b mod 16 * 4 + c div 64) div 4 = b"
    using digits(2) [OF d] digits(1) [OF e] by simp
  show "c < 256 \<Longrightarrow> (b mod 16 * 4 + c div 64) mod 4 * 64 + c mod 64 = c" using digits(2) [OF e] by simp
  show "b < 256 \<Longrightarrow> (a mod 4 * 16 + b div 16) mod 16 * 16 + b mod 16 = b" using digits(2) [OF d] by simp
qed simp

lemma base64_quads_encode: "\<forall>n \<in> set ns. n < 256 \<Longrightarrow> base64_quads (base64_encode ns) = Some ns"
proof (induction ns rule: base64_encode.induct)
  case (1 a b c rest)
  have "a div 4 < 64" "a mod 4 * 16 + b div 16 < 64" "b mod 16 * 4 + c div 64 < 64" "c mod 64 < 64" using 1(2) by auto
  moreover have "a < 256" "b < 256" "c < 256" "\<forall>n \<in> set rest. n < 256" using 1(2) by simp_all
  ultimately show ?case using 1(1) by (simp add: base64_val_char base64_arith(1-3) del: div_mult_self1 div_mult_self2 div_mult_self3 div_mult_self4 mod_mult_self1 mod_mult_self2 mod_mult_self3 mod_mult_self4)
next
  case (2 a b)
  have "a div 4 < 64" "a mod 4 * 16 + b div 16 < 64" "b mod 16 * 4 < 64" using 2 by auto
  moreover have "b < 256" using 2 by simp
  ultimately show ?case by (simp add: base64_val_char base64_arith(1,4) del: div_mult_self1 div_mult_self2 div_mult_self3 div_mult_self4 mod_mult_self1 mod_mult_self2 mod_mult_self3 mod_mult_self4)
next
  case (3 a)
  have "a div 4 < 64" "a mod 4 * 16 < 64" using 3 by auto
  then show ?case by (simp add: base64_val_char)
qed simp

lemma base64_encode_chars: "\<forall>n \<in> set ns. n < 256 \<Longrightarrow> c \<in> set (base64_encode ns) \<Longrightarrow> chr_code c \<noteq> 10 \<and> chr_code c \<noteq> 13"
proof (induction ns rule: base64_encode.induct)
  case (1 a b d rest)
  have "a div 4 < 64" "a mod 4 * 16 + b div 16 < 64" "b mod 16 * 4 + d div 64 < 64" "d mod 64 < 64" using 1(2) by auto
  with 1 show ?case using base64_val_char by auto
next
  case (2 a b)
  have "a div 4 < 64" "a mod 4 * 16 + b div 16 < 64" "b mod 16 * 4 < 64" using 2 by auto
  with 2 show ?case using base64_val_char by auto
next
  case (3 a)
  have "a div 4 < 64" "a mod 4 * 16 < 64" using 3 by auto
  with 3 show ?case using base64_val_char by auto
qed simp

lemma Base64_roundtrip [simp]: "Base64_DecodeString (Base64_EncodeToString bs) = Some bs"
proof -
  have b: "\<forall>n \<in> set (map unat bs). n < 256" by (auto intro: order_less_le_trans [OF unsigned_less])
  have "filter (\<lambda>c. chr_code c \<notin> {10, 13}) (base64_encode (map unat bs)) = base64_encode (map unat bs)"
    using base64_encode_chars [OF b] by (simp add: filter_id_conv)
  then show ?thesis using base64_quads_encode [OF b] by (simp add: Base64_DecodeString_def Base64_EncodeToString_def comp_def)
qed

section \<open>Hexadecimal\<close>

definition hex_lower :: "nat \<Rightarrow> char" where
  "hex_lower n = ''0123456789abcdef'' ! n"

definition hexEncode :: "byte list \<Rightarrow> string" where
  "hexEncode bs = concat (map (\<lambda>b. [hex_lower (unat b div 16), hex_lower (unat b mod 16)]) bs)"

section \<open>Cases\<close>

lemma chr_code_cases:
  "chr_code (upper_char c) = (if 97 \<le> chr_code c \<and> chr_code c \<le> 122 then chr_code c - 32 else chr_code c)"
  "chr_code (lower_char c) = (if 65 \<le> chr_code c \<and> chr_code c \<le> 90 then chr_code c + 32 else chr_code c)"
proof -
  have "chr_code c - 32 < 256" using chr_code_less [of c] by linarith
  then show "chr_code (upper_char c) = (if 97 \<le> chr_code c \<and> chr_code c \<le> 122 then chr_code c - 32 else chr_code c)"
    by (simp add: upper_char_def)
  show "chr_code (lower_char c) = (if 65 \<le> chr_code c \<and> chr_code c \<le> 90 then chr_code c + 32 else chr_code c)"
    by (simp add: lower_char_def)
qed

lemma char_eq_code: "c = d \<longleftrightarrow> chr_code c = chr_code d"
  by simp

lemma char_cases:
  "lower_char (upper_char c) = lower_char c" "lower_char (lower_char c) = lower_char c"
  "upper_char (lower_char c) = upper_char c" "upper_char (upper_char c) = upper_char c"
  "lower_char c = CHR ''-'' \<longleftrightarrow> c = CHR ''-''" "upper_char c = CHR ''-'' \<longleftrightarrow> c = CHR ''-''"
  unfolding char_eq_code chr_code_cases by auto

lemma canonical_lower: "canonical_from up (map lower_char s) = canonical_from up s"
  by (induction s arbitrary: up) (simp_all add: char_cases)

lemma canonical_idem: "canonical_from up (canonical_from up s) = canonical_from up s"
  by (induction s arbitrary: up) (simp_all add: char_cases)

end
