(* ===== verification/IamClient.thy ===== *)
theory IamClient
  imports GoHttp
begin

text \<open>
  Requests to the token service of IBM IAM and the client that sends them with retries:
  \<open>aws/credentials/ibmiam/tokenmanager/client.go\<close>, \<open>helper.go\<close> and the function \<open>buildRequest\<close> of
  \<open>token_manager.go\<close>.

  \<open>hq_Body\<close> holds what the body of a request still delivers to a reader. \<open>ic_Client\<close> is
  \<open>http.Client.Do\<close>, outside the repository: it gets the request and the state \<open>'w\<close> of the rest of
  the world and gives the response or the error, the bytes of the body it left unread, and the new
  state. \<open>http.NewRequest\<close> fails on a URL \<open>url.Parse\<close> refuses: \<open>parseURL\<close> gives that error.
  Logging is left out.
\<close>

section \<open>Requests and responses\<close>

record HTTPRequest =
  hq_Method :: string
  hq_URL :: string
  hq_Header :: Values
  hq_Body :: string

record HTTPResponse =
  hp_StatusCode :: int
  hp_Status :: string
  hp_ReadAll :: "goerror + string"
  hp_Close :: "goerror option"

definition isSuccess :: "HTTPResponse \<Rightarrow> bool" where
  "isSuccess response \<longleftrightarrow> 200 \<le> hp_StatusCode response \<and> hp_StatusCode response < 300"

definition iamClientID :: string where "iamClientID = ''bx''"
definition iamClientSecret :: string where "iamClientSecret = ''bx''"
definition grantAPIKey :: string where "grantAPIKey = ''urn:ibm:params:oauth:grant-type:apikey''"
definition grantRefreshToken :: string where "grantRefreshToken = ''refresh_token''"

definition buildRequest :: "(string \<Rightarrow> goerror option) \<Rightarrow> string \<Rightarrow> string \<Rightarrow> Values \<Rightarrow> goerror + HTTPRequest" where
  "buildRequest parseURL endPoint grantType customValues =
     (let data = fold (\<lambda>(key, v). AList.update key v) customValues
            [(''grant_type'', [grantType]), (''response_type'', [''cloud_iam''])] in
      case parseURL endPoint of
        Some err \<Rightarrow> Inl err
      | None \<Rightarrow>
          let h = Header_Set ''Authorization'' (''Basic '' @ base64_encode (map of_char (iamClientID @ '':'' @ iamClientSecret))) [];
              h = Header_Set ''accept'' ''application/json'' h;
              h = Header_Set ''Cache-control'' ''no-Cache'' h;
              h = Header_Set ''Content-Type'' ''application/x-www-form-urlencoded'' h
          in Inr \<lparr>hq_Method = ''POST'', hq_URL = endPoint, hq_Header = h, hq_Body = Values_Encode data\<rparr>)"

section \<open>The retrying client\<close>

type_synonym 'w http_Do = "HTTPRequest \<Rightarrow> 'w \<Rightarrow> (goerror + HTTPResponse) \<times> string \<times> 'w"

record 'w defaultIBMCImplementation =
  ic_Client :: "'w http_Do"
  ic_MaxRetries :: int
  ic_InitialBackOff :: int
  ic_BackOffProgression :: "int \<Rightarrow> int"

text \<open>The fields of \<open>aws.Config\<close> the constructors read.\<close>

record 'w client_Config =
  cg_HTTPClient :: "'w http_Do option"
  cg_MaxRetries :: "int option"

text \<open>\<open>None\<close> is the panic of \<open>config.Logger\<close> at a nil configuration.\<close>

definition newIBMClient :: "'w http_Do \<Rightarrow> 'w client_Config option \<Rightarrow> int \<Rightarrow> (int \<Rightarrow> int) option \<Rightarrow>
    'w defaultIBMCImplementation option" where
  "newIBMClient DefaultClient config initialBackOff backOffProgression =
     (let httpClient = (case config of None \<Rightarrow> DefaultClient
            | Some cg \<Rightarrow> (case cg_HTTPClient cg of None \<Rightarrow> DefaultClient | Some c \<Rightarrow> c));
          maxRetries = (case config of None \<Rightarrow> 0
            | Some cg \<Rightarrow> (case cg_MaxRetries cg of None \<Rightarrow> 0 | Some n \<Rightarrow> if n > 0 then n else 0));
          initialBackOff = (if initialBackOff < 0 then 0 else initialBackOff);
          backOffProgression = (case backOffProgression of None \<Rightarrow> (\<lambda>_. 0) | Some f \<Rightarrow> f)
      in case config of None \<Rightarrow> None
         | Some cg \<Rightarrow> Some \<lparr>ic_Client = httpClient, ic_MaxRetries = maxRetries, ic_InitialBackOff = initialBackOff,
             ic_BackOffProgression = backOffProgression\<rparr>)"

text \<open>The \<open>float64\<close> product of a delay and 1.75, exact for delays below \<open>2^50\<close> nanoseconds, is cut
  towards zero.\<close>

definition defaultIBMClient :: "'w http_Do \<Rightarrow> 'w client_Config option \<Rightarrow> 'w defaultIBMCImplementation option" where
  "defaultIBMClient DefaultClient config =
     newIBMClient DefaultClient config (500 * 1000000) (Some (\<lambda>duration. (7 * duration) sdiv 4))"

text \<open>\<open>copyRequest\<close> reads what is left of the body; the errors of reading and of \<open>http.NewRequest\<close>
  are dropped by the code.\<close>

definition copyRequest :: "HTTPRequest \<Rightarrow> HTTPRequest" where
  "copyRequest r = \<lparr>hq_Method = hq_Method r, hq_URL = hq_URL r,
     hq_Header = fold (\<lambda>(k, lv) h. fold (Header_Add k) lv h) (hq_Header r) [], hq_Body = hq_Body r\<rparr>"

definition attempt_ok :: "goerror + HTTPResponse \<Rightarrow> bool" where
  "attempt_ok res = (case res of Inl e \<Rightarrow> False | Inr r \<Rightarrow> isSuccess r)"

text \<open>\<open>n\<close> is the number of retries left, \<open>MaxRetries - i\<close>.\<close>

fun retry_attempts :: "(int \<Rightarrow> 'w \<Rightarrow> 'w) \<Rightarrow> 'w defaultIBMCImplementation \<Rightarrow> nat \<Rightarrow> int \<Rightarrow> HTTPRequest \<Rightarrow>
    (goerror + HTTPResponse) \<Rightarrow> 'w \<Rightarrow> (goerror + HTTPResponse) \<times> 'w" where
  "retry_attempts Sleep c 0 sleep req res w = (res, w)"
| "retry_attempts Sleep c (Suc n) sleep req res w =
     (let req = copyRequest req in
      case ic_Client c req (Sleep sleep w) of (res, unread, w) \<Rightarrow>
        if attempt_ok res then (res, w)
        else retry_attempts Sleep c n (ic_BackOffProgression c sleep) (req\<lparr>hq_Body := unread\<rparr>) res w)"

definition IBMClient_Do :: "(int \<Rightarrow> 'w \<Rightarrow> 'w) \<Rightarrow> 'w defaultIBMCImplementation \<Rightarrow> HTTPRequest \<Rightarrow> 'w \<Rightarrow>
    (goerror + HTTPResponse) \<times> 'w" where
  "IBMClient_Do Sleep c req w =
     (case ic_Client c req w of (res, unread, w) \<Rightarrow>
        if attempt_ok res then (res, w)
        else retry_attempts Sleep c (nat (ic_MaxRetries c)) (ic_InitialBackOff c) (req\<lparr>hq_Body := unread\<rparr>) res w)"

section \<open>Copied headers\<close>

text \<open>Copying keeps the headers of a request whose keys are canonical, as those of
  \<open>buildRequest\<close> are.\<close>

definition header_canonical :: "Values \<Rightarrow> bool" where
  "header_canonical h \<longleftrightarrow> (\<forall>kv \<in> set h. canonical_key (fst kv) = fst kv)"

lemma Add_all_last:
  assumes "canonical_key k = k" and "k \<notin> fst ` set h"
  shows "fold (Header_Add k) lv (h @ [(k, u)]) = h @ [(k, u @ lv)]"
  using assms
proof (induction lv arbitrary: u)
  case (Cons v lv)
  then show ?case by (simp add: Header_Add_def Values_list_last update_last)
qed simp

lemma Add_all:
  assumes "canonical_key k = k" and "k \<notin> fst ` set h" and "lv \<noteq> []"
  shows "fold (Header_Add k) lv h = h @ [(k, lv)]"
proof -
  from assms(3) obtain v vs where lv: "lv = v # vs" by (cases lv) auto
  have "Values_list h k = []" using assms(2)
    by (force simp: Values_list_def split: option.splits dest: map_of_SomeD)
  then have "Header_Add k v h = h @ [(k, [v])]"
    using assms(1,2) by (simp add: Header_Add_def update_other_last)
  with Add_all_last [OF assms(1,2)] lv show ?thesis by simp
qed

lemma copied_header:
  "Values_wf (h @ h') \<Longrightarrow> header_canonical h' \<Longrightarrow> fold (\<lambda>(k, lv) g. fold (Header_Add k) lv g) h' h = h @ h'"
proof (induction h' arbitrary: h)
  case (Cons kv h')
  obtain k lv where kv: "kv = (k, lv)" by (cases kv)
  have wf: "Values_wf ((h @ [(k, lv)]) @ h')" using Cons.prems kv by (auto simp: Values_wf_def)
  have "fold (Header_Add k) lv h = h @ [(k, lv)]"
    using Cons.prems kv by (intro Add_all) (auto simp: Values_wf_def header_canonical_def image_iff)
  then show ?case using Cons.IH [OF wf] Cons.prems kv by (simp add: header_canonical_def)
qed simp

lemma copyRequest_same:
  "Values_wf (hq_Header r) \<Longrightarrow> header_canonical (hq_Header r) \<Longrightarrow> copyRequest r = r"
  using copied_header [of "[]" "hq_Header r"] by (simp add: copyRequest_def)

lemma update_canonical:
  "header_canonical h \<Longrightarrow> canonical_key k = k \<Longrightarrow> header_canonical (AList.update k v h)"
  by (induction h) (auto simp: header_canonical_def split: if_splits)

lemma build_keys:
  "canonical_key ''Authorization'' = ''Authorization''" "canonical_key ''accept'' = ''Accept''"
  "canonical_key ''Cache-control'' = ''Cache-Control''" "canonical_key ''Content-Type'' = ''Content-Type''"
  "canonical_key ''Accept'' = ''Accept''" "canonical_key ''Cache-Control'' = ''Cache-Control''"
  by code_simp+

lemma buildRequest_header:
  assumes "buildRequest parseURL endPoint grantType customValues = Inr r"
  shows "Values_wf (hq_Header r)" and "header_canonical (hq_Header r)"
  using assms unfolding buildRequest_def Let_def
  by (auto simp: header_canonical_def Header_Set_def build_keys Values_wf_def
      simp del: canonical_from.simps split: option.splits)

section \<open>What the client sends\<close>

text \<open>A transport that logs the requests it gets, in front of the state of the world.\<close>

definition logged :: "'w http_Do \<Rightarrow> ('w \<times> HTTPRequest list) http_Do" where
  "logged http req wl = (case http req (fst wl) of (res, unread, w) \<Rightarrow> (res, unread, w, snd wl @ [req]))"

definition on_world :: "(int \<Rightarrow> 'w \<Rightarrow> 'w) \<Rightarrow> int \<Rightarrow> 'w \<times> HTTPRequest list \<Rightarrow> 'w \<times> HTTPRequest list" where
  "on_world Sleep d wl = (Sleep d (fst wl), snd wl)"

text \<open>A transport that reads the whole body before it answers.\<close>

definition reads_body :: "'w http_Do \<Rightarrow> bool" where
  "reads_body http \<longleftrightarrow> (\<forall>req w. fst (snd (http req w)) = [])"

lemma retries_sent:
  assumes "reads_body http" and "ic_Client c = logged http" and "hq_Body req = []"
    and "Values_wf (hq_Header req)" and "header_canonical (hq_Header req)"
  shows "\<exists>k \<le> n. \<exists>w'. retry_attempts (on_world Sleep) c n s req res (w, log) =
      (fst (retry_attempts (on_world Sleep) c n s req res (w, log)), w', log @ replicate k req) \<and>
    (attempt_ok (fst (retry_attempts (on_world Sleep) c n s req res (w, log))) \<or> k = n)"
  using assms(3-5)
proof (induction n arbitrary: s res w log)
  case (Suc n)
  obtain res' unread w' where h: "http req (Sleep s w) = (res', unread, w')" by (metis surj_pair)
  have u: "unread = []" using assms(1) h by (metis reads_body_def fst_conv snd_conv)
  have step: "ic_Client c (copyRequest req) (on_world Sleep s (w, log)) = (res', [], w', log @ [req])"
    using Suc.prems by (simp add: copyRequest_same assms(2) logged_def on_world_def h u)
  have copied: "copyRequest req = req" using Suc.prems by (simp add: copyRequest_same)
  have same: "req\<lparr>hq_Body := []\<rparr> = req" using Suc.prems(1) by simp
  show ?case
  proof (cases "attempt_ok res'")
    case True
    with step same show ?thesis by (intro exI [of _ 1]) (simp add: Let_def copied)
  next
    case False
    obtain k w2 where k: "k \<le> n"
      "retry_attempts (on_world Sleep) c n (ic_BackOffProgression c s) req res' (w', log @ [req]) =
        (fst (retry_attempts (on_world Sleep) c n (ic_BackOffProgression c s) req res' (w', log @ [req])),
         w2, (log @ [req]) @ replicate k req)"
      "attempt_ok (fst (retry_attempts (on_world Sleep) c n (ic_BackOffProgression c s) req res' (w', log @ [req]))) \<or> k = n"
      using Suc.IH [OF Suc.prems] by blast
    have "retry_attempts (on_world Sleep) c (Suc n) s req res (w, log) =
        retry_attempts (on_world Sleep) c n (ic_BackOffProgression c s) req res' (w', log @ [req])"
      using step same False by (simp add: Let_def copied)
    with k show ?thesis by (intro exI [of _ "Suc k"]) auto
  qed
qed auto

lemma Do_sent:
  assumes "reads_body http" and "ic_Client c = logged http"
    and "Values_wf (hq_Header req)" and "header_canonical (hq_Header req)"
  shows "\<exists>k res w'. IBMClient_Do (on_world Sleep) c req (w, []) =
      (res, w', req # replicate k (req\<lparr>hq_Body := []\<rparr>)) \<and>
    k \<le> nat (ic_MaxRetries c) \<and> (attempt_ok res \<or> k = nat (ic_MaxRetries c))"
proof -
  obtain res unread w' where h: "http req w = (res, unread, w')" by (metis surj_pair)
  have u: "unread = []" using assms(1) h by (metis reads_body_def fst_conv snd_conv)
  have step: "ic_Client c req (w, []) = (res, [], w', [req])"
    by (simp add: assms(2) logged_def h u)
  show ?thesis
  proof (cases "attempt_ok res")
    case True
    with step show ?thesis by (intro exI [of _ 0]) (simp add: IBMClient_Do_def)
  next
    case False
    let ?q = "req\<lparr>hq_Body := []\<rparr>"
    from retries_sent [OF assms(1,2), of ?q "nat (ic_MaxRetries c)" Sleep "ic_InitialBackOff c" res w' "[req]"] assms(3,4)
    obtain k w2 r2 where "k \<le> nat (ic_MaxRetries c)"
      "retry_attempts (on_world Sleep) c (nat (ic_MaxRetries c)) (ic_InitialBackOff c) ?q res (w', [req]) =
         (r2, w2, req # replicate k ?q)"
      "attempt_ok r2 \<or> k = nat (ic_MaxRetries c)"
      by auto
    with step False show ?thesis by (auto simp: IBMClient_Do_def)
  qed
qed

end
