(* ===== verification/IamTokenManager.thy ===== *)
theory IamTokenManager
  imports IamClient
begin

text \<open>
  The token manager of the IBM IAM credentials,
  \<open>aws/credentials/ibmiam/tokenmanager/token_manager.go\<close>, with the token of \<open>token/token.go\<close>.

  The fields that never change after construction are the record \<open>tm_config\<close>: the client and the
  functions for time, initial token and timeouts, which are arguments of the constructor in the code
  too, and the two JSON decoders. They act on the state \<open>'w\<close> of the rest of the world. The fields that
  change are \<open>tm_state\<close>. A \<open>time.Timer\<close> is \<open>Armed d\<close> or \<open>Disarmed\<close>, stopped or fired. Times are
  nanoseconds since the Unix epoch; durations are 64-bit: differences of times saturate, other
  arithmetic wraps around.

  Every operation returns \<open>None\<close> where the code panics on a nil pointer. The lock is modelled by
  making each critical section one function; \<open>IamTokenRuns\<close> interleaves them. Logging is left out.
\<close>

section \<open>Data\<close>

record IamToken =
  AccessToken :: string
  RefreshToken :: string
  TokenType :: string
  ExpiresIn :: int
  Expiration :: int

datatype timer = Disarmed | Armed int

record 'w tm_config =
  tc_authEndPoint :: string
  tc_Do :: "HTTPRequest \<Rightarrow> 'w \<Rightarrow> (goerror + HTTPResponse) \<times> 'w"
  tc_advisory :: "(int \<Rightarrow> int) option"
  tc_mandatory :: "(int \<Rightarrow> int) option"
  tc_time :: "'w \<Rightarrow> int \<times> 'w"
  tc_init :: "'w \<Rightarrow> (goerror + IamToken option) \<times> 'w"
  tc_parseURL :: "string \<Rightarrow> goerror option"
  tc_unmarshal :: "string \<Rightarrow> goerror + IamToken"
  tc_unmarshalError :: "string \<Rightarrow> goerror + goerror"

record 'w tm_state =
  tm_tokenTTL :: int
  tm_Cache :: "IamToken option"
  tm_timer :: "timer option"
  tm_enable :: "bool option"
  tm_world :: 'w

definition minimumDelta :: int where "minimumDelta = 3 * 1000000000"
definition minimumWait :: int where "minimumWait = 1 * 1000000000"

definition ErrFetchingIAMTokenFn :: "goerror \<Rightarrow> goerror" where
  "ErrFetchingIAMTokenFn err = awserr_New ''ErrFetchingIAMToken'' ''error fetching token'' (Some err)"

section \<open>Responses and times\<close>

definition processResponse :: "'w tm_config \<Rightarrow> HTTPResponse \<Rightarrow> goerror + IamToken" where
  "processResponse cf response = (case hp_ReadAll response of
     Inl err \<Rightarrow> Inl err
   | Inr bodyContent \<Rightarrow>
       (case hp_Close response of
          Some err \<Rightarrow> Inl err
        | None \<Rightarrow>
            if isSuccess response then tc_unmarshal cf bodyContent
            else if hp_StatusCode response = 400 \<or> hp_StatusCode response = 401 \<or> hp_StatusCode response = 403 then
              (case tc_unmarshalError cf bodyContent of Inl err \<Rightarrow> Inl err | Inr apiErr \<Rightarrow> Inl apiErr)
            else Inl (PlainError (''Response: Bad Status Code: '' @ hp_Status response))))"

definition waitingTime :: "'w tm_config \<Rightarrow> int \<Rightarrow> int \<Rightarrow> (int \<Rightarrow> int) option \<Rightarrow> (int \<Rightarrow> int) option \<Rightarrow> 'w \<Rightarrow>
    int option \<times> 'w" where
  "waitingTime cf ttl unixTime advisory mandatory w =
     (if unixTime = 0 then (None, w)
      else case tc_time cf w of (now, w) \<Rightarrow>
        let result = sat64 (unixTime * 1000000000 - now);
            delta = minimumDelta;
            delta = (case advisory of None \<Rightarrow> delta | Some f \<Rightarrow> if f ttl > minimumDelta then f ttl else delta);
            delta = (case mandatory of None \<Rightarrow> delta | Some f \<Rightarrow> if f ttl > delta then f ttl else delta)
        in (Some (wrap64 (result - delta)), w))"

definition getTTL :: "'w tm_config \<Rightarrow> int \<Rightarrow> 'w \<Rightarrow> int \<times> 'w" where
  "getTTL cf unixTime w =
     (if unixTime > 0 then case tc_time cf w of (now, w) \<Rightarrow> (sat64 (unixTime * 1000000000 - now), w)
      else (0, w))"

definition defaultInit :: "(string \<Rightarrow> goerror option) \<Rightarrow> (HTTPResponse \<Rightarrow> goerror + IamToken) \<Rightarrow> string \<Rightarrow> string \<Rightarrow>
    (HTTPRequest \<Rightarrow> 'w \<Rightarrow> (goerror + HTTPResponse) \<times> 'w) \<Rightarrow> 'w \<Rightarrow> (goerror + IamToken option) \<times> 'w" where
  "defaultInit parseURL process apiKey authEndPoint Do w =
     (case buildRequest parseURL authEndPoint grantAPIKey [(''apikey'', [apiKey])] of
        Inl err \<Rightarrow> (Inl (ErrFetchingIAMTokenFn err), w)
      | Inr req \<Rightarrow>
          (case Do req w of
             (Inl err, w) \<Rightarrow> (Inl (ErrFetchingIAMTokenFn err), w)
           | (Inr response, w) \<Rightarrow>
               (case process response of
                  Inl err \<Rightarrow> (Inl (ErrFetchingIAMTokenFn err), w)
                | Inr tokenValue \<Rightarrow> (Inr (Some tokenValue), w))))"

section \<open>Timer, initial token, refresh\<close>

type_synonym ('w, 'r) tm_op = "'w tm_state \<Rightarrow> ('r \<times> 'w tm_state) option"

definition stopTimer :: "'w tm_state \<Rightarrow> 'w tm_state" where
  "stopTimer tm = tm\<lparr>tm_timer := map_option (\<lambda>_. Disarmed) (tm_timer tm)\<rparr>"

definition resetTimer :: "'w tm_config \<Rightarrow> ('w, unit) tm_op" where
  "resetTimer cf tm =
     (if tm_enable tm = Some True then
        (case tm_Cache tm of
           None \<Rightarrow> None
         | Some tk \<Rightarrow>
             (case waitingTime cf (tm_tokenTTL tm) (Expiration tk) (tc_advisory cf) (tc_mandatory cf) (tm_world tm) of
                (Some refreshIn, w) \<Rightarrow>
                  (case tm_timer tm of
                     Some _ \<Rightarrow>
                       let refreshIn = (if minimumWait > refreshIn then minimumWait else refreshIn)
                       in Some ((), tm\<lparr>tm_timer := Some (Armed refreshIn), tm_world := w\<rparr>)
                   | None \<Rightarrow> Some ((), tm\<lparr>tm_timer := Some (Armed refreshIn), tm_world := w\<rparr>))
              | (None, w) \<Rightarrow> Some ((), tm\<lparr>tm_timer := None, tm_world := w\<rparr>)))
      else Some ((), tm))"

definition tm_init :: "'w tm_config \<Rightarrow> ('w, goerror + IamToken) tm_op" where
  "tm_init cf tm = (case tc_init cf (tm_world tm) of
     (Inl err, w) \<Rightarrow> Some (Inl err, tm\<lparr>tm_world := w\<rparr>)
   | (Inr None, w) \<Rightarrow> None
   | (Inr (Some tokenValue), w) \<Rightarrow>
       (case getTTL cf (Expiration tokenValue) w of (ttl, w) \<Rightarrow>
          let tm = tm\<lparr>tm_Cache := Some tokenValue, tm_tokenTTL := ttl,
                tm_enable := (if tm_enable tm = None then Some True else tm_enable tm), tm_world := w\<rparr>
          in case resetTimer cf tm of
               None \<Rightarrow> None
             | Some (_, tm) \<Rightarrow> Some (Inr tokenValue, tm)))"

definition refresh_body :: "'w tm_config \<Rightarrow> ('w, goerror option) tm_op" where
  "refresh_body cf tm = (case tm_Cache tm of
     None \<Rightarrow> None
   | Some tk \<Rightarrow>
       (case buildRequest (tc_parseURL cf) (tc_authEndPoint cf) grantRefreshToken [(''refresh_token'', [RefreshToken tk])] of
          Inl err \<Rightarrow> Some (Some (ErrFetchingIAMTokenFn err), tm)
        | Inr req \<Rightarrow>
            (case tc_Do cf req (tm_world tm) of
               (Inl err, w) \<Rightarrow> Some (Some (ErrFetchingIAMTokenFn err), tm\<lparr>tm_world := w\<rparr>)
             | (Inr response, w) \<Rightarrow>
                 (case processResponse cf response of
                    Inl err \<Rightarrow>
                      if hp_StatusCode response = 400 then
                        (case tm_init cf (tm\<lparr>tm_world := w\<rparr>) of None \<Rightarrow> None | Some (_, tm) \<Rightarrow> Some (None, tm))
                      else Some (Some (ErrFetchingIAMTokenFn err), tm\<lparr>tm_world := w\<rparr>)
                  | Inr tokenValue \<Rightarrow>
                      (case getTTL cf (Expiration tokenValue) w of (ttl, w) \<Rightarrow>
                         Some (None, tm\<lparr>tm_Cache := Some tokenValue, tm_tokenTTL := ttl, tm_world := w\<rparr>))))))"

definition refresh :: "'w tm_config \<Rightarrow> ('w, goerror option) tm_op" where
  "refresh cf tm = (case refresh_body cf (stopTimer tm) of
     None \<Rightarrow> None
   | Some (err, tm) \<Rightarrow> (case resetTimer cf tm of None \<Rightarrow> None | Some (_, tm) \<Rightarrow> Some (err, tm)))"

section \<open>Get\<close>

definition retrieveCheckGet :: "'w tm_config \<Rightarrow> ('w, IamToken option) tm_op" where
  "retrieveCheckGet cf tm = (case tm_Cache tm of
     None \<Rightarrow> None
   | Some tk \<Rightarrow>
       (case waitingTime cf (tm_tokenTTL tm) (Expiration tk) None (tc_mandatory cf) (tm_world tm) of
          (tokenTTL, w) \<Rightarrow>
            Some (case tokenTTL of None \<Rightarrow> Some tk | Some d \<Rightarrow> if d > minimumDelta then Some tk else None,
                  tm\<lparr>tm_world := w\<rparr>)))"

text \<open>A result of \<open>Get\<close>: the token, nil or not, and the error, nil or not.\<close>

type_synonym get_result = "IamToken option \<times> goerror option"

text \<open>\<open>retrieveInit\<close> and \<open>retrieveFetch\<close> from the moment they hold the write lock.\<close>

definition retrieveInit :: "'w tm_config \<Rightarrow> ('w, get_result) tm_op" where
  "retrieveInit cf tm = (case tm_Cache tm of
     None \<Rightarrow>
       (case tm_init cf tm of
          None \<Rightarrow> None
        | Some (Inl err, tm) \<Rightarrow> Some ((None, Some err), tm)
        | Some (Inr tk, tm) \<Rightarrow> Some ((Some tk, None), tm))
   | Some _ \<Rightarrow>
       (case retrieveCheckGet cf tm of
          None \<Rightarrow> None
        | Some (tk, tm) \<Rightarrow> Some ((tk, None), tm)))"

text \<open>The loop of \<open>retrieveFetch\<close> may run forever: the outer \<open>None\<close> is the loop that does not end,
  the inner one a panic.\<close>

partial_function (option) fetch_loop :: "'w tm_config \<Rightarrow> 'w tm_state \<Rightarrow> (get_result \<times> 'w tm_state) option option" where
  "fetch_loop cf tm = (case retrieveCheckGet cf tm of
     None \<Rightarrow> Some None
   | Some (Some tk, tm) \<Rightarrow> Some (Some ((Some tk, None), tm))
   | Some (None, tm) \<Rightarrow>
       (case refresh cf tm of
          None \<Rightarrow> Some None
        | Some (Some err, tm) \<Rightarrow> Some (Some ((None, Some err), tm))
        | Some (None, tm) \<Rightarrow> fetch_loop cf tm))"

datatype get_phase = GetStart | WantInit | WantFetch | GetReturned get_result

text \<open>\<open>Get\<close> up to the release of the read lock.\<close>

definition Get_read :: "'w tm_config \<Rightarrow> ('w, get_phase) tm_op" where
  "Get_read cf tm = (case tm_Cache tm of
     None \<Rightarrow> Some (WantInit, tm)
   | Some _ \<Rightarrow>
       (case retrieveCheckGet cf tm of
          None \<Rightarrow> None
        | Some (Some tk, tm) \<Rightarrow> Some (GetReturned (Some tk, None), tm)
        | Some (None, tm) \<Rightarrow> Some (WantFetch, tm)))"

text \<open>\<open>Get\<close> with no other goroutine in between.\<close>

definition Get :: "'w tm_config \<Rightarrow> 'w tm_state \<Rightarrow> (get_result \<times> 'w tm_state) option option" where
  "Get cf tm = (case Get_read cf tm of
     None \<Rightarrow> Some None
   | Some (GetReturned res, tm) \<Rightarrow> Some (Some (res, tm))
   | Some (WantFetch, tm) \<Rightarrow> fetch_loop cf tm
   | Some (_, tm) \<Rightarrow> Some (retrieveInit cf tm))"

section \<open>The other entry points\<close>

definition Refresh :: "'w tm_config \<Rightarrow> ('w, goerror option) tm_op" where
  "Refresh cf tm = refresh cf tm"

definition backgroundRefreshFunc :: "'w tm_config \<Rightarrow> ('w, unit) tm_op" where
  "backgroundRefreshFunc cf tm = (case tm_Cache tm of
     None \<Rightarrow> None
   | Some tk \<Rightarrow>
       (case waitingTime cf (tm_tokenTTL tm) (Expiration tk) (tc_advisory cf) (tc_mandatory cf) (tm_world tm) of
          (wait, w) \<Rightarrow>
            if (case wait of None \<Rightarrow> False | Some d \<Rightarrow> d < minimumDelta) then
              map_option (\<lambda>(_, tm). ((), tm)) (refresh cf (tm\<lparr>tm_world := w\<rparr>))
            else resetTimer cf (tm\<lparr>tm_world := w\<rparr>)))"

definition StopBackgroundRefresh :: "'w tm_state \<Rightarrow> 'w tm_state" where
  "StopBackgroundRefresh tm = (stopTimer tm)\<lparr>tm_enable := Some False\<rparr>"

definition StartBackgroundRefresh :: "'w tm_config \<Rightarrow> ('w, unit) tm_op" where
  "StartBackgroundRefresh cf tm = resetTimer cf (tm\<lparr>tm_enable := Some True\<rparr>)"

section \<open>Construction\<close>

definition new_tm :: "'w \<Rightarrow> 'w tm_state" where
  "new_tm w = \<lparr>tm_tokenTTL = 0, tm_Cache = None, tm_timer = None, tm_enable = None, tm_world = w\<rparr>"

text \<open>The two default timeouts are variables of the package.\<close>

definition newTokenManager :: "'c option \<Rightarrow> (int \<Rightarrow> int) \<Rightarrow> (int \<Rightarrow> int) \<Rightarrow> ('w \<Rightarrow> int \<times> 'w) \<Rightarrow> 'w tm_config \<Rightarrow>
    ('w \<Rightarrow> int \<times> 'w) option \<Rightarrow> 'w tm_config option" where
  "newTokenManager config DefaultAdvisory DefaultMandatory timeNow cf timeFunc =
     (let timeFunc = (case timeFunc of None \<Rightarrow> timeNow | Some f \<Rightarrow> f);
          advisory = (case tc_advisory cf of None \<Rightarrow> DefaultAdvisory | Some f \<Rightarrow> f);
          mandatory = (case tc_mandatory cf of None \<Rightarrow> DefaultMandatory | Some f \<Rightarrow> f)
      in if config = None then None
         else Some (cf\<lparr>tc_time := timeFunc, tc_advisory := Some advisory, tc_mandatory := Some mandatory\<rparr>))"

definition newTokenManagerFromAPIKey :: "'w http_Do \<Rightarrow> (int \<Rightarrow> 'w \<Rightarrow> 'w) \<Rightarrow> 'w client_Config option \<Rightarrow> string \<Rightarrow>
    (int \<Rightarrow> int) \<Rightarrow> (int \<Rightarrow> int) \<Rightarrow> ('w \<Rightarrow> int \<times> 'w) \<Rightarrow> 'w tm_config \<Rightarrow> ('w \<Rightarrow> int \<times> 'w) option \<Rightarrow>
    (HTTPRequest \<Rightarrow> 'w \<Rightarrow> (goerror + HTTPResponse) \<times> 'w) option \<Rightarrow> 'w tm_config option" where
  "newTokenManagerFromAPIKey DefaultClient Sleep config apiKey DefaultAdvisory DefaultMandatory timeNow cf timeFunc client =
     (case (case client of
              Some Do \<Rightarrow> Some Do
            | None \<Rightarrow> map_option (IBMClient_Do Sleep) (defaultIBMClient DefaultClient config)) of
        None \<Rightarrow> None
      | Some Do \<Rightarrow>
          newTokenManager config DefaultAdvisory DefaultMandatory timeNow
            (cf\<lparr>tc_Do := Do, tc_init := defaultInit (tc_parseURL cf) (processResponse cf) apiKey (tc_authEndPoint cf) Do\<rparr>)
            timeFunc)"

end
