(* ===== verification/Credentials.thy ===== *)
theory Credentials
  imports IamTokenManager IniRoundtrip
begin

text \<open>
  Credentials and their providers: \<open>aws/credentials/credentials.go\<close>, \<open>static_provider.go\<close>,
  \<open>env_provider.go\<close>, \<open>shared_credentials_provider.go\<close> and \<open>chain_provider.go\<close>.

  The interface \<open>Provider\<close> is the record \<open>'p Provider\<close> of its methods over the state \<open>'p\<close> of a
  provider; a provider that takes a context is called without it. A method returns \<open>None\<close> where the
  code panics or does not return, else the value, the error (nil is \<open>None\<close>) and the new state.
  The environment of the process is the record \<open>os\<close>: variables, home directory, the paths of the two
  shared files, and what opening and reading a file gives.
\<close>

section \<open>Values and the environment\<close>

record CredValue =
  cv_AccessKeyID :: string
  cv_SecretAccessKey :: string
  cv_SessionToken :: string
  cv_ProviderName :: string
  cv_ProviderType :: string
  cv_Token :: IamToken
  cv_ServiceInstanceID :: string

definition zero_Token :: IamToken where
  "zero_Token = \<lparr>AccessToken = [], RefreshToken = [], TokenType = [], ExpiresIn = 0, Expiration = 0\<rparr>"

definition zero_Value :: CredValue where
  "zero_Value = \<lparr>cv_AccessKeyID = [], cv_SecretAccessKey = [], cv_SessionToken = [], cv_ProviderName = [],
     cv_ProviderType = [], cv_Token = zero_Token, cv_ServiceInstanceID = []\<rparr>"

definition named_Value :: "string \<Rightarrow> CredValue" where
  "named_Value name = zero_Value\<lparr>cv_ProviderName := name\<rparr>"

definition HasKeys :: "CredValue \<Rightarrow> bool" where
  "HasKeys v \<longleftrightarrow> length (cv_AccessKeyID v) \<noteq> 0 \<and> length (cv_SecretAccessKey v) \<noteq> 0"

record os =
  os_Getenv :: "string \<Rightarrow> string"
  os_UserHomeDir :: string
  os_SharedCredentialsFilename :: string
  os_SharedConfigFilename :: string
  os_Open :: "string \<Rightarrow> goerror + (goerror + byte list)"

type_synonym cred_result = "CredValue \<times> goerror option"

record 'p Provider =
  pv_Retrieve :: "'p \<Rightarrow> (cred_result \<times> 'p) option"
  pv_IsExpired :: "'p \<Rightarrow> bool"
  pv_ExpiresAt :: "('p \<Rightarrow> int) option"

section \<open>Expiry\<close>

record Expiry =
  ex_expiration :: int

definition SetExpiration :: "Expiry \<Rightarrow> int \<Rightarrow> int \<Rightarrow> Expiry" where
  "SetExpiration e expiration window =
     (let e = e\<lparr>ex_expiration := expiration\<rparr> in
      if window > 0 then e\<lparr>ex_expiration := ex_expiration e - window\<rparr> else e)"

definition Expiry_IsExpired :: "Expiry \<Rightarrow> int \<Rightarrow> bool" where
  "Expiry_IsExpired e curTime \<longleftrightarrow> ex_expiration e < curTime"

section \<open>Credentials\<close>

record 'p Credentials =
  cr_creds :: CredValue
  cr_provider :: 'p

definition NewCredentials :: "'p \<Rightarrow> 'p Credentials" where
  "NewCredentials provider = \<lparr>cr_creds = zero_Value, cr_provider = provider\<rparr>"

definition isExpiredLocked :: "'p Provider \<Rightarrow> 'p Credentials \<Rightarrow> CredValue \<Rightarrow> bool" where
  "isExpiredLocked P c creds \<longleftrightarrow> creds = zero_Value \<or> pv_IsExpired P (cr_provider c)"

definition Credentials_IsExpired :: "'p Provider \<Rightarrow> 'p Credentials \<Rightarrow> bool" where
  "Credentials_IsExpired P c = isExpiredLocked P c (cr_creds c)"

definition singleRetrieve :: "'p Provider \<Rightarrow> 'p Credentials \<Rightarrow> (cred_result \<times> 'p Credentials) option" where
  "singleRetrieve P c =
     (let curCreds = cr_creds c in
      if \<not> isExpiredLocked P c curCreds then Some ((curCreds, None), c)
      else case pv_Retrieve P (cr_provider c) of
             None \<Rightarrow> None
           | Some ((creds, err), p) \<Rightarrow>
               let c = c\<lparr>cr_provider := p\<rparr>;
                   c = (if err = None then c\<lparr>cr_creds := creds\<rparr> else c)
               in Some ((creds, err), c))"

text \<open>The channel of \<open>asyncIsExpired\<close>: a value, or closed.\<close>

definition asyncIsExpired :: "'p Provider \<Rightarrow> 'p Credentials \<Rightarrow> CredValue option" where
  "asyncIsExpired P c = (if \<not> isExpiredLocked P c (cr_creds c) then Some (cr_creds c) else None)"

text \<open>\<open>GetWithContext\<close> without calls at the same time; \<open>done1\<close> and \<open>done2\<close> tell whether its two
  \<open>select\<close> statements take the branch of the canceled context. The retrieval a canceled call leaves
  behind still runs.\<close>

definition canceled_error :: "goerror \<Rightarrow> goerror" where
  "canceled_error ctxErr = awserr_New ''RequestCanceled'' ''request context canceled'' (Some ctxErr)"

definition GetWithContext :: "'p Provider \<Rightarrow> goerror \<Rightarrow> bool \<Rightarrow> bool \<Rightarrow> 'p Credentials \<Rightarrow>
    (cred_result \<times> 'p Credentials) option" where
  "GetWithContext P ctxErr done1 done2 c =
     (if done1 then Some ((zero_Value, Some (canceled_error ctxErr)), c)
      else case asyncIsExpired P c of
             Some curCreds \<Rightarrow> Some ((curCreds, None), c)
           | None \<Rightarrow>
               (case singleRetrieve P c of
                  None \<Rightarrow> None
                | Some (res, c) \<Rightarrow>
                    if done2 then Some ((zero_Value, Some (canceled_error ctxErr)), c) else Some (res, c)))"

text \<open>The background context is never canceled.\<close>

definition Credentials_Get :: "'p Provider \<Rightarrow> 'p Credentials \<Rightarrow> (cred_result \<times> 'p Credentials) option" where
  "Credentials_Get P c = GetWithContext P (PlainError []) False False c"

definition Expire :: "'p Credentials \<Rightarrow> 'p Credentials" where
  "Expire c = c\<lparr>cr_creds := zero_Value\<rparr>"

text \<open>The zero time is \<open>Inr None\<close>.\<close>

definition Credentials_ExpiresAt :: "'p Provider \<Rightarrow> 'p Credentials \<Rightarrow> goerror + int option" where
  "Credentials_ExpiresAt P c = (case pv_ExpiresAt P of
     None \<Rightarrow> Inl (awserr_New ''ProviderNotExpirer''
       (''provider '' @ cv_ProviderName (cr_creds c) @ '' does not support ExpiresAt()'') None)
   | Some f \<Rightarrow> if cr_creds c = zero_Value then Inr None else Inr (Some (f (cr_provider c))))"

section \<open>Providers that hold or read keys\<close>

definition StaticProviderName :: string where "StaticProviderName = ''StaticProvider''"

definition Static_Retrieve :: "CredValue \<Rightarrow> cred_result \<times> CredValue" where
  "Static_Retrieve s =
     (if cv_AccessKeyID s = [] \<or> cv_SecretAccessKey s = [] then
        ((named_Value StaticProviderName, Some (awserr_New ''EmptyStaticCreds'' ''static credentials are empty'' None)), s)
      else
        let s = (if length (cv_ProviderName s) = 0 then s\<lparr>cv_ProviderName := StaticProviderName\<rparr> else s)
        in ((s, None), s))"

definition NewStaticCredentials :: "string \<Rightarrow> string \<Rightarrow> string \<Rightarrow> CredValue Credentials" where
  "NewStaticCredentials keyID secret token = NewCredentials (zero_Value\<lparr>cv_AccessKeyID := keyID,
     cv_SecretAccessKey := secret, cv_SessionToken := token\<rparr>)"

definition AnonymousCredentials :: "CredValue Credentials" where
  "AnonymousCredentials = NewStaticCredentials [] [] []"

definition Error_Retrieve :: "goerror option \<Rightarrow> string \<Rightarrow> cred_result" where
  "Error_Retrieve err name = (named_Value name, err)"

definition EnvProviderName :: string where "EnvProviderName = ''EnvProvider''"

text \<open>The state of an \<open>EnvProvider\<close> is its field \<open>retrieved\<close>.\<close>

definition Env_Retrieve :: "os \<Rightarrow> bool \<Rightarrow> cred_result \<times> bool" where
  "Env_Retrieve os retrieved =
     (let id = os_Getenv os ''AWS_ACCESS_KEY_ID'';
          id = (if id = [] then os_Getenv os ''AWS_ACCESS_KEY'' else id);
          secret = os_Getenv os ''AWS_SECRET_ACCESS_KEY'';
          secret = (if secret = [] then os_Getenv os ''AWS_SECRET_KEY'' else secret)
      in if id = [] then
           ((named_Value EnvProviderName, Some (awserr_New ''EnvAccessKeyNotFound''
              ''AWS_ACCESS_KEY_ID or AWS_ACCESS_KEY not found in environment'' None)), False)
         else if secret = [] then
           ((named_Value EnvProviderName, Some (awserr_New ''EnvSecretNotFound''
              ''AWS_SECRET_ACCESS_KEY or AWS_SECRET_KEY not found in environment'' None)), False)
         else (((named_Value EnvProviderName)\<lparr>cv_AccessKeyID := id, cv_SecretAccessKey := secret,
                 cv_SessionToken := os_Getenv os ''AWS_SESSION_TOKEN''\<rparr>, None), True))"

section \<open>The shared credentials file\<close>

text \<open>UTF-8, to turn the runes of the INI reader into a Go string.\<close>

definition utf8_encode :: "rune \<Rightarrow> nat list" where
  "utf8_encode c =
     (if c < 0x80 then [c]
      else if c < 0x800 then [0xC0 + c div 64, 0x80 + c mod 64]
      else if c < 0x10000 then [0xE0 + c div 4096, 0x80 + c div 64 mod 64, 0x80 + c mod 64]
      else [0xF0 + c div 262144, 0x80 + c div 4096 mod 64, 0x80 + c div 64 mod 64, 0x80 + c mod 64])"

definition Runes_str :: "rune list \<Rightarrow> string" where
  "Runes_str rs = map char_of (concat (map utf8_encode rs))"

definition str_Runes :: "string \<Rightarrow> rune list" where
  "str_Runes s = bytes_Runes (str_bytes s)"

text \<open>\<open>ini.OpenFile\<close>; the error of the parser has a code and a message and nothing below it.\<close>

definition ini_OpenFile :: "strconv \<Rightarrow> os \<Rightarrow> string \<Rightarrow> (goerror + Sections) option" where
  "ini_OpenFile pnum os path = (case os_Open os path of
     Inl err \<Rightarrow> Some (Inl (awserr_New ''FailedRead'' ''unable to open file'' (Some err)))
   | Inr (Inl err) \<Rightarrow> Some (Inl (awserr_New ''FailedRead'' ''unable to read file'' (Some err)))
   | Inr (Inr b) \<Rightarrow>
       (case ParseBytes pnum b of
          None \<Rightarrow> None
        | Some (Inl (ParseError msg)) \<Rightarrow> Some (Inl (BaseError ''INIParseError'' msg []))
        | Some (Inl PanicIndexOutOfRange) \<Rightarrow> None
        | Some (Inr sections) \<Rightarrow> Some (Inr sections)))"

definition ini_String :: "Section \<Rightarrow> string \<Rightarrow> (string \<times> Section) option" where
  "ini_String t k = (case Section_String t (runes k) of
     Inl _ \<Rightarrow> None
   | Inr (s, t) \<Rightarrow> Some (Runes_str s, t))"

definition SharedCredsProviderName :: string where "SharedCredsProviderName = ''SharedCredentialsProvider''"

definition loadProfile :: "strconv \<Rightarrow> os \<Rightarrow> string \<Rightarrow> string \<Rightarrow> cred_result option" where
  "loadProfile pnum os filename profile =
     (let failed = (\<lambda>code msg orig. Some (named_Value SharedCredsProviderName, Some (awserr_New code msg orig)))
      in case ini_OpenFile pnum os filename of
           None \<Rightarrow> None
         | Some (Inl err) \<Rightarrow> failed ''SharedCredsLoad'' ''failed to load shared credentials file'' (Some err)
         | Some (Inr config) \<Rightarrow>
             (case GetSection config (str_Runes profile) of
                None \<Rightarrow> failed ''SharedCredsLoad'' ''failed to get profile'' None
              | Some iniProfile \<Rightarrow>
                  (case ini_String iniProfile ''aws_access_key_id'' of
                     None \<Rightarrow> None
                   | Some (keyID, iniProfile) \<Rightarrow>
                       if length keyID = 0 then
                         failed ''SharedCredsAccessKey'' (''shared credentials '' @ profile @ '' in '' @ filename @
                           '' did not contain aws_access_key_id'') None
                       else
                         (case ini_String iniProfile ''aws_secret_access_key'' of
                            None \<Rightarrow> None
                          | Some (secret, iniProfile) \<Rightarrow>
                              if length secret = 0 then
                                failed ''SharedCredsSecret'' (''shared credentials '' @ profile @ '' in '' @ filename @
                                  '' did not contain aws_secret_access_key'') None
                              else
                                (case ini_String iniProfile ''aws_session_token'' of
                                   None \<Rightarrow> None
                                 | Some (token, _) \<Rightarrow>
                                     Some ((named_Value SharedCredsProviderName)\<lparr>cv_AccessKeyID := keyID,
                                       cv_SecretAccessKey := secret, cv_SessionToken := token\<rparr>, None))))))"

record SharedCredentialsProvider =
  sp_Filename :: string
  sp_Profile :: string
  sp_retrieved :: bool

definition sp_filename :: "os \<Rightarrow> SharedCredentialsProvider \<Rightarrow> (goerror + string) \<times> SharedCredentialsProvider" where
  "sp_filename os p =
     (if length (sp_Filename p) \<noteq> 0 then (Inr (sp_Filename p), p)
      else
        let p = p\<lparr>sp_Filename := os_Getenv os ''AWS_SHARED_CREDENTIALS_FILE''\<rparr> in
        if length (sp_Filename p) \<noteq> 0 then (Inr (sp_Filename p), p)
        else if length (os_UserHomeDir os) = 0 then
          (Inl (awserr_New ''UserHomeNotFound'' ''user home directory not found.'' None), p)
        else let p = p\<lparr>sp_Filename := os_SharedCredentialsFilename os\<rparr> in (Inr (sp_Filename p), p))"

definition sp_profile :: "os \<Rightarrow> SharedCredentialsProvider \<Rightarrow> string \<times> SharedCredentialsProvider" where
  "sp_profile os p =
     (let p = (if sp_Profile p = [] then p\<lparr>sp_Profile := os_Getenv os ''AWS_PROFILE''\<rparr> else p);
          p = (if sp_Profile p = [] then p\<lparr>sp_Profile := ''default''\<rparr> else p)
      in (sp_Profile p, p))"

definition Shared_Retrieve :: "strconv \<Rightarrow> os \<Rightarrow> SharedCredentialsProvider \<Rightarrow>
    (cred_result \<times> SharedCredentialsProvider) option" where
  "Shared_Retrieve pnum os p =
     (let p = p\<lparr>sp_retrieved := False\<rparr> in
      case sp_filename os p of
        (Inl err, p) \<Rightarrow> Some ((named_Value SharedCredsProviderName, Some err), p)
      | (Inr filename, p) \<Rightarrow>
          (case sp_profile os p of (profile, p) \<Rightarrow>
             (case loadProfile pnum os filename profile of
                None \<Rightarrow> None
              | Some (creds, Some err) \<Rightarrow> Some ((named_Value SharedCredsProviderName, Some err), p)
              | Some (creds, None) \<Rightarrow> Some ((creds, None), p\<lparr>sp_retrieved := True\<rparr>))))"

section \<open>Chains of providers\<close>

record 'p ChainProvider =
  ch_Providers :: "'p list"
  ch_curr :: "nat option"
  ch_VerboseErrors :: bool

definition ErrNoValidProvidersFoundInChain :: goerror where
  "ErrNoValidProvidersFoundInChain = awserr_New ''NoCredentialProviders''
     (''no valid providers in chain. Deprecated.'' @ [char_of (10 :: nat), char_of (9 :: nat)] @
      ''For verbose messaging see aws.Config.CredentialsChainVerboseErrors'') None"

text \<open>The loop of \<open>Retrieve\<close>: the value and the index of the provider that gave it, or the errors.
  The index stands for the pointer \<open>curr\<close> to that provider.\<close>

fun chain_try :: "'p Provider \<Rightarrow> nat \<Rightarrow> goerror list \<Rightarrow> 'p list \<Rightarrow> ((CredValue \<times> nat + goerror list) \<times> 'p list) option" where
  "chain_try P i errs [] = Some (Inr errs, [])"
| "chain_try P i errs (p # ps) = (case pv_Retrieve P p of
     None \<Rightarrow> None
   | Some ((creds, None), p) \<Rightarrow> Some (Inl (creds, i), p # ps)
   | Some ((creds, Some err), p) \<Rightarrow> map_option (map_prod id (Cons p)) (chain_try P (Suc i) (errs @ [err]) ps))"

definition Chain_Retrieve :: "'p Provider \<Rightarrow> 'p ChainProvider \<Rightarrow> (cred_result \<times> 'p ChainProvider) option" where
  "Chain_Retrieve P c = (case chain_try P 0 [] (ch_Providers c) of
     None \<Rightarrow> None
   | Some (Inl (creds, i), ps) \<Rightarrow> Some ((creds, None), c\<lparr>ch_Providers := ps, ch_curr := Some i\<rparr>)
   | Some (Inr errs, ps) \<Rightarrow>
       Some ((zero_Value, Some (if ch_VerboseErrors c
               then NewBatchError ''NoCredentialProviders'' ''no valid providers in chain'' errs
               else ErrNoValidProvidersFoundInChain)),
             c\<lparr>ch_Providers := ps, ch_curr := None\<rparr>))"

definition Chain_IsExpired :: "'p Provider \<Rightarrow> 'p ChainProvider \<Rightarrow> bool" where
  "Chain_IsExpired P c = (case ch_curr c of
     Some i \<Rightarrow> pv_IsExpired P (ch_Providers c ! i)
   | None \<Rightarrow> True)"

definition chain_Provider :: "'p Provider \<Rightarrow> 'p ChainProvider Provider" where
  "chain_Provider P = \<lparr>pv_Retrieve = Chain_Retrieve P, pv_IsExpired = Chain_IsExpired P, pv_ExpiresAt = None\<rparr>"

definition NewChainCredentials :: "'p list \<Rightarrow> 'p ChainProvider Credentials" where
  "NewChainCredentials providers = NewCredentials \<lparr>ch_Providers = providers, ch_curr = None, ch_VerboseErrors = False\<rparr>"

definition static_Provider :: "CredValue Provider" where
  "static_Provider = \<lparr>pv_Retrieve = (\<lambda>s. Some (Static_Retrieve s)), pv_IsExpired = (\<lambda>_. False), pv_ExpiresAt = None\<rparr>"

definition env_Provider :: "os \<Rightarrow> bool Provider" where
  "env_Provider os = \<lparr>pv_Retrieve = (\<lambda>e. Some (Env_Retrieve os e)), pv_IsExpired = (\<lambda>e. \<not> e), pv_ExpiresAt = None\<rparr>"

definition shared_Provider :: "strconv \<Rightarrow> os \<Rightarrow> SharedCredentialsProvider Provider" where
  "shared_Provider pnum os = \<lparr>pv_Retrieve = Shared_Retrieve pnum os, pv_IsExpired = (\<lambda>p. \<not> sp_retrieved p), pv_ExpiresAt = None\<rparr>"

lemmas provider_defs = static_Provider_def env_Provider_def shared_Provider_def chain_Provider_def

section \<open>Providers whose values last\<close>

text \<open>
  The contract of a provider whose values last: in the states \<open>ok\<close>, which \<open>Retrieve\<close> keeps, a
  successful \<open>Retrieve\<close> gives a value that is not the zero value and has not expired.
\<close>

locale lasting_provider =
  fixes P :: "'p Provider"
    and ok :: "'p \<Rightarrow> bool"
  assumes keeps: "ok p \<Longrightarrow> pv_Retrieve P p = Some (res, p') \<Longrightarrow> ok p'"
    and lasts: "ok p \<Longrightarrow> pv_Retrieve P p = Some ((v, None), p') \<Longrightarrow> v \<noteq> zero_Value \<and> \<not> pv_IsExpired P p'"
begin

lemma get_fresh:
  assumes "ok (cr_provider c)" and "Credentials_Get P c = Some ((v, None), c')"
  shows "cr_creds c' = v \<and> \<not> isExpiredLocked P c' v \<and> ok (cr_provider c')"
proof (cases "isExpiredLocked P c (cr_creds c)")
  case False
  with assms show ?thesis by (auto simp: Credentials_Get_def GetWithContext_def asyncIsExpired_def)
next
  case True
  with assms(2) obtain p where "pv_Retrieve P (cr_provider c) = Some ((v, None), p)"
    and c': "c' = c\<lparr>cr_provider := p, cr_creds := v\<rparr>"
    by (auto simp: Credentials_Get_def GetWithContext_def asyncIsExpired_def singleRetrieve_def Let_def
        split: option.splits if_splits)
  with keeps lasts assms(1) show ?thesis by (auto simp: isExpiredLocked_def)
qed

lemma get_again:
  assumes "ok (cr_provider c)" and "Credentials_Get P c = Some ((v, None), c')"
  shows "GetWithContext P e False done2 c' = Some ((v, None), c')"
  using get_fresh [OF assms] by (simp add: GetWithContext_def asyncIsExpired_def)

lemma chain_try_lasting:
  assumes "\<forall>p \<in> set ps. ok p" and "chain_try P i errs ps = Some (r, ps')"
  shows "length ps' = length ps \<and> (\<forall>p \<in> set ps'. ok p) \<and>
    (\<forall>v j. r = Inl (v, j) \<longrightarrow> i \<le> j \<and> j < i + length ps \<and> v \<noteq> zero_Value \<and> \<not> pv_IsExpired P (ps' ! (j - i)))"
  using assms
proof (induction ps arbitrary: i errs r ps')
  case (Cons p ps)
  obtain v err p' where p: "pv_Retrieve P p = Some ((v, err), p')"
    using Cons.prems(2) by (auto split: option.splits)
  have ok: "ok p" using Cons.prems(1) by simp
  show ?case
  proof (cases err)
    case None
    with Cons.prems p have "r = Inl (v, i)" "ps' = p' # ps" by simp_all
    with keeps [OF ok p] lasts [OF ok] p None Cons.prems(1) show ?thesis by simp
  next
    case (Some e)
    with Cons.prems(2) p obtain qs where q: "chain_try P (Suc i) (errs @ [e]) ps = Some (r, qs)" "ps' = p' # qs"
      by (auto split: option.splits)
    have "\<forall>p \<in> set ps. ok p" using Cons.prems(1) by simp
    note IH = Cons.IH [OF this q(1)]
    have "ps' ! (j - i) = qs ! (j - Suc i)" if "Suc i \<le> j" for j
      using that q(2) by (simp add: nth_Cons' Suc_diff_le)
    with IH keeps [OF ok p] q(2) show ?thesis by auto
  qed
qed simp

lemma chain_lasting: "lasting_provider (chain_Provider P) (\<lambda>c. \<forall>p \<in> set (ch_Providers c). ok p)"
proof
  fix c res c'
  assume ok: "\<forall>p \<in> set (ch_Providers c). ok p" and r: "pv_Retrieve (chain_Provider P) c = Some (res, c')"
  from r obtain x ps where x: "chain_try P 0 [] (ch_Providers c) = Some (x, ps)" and c': "ch_Providers c' = ps"
    by (auto simp: chain_Provider_def Chain_Retrieve_def split: option.splits sum.splits)
  with chain_try_lasting [OF ok x] show "\<forall>p \<in> set (ch_Providers c'). ok p" by simp
next
  fix c v c'
  assume ok: "\<forall>p \<in> set (ch_Providers c). ok p" and r: "pv_Retrieve (chain_Provider P) c = Some ((v, None), c')"
  from r obtain i ps where x: "chain_try P 0 [] (ch_Providers c) = Some (Inl (v, i), ps)"
    and c': "c' = c\<lparr>ch_Providers := ps, ch_curr := Some i\<rparr>"
    by (auto simp: chain_Provider_def Chain_Retrieve_def split: option.splits sum.splits)
  from chain_try_lasting [OF ok x] c' show "v \<noteq> zero_Value \<and> \<not> pv_IsExpired (chain_Provider P) c'"
    by (simp add: chain_Provider_def Chain_IsExpired_def)
qed

end

lemma key_not_zero: "cv_AccessKeyID v \<noteq> [] \<Longrightarrow> v \<noteq> zero_Value"
  by (auto simp: zero_Value_def)

interpretation static: lasting_provider static_Provider "\<lambda>_. True"
  by unfold_locales (auto simp: static_Provider_def Static_Retrieve_def Let_def key_not_zero split: if_splits)

interpretation env: lasting_provider "env_Provider os" "\<lambda>_. True" for os
  by unfold_locales (auto simp: env_Provider_def Env_Retrieve_def Let_def key_not_zero split: if_splits)

lemma loadProfile_success:
  assumes "loadProfile pnum os filename profile = Some (v, None)"
  shows "cv_AccessKeyID v \<noteq> [] \<and> cv_SecretAccessKey v \<noteq> []"
  using assms by (auto simp: loadProfile_def Let_def split: option.splits sum.splits if_splits)

lemma loadProfile_not_zero: "loadProfile pnum os filename profile \<noteq> Some (zero_Value, None)"
  using loadProfile_success key_not_zero by blast

interpretation shared: lasting_provider "shared_Provider pnum os" "\<lambda>_. True" for pnum os
  by unfold_locales (auto simp: shared_Provider_def Shared_Retrieve_def Let_def loadProfile_not_zero split: option.splits sum.splits prod.splits if_splits)

section \<open>Which provider a chain takes\<close>

definition fails_at :: "'p Provider \<Rightarrow> 'p \<Rightarrow> bool" where
  "fails_at P p \<longleftrightarrow> (\<exists>v e p'. pv_Retrieve P p = Some ((v, Some e), p'))"

lemma chain_try_first:
  assumes "chain_try P i errs ps = Some (Inl (v, j), ps')"
  shows "\<exists>k p'. j = i + k \<and> k < length ps \<and> pv_Retrieve P (ps ! k) = Some ((v, None), p') \<and> ps' ! k = p' \<and>
    (\<forall>m < k. fails_at P (ps ! m)) \<and> length ps' = length ps \<and> drop (Suc k) ps' = drop (Suc k) ps"
  using assms
proof (induction ps arbitrary: i errs ps')
  case (Cons p ps)
  obtain w err p' where p: "pv_Retrieve P p = Some ((w, err), p')"
    using Cons.prems by (auto split: option.splits)
  show ?case
  proof (cases err)
    case None
    with Cons.prems p show ?thesis by (intro exI [of _ 0]) auto
  next
    case (Some e)
    with Cons.prems p obtain qs where q: "chain_try P (Suc i) (errs @ [e]) ps = Some (Inl (v, j), qs)" "ps' = p' # qs"
      by (auto split: option.splits)
    obtain k q' where k: "j = Suc i + k" "k < length ps" "pv_Retrieve P (ps ! k) = Some ((v, None), q')" "qs ! k = q'"
      "\<forall>m < k. fails_at P (ps ! m)" "length qs = length ps" "drop (Suc k) qs = drop (Suc k) ps"
      using Cons.IH [OF q(1)] by blast
    have "\<forall>m < Suc k. fails_at P ((p # ps) ! m)"
      using k(5) p Some by (auto simp: fails_at_def less_Suc_eq_0_disj)
    with k q(2) show ?thesis by (intro exI [of _ "Suc k"]) simp
  qed
qed simp

lemma chain_try_all_fail:
  assumes "chain_try P i errs ps = Some (Inr es, ps')"
  shows "(\<forall>p \<in> set ps. fails_at P p) \<and> length es = length errs + length ps"
  using assms
proof (induction ps arbitrary: i errs ps')
  case (Cons p ps)
  obtain w err p' where p: "pv_Retrieve P p = Some ((w, err), p')"
    using Cons.prems by (auto split: option.splits)
  with Cons.prems obtain e where e: "err = Some e" by (cases err) auto
  with Cons.prems p obtain qs where "chain_try P (Suc i) (errs @ [e]) ps = Some (Inr es, qs)"
    by (auto split: option.splits)
  from Cons.IH [OF this] p e show ?case by (auto simp: fails_at_def)
qed simp

section \<open>A credentials file that was written as text\<close>

lemma map_of_rev_map: "map_of (rev (map (map_prod id g) xs)) k = map_option g (map_of (rev xs) k)"
proof -
  have "rev (map (map_prod id g) xs) = map (\<lambda>(k, v). (k, g v)) (rev xs)" by (simp add: rev_map map_prod_def id_def)
  then show ?thesis by (simp add: map_of_map)
qed

lemma Trim_value: "value_ok v \<Longrightarrow> TrimFunc isTrimmable v = v"
proof -
  assume v: "value_ok v"
  then have ne: "v \<noteq> []" by (simp add: value_ok_def)
  then have "text_rune (last v)" using v by (simp add: value_ok_def)
  then have "32 \<le> last v" by (simp add: text_rune_def)
  with v have l: "\<not> isTrimmable (last v)" by (auto simp: value_ok_def isTrimmable_def LF_def)
  have h: "\<not> isTrimmable (hd v)" using v by (simp add: value_ok_def lit_rune_def text_rune_def isTrimmable_def LF_def)
  have "dropWhile isTrimmable v = v" using h ne by (cases v) auto
  moreover have "dropWhile isTrimmable (rev v) = rev v"
    using l ne by (cases v rule: rev_cases) auto
  ultimately show ?thesis by (simp add: TrimFunc_def)
qed

lemma ini_String_entries:
  assumes "sec_values t = map_of (rev (map (map_prod id text_value) es))" and "\<forall>e \<in> set es. value_ok (snd e)"
  shows "ini_String t k = Some (case map_of (rev es) (runes k) of None \<Rightarrow> [] | Some v \<Rightarrow> Runes_str v, t)"
proof (cases "map_of (rev es) (runes k)")
  case None
  then have "sec_values t (runes k) = None" by (simp add: assms(1) map_of_rev_map)
  with None show ?thesis by (simp add: ini_String_def Section_String_def Runes_str_def)
next
  case (Some v)
  then have sv: "sec_values t (runes k) = Some (text_value v)" by (simp add: assms(1) map_of_rev_map)
  have "value_ok v" using map_of_SomeD [OF Some] assms(2) by auto
  with sv have "StringValue (text_value v) = Inr (v, text_value v)"
    by (simp add: StringValue_def text_value_def Trim_value)
  moreover have "t\<lparr>sec_values := (sec_values t)(runes k \<mapsto> text_value v)\<rparr> = t"
    using sv by (simp add: fun_upd_idem)
  ultimately show ?thesis using Some sv by (simp add: ini_String_def Section_String_def bind_res_def)
qed

lemma Runes_str_not_Nil: "v \<noteq> [] \<Longrightarrow> Runes_str v \<noteq> []"
  by (cases v) (auto simp: Runes_str_def utf8_encode_def)

lemma loadProfile_file:
  assumes "file_ok f" and "os_Open os filename = Inr (Inr (file_bytes f))"
    and "map_of (rev f) (str_Runes profile) = Some es"
    and "map_of (rev es) (runes ''aws_access_key_id'') = Some i"
    and "map_of (rev es) (runes ''aws_secret_access_key'') = Some s"
  shows "loadProfile pnum os filename profile = Some ((named_Value SharedCredsProviderName)
    \<lparr>cv_AccessKeyID := Runes_str i, cv_SecretAccessKey := Runes_str s,
     cv_SessionToken := (case map_of (rev es) (runes ''aws_session_token'') of None \<Rightarrow> [] | Some t \<Rightarrow> Runes_str t)\<rparr>, None)"
proof -
  have "(str_Runes profile, es) \<in> set f" using map_of_SomeD [OF assms(3)] by simp
  then have es: "\<forall>e \<in> set es. value_ok (snd e)" using assms(1) by (auto simp: file_ok_def section_ok_def)
  have "value_ok i" "value_ok s" using map_of_SomeD [OF assms(4)] map_of_SomeD [OF assms(5)] es by auto
  then have ne: "Runes_str i \<noteq> []" "Runes_str s \<noteq> []" by (auto simp: value_ok_def intro!: Runes_str_not_Nil)
  have sec: "file_sections f (str_Runes profile) = Some (entries_section es)"
    using assms(3) by (simp add: file_sections_def map_of_rev_map)
  have opened: "ini_OpenFile pnum os filename = Some (Inr (file_sections f))"
    using assms(1,2) by (simp add: ini_OpenFile_def ParseBytes_file)
  have str: "ini_String (entries_section es) k =
      Some (case map_of (rev es) (runes k) of None \<Rightarrow> [] | Some v \<Rightarrow> Runes_str v, entries_section es)" for k
    by (rule ini_String_entries [OF _ es]) (simp add: entries_section_def)
  show ?thesis
    using ne by (simp only: loadProfile_def Let_def GetSection_def opened sec str assms(4,5) option.case sum.case prod.case
        length_0_conv if_False refl)
qed

end
