(* ===== verification/IamTokenRuns.thy ===== *)
theory IamTokenRuns
  imports IamTokenManager
begin

text \<open>
  Runs of the token manager shared by goroutines: \<open>iam_step\<close> interleaves the critical sections of any
  number of calls of \<open>Get\<close> with the other entry points, the firing of the timer and the callbacks it
  starts. \<open>timer_inv\<close> is what every run keeps of the timer: a token that expires is refreshed in the
  background as long as that is enabled, and the timer is never armed otherwise.
\<close>

section \<open>The timer\<close>

definition armed :: "'w tm_state \<Rightarrow> bool" where
  "armed tm \<longleftrightarrow> (\<exists>d. tm_timer tm = Some (Armed d))"

definition expiring :: "'w tm_state \<Rightarrow> bool" where
  "expiring tm \<longleftrightarrow> (\<exists>tk. tm_Cache tm = Some tk \<and> Expiration tk \<noteq> 0)"

text \<open>\<open>p\<close> callbacks of the timer wait for the lock.\<close>

definition timer_inv :: "nat \<Rightarrow> 'w tm_state \<Rightarrow> bool" where
  "timer_inv p tm \<longleftrightarrow>
     (armed tm \<longrightarrow> tm_enable tm = Some True \<and> expiring tm) \<and>
     (tm_enable tm = Some True \<and> expiring tm \<longrightarrow> armed tm \<or> 0 < p) \<and>
     (0 < p \<longrightarrow> tm_Cache tm \<noteq> None)"

lemmas timer_defs = timer_inv_def armed_def expiring_def

lemma new_tm_inv: "timer_inv 0 (new_tm w)"
  by (simp add: timer_defs new_tm_def)

lemma waitingTime_None: "fst (waitingTime cf ttl u a m w) = None \<longleftrightarrow> u = 0"
  by (auto simp: waitingTime_def Let_def split: prod.split)

lemma stopTimer_simps [simp]:
  "tm_Cache (stopTimer tm) = tm_Cache tm" "tm_enable (stopTimer tm) = tm_enable tm"
  "tm_world (stopTimer tm) = tm_world tm" "tm_tokenTTL (stopTimer tm) = tm_tokenTTL tm" "\<not> armed (stopTimer tm)"
  by (auto simp: stopTimer_def armed_def)

lemma resetTimer_returns: "tm_Cache tm \<noteq> None \<Longrightarrow> resetTimer cf tm \<noteq> None"
  by (auto simp: resetTimer_def Let_def split: option.splits prod.splits)

lemma resetTimer_fields:
  "resetTimer cf tm = Some (u, tm') \<Longrightarrow> tm_Cache tm' = tm_Cache tm \<and> tm_enable tm' = tm_enable tm"
  by (auto simp: resetTimer_def Let_def split: option.splits prod.splits if_splits)

lemma resetTimer_armed:
  assumes "resetTimer cf tm = Some (u, tm')" and "tm_enable tm = Some True"
  shows "armed tm' \<longleftrightarrow> expiring tm'"
proof -
  from assms obtain tk where tk: "tm_Cache tm = Some tk" by (auto simp: resetTimer_def split: option.splits)
  obtain d w where w: "waitingTime cf (tm_tokenTTL tm) (Expiration tk) (tc_advisory cf) (tc_mandatory cf) (tm_world tm) = (d, w)"
    by fastforce
  have "d = None \<longleftrightarrow> Expiration tk = 0" using waitingTime_None w by (metis fst_conv)
  with assms tk w show ?thesis
    by (cases d) (auto simp: resetTimer_def armed_def expiring_def Let_def split: option.splits if_splits)
qed

lemma resetTimer_inv:
  assumes "resetTimer cf tm = Some (u, tm')" and "tm_enable tm \<noteq> Some True \<Longrightarrow> \<not> armed tm"
    and "0 < p \<Longrightarrow> tm_Cache tm \<noteq> None"
  shows "timer_inv p tm'"
proof (cases "tm_enable tm = Some True")
  case True
  with resetTimer_armed [OF assms(1)] resetTimer_fields [OF assms(1)] assms(3) show ?thesis
    by (auto simp: timer_inv_def)
next
  case False
  with assms show ?thesis by (auto simp: resetTimer_def timer_inv_def)
qed

section \<open>Initial token and refresh\<close>

lemma tm_init_cases:
  assumes "tm_init cf tm = Some (res, tm')"
  obtains (failed) err w where "res = Inl err" "tm' = tm\<lparr>tm_world := w\<rparr>"
  | (fetched) tk tm1 u where "res = Inr tk" "tm_Cache tm1 = Some tk" "tm_enable tm1 \<noteq> None"
      "tm_enable tm \<noteq> None \<Longrightarrow> tm_enable tm1 = tm_enable tm" "armed tm1 = armed tm" "resetTimer cf tm1 = Some (u, tm')"
proof -
  obtain r w where r: "tc_init cf (tm_world tm) = (r, w)" by fastforce
  show thesis
  proof (cases r)
    case (Inl e)
    with assms r failed show thesis by (auto simp: tm_init_def)
  next
    case (Inr t)
    with assms r obtain tk where t: "t = Some tk" by (cases t) (auto simp: tm_init_def)
    obtain ttl w1 where g: "getTTL cf (Expiration tk) w = (ttl, w1)" by fastforce
    let ?tm1 = "tm\<lparr>tm_Cache := Some tk, tm_tokenTTL := ttl,
        tm_enable := (if tm_enable tm = None then Some True else tm_enable tm), tm_world := w1\<rparr>"
    from assms r Inr t g obtain u where "resetTimer cf ?tm1 = Some (u, tm')" "res = Inr tk"
      by (auto simp: tm_init_def Let_def split: option.splits)
    then show thesis by (intro fetched [of tk ?tm1 u]) (auto simp: armed_def)
  qed
qed

lemma tm_init_cache:
  assumes "tm_init cf tm = Some (res, tm')"
  shows "(case res of Inl _ \<Rightarrow> tm_Cache tm' = tm_Cache tm \<and> tm_enable tm' = tm_enable tm
    | Inr tk \<Rightarrow> tm_Cache tm' = Some tk \<and> tm_enable tm' \<noteq> None)"
  using assms by (cases rule: tm_init_cases) (auto dest: resetTimer_fields)

lemma tm_init_inv:
  assumes "tm_init cf tm = Some (res, tm')" and "timer_inv p tm"
  shows "timer_inv p tm'"
  using assms(1)
proof (cases rule: tm_init_cases)
  case (failed err w)
  with assms(2) show ?thesis by (simp add: timer_defs)
next
  case (fetched tk tm1 u)
  have "\<not> armed tm1" if "tm_enable tm1 \<noteq> Some True"
  proof
    assume "armed tm1"
    then have "tm_enable tm = Some True" using fetched(5) assms(2) by (simp add: timer_inv_def)
    with fetched(4) that show False by simp
  qed
  with fetched show ?thesis by (intro resetTimer_inv [of cf tm1 u]) auto
qed

text \<open>Inside \<open>refresh\<close> the timer is stopped first and reset last.\<close>

lemma refresh_body_keeps:
  assumes "refresh_body cf tm = Some (err, tm')" and "\<not> armed tm"
  shows "tm_Cache tm' \<noteq> None" and "tm_enable tm' \<noteq> Some True \<Longrightarrow> \<not> armed tm'"
proof -
  from assms(1) obtain tk where tk: "tm_Cache tm = Some tk" by (auto simp: refresh_body_def split: option.splits)
  obtain b where b: "buildRequest (tc_parseURL cf) (tc_authEndPoint cf) grantRefreshToken [(''refresh_token'', [RefreshToken tk])] = b"
    by blast
  have "tm_Cache tm' \<noteq> None \<and> (tm_enable tm' \<noteq> Some True \<longrightarrow> \<not> armed tm')"
  proof (cases b)
    case (Inl e)
    with assms tk b show ?thesis by (auto simp: refresh_body_def armed_def)
  next
    case req: (Inr req)
    obtain r w where r: "tc_Do cf req (tm_world tm) = (r, w)" by fastforce
    show ?thesis
    proof (cases r)
      case (Inl e)
      with assms tk b req r show ?thesis by (auto simp: refresh_body_def armed_def)
    next
      case resp: (Inr response)
      show ?thesis
      proof (cases "processResponse cf response")
        case err: (Inl e)
        show ?thesis
        proof (cases "hp_StatusCode response = 400")
          case True
          with assms(1) tk b req r resp err obtain res where i: "tm_init cf (tm\<lparr>tm_world := w\<rparr>) = Some (res, tm')"
            by (auto simp: refresh_body_def split: option.splits)
          from i show ?thesis
          proof (cases rule: tm_init_cases)
            case (failed err' w')
            with assms(2) tk show ?thesis by (simp add: armed_def)
          next
            case (fetched tk' tm1 u)
            have "armed tm1 = armed tm" using fetched(5) by (simp add: armed_def)
            then have "timer_inv 0 tm'" using assms(2) by (intro resetTimer_inv [OF fetched(6)]) simp_all
            then have "tm_enable tm' \<noteq> Some True \<longrightarrow> \<not> armed tm'" unfolding timer_inv_def by blast
            moreover have "tm_Cache tm' = Some tk'" using fetched(2) resetTimer_fields [OF fetched(6)] by simp
            ultimately show ?thesis by simp
          qed
        next
          case False
          with assms tk b req r resp err show ?thesis by (auto simp: refresh_body_def armed_def)
        qed
      next
        case (Inr tk')
        obtain ttl w1 where g: "getTTL cf (Expiration tk') w = (ttl, w1)" by fastforce
        have "refresh_body cf tm = Some (None, tm\<lparr>tm_Cache := Some tk', tm_tokenTTL := ttl, tm_world := w1\<rparr>)"
          by (simp add: refresh_body_def tk b req r resp Inr g)
        then have "tm' = tm\<lparr>tm_Cache := Some tk', tm_tokenTTL := ttl, tm_world := w1\<rparr>" using assms(1) by simp
        then show ?thesis using assms(2) by (simp add: armed_def)
      qed
    qed
  qed
  then show "tm_Cache tm' \<noteq> None" and "tm_enable tm' \<noteq> Some True \<Longrightarrow> \<not> armed tm'" by blast+
qed

lemma refresh_inv:
  assumes "refresh cf tm = Some (err, tm')"
  shows "timer_inv p tm'" and "tm_Cache tm' \<noteq> None"
proof -
  from assms obtain tm1 u where b: "refresh_body cf (stopTimer tm) = Some (err, tm1)" and t: "resetTimer cf tm1 = Some (u, tm')"
    by (auto simp: refresh_def split: option.splits)
  note k = refresh_body_keeps [OF b]
  show "timer_inv p tm'" using k by (intro resetTimer_inv [OF t]) auto
  show "tm_Cache tm' \<noteq> None" using resetTimer_fields [OF t] k by simp
qed

section \<open>What Get returns\<close>

text \<open>The check of a token, at the time the world tells.\<close>

definition passes :: "'w tm_config \<Rightarrow> int \<Rightarrow> IamToken \<Rightarrow> 'w \<Rightarrow> bool" where
  "passes cf ttl tk w = (case fst (waitingTime cf ttl (Expiration tk) None (tc_mandatory cf) w) of
     None \<Rightarrow> True | Some d \<Rightarrow> minimumDelta < d)"

definition just_checked :: "'w tm_config \<Rightarrow> IamToken \<Rightarrow> 'w tm_state \<Rightarrow> bool" where
  "just_checked cf tk tm \<longleftrightarrow> tm_Cache tm = Some tk \<and>
     (\<exists>w. passes cf (tm_tokenTTL tm) tk w \<and>
       tm_world tm = snd (waitingTime cf (tm_tokenTTL tm) (Expiration tk) None (tc_mandatory cf) w))"

lemma check_cases:
  assumes "tm_Cache tm = Some tk"
  shows "retrieveCheckGet cf tm = Some (if passes cf (tm_tokenTTL tm) tk (tm_world tm) then Some tk else None,
    tm\<lparr>tm_world := snd (waitingTime cf (tm_tokenTTL tm) (Expiration tk) None (tc_mandatory cf) (tm_world tm))\<rparr>)"
  using assms by (auto simp: retrieveCheckGet_def passes_def split: option.splits prod.splits)

lemma check_result:
  assumes "retrieveCheckGet cf tm = Some (res, tm')"
  obtains tk w where "tm_Cache tm = Some tk" "tm' = tm\<lparr>tm_world := w\<rparr>"
    "res = (if passes cf (tm_tokenTTL tm) tk (tm_world tm) then Some tk else None)"
    "res \<noteq> None \<longrightarrow> just_checked cf tk tm'"
proof -
  from assms obtain tk where tk: "tm_Cache tm = Some tk" by (auto simp: retrieveCheckGet_def split: option.splits)
  note c = check_cases [OF tk, of cf]
  define w where "w = snd (waitingTime cf (tm_tokenTTL tm) (Expiration tk) None (tc_mandatory cf) (tm_world tm))"
  from assms c have r: "res = (if passes cf (tm_tokenTTL tm) tk (tm_world tm) then Some tk else None)"
    and t: "tm' = tm\<lparr>tm_world := w\<rparr>"
    by (simp_all add: w_def)
  show thesis
    by (rule that [OF tk t r]) (use r t tk in \<open>auto simp: just_checked_def w_def split: if_splits\<close>)
qed

lemma world_inv [simp]: "timer_inv p (tm\<lparr>tm_world := w\<rparr>) = timer_inv p tm"
  by (simp add: timer_defs)

lemma fetch_loop_spec:
  assumes "fetch_loop cf tm = Some (Some (res, tm'))"
  shows "(case res of (Some tk, err) \<Rightarrow> err = None \<and> just_checked cf tk tm' | (None, err) \<Rightarrow> err \<noteq> None) \<and>
    (timer_inv p tm \<longrightarrow> timer_inv p tm') \<and> tm_Cache tm' \<noteq> None"
  using assms
proof (induction cf tm "Some (res, tm')" arbitrary: res tm' rule: fetch_loop.raw_induct [rotated, consumes 1, case_names step])
  case (step fl cf tm res tm')
  from step.hyps(2) obtain c tm1 where c: "retrieveCheckGet cf tm = Some (c, tm1)"
    by (auto split: option.splits)
  then obtain tk w where tk: "tm_Cache tm = Some tk" "tm1 = tm\<lparr>tm_world := w\<rparr>"
      "c = (if passes cf (tm_tokenTTL tm) tk (tm_world tm) then Some tk else None)" "c \<noteq> None \<longrightarrow> just_checked cf tk tm1"
    by (rule check_result)
  show ?case
  proof (cases c)
    case (Some t)
    have "t = tk" using tk(3) Some by (simp split: if_splits)
    moreover have "res = (Some t, None)" "tm' = tm1" using step.hyps(2) c Some by simp_all
    ultimately show ?thesis using tk(1,2,4) Some by simp
  next
    case None
    from step.hyps(2) c None obtain err tm2 where r: "refresh cf tm1 = Some (err, tm2)"
      by (auto split: option.splits)
    note inv = refresh_inv [OF r]
    show ?thesis
    proof (cases err)
      case (Some e)
      have "res = (None, Some e)" "tm' = tm2" using step.hyps(2) c None r Some by simp_all
      then show ?thesis using inv by simp
    next
      case e: None
      have "fl cf tm2 = Some (Some (res, tm'))" using step.hyps(2) c None r e by simp
      from step.hyps(1) [OF this] inv(1) show ?thesis by blast
    qed
  qed
qed

section \<open>Goroutines sharing a token manager\<close>

record 'w iam_system =
  sy_tm :: "'w tm_state"
  sy_pending :: nat
  sy_gets :: "get_phase list"

inductive iam_step :: "'w tm_config \<Rightarrow> 'w iam_system \<Rightarrow> 'w iam_system \<Rightarrow> bool" for cf where
  read: "i < length (sy_gets s) \<Longrightarrow> sy_gets s ! i = GetStart \<Longrightarrow> Get_read cf (sy_tm s) = Some (ph, tm) \<Longrightarrow>
    iam_step cf s (s\<lparr>sy_tm := tm, sy_gets := (sy_gets s)[i := ph]\<rparr>)"
| init: "i < length (sy_gets s) \<Longrightarrow> sy_gets s ! i = WantInit \<Longrightarrow> retrieveInit cf (sy_tm s) = Some (res, tm) \<Longrightarrow>
    iam_step cf s (s\<lparr>sy_tm := tm, sy_gets := (sy_gets s)[i := GetReturned res]\<rparr>)"
| fetch: "i < length (sy_gets s) \<Longrightarrow> sy_gets s ! i = WantFetch \<Longrightarrow> fetch_loop cf (sy_tm s) = Some (Some (res, tm)) \<Longrightarrow>
    iam_step cf s (s\<lparr>sy_tm := tm, sy_gets := (sy_gets s)[i := GetReturned res]\<rparr>)"
| refresh: "Refresh cf (sy_tm s) = Some (err, tm) \<Longrightarrow> iam_step cf s (s\<lparr>sy_tm := tm\<rparr>)"
| stop: "iam_step cf s (s\<lparr>sy_tm := StopBackgroundRefresh (sy_tm s)\<rparr>)"
| start: "StartBackgroundRefresh cf (sy_tm s) = Some (u, tm) \<Longrightarrow> iam_step cf s (s\<lparr>sy_tm := tm\<rparr>)"
| fire: "tm_timer (sy_tm s) = Some (Armed d) \<Longrightarrow>
    iam_step cf s (s\<lparr>sy_tm := (sy_tm s)\<lparr>tm_timer := Some Disarmed\<rparr>, sy_pending := Suc (sy_pending s)\<rparr>)"
| background: "sy_pending s = Suc p \<Longrightarrow> backgroundRefreshFunc cf (sy_tm s) = Some (u, tm) \<Longrightarrow>
    iam_step cf s (s\<lparr>sy_tm := tm, sy_pending := p\<rparr>)"
| tick: "iam_step cf s (s\<lparr>sy_tm := (sy_tm s)\<lparr>tm_world := w\<rparr>\<rparr>)"

inductive iam_reaches :: "'w tm_config \<Rightarrow> 'w iam_system \<Rightarrow> bool" for cf where
  start: "iam_reaches cf \<lparr>sy_tm = new_tm w, sy_pending = 0, sy_gets = replicate n GetStart\<rparr>"
| step: "iam_reaches cf s \<Longrightarrow> iam_step cf s s' \<Longrightarrow> iam_reaches cf s'"

lemmas op_results = option.splits prod.splits sum.splits

lemma Get_read_spec:
  assumes "Get_read cf tm = Some (ph, tm')"
  shows "(\<exists>w. tm' = tm\<lparr>tm_world := w\<rparr>)" and "ph \<noteq> GetStart"
    and "ph = WantInit \<longleftrightarrow> tm_Cache tm = None" and "ph = GetReturned (tk, err) \<Longrightarrow> err = None \<and> (\<exists>t. tk = Some t \<and> just_checked cf t tm')"
proof -
  have "(\<exists>w. tm' = tm\<lparr>tm_world := w\<rparr>) \<and> ph \<noteq> GetStart \<and> (ph = WantInit \<longleftrightarrow> tm_Cache tm = None) \<and>
      (\<forall>tk err. ph = GetReturned (tk, err) \<longrightarrow> err = None \<and> (\<exists>t. tk = Some t \<and> just_checked cf t tm'))"
  proof (cases "tm_Cache tm")
    case None
    with assms have "ph = WantInit" "tm' = tm\<lparr>tm_world := tm_world tm\<rparr>" by (auto simp: Get_read_def)
    with None show ?thesis by blast
  next
    case (Some t)
    with assms obtain c where c: "retrieveCheckGet cf tm = Some (c, tm')"
      by (auto simp: Get_read_def split: option.splits)
    then obtain tk w where tk: "tm_Cache tm = Some tk" "tm' = tm\<lparr>tm_world := w\<rparr>"
      "c = (if passes cf (tm_tokenTTL tm) tk (tm_world tm) then Some tk else None)" "c \<noteq> None \<longrightarrow> just_checked cf tk tm'"
      by (rule check_result)
    show ?thesis
    proof (cases c)
      case None
      with assms Some c have "ph = WantFetch" by (simp add: Get_read_def)
      with Some tk(2) show ?thesis by auto
    next
      case c': (Some t')
      with assms Some c have "ph = GetReturned (Some t', None)" by (simp add: Get_read_def)
      moreover have "t' = tk" using tk(3) c' by (simp split: if_splits)
      ultimately show ?thesis using Some tk(2,4) c' by auto
    qed
  qed
  then show "(\<exists>w. tm' = tm\<lparr>tm_world := w\<rparr>)" "ph \<noteq> GetStart" "ph = WantInit \<longleftrightarrow> tm_Cache tm = None"
    "ph = GetReturned (tk, err) \<Longrightarrow> err = None \<and> (\<exists>t. tk = Some t \<and> just_checked cf t tm')"
    by blast+
qed

lemma retrieveInit_inv:
  assumes "retrieveInit cf tm = Some (res, tm')" and "timer_inv p tm"
  shows "timer_inv p tm'"
proof (cases "tm_Cache tm")
  case None
  with assms(1) obtain r where "tm_init cf tm = Some (r, tm')"
    by (auto simp: retrieveInit_def split: op_results)
  then show ?thesis using assms(2) by (rule tm_init_inv)
next
  case (Some t)
  with assms(1) obtain c where "retrieveCheckGet cf tm = Some (c, tm')"
    by (auto simp: retrieveInit_def split: op_results)
  then show ?thesis using assms(2) by (auto elim!: check_result)
qed

lemma Stop_inv: "timer_inv p tm \<Longrightarrow> timer_inv p (StopBackgroundRefresh tm)"
  by (auto simp: StopBackgroundRefresh_def timer_inv_def armed_def expiring_def stopTimer_def)

lemma Start_inv:
  assumes "StartBackgroundRefresh cf tm = Some (u, tm')" and "timer_inv p tm"
  shows "timer_inv p tm'"
proof (rule resetTimer_inv)
  show "resetTimer cf (tm\<lparr>tm_enable := Some True\<rparr>) = Some (u, tm')"
    using assms(1) by (simp add: StartBackgroundRefresh_def)
qed (use assms(2) in \<open>auto simp: timer_inv_def\<close>)

lemma background_inv:
  assumes "backgroundRefreshFunc cf tm = Some (u, tm')" and "timer_inv (Suc p) tm"
  shows "timer_inv p tm'"
proof -
  obtain tk where tk: "tm_Cache tm = Some tk" using assms(2) by (auto simp: timer_inv_def)
  obtain wait w where w: "waitingTime cf (tm_tokenTTL tm) (Expiration tk) (tc_advisory cf) (tc_mandatory cf) (tm_world tm) = (wait, w)"
    by fastforce
  show ?thesis
  proof (cases "case wait of None \<Rightarrow> False | Some d \<Rightarrow> d < minimumDelta")
    case True
    with assms(1) tk w obtain e where "refresh cf (tm\<lparr>tm_world := w\<rparr>) = Some (e, tm')"
      by (auto simp: backgroundRefreshFunc_def)
    then show ?thesis by (rule refresh_inv)
  next
    case False
    with assms(1) tk w have "resetTimer cf (tm\<lparr>tm_world := w\<rparr>) = Some (u, tm')"
      by (simp add: backgroundRefreshFunc_def)
    then show ?thesis
    proof (rule resetTimer_inv)
      show "\<not> armed (tm\<lparr>tm_world := w\<rparr>)" if "tm_enable (tm\<lparr>tm_world := w\<rparr>) \<noteq> Some True"
        using assms(2) that by (auto simp: timer_inv_def armed_def)
    qed (simp add: tk)
  qed
qed

lemma fire_inv:
  "timer_inv p tm \<Longrightarrow> tm_timer tm = Some (Armed d) \<Longrightarrow> timer_inv (Suc p) (tm\<lparr>tm_timer := Some Disarmed\<rparr>)"
  by (auto simp: timer_defs)

lemma iam_step_inv:
  "iam_step cf s s' \<Longrightarrow> timer_inv (sy_pending s) (sy_tm s) \<Longrightarrow> timer_inv (sy_pending s') (sy_tm s')"
proof (induction rule: iam_step.induct)
  case (read i s ph tm)
  then show ?case using Get_read_spec(1) [OF read.hyps(3)] by auto
next
  case (fetch i s res tm)
  then show ?case using fetch_loop_spec [OF fetch.hyps(3)] by simp
qed (simp_all add: retrieveInit_inv Stop_inv Start_inv background_inv fire_inv Refresh_def refresh_inv)

lemma iam_reaches_inv: "iam_reaches cf s \<Longrightarrow> timer_inv (sy_pending s) (sy_tm s)"
proof (induction rule: iam_reaches.induct)
  case (start w n)
  show ?case using new_tm_inv by simp
next
  case (step s s')
  then show ?case by (blast intro: iam_step_inv)
qed

section \<open>Good and bad services\<close>

lemma resetTimer_keeps:
  assumes "tm_Cache tm = Some tk"
  obtains u tm' where "resetTimer cf tm = Some (u, tm')" "tm_Cache tm' = Some tk" "tm_tokenTTL tm' = tm_tokenTTL tm"
proof -
  from resetTimer_returns [of tm cf] assms obtain u tm' where r: "resetTimer cf tm = Some (u, tm')" by auto
  then have "tm_tokenTTL tm' = tm_tokenTTL tm"
    by (auto simp: resetTimer_def Let_def split: option.splits prod.splits if_splits)
  with r resetTimer_fields [OF r] assms that show thesis by simp
qed

text \<open>The key was revoked: the service answers a refresh with status 400 and gives no initial token.\<close>

definition revoked :: "'w tm_config \<Rightarrow> bool" where
  "revoked cf \<longleftrightarrow> tc_parseURL cf (tc_authEndPoint cf) = None \<and>
     (\<forall>req w. \<exists>resp e w'. tc_Do cf req w = (Inr resp, w') \<and> hp_StatusCode resp = 400 \<and> processResponse cf resp = Inl e) \<and>
     (\<forall>w. \<exists>e w'. tc_init cf w = (Inl e, w'))"

lemma buildRequest_ok:
  "parseURL ep = None \<Longrightarrow> \<exists>r. buildRequest parseURL ep g vs = Inr r"
  by (simp add: buildRequest_def Let_def)

lemma revoked_refresh:
  assumes "revoked cf" and "tm_Cache tm = Some tk"
  obtains tm' where "refresh cf tm = Some (None, tm')" "tm_Cache tm' = Some tk" "tm_tokenTTL tm' = tm_tokenTTL tm"
proof -
  obtain req where req: "buildRequest (tc_parseURL cf) (tc_authEndPoint cf) grantRefreshToken [(''refresh_token'', [RefreshToken tk])] = Inr req"
    using buildRequest_ok assms(1) unfolding revoked_def by blast
  obtain resp e w where "tc_Do cf req (tm_world tm) = (Inr resp, w)" "hp_StatusCode resp = 400" "processResponse cf resp = Inl e"
    using assms(1) unfolding revoked_def by blast
  moreover obtain e' w' where "tc_init cf w = (Inl e', w')" using assms(1) unfolding revoked_def by blast
  ultimately have b: "refresh_body cf (stopTimer tm) = Some (None, (stopTimer tm)\<lparr>tm_world := w'\<rparr>)"
    using assms(2) req by (simp add: refresh_body_def tm_init_def)
  obtain u tm' where "resetTimer cf ((stopTimer tm)\<lparr>tm_world := w'\<rparr>) = Some (u, tm')" "tm_Cache tm' = Some tk"
    "tm_tokenTTL tm' = tm_tokenTTL tm"
    by (rule resetTimer_keeps [of "(stopTimer tm)\<lparr>tm_world := w'\<rparr>" tk cf]) (simp_all add: assms(2))
  with b that show thesis by (simp add: refresh_def)
qed

text \<open>A token that is past its expiration fails the check.\<close>

definition expired_always :: "'w tm_config \<Rightarrow> IamToken \<Rightarrow> bool" where
  "expired_always cf tk \<longleftrightarrow> 0 < Expiration tk \<and>
     (\<forall>w. Expiration tk * 1000000000 \<le> fst (tc_time cf w) \<and> fst (tc_time cf w) < 2 ^ 62)"

definition moderate :: "(int \<Rightarrow> int) option \<Rightarrow> int \<Rightarrow> bool" where
  "moderate f ttl \<longleftrightarrow> (case f of None \<Rightarrow> True | Some f \<Rightarrow> f ttl < 2 ^ 61)"

lemma waitingTime_mandatory:
  assumes "u \<noteq> 0" and "moderate m ttl" and "\<bar>u * 1000000000 - fst (tc_time cf w)\<bar> < 2 ^ 62"
  shows "\<exists>delta w'. waitingTime cf ttl u None m w = (Some (u * 1000000000 - fst (tc_time cf w) - delta), w') \<and>
    delta = max minimumDelta (case m of None \<Rightarrow> minimumDelta | Some f \<Rightarrow> f ttl)"
proof -
  obtain now w1 where t: "tc_time cf w = (now, w1)" by fastforce
  define delta where "delta = max minimumDelta (case m of None \<Rightarrow> minimumDelta | Some f \<Rightarrow> f ttl)"
  have d: "0 \<le> delta" "delta < 2 ^ 61"
    using assms(2) by (auto simp: delta_def moderate_def minimumDelta_def split: option.splits)
  have "sat64 (u * 1000000000 - now) = u * 1000000000 - now" using assms(3) t by (intro sat64_id) auto
  moreover have "wrap64 (u * 1000000000 - now - delta) = u * 1000000000 - now - delta"
    using assms(3) t d by (intro wrap64_id) auto
  ultimately have "waitingTime cf ttl u None m w = (Some (u * 1000000000 - now - delta), w1)"
    using assms(1) t by (auto simp: waitingTime_def Let_def delta_def split: option.splits)
  with t delta_def show ?thesis by auto
qed

lemma expired_fails:
  assumes "expired_always cf tk" and "moderate (tc_mandatory cf) ttl"
  shows "\<not> passes cf ttl tk w"
proof -
  have b: "0 < Expiration tk" "Expiration tk * 1000000000 \<le> fst (tc_time cf w)" "fst (tc_time cf w) < 2 ^ 62"
    using assms(1) by (auto simp: expired_always_def)
  have "\<bar>Expiration tk * 1000000000 - fst (tc_time cf w)\<bar> < 2 ^ 62" using b by auto
  with waitingTime_mandatory [OF _ assms(2) this] b obtain w' where
    "waitingTime cf ttl (Expiration tk) None (tc_mandatory cf) w = (Some (Expiration tk * 1000000000 - fst (tc_time cf w) -
      max minimumDelta (case tc_mandatory cf of None \<Rightarrow> minimumDelta | Some f \<Rightarrow> f ttl)), w')"
    by auto
  with b show ?thesis by (auto simp: passes_def minimumDelta_def)
qed

lemma fetch_loop_stuck:
  assumes "fetch_loop cf tm = Some y" and "revoked cf" and "tm_Cache tm = Some tk"
    and "expired_always cf tk" and "moderate (tc_mandatory cf) (tm_tokenTTL tm)"
  shows False
  using assms
proof (induction cf tm y rule: fetch_loop.raw_induct [rotated, consumes 1, case_names step])
  case (step fl cf tm y)
  define tm1 where "tm1 = tm\<lparr>tm_world := snd (waitingTime cf (tm_tokenTTL tm) (Expiration tk) None (tc_mandatory cf) (tm_world tm))\<rparr>"
  have c: "retrieveCheckGet cf tm = Some (None, tm1)"
    using check_cases [OF step.prems(2)] expired_fails [OF step.prems(3,4)] by (simp add: tm1_def)
  obtain tm2 where r: "refresh cf tm1 = Some (None, tm2)" "tm_Cache tm2 = Some tk" "tm_tokenTTL tm2 = tm_tokenTTL tm"
    by (rule revoked_refresh [OF step.prems(1), of tm1 tk]) (simp_all add: tm1_def step.prems(2))
  have "fl cf tm2 = Some y" using step.hyps c r by simp
  from step.IH [OF this step.prems(1) r(2) step.prems(3)] step.prems(4) r(3) show ?case by simp
qed

lemma Get_stuck:
  assumes "revoked cf" and "tm_Cache tm = Some tk" and "expired_always cf tk" and "moderate (tc_mandatory cf) (tm_tokenTTL tm)"
  shows "Get cf tm = None"
proof -
  define tm1 where "tm1 = tm\<lparr>tm_world := snd (waitingTime cf (tm_tokenTTL tm) (Expiration tk) None (tc_mandatory cf) (tm_world tm))\<rparr>"
  have "retrieveCheckGet cf tm = Some (None, tm1)"
    using check_cases [OF assms(2)] expired_fails [OF assms(3,4)] by (simp add: tm1_def)
  then have "Get_read cf tm = Some (WantFetch, tm1)" using assms(2) by (simp add: Get_read_def)
  moreover have "fetch_loop cf tm1 = None"
    using fetch_loop_stuck [of cf tm1] assms by (cases "fetch_loop cf tm1") (auto simp: tm1_def)
  ultimately show ?thesis by (simp add: Get_def)
qed

section \<open>A service with fixed answers\<close>

definition fixed_config :: "(goerror + IamToken option) \<Rightarrow> HTTPResponse \<Rightarrow> int \<Rightarrow> nat tm_config" where
  "fixed_config i resp now = \<lparr>tc_authEndPoint = ''iam'', tc_Do = (\<lambda>req w. (Inr resp, w)), tc_advisory = None, tc_mandatory = None,
     tc_time = (\<lambda>w. (now, w)), tc_init = (\<lambda>w. (i, w)), tc_parseURL = (\<lambda>_. None),
     tc_unmarshal = (\<lambda>_. Inl (PlainError ''json'')), tc_unmarshalError = (\<lambda>s. Inr (PlainError s))\<rparr>"

definition response400 :: HTTPResponse where
  "response400 = \<lparr>hp_StatusCode = 400, hp_Status = ''400 Bad Request'', hp_ReadAll = Inr ''{}'', hp_Close = None\<rparr>"

definition token_until :: "int \<Rightarrow> IamToken" where
  "token_until e = \<lparr>AccessToken = ''A'', RefreshToken = ''R'', TokenType = ''Bearer'', ExpiresIn = e, Expiration = e\<rparr>"

definition cached_until :: "int \<Rightarrow> nat tm_state" where
  "cached_until e = \<lparr>tm_tokenTTL = e * 1000000000, tm_Cache = Some (token_until e),
     tm_timer = Some (Armed ((e - 3) * 1000000000)), tm_enable = Some True, tm_world = 0\<rparr>"

abbreviation "token_config e \<equiv> fixed_config (Inr (Some (token_until e))) response400 0"

lemmas sample_iam_defs = fixed_config_def response400_def token_until_def cached_until_def new_tm_def

lemma sample_waiting:
  assumes "0 < e" and "e < 1000000"
  shows "waitingTime (token_config e) ttl e None None 0 = (Some ((e - 3) * 1000000000), 0)"
    and "getTTL (token_config e) e 0 = (e * 1000000000, 0)"
proof -
  have "sat64 (e * 1000000000) = e * 1000000000" using assms by (intro sat64_id) auto
  moreover have "wrap64 (e * 1000000000 - minimumDelta) = e * 1000000000 - minimumDelta"
    using assms by (intro wrap64_id) (auto simp: minimumDelta_def)
  ultimately show "waitingTime (token_config e) ttl e None None 0 = (Some ((e - 3) * 1000000000), 0)"
    and "getTTL (token_config e) e 0 = (e * 1000000000, 0)"
    using assms by (simp_all add: waitingTime_def getTTL_def fixed_config_def minimumDelta_def)
qed

lemma sample_init:
  assumes "0 < e" and "e < 1000000"
  shows "retrieveInit (token_config e) (new_tm 0) = Some ((Some (token_until e), None), cached_until e)"
proof -
  have [simp]: "tc_advisory (token_config e) = None" "tc_mandatory (token_config e) = None"
    "tc_init (token_config e) w = (Inr (Some (token_until e)), w)" "Expiration (token_until e) = e" for w
    by (simp_all add: sample_iam_defs)
  show ?thesis
    by (simp add: retrieveInit_def tm_init_def resetTimer_def sample_waiting [OF assms] new_tm_def cached_until_def Let_def)
qed

text \<open>Two first callers: the second finds the token the first has fetched.\<close>

lemma two_first_callers:
  assumes "0 < e" and "e < 1000000"
  shows "iam_reaches (token_config e) \<lparr>sy_tm = cached_until e, sy_pending = 0,
    sy_gets = [GetReturned (Some (token_until e), None), WantInit]\<rparr>"
proof -
  let ?s = "\<lambda>tm gets. \<lparr>sy_tm = tm, sy_pending = 0, sy_gets = gets\<rparr> :: nat iam_system"
  have r: "Get_read (token_config e) (new_tm 0) = Some (WantInit, new_tm 0)" by (simp add: Get_read_def new_tm_def)
  have 0: "iam_reaches (token_config e) (?s (new_tm 0) [GetStart, GetStart])"
    using iam_reaches.start [of "token_config e" 0 2] by (simp add: numeral_2_eq_2)
  have "iam_step (token_config e) (?s (new_tm 0) [GetStart, GetStart]) (?s (new_tm 0) [WantInit, GetStart])"
    using iam_step.read [of 0 "?s (new_tm 0) [GetStart, GetStart]"] r by simp
  then have 1: "iam_reaches (token_config e) (?s (new_tm 0) [WantInit, GetStart])" using 0 by (rule iam_reaches.step [rotated])
  have "iam_step (token_config e) (?s (new_tm 0) [WantInit, GetStart]) (?s (new_tm 0) [WantInit, WantInit])"
    using iam_step.read [of 1 "?s (new_tm 0) [WantInit, GetStart]"] r by simp
  then have 2: "iam_reaches (token_config e) (?s (new_tm 0) [WantInit, WantInit])" using 1 by (rule iam_reaches.step [rotated])
  have "iam_step (token_config e) (?s (new_tm 0) [WantInit, WantInit])
      (?s (cached_until e) [GetReturned (Some (token_until e), None), WantInit])"
    using iam_step.init [of 0 "?s (new_tm 0) [WantInit, WantInit]"] sample_init [OF assms] by simp
  then show ?thesis using 2 by (rule iam_reaches.step [rotated])
qed

lemma short_token_fails:
  "retrieveInit (token_config 5) (cached_until 5) = Some ((None, None), cached_until 5)"
proof -
  have [simp]: "tc_mandatory (token_config 5) = None" "Expiration (token_until 5) = 5" by (simp_all add: sample_iam_defs)
  show ?thesis
    by (simp add: retrieveInit_def retrieveCheckGet_def cached_until_def sample_waiting minimumDelta_def)
qed

end
