(* ===== verification/IamProviders.thy ===== *)
theory IamProviders
  imports Credentials IamTokenRuns
begin

text \<open>
  The IBM IAM credentials providers, package \<open>aws/credentials/ibmiam\<close>, the default chain of
  \<open>aws/defaults/defaults.go\<close> and the signing handler \<open>aws/signer/ibmiam\<close>.

  \<open>iam_env\<close> holds what the providers take from outside the package: the default HTTP client, the sleep
  and the clock, the two default timeouts, URL and JSON parsing, and the state of the world a token
  manager starts from. A trusted profile uses authenticators of the package \<open>go-sdk-core\<close>, which is not
  part of the repository: \<open>core\<close> has their builders and \<open>GetToken\<close>. By its documentation a builder
  returns a nil pointer with its error, and \<open>GetToken\<close> of a nil pointer panics.
\<close>

section \<open>Providers with a token manager\<close>

record 'w iam_env =
  ie_DefaultClient :: "'w http_Do"
  ie_Sleep :: "int \<Rightarrow> 'w \<Rightarrow> 'w"
  ie_DefaultAdvisory :: "int \<Rightarrow> int"
  ie_DefaultMandatory :: "int \<Rightarrow> int"
  ie_timeNow :: "'w \<Rightarrow> int \<times> 'w"
  ie_parseURL :: "string \<Rightarrow> goerror option"
  ie_unmarshal :: "string \<Rightarrow> goerror + IamToken"
  ie_unmarshalError :: "string \<Rightarrow> goerror + goerror"
  ie_world :: 'w

record 'w IamProvider =
  ip_providerName :: string
  ip_providerType :: string
  ip_tokenManager :: "('w tm_config \<times> 'w tm_state) option"
  ip_serviceInstanceID :: string
  ip_ErrorStatus :: "goerror option"

definition defaultAuthEndPoint :: string where
  "defaultAuthEndPoint = ''https://iam.cloud.ibm.com/identity/token''"

definition failed_provider :: "string \<Rightarrow> string \<Rightarrow> goerror \<Rightarrow> 'w IamProvider" where
  "failed_provider name type e = \<lparr>ip_providerName = name, ip_providerType = type, ip_tokenManager = None,
     ip_serviceInstanceID = [], ip_ErrorStatus = Some e\<rparr>"

text \<open>The fields a new token manager is given; client and initial function are set for each use.\<close>

definition manager_config :: "'w iam_env \<Rightarrow> string \<Rightarrow> (HTTPRequest \<Rightarrow> 'w \<Rightarrow> (goerror + HTTPResponse) \<times> 'w) \<Rightarrow>
    ('w \<Rightarrow> (goerror + IamToken option) \<times> 'w) \<Rightarrow> 'w tm_config" where
  "manager_config ie authEndPoint Do i = \<lparr>tc_authEndPoint = authEndPoint, tc_Do = Do, tc_advisory = None, tc_mandatory = None,
     tc_time = ie_timeNow ie, tc_init = i, tc_parseURL = ie_parseURL ie, tc_unmarshal = ie_unmarshal ie,
     tc_unmarshalError = ie_unmarshalError ie\<rparr>"

type_synonym 'w client_Do = "HTTPRequest \<Rightarrow> 'w \<Rightarrow> (goerror + HTTPResponse) \<times> 'w"

definition client_or_default :: "'w iam_env \<Rightarrow> 'w client_Config option \<Rightarrow> 'w client_Do option \<Rightarrow> 'w client_Do option" where
  "client_or_default ie config client = (case client of
     Some Do \<Rightarrow> Some Do
   | None \<Rightarrow> map_option (IBMClient_Do (ie_Sleep ie)) (defaultIBMClient (ie_DefaultClient ie) config))"

definition NewProvider :: "'w iam_env \<Rightarrow> string \<Rightarrow> 'w client_Config option \<Rightarrow> string \<Rightarrow> string \<Rightarrow> string \<Rightarrow>
    'w client_Do option \<Rightarrow> 'w IamProvider option" where
  "NewProvider ie providerName config apiKey authEndPoint serviceInstanceID client =
     (if apiKey = [] then
        Some (failed_provider providerName ''oauth'' (awserr_New ''IbmApiKeyIdNotFound'' ''IBM API Key Id not found'' None))
      else
        let authEndPoint = (if authEndPoint = [] then defaultAuthEndPoint else authEndPoint) in
        case client_or_default ie config client of
          None \<Rightarrow> None
        | Some Do \<Rightarrow>
            (case newTokenManagerFromAPIKey (ie_DefaultClient ie) (ie_Sleep ie) config apiKey (ie_DefaultAdvisory ie)
                    (ie_DefaultMandatory ie) (ie_timeNow ie) (manager_config ie authEndPoint Do (\<lambda>w. (Inr None, w))) None (Some Do) of
               None \<Rightarrow> None
             | Some cf \<Rightarrow> Some \<lparr>ip_providerName = providerName, ip_providerType = ''oauth'',
                 ip_tokenManager = Some (cf, new_tm (ie_world ie)), ip_serviceInstanceID = serviceInstanceID, ip_ErrorStatus = None\<rparr>))"

definition CustomInitFuncProviderName :: string where "CustomInitFuncProviderName = ''CustomInitFuncProviderIBM''"

definition NewCustomInitFuncProvider :: "'w iam_env \<Rightarrow> 'w client_Config option \<Rightarrow>
    ('w \<Rightarrow> (goerror + IamToken option) \<times> 'w) \<Rightarrow> string \<Rightarrow> string \<Rightarrow> 'w client_Do option \<Rightarrow> 'w IamProvider option" where
  "NewCustomInitFuncProvider ie config initFunc authEndPoint serviceInstanceID client =
     (let authEndPoint = (if authEndPoint = [] then defaultAuthEndPoint else authEndPoint) in
      case client_or_default ie config client of
        None \<Rightarrow> None
      | Some Do \<Rightarrow>
          (case newTokenManager config (ie_DefaultAdvisory ie) (ie_DefaultMandatory ie) (ie_timeNow ie)
                  (manager_config ie authEndPoint Do initFunc) None of
             None \<Rightarrow> None
           | Some cf \<Rightarrow> Some \<lparr>ip_providerName = CustomInitFuncProviderName, ip_providerType = ''oauth'',
               ip_tokenManager = Some (cf, new_tm (ie_world ie)), ip_serviceInstanceID = serviceInstanceID, ip_ErrorStatus = None\<rparr>))"

definition Iam_IsValid :: "'w IamProvider \<Rightarrow> bool" where
  "Iam_IsValid p \<longleftrightarrow> ip_ErrorStatus p = None"

text \<open>\<open>None\<close>: the token manager or the token it returns is nil, or \<open>Get\<close> panics or does not return.\<close>

definition Iam_Retrieve :: "'w IamProvider \<Rightarrow> (cred_result \<times> 'w IamProvider) option" where
  "Iam_Retrieve p = (case ip_ErrorStatus p of
     Some e \<Rightarrow> Some ((named_Value (ip_providerName p), Some e), p)
   | None \<Rightarrow>
       (case ip_tokenManager p of
          None \<Rightarrow> None
        | Some (cf, tm) \<Rightarrow>
            (case Get cf tm of
               Some (Some ((tokenValue, Some err), tm)) \<Rightarrow>
                 Some ((zero_Value, Some (awserr_New ''TokenManagerRetrieveError'' ''error retrieving the token'' (Some err))),
                       p\<lparr>ip_tokenManager := Some (cf, tm)\<rparr>)
             | Some (Some ((Some tk, None), tm)) \<Rightarrow>
                 Some (((named_Value (ip_providerName p))\<lparr>cv_Token := tk, cv_ProviderType := ip_providerType p,
                          cv_ServiceInstanceID := ip_serviceInstanceID p\<rparr>, None),
                       p\<lparr>ip_tokenManager := Some (cf, tm)\<rparr>)
             | _ \<Rightarrow> None)))"

definition iam_Provider :: "'w IamProvider Provider" where
  "iam_Provider = \<lparr>pv_Retrieve = Iam_Retrieve, pv_IsExpired = (\<lambda>_. True), pv_ExpiresAt = None\<rparr>"

section \<open>Where the key comes from\<close>

definition NewStaticProvider :: "'w iam_env \<Rightarrow> 'w client_Config option \<Rightarrow> string \<Rightarrow> string \<Rightarrow> string \<Rightarrow> 'w IamProvider option" where
  "NewStaticProvider ie config authEndPoint apiKey serviceInstanceID =
     NewProvider ie ''StaticProviderIBM'' config apiKey authEndPoint serviceInstanceID None"

definition NewEnvProvider :: "'w iam_env \<Rightarrow> os \<Rightarrow> 'w client_Config option \<Rightarrow> 'w IamProvider option" where
  "NewEnvProvider ie os config =
     (let apiKey = os_Getenv os ''IBM_API_KEY_ID'';
          serviceInstanceID = os_Getenv os ''IBM_SERVICE_INSTANCE_ID'';
          authEndPoint = os_Getenv os ''IBM_AUTH_ENDPOINT''
      in NewProvider ie ''EnvProviderIBM'' config apiKey authEndPoint serviceInstanceID None)"

definition SharedConfProviderName :: string where "SharedConfProviderName = ''SharedConfigProviderIBM''"
definition SharedCredsProviderNameIBM :: string where "SharedCredsProviderNameIBM = ''SharedCredentialsProviderIBM''"
definition defaultProfile :: string where "defaultProfile = ''default''"
definition profilePrefix :: string where "profilePrefix = ''profile ''"

definition commonIniProvider :: "strconv \<Rightarrow> 'w iam_env \<Rightarrow> os \<Rightarrow> string \<Rightarrow> 'w client_Config option \<Rightarrow> string \<Rightarrow> string \<Rightarrow>
    'w IamProvider option" where
  "commonIniProvider pnum ie os providerName config filename profilename =
     (case ini_OpenFile pnum os filename of
        None \<Rightarrow> None
      | Some (Inl err) \<Rightarrow> Some (failed_provider SharedConfProviderName []
          (awserr_New ''SharedCredentialsOpenError'' ''Shared Credentials Open Error'' (Some err)))
      | Some (Inr ini) \<Rightarrow>
          (case GetSection ini (str_Runes profilename) of
             None \<Rightarrow> Some (failed_provider SharedConfProviderName []
               (awserr_New ''SharedCredentialsProfileNotFound''
                 (''Shared Credentials Section '' @ [CHR 0x27] @ profilename @ [CHR 0x27] @ '' not Found in file '' @
                  [CHR 0x27] @ filename @ [CHR 0x27]) None))
           | Some iniProfile \<Rightarrow>
               (case ini_String iniProfile ''ibm_api_key_id'' of
                  None \<Rightarrow> None
                | Some (apiKey, iniProfile) \<Rightarrow>
                    (case ini_String iniProfile ''ibm_service_instance_id'' of
                       None \<Rightarrow> None
                     | Some (serviceInstanceID, iniProfile) \<Rightarrow>
                         (case ini_String iniProfile ''ibm_auth_endpoint'' of
                            None \<Rightarrow> None
                          | Some (authEndPoint, _) \<Rightarrow>
                              NewProvider ie providerName config apiKey authEndPoint serviceInstanceID None)))))"

definition home_error :: goerror where
  "home_error = awserr_New ''SharedCredentialsHomeNotFound'' ''Shared Credentials Home folder not found'' None"

definition NewSharedCredentialsProvider :: "strconv \<Rightarrow> 'w iam_env \<Rightarrow> os \<Rightarrow> 'w client_Config option \<Rightarrow> string \<Rightarrow> string \<Rightarrow>
    'w IamProvider option" where
  "NewSharedCredentialsProvider pnum ie os config filename profilename =
     (let filename = (if filename = [] then os_Getenv os ''AWS_SHARED_CREDENTIALS_FILE'' else filename) in
      if filename = [] \<and> os_UserHomeDir os = [] then Some (failed_provider SharedCredsProviderNameIBM [] home_error)
      else
        let filename = (if filename = [] then os_SharedCredentialsFilename os else filename);
            profilename = (if profilename = [] then os_Getenv os ''AWS_PROFILE'' else profilename);
            profilename = (if profilename = [] then defaultProfile else profilename)
        in commonIniProvider pnum ie os SharedCredsProviderNameIBM config filename profilename)"

definition NewSharedConfigProvider :: "strconv \<Rightarrow> 'w iam_env \<Rightarrow> os \<Rightarrow> 'w client_Config option \<Rightarrow> string \<Rightarrow> string \<Rightarrow>
    'w IamProvider option" where
  "NewSharedConfigProvider pnum ie os config filename profilename =
     (let filename = (if filename = [] then os_Getenv os ''AWS_CONFIG_FILE'' else filename) in
      if filename = [] \<and> os_UserHomeDir os = [] then Some (failed_provider SharedConfProviderName [] home_error)
      else
        let filename = (if filename = [] then os_SharedConfigFilename os else filename);
            profilename = (if profilename = [] then
                let profilename = os_Getenv os ''AWS_PROFILE''
                in if profilename = [] then defaultProfile else profilePrefix @ profilename
              else profilePrefix @ profilename)
        in commonIniProvider pnum ie os SharedConfProviderName config filename profilename)"

definition CheckForConflictingIamCredentials :: "os \<Rightarrow> goerror option" where
  "CheckForConflictingIamCredentials os =
     (let apiKey = os_Getenv os ''IBM_API_KEY_ID'';
          trustedProfileID = os_Getenv os ''TRUSTED_PROFILE_ID'';
          trustedProfileName = os_Getenv os ''TRUSTED_PROFILE_NAME'';
          crTokenFilePath = os_Getenv os ''CR_TOKEN_FILE_PATH'';
          serviceIdApiKey = os_Getenv os ''IBM_SERVICE_ID_API_KEY''
      in if apiKey \<noteq> [] \<and> (trustedProfileID \<noteq> [] \<or> trustedProfileName \<noteq> []) then
           Some (awserr_New ''InvalidCredentials''
             ''only one of ApiKey or TrustedProfile credentials should be set, not both.'' None)
         else if trustedProfileName \<noteq> [] \<and> trustedProfileID \<noteq> [] then
           Some (awserr_New ''InvalidCredentials''
             ''only one of TrustedProfileName or TrustedProfileID should be set, not both.'' None)
         else if crTokenFilePath \<noteq> [] \<and> serviceIdApiKey \<noteq> [] then
           Some (awserr_New ''InvalidCredentials''
             ''only one of ServiceIdApiKey or CrTokenFilePath should be set, not both.'' None)
         else None)"

section \<open>Trusted profiles\<close>

record 'a core =
  co_BuildContainer :: "string \<Rightarrow> string \<Rightarrow> string \<Rightarrow> goerror + 'a"
  co_BuildAssumeName :: "string \<Rightarrow> string \<Rightarrow> string \<Rightarrow> goerror + 'a"
  co_BuildAssumeID :: "string \<Rightarrow> string \<Rightarrow> goerror + 'a"
  co_GetToken :: "'a \<Rightarrow> (goerror + string) \<times> 'a"

text \<open>The interface value \<open>core.Authenticator\<close>: nil, or a pointer of one of two types, nil or not.\<close>

datatype 'a authenticator = NoAuthenticator | Container "'a option" | IamAssume "'a option"

record TrustedProfileConfig =
  tp_TrustedProfileName :: string
  tp_CrTokenFilePath :: string
  tp_TrustedProfileID :: string
  tp_IAMAccountID :: string
  tp_ServiceIDApiKey :: string

record 'a TrustedProfileProvider =
  tr_providerName :: string
  tr_providerType :: string
  tr_authenticator :: "'a authenticator"
  tr_serviceInstanceID :: string
  tr_resourceType :: string
  tr_ErrorStatus :: "goerror option"

definition ResourceComputeResource :: string where "ResourceComputeResource = ''CR''"
definition ResourceServiceID :: string where "ResourceServiceID = ''SID''"

definition built :: "goerror + 'a \<Rightarrow> 'a option" where
  "built b = (case b of Inl _ \<Rightarrow> None | Inr a \<Rightarrow> Some a)"

definition build_error :: "goerror + 'a \<Rightarrow> goerror option" where
  "build_error b = (case b of Inl e \<Rightarrow> Some e | Inr _ \<Rightarrow> None)"

definition authenticator_error :: "goerror \<Rightarrow> goerror" where
  "authenticator_error err = awserr_New ''errCreatingAuthenticatorClient'' ''cannot setup new Authenticator client'' (Some err)"

definition NewTrustedProfileProvider :: "'a core \<Rightarrow> string \<Rightarrow> string \<Rightarrow> string \<Rightarrow> string \<Rightarrow> string \<Rightarrow> string \<Rightarrow>
    'a TrustedProfileProvider" where
  "NewTrustedProfileProvider co providerName authEndPoint trustedProfileID crTokenFilePath serviceInstanceID resourceType =
     (let p = \<lparr>tr_providerName = providerName, tr_providerType = ''oauth'', tr_authenticator = NoAuthenticator,
            tr_serviceInstanceID = [], tr_resourceType = [], tr_ErrorStatus = None\<rparr> in
      if crTokenFilePath = [] then
        p\<lparr>tr_ErrorStatus := Some (awserr_New ''crTokenFilePathNotFound'' ''CR Token file path not found'' None)\<rparr>
      else if trustedProfileID = [] then
        p\<lparr>tr_ErrorStatus := Some (awserr_New ''trustedProfileIDNotFound'' ''Trusted profile id not found'' None)\<rparr>
      else
        let p = p\<lparr>tr_serviceInstanceID := serviceInstanceID\<rparr>;
            authEndPoint = (if authEndPoint = [] then defaultAuthEndPoint else authEndPoint)
        in case co_BuildContainer co crTokenFilePath trustedProfileID authEndPoint of
             Inl err \<Rightarrow> p\<lparr>tr_ErrorStatus := Some (authenticator_error err)\<rparr>
           | Inr a \<Rightarrow> p\<lparr>tr_authenticator := Container (Some a)\<rparr>)"

definition service_id_checks :: "TrustedProfileConfig \<Rightarrow> goerror option" where
  "service_id_checks tp =
     (if tp_TrustedProfileID tp = [] \<and> tp_TrustedProfileName tp = [] then
        Some (awserr_New ''trustedProfileDetailsNotFound'' ''Trusted profile id or TrustedProfileName not found'' None)
      else if tp_TrustedProfileID tp \<noteq> [] \<and> tp_TrustedProfileName tp \<noteq> [] then
        Some (awserr_New ''trustedProfileInputConflict'' ''Either provide TrustedProfileId or TrustedProfileName not both'' None)
      else if tp_TrustedProfileName tp \<noteq> [] \<and> tp_IAMAccountID tp = [] then
        Some (awserr_New ''trustedProfileMissingRequiredField'' ''IamAccountId is required when using TrustedProfileName'' None)
      else None)"

definition NewTrustedProfileProviderWithConfig :: "'a core \<Rightarrow> string \<Rightarrow> string \<Rightarrow> TrustedProfileConfig option \<Rightarrow> string \<Rightarrow> string \<Rightarrow>
    'a TrustedProfileProvider" where
  "NewTrustedProfileProviderWithConfig co providerName authEndPoint config serviceInstanceID resourceType =
     (let p = \<lparr>tr_providerName = providerName, tr_providerType = ''oauth'', tr_authenticator = NoAuthenticator,
            tr_serviceInstanceID = [], tr_resourceType = resourceType, tr_ErrorStatus = None\<rparr> in
      case config of
        None \<Rightarrow> p\<lparr>tr_ErrorStatus := Some (awserr_New ''trustedProfileConfigNil'' ''TrustedProfileConfig cannot be nil'' None)\<rparr>
      | Some tp \<Rightarrow>
          if tp_CrTokenFilePath tp = [] \<and> tp_ServiceIDApiKey tp = [] then
            p\<lparr>tr_ErrorStatus := Some (awserr_New ''CredentialsNotFound''
              (''CR Token file path not found or Service Id'' @ [CHR 0x27] @ ''s api key not found'') None)\<rparr>
          else
            let p = p\<lparr>tr_serviceInstanceID := serviceInstanceID\<rparr>;
                authEndPoint = (if authEndPoint = [] then defaultAuthEndPoint else authEndPoint)
            in if resourceType = ResourceComputeResource then
                 if tp_TrustedProfileID tp = [] then
                   p\<lparr>tr_ErrorStatus := Some (awserr_New ''trustedProfileIDNotFound'' ''Trusted profile id not found'' None)\<rparr>
                 else p\<lparr>tr_authenticator :=
                   Container (built (co_BuildContainer co (tp_CrTokenFilePath tp) (tp_TrustedProfileID tp) authEndPoint))\<rparr>
               else if resourceType = ResourceServiceID then
                 (case service_id_checks tp of
                    Some e \<Rightarrow> p\<lparr>tr_ErrorStatus := Some e\<rparr>
                  | None \<Rightarrow>
                      let b = (if tp_TrustedProfileID tp \<noteq> [] then co_BuildAssumeID co (tp_ServiceIDApiKey tp) (tp_TrustedProfileID tp)
                               else co_BuildAssumeName co (tp_ServiceIDApiKey tp) (tp_TrustedProfileName tp) (tp_IAMAccountID tp));
                          p = p\<lparr>tr_authenticator := IamAssume (built b)\<rparr>
                      in case build_error b of
                           Some err \<Rightarrow> p\<lparr>tr_ErrorStatus := Some (authenticator_error err)\<rparr>
                         | None \<Rightarrow> p)
               else p)"

definition TrustedProfileProviderName :: string where "TrustedProfileProviderName = ''TrustedProfileProviderIBM''"

definition NewTrustedProfileProviderCR :: "'a core \<Rightarrow> string \<Rightarrow> string \<Rightarrow> string \<Rightarrow> string \<Rightarrow> 'a TrustedProfileProvider" where
  "NewTrustedProfileProviderCR co authEndPoint trustedProfileID crTokenFilePath serviceInstanceID =
     NewTrustedProfileProviderWithConfig co TrustedProfileProviderName authEndPoint
       (Some \<lparr>tp_TrustedProfileName = [], tp_CrTokenFilePath = crTokenFilePath, tp_TrustedProfileID = trustedProfileID,
              tp_IAMAccountID = [], tp_ServiceIDApiKey = []\<rparr>) serviceInstanceID ResourceComputeResource"

definition NewTrustedProfileProviderServiceIdWithTrustedProfileId :: "'a core \<Rightarrow> string \<Rightarrow> string \<Rightarrow> string \<Rightarrow> string \<Rightarrow>
    'a TrustedProfileProvider" where
  "NewTrustedProfileProviderServiceIdWithTrustedProfileId co authEndPoint trustedProfileID serviceIdApiKey serviceInstanceID =
     NewTrustedProfileProviderWithConfig co TrustedProfileProviderName authEndPoint
       (Some \<lparr>tp_TrustedProfileName = [], tp_CrTokenFilePath = [], tp_TrustedProfileID = trustedProfileID,
              tp_IAMAccountID = [], tp_ServiceIDApiKey = serviceIdApiKey\<rparr>) serviceInstanceID ResourceServiceID"

definition NewTrustedProfileProviderServiceIdWithTrustedProfileName :: "'a core \<Rightarrow> string \<Rightarrow> string \<Rightarrow> string \<Rightarrow> string \<Rightarrow>
    string \<Rightarrow> 'a TrustedProfileProvider" where
  "NewTrustedProfileProviderServiceIdWithTrustedProfileName co authEndPoint trustedProfileName iamAccountId serviceIdApiKey serviceInstanceID =
     NewTrustedProfileProviderWithConfig co TrustedProfileProviderName authEndPoint
       (Some \<lparr>tp_TrustedProfileName = trustedProfileName, tp_CrTokenFilePath = [], tp_TrustedProfileID = [],
              tp_IAMAccountID = iamAccountId, tp_ServiceIDApiKey = serviceIdApiKey\<rparr>) serviceInstanceID ResourceServiceID"

definition NewEnvProviderTrustedProfile :: "'a core \<Rightarrow> os \<Rightarrow> 'a TrustedProfileProvider" where
  "NewEnvProviderTrustedProfile co os =
     (let crTokenFilePath = os_Getenv os ''CR_TOKEN_FILE_PATH'';
          tpConfig = \<lparr>tp_TrustedProfileName = os_Getenv os ''TRUSTED_PROFILE_NAME'', tp_CrTokenFilePath = crTokenFilePath,
            tp_TrustedProfileID = os_Getenv os ''TRUSTED_PROFILE_ID'', tp_IAMAccountID = os_Getenv os ''IAM_ACCOUNT_ID'',
            tp_ServiceIDApiKey = os_Getenv os ''IBM_SERVICE_ID_API_KEY''\<rparr>
      in NewTrustedProfileProviderWithConfig co TrustedProfileProviderName (os_Getenv os ''IBM_AUTH_ENDPOINT'') (Some tpConfig)
           (os_Getenv os ''IBM_SERVICE_INSTANCE_ID'')
           (if crTokenFilePath \<noteq> [] then ResourceComputeResource else ResourceServiceID))"

text \<open>The token and its error, and the authenticator afterwards; \<open>None\<close> where the type assertion or the
  call through a nil pointer panics.\<close>

definition profile_token :: "'a core \<Rightarrow> 'a TrustedProfileProvider \<Rightarrow> ((goerror + string) \<times> 'a authenticator) option" where
  "profile_token co p =
     (if tr_resourceType p = ResourceComputeResource then
        (case tr_authenticator p of
           Container (Some a) \<Rightarrow> Some (map_prod id (Container \<circ> Some) (co_GetToken co a))
         | _ \<Rightarrow> None)
      else if tr_resourceType p = ResourceServiceID then
        (case tr_authenticator p of
           IamAssume (Some a) \<Rightarrow> Some (map_prod id (IamAssume \<circ> Some) (co_GetToken co a))
         | _ \<Rightarrow> None)
      else Some (Inr [], tr_authenticator p))"

definition Trusted_Retrieve :: "'a core \<Rightarrow> 'a TrustedProfileProvider \<Rightarrow> (cred_result \<times> 'a TrustedProfileProvider) option" where
  "Trusted_Retrieve co p = (case tr_ErrorStatus p of
     Some e \<Rightarrow> Some ((named_Value (tr_providerName p), Some e), p)
   | None \<Rightarrow>
       (case profile_token co p of
          None \<Rightarrow> None
        | Some (Inl err, a) \<Rightarrow>
            Some ((zero_Value, Some (awserr_New ''TokenManagerRetrieveError'' ''error retrieving the token'' (Some err))),
                  p\<lparr>tr_authenticator := a\<rparr>)
        | Some (Inr tokenValue, a) \<Rightarrow>
            Some (((named_Value (tr_providerName p))\<lparr>cv_Token := zero_Token\<lparr>AccessToken := tokenValue, TokenType := ''Bearer''\<rparr>,
                     cv_ProviderType := tr_providerType p, cv_ServiceInstanceID := tr_serviceInstanceID p\<rparr>, None),
                  p\<lparr>tr_authenticator := a\<rparr>)))"

definition trusted_Provider :: "'a core \<Rightarrow> 'a TrustedProfileProvider Provider" where
  "trusted_Provider co = \<lparr>pv_Retrieve = Trusted_Retrieve co, pv_IsExpired = (\<lambda>_. True), pv_ExpiresAt = None\<rparr>"

section \<open>The default chain\<close>

datatype 'w any_provider =
    PIam "'w IamProvider"
  | PEnv bool
  | PShared SharedCredentialsProvider
  | PStatic CredValue
  | PError "goerror option" string

fun any_Retrieve :: "strconv \<Rightarrow> os \<Rightarrow> 'w any_provider \<Rightarrow> (cred_result \<times> 'w any_provider) option" where
  "any_Retrieve pnum os (PIam p) = map_option (map_prod id PIam) (Iam_Retrieve p)"
| "any_Retrieve pnum os (PEnv p) = Some (map_prod id PEnv (Env_Retrieve os p))"
| "any_Retrieve pnum os (PShared p) = map_option (map_prod id PShared) (Shared_Retrieve pnum os p)"
| "any_Retrieve pnum os (PStatic p) = Some (map_prod id PStatic (Static_Retrieve p))"
| "any_Retrieve pnum os (PError e n) = Some (Error_Retrieve e n, PError e n)"

fun any_IsExpired :: "'w any_provider \<Rightarrow> bool" where
  "any_IsExpired (PIam p) = True"
| "any_IsExpired (PEnv p) = (\<not> p)"
| "any_IsExpired (PShared p) = (\<not> sp_retrieved p)"
| "any_IsExpired (PStatic p) = False"
| "any_IsExpired (PError e n) = False"

definition any_Provider :: "strconv \<Rightarrow> os \<Rightarrow> 'w any_provider Provider" where
  "any_Provider pnum os = \<lparr>pv_Retrieve = any_Retrieve pnum os, pv_IsExpired = any_IsExpired, pv_ExpiresAt = None\<rparr>"

text \<open>\<open>None\<close> where one of the constructors panics.\<close>

definition CredProviders :: "strconv \<Rightarrow> 'w iam_env \<Rightarrow> os \<Rightarrow> 'w client_Config option \<Rightarrow> 'w any_provider list option" where
  "CredProviders pnum ie os cfg =
     (case (NewEnvProvider ie os cfg, NewSharedCredentialsProvider pnum ie os cfg [] [], NewSharedConfigProvider pnum ie os cfg [] []) of
        (Some env, Some shared, Some conf) \<Rightarrow>
          Some [PIam env, PIam shared, PIam conf, PEnv False,
                PShared \<lparr>sp_Filename = [], sp_Profile = [], sp_retrieved = False\<rparr>]
      | _ \<Rightarrow> None)"

definition CredChain :: "strconv \<Rightarrow> 'w iam_env \<Rightarrow> os \<Rightarrow> bool \<Rightarrow> 'w client_Config option \<Rightarrow> 'w any_provider ChainProvider Credentials option" where
  "CredChain pnum ie os verbose cfg = map_option
     (\<lambda>ps. NewCredentials \<lparr>ch_Providers = ps, ch_curr = None, ch_VerboseErrors = verbose\<rparr>) (CredProviders pnum ie os cfg)"

text \<open>The providers of keys last; those of IAM tokens ask the token manager each time.\<close>

definition key_provider :: "'w any_provider \<Rightarrow> bool" where
  "key_provider p = (case p of PEnv _ \<Rightarrow> True | PShared _ \<Rightarrow> True | PStatic _ \<Rightarrow> True | PError e _ \<Rightarrow> e \<noteq> None | PIam _ \<Rightarrow> False)"

lemma static_law:
  "Static_Retrieve s = ((v, None), s') \<Longrightarrow> v \<noteq> zero_Value"
  using static.lasts [of s v s'] by (simp add: static_Provider_def)

lemma env_law: "Env_Retrieve os e = ((v, None), e') \<Longrightarrow> v \<noteq> zero_Value \<and> e'"
  using env.lasts [of os e v e'] by (simp add: env_Provider_def)

lemma shared_law: "Shared_Retrieve pnum os p = Some ((v, None), p') \<Longrightarrow> v \<noteq> zero_Value \<and> sp_retrieved p'"
  using shared.lasts [of pnum os p v p'] by (simp add: shared_Provider_def)

lemma map_prod_id_eq: "map_prod id f x = (a, b) \<longleftrightarrow> (\<exists>y. x = (a, y) \<and> b = f y)"
  by (cases x) auto

interpretation keys: lasting_provider "any_Provider pnum os" key_provider for pnum os
proof
  fix p :: "'a any_provider" and res p'
  assume "key_provider p" "pv_Retrieve (any_Provider pnum os) p = Some (res, p')"
  then show "key_provider p'" by (cases p) (auto simp: any_Provider_def key_provider_def map_prod_id_eq)
next
  fix p :: "'a any_provider" and v p'
  assume "key_provider p" "pv_Retrieve (any_Provider pnum os) p = Some ((v, None), p')"
  then show "v \<noteq> zero_Value \<and> \<not> pv_IsExpired (any_Provider pnum os) p'"
    by (cases p) (auto simp: any_Provider_def key_provider_def Error_Retrieve_def map_prod_id_eq dest: static_law env_law shared_law)
qed

interpretation key_chain: lasting_provider "chain_Provider (any_Provider pnum os)"
  "\<lambda>c. \<forall>p \<in> set (ch_Providers c). key_provider p" for pnum os
  by (rule keys.chain_lasting)

section \<open>Signing with a token\<close>

record SignRequest =
  sg_Header :: Values
  sg_Error :: "goerror option"
  sg_SignedHeaderVals :: "Values option"

definition sign_error :: "string \<Rightarrow> goerror" where
  "sign_error msg = awserr_New ''ibmiam.SignRequestHandler'' msg None"

definition Sign :: "'p Provider \<Rightarrow> 'p Credentials \<Rightarrow> SignRequest \<Rightarrow> (SignRequest \<times> 'p Credentials) option" where
  "Sign P c req = (case Credentials_Get P c of
     None \<Rightarrow> None
   | Some ((value', Some err), c) \<Rightarrow> Some (req\<lparr>sg_Error := Some err, sg_SignedHeaderVals := None\<rparr>, c)
   | Some ((value', None), c) \<Rightarrow>
       if TokenType (cv_Token value') = [] then
         Some (req\<lparr>sg_Error := Some (sign_error ''Token Type Not Set''), sg_SignedHeaderVals := None\<rparr>, c)
       else if AccessToken (cv_Token value') = [] then
         Some (req\<lparr>sg_Error := Some (sign_error ''Access Token Not Set''), sg_SignedHeaderVals := None\<rparr>, c)
       else
         let serviceInstanceID = Header_Get (sg_Header req) ''ibm-service-instance-id'';
             h = (if serviceInstanceID = [] \<and> cv_ServiceInstanceID value' \<noteq> []
                  then Header_Set ''ibm-service-instance-id'' (cv_ServiceInstanceID value') (sg_Header req) else sg_Header req);
             authString = TokenType (cv_Token value') @ '' '' @ AccessToken (cv_Token value')
         in Some (req\<lparr>sg_Header := Header_Set ''Authorization'' authString h\<rparr>, c))"

lemma Get_token:
  assumes "Get cf tm = Some (Some ((Some tk, err), tm'))"
  shows "err = None \<and> tm_Cache tm' = Some tk \<and> (tm_Cache tm \<noteq> None \<longrightarrow> just_checked cf tk tm')"
proof -
  from assms obtain ph tm1 where r: "Get_read cf tm = Some (ph, tm1)" by (auto simp: Get_def split: option.splits)
  note read = Get_read_spec [OF r]
  show ?thesis
  proof (cases ph)
    case (GetReturned res)
    with assms r have "res = (Some tk, err)" "tm1 = tm'" by (auto simp: Get_def)
    with read(4) [of "Some tk" err] GetReturned show ?thesis by (auto simp: just_checked_def)
  next
    case WantFetch
    with assms r have "fetch_loop cf tm1 = Some (Some ((Some tk, err), tm'))" by (simp add: Get_def)
    from fetch_loop_spec [OF this] show ?thesis by (auto simp: just_checked_def)
  next
    case WantInit
    then have n: "tm_Cache tm = None" using read(3) by simp
    with read(1) have "tm_Cache tm1 = None" by auto
    with assms r WantInit obtain res where i: "tm_init cf tm1 = Some (res, tm')" "res = Inr tk" "err = None"
      by (auto simp: Get_def retrieveInit_def split: option.splits sum.splits)
    with tm_init_cache [OF i(1)] n show ?thesis by simp
  next
    case GetStart
    with read(2) show ?thesis by simp
  qed
qed

lemma Iam_Retrieve_token:
  assumes "Iam_Retrieve p = Some ((v, None), p')" and "ip_tokenManager p = Some (cf, tm)"
  shows "\<exists>tm'. ip_tokenManager p' = Some (cf, tm') \<and> tm_Cache tm' = Some (cv_Token v) \<and>
    (tm_Cache tm \<noteq> None \<longrightarrow> just_checked cf (cv_Token v) tm')"
proof -
  from assms obtain tk tm' where g: "Get cf tm = Some (Some ((Some tk, None), tm'))"
    and v: "cv_Token v = tk" "ip_tokenManager p' = Some (cf, tm')"
    by (auto simp: Iam_Retrieve_def named_Value_def split: option.splits)
  from Get_token [OF g] v show ?thesis by simp
qed

lemma Iam_Get_retrieves:
  "Credentials_Get iam_Provider c = (case Iam_Retrieve (cr_provider c) of
     None \<Rightarrow> None
   | Some ((v, err), p) \<Rightarrow> Some ((v, err), c\<lparr>cr_provider := p, cr_creds := (if err = None then v else cr_creds c)\<rparr>))"
  by (auto simp: Credentials_Get_def GetWithContext_def asyncIsExpired_def isExpiredLocked_def singleRetrieve_def
      iam_Provider_def Let_def split: option.splits)

lemma auth_header: "Header_Get (Header_Set ''Authorization'' v h) ''Authorization'' = v"
  by simp

lemma Sign_ok:
  assumes "Sign P c req = Some (req', c')" and "sg_Error req = None" and "sg_Error req' = None"
  obtains v where "Credentials_Get P c = Some ((v, None), c')"
    "Header_Get (sg_Header req') ''Authorization'' = TokenType (cv_Token v) @ '' '' @ AccessToken (cv_Token v)"
    "TokenType (cv_Token v) \<noteq> []" "AccessToken (cv_Token v) \<noteq> []"
proof -
  from assms obtain v where g: "Credentials_Get P c = Some ((v, None), c')"
    and h: "\<exists>h. req' = req\<lparr>sg_Header := Header_Set ''Authorization'' (TokenType (cv_Token v) @ '' '' @ AccessToken (cv_Token v)) h\<rparr>"
    and ne: "TokenType (cv_Token v) \<noteq> []" "AccessToken (cv_Token v) \<noteq> []"
    by (fastforce simp: Sign_def Let_def split: option.splits if_splits)
  from h have "Header_Get (sg_Header req') ''Authorization'' = TokenType (cv_Token v) @ '' '' @ AccessToken (cv_Token v)"
    by (auto simp del: canonical_from.simps)
  with that g ne show thesis by blast
qed

lemma Sign_failed:
  assumes "Sign P c req = Some (req', c')" and "sg_Error req = None" and "sg_Error req' \<noteq> None"
  shows "sg_Header req' = sg_Header req \<and> sg_SignedHeaderVals req' = None"
  using assms by (auto simp: Sign_def Let_def split: option.splits if_splits)

end
