(* ===== verification/V4Signer.thy ===== *)
theory V4Signer
  imports Credentials AwsRequest
begin

text \<open>
  The signer of version 4, \<open>aws/signer/v4\<close>: \<open>v4.go\<close>, \<open>header_rules.go\<close>, \<open>uri_path.go\<close> and the chained
  signatures of \<open>stream.go\<close>.

  An \<open>http.Request\<close> is the record \<open>HTTPReq\<close> of what the signer reads and writes: the URL comes as its
  opaque part, host, escaped path and raw query. \<open>signing_env\<close> holds SHA-256, HMAC-SHA-256 and the two
  formats of a time, all of the standard library; nothing is assumed of them. The steps of
  \<open>signingCtx\<close> are functions on its record, composed as \<open>build\<close> composes them; \<open>None\<close> is a panic.
  Logging is left out.
\<close>

section \<open>Header rules\<close>

datatype rule =
    mapRule "string list"
  | allowList rule
  | excludeList rule
  | patterns "string list"
  | rules "rule list"
  | inclusiveRules "rule list"

definition HasPrefixFold :: "string \<Rightarrow> string \<Rightarrow> bool" where
  "HasPrefixFold s pre \<longleftrightarrow> length pre \<le> length s \<and> map lower_char (take (length pre) s) = map lower_char pre"

fun rule_IsValid :: "rule \<Rightarrow> string \<Rightarrow> bool" where
  "rule_IsValid (mapRule m) s = (s \<in> set m)"
| "rule_IsValid (allowList r) s = rule_IsValid r s"
| "rule_IsValid (excludeList r) s = (\<not> rule_IsValid r s)"
| "rule_IsValid (patterns ps) s = list_ex (HasPrefixFold s) ps"
| "rule_IsValid (rules rs) s = list_ex (\<lambda>r. rule_IsValid r s) rs"
| "rule_IsValid (inclusiveRules rs) s = list_all (\<lambda>r. rule_IsValid r s) rs"

definition ignoredHeaders :: rule where
  "ignoredHeaders = rules [excludeList (mapRule [''Authorization'', ''User-Agent'', ''X-Amzn-Trace-Id''])]"

definition requiredSignedHeaders :: rule where
  "requiredSignedHeaders = rules
    [allowList (mapRule
      [''Cache-Control'', ''Content-Disposition'', ''Content-Encoding'', ''Content-Language'', ''Content-Md5'', ''Content-Type'',
       ''Expires'', ''If-Match'', ''If-Modified-Since'', ''If-None-Match'', ''If-Unmodified-Since'', ''Range'', ''X-Amz-Acl'',
       ''X-Amz-Copy-Source'', ''X-Amz-Copy-Source-If-Match'', ''X-Amz-Copy-Source-If-Modified-Since'',
       ''X-Amz-Copy-Source-If-None-Match'', ''X-Amz-Copy-Source-If-Unmodified-Since'', ''X-Amz-Copy-Source-Range'',
       ''X-Amz-Copy-Source-Server-Side-Encryption-Customer-Algorithm'',
       ''X-Amz-Copy-Source-Server-Side-Encryption-Customer-Key'',
       ''X-Amz-Copy-Source-Server-Side-Encryption-Customer-Key-Md5'', ''X-Amz-Expected-Bucket-Owner'',
       ''X-Amz-Grant-Full-control'', ''X-Amz-Grant-Read'', ''X-Amz-Grant-Read-Acp'', ''X-Amz-Grant-Write'',
       ''X-Amz-Grant-Write-Acp'', ''X-Amz-Metadata-Directive'', ''X-Amz-Mfa'', ''X-Amz-Request-Payer'',
       ''X-Amz-Server-Side-Encryption'', ''X-Amz-Server-Side-Encryption-Aws-Kms-Key-Id'',
       ''X-Amz-Server-Side-Encryption-Context'', ''X-Amz-Server-Side-Encryption-Customer-Algorithm'',
       ''X-Amz-Server-Side-Encryption-Customer-Key'', ''X-Amz-Server-Side-Encryption-Customer-Key-Md5'',
       ''X-Amz-Storage-Class'', ''X-Amz-Tagging'', ''X-Amz-Website-Redirect-Location'', ''X-Amz-Content-Sha256'']),
     patterns [''X-Amz-Meta-'']]"

definition allowedQueryHoisting :: rule where
  "allowedQueryHoisting = inclusiveRules [excludeList requiredSignedHeaders, patterns [''X-Amz-'']]"

section \<open>Requests and the signing context\<close>

record HTTPReq =
  hx_Method :: string
  hx_Host :: string
  hx_URLScheme :: string
  hx_URLOpaque :: string
  hx_URLHost :: string
  hx_EscapedPath :: string
  hx_RawQuery :: string
  hx_Header :: Values
  hx_Body :: "body option"

record 't signing_env =
  sv_sha256 :: "byte list \<Rightarrow> byte list"
  sv_hmac :: "byte list \<Rightarrow> byte list \<Rightarrow> byte list"
  sv_formatTime :: "'t \<Rightarrow> string"
  sv_formatShortTime :: "'t \<Rightarrow> string"

record Signer =
  sn_DisableHeaderHoisting :: bool
  sn_DisableURIPathEscaping :: bool
  sn_DisableRequestBodyOverwrite :: bool
  sn_UnsignedPayload :: bool

record 't signingCtx =
  cx_ServiceName :: string
  cx_Region :: string
  cx_Request :: HTTPReq
  cx_Body :: "body option"
  cx_Query :: Values
  cx_Time :: 't
  cx_ExpireTime :: int
  cx_SignedHeaderVals :: Values
  cx_DisableURIPathEscaping :: bool
  cx_credValues :: CredValue
  cx_isPresign :: bool
  cx_unsignedPayload :: bool
  cx_bodyDigest :: string
  cx_signedHeaders :: string
  cx_canonicalHeaders :: string
  cx_canonicalString :: string
  cx_credentialString :: string
  cx_stringToSign :: string
  cx_signature :: string

definition authHeaderPrefix :: string where "authHeaderPrefix = ''AWS4-HMAC-SHA256''"
definition authHeaderSignatureElem :: string where "authHeaderSignatureElem = ''Signature=''"
definition signatureQueryKey :: string where "signatureQueryKey = ''X-Amz-Signature''"
definition awsV4Request :: string where "awsV4Request = ''aws4_request''"
definition emptyStringSHA256 :: string where
  "emptyStringSHA256 = ''e3b0c44298fc1c149afbf4c8996fb92427ae41e4649b934ca495991b7852b855''"

abbreviation set_header :: "string \<Rightarrow> string \<Rightarrow> 't signingCtx \<Rightarrow> 't signingCtx" where
  "set_header k v ctx \<equiv> ctx\<lparr>cx_Request := (cx_Request ctx)\<lparr>hx_Header := Header_Set k v (hx_Header (cx_Request ctx))\<rparr>\<rparr>"

abbreviation set_query :: "string \<Rightarrow> string \<Rightarrow> 't signingCtx \<Rightarrow> 't signingCtx" where
  "set_query k v ctx \<equiv> ctx\<lparr>cx_Query := Values_Set k v (cx_Query ctx)\<rparr>"

section \<open>Text helpers\<close>

definition is_space :: "char \<Rightarrow> bool" where
  "is_space c \<longleftrightarrow> chr_code c \<in> {9..13} \<or> c = CHR '' ''"

definition TrimSpace :: "string \<Rightarrow> string" where
  "TrimSpace s = rev (dropWhile is_space (rev (dropWhile is_space s)))"

definition is_blank :: "char \<Rightarrow> bool" where
  "is_blank c \<longleftrightarrow> c = CHR '' ''"

definition trim_blanks :: "string \<Rightarrow> string" where
  "trim_blanks s = dropWhile is_blank (rev (dropWhile is_blank (rev s)))"

text \<open>What comes before the first two spaces, and the rest from there on.\<close>

fun cut_double :: "string \<Rightarrow> (string \<times> string) option" where
  "cut_double (c # d # s) =
     (if is_blank c \<and> is_blank d then Some ([], c # d # s) else map_option (map_prod (Cons c) id) (cut_double (d # s)))"
| "cut_double _ = None"

text \<open>The loop over the rest, with the counter \<open>spaces\<close> that lives on between the strings.\<close>

fun squeeze :: "nat \<Rightarrow> string \<Rightarrow> string \<times> nat" where
  "squeeze spaces [] = ([], spaces)"
| "squeeze spaces (c # s) =
     (if is_blank c then
        (case squeeze (Suc spaces) s of (t, n) \<Rightarrow> (if spaces = 0 then c # t else t, n))
      else (case squeeze 0 s of (t, n) \<Rightarrow> (c # t, n)))"

definition strip_string :: "nat \<Rightarrow> string \<Rightarrow> string \<times> nat" where
  "strip_string spaces s =
     (let s = trim_blanks s in
      case cut_double s of
        None \<Rightarrow> (s, spaces)
      | Some (before_j, rest) \<Rightarrow> (case squeeze spaces rest of (t, n) \<Rightarrow> (before_j @ t, n)))"

fun strip_loop :: "nat \<Rightarrow> string list \<Rightarrow> string list" where
  "strip_loop spaces [] = []"
| "strip_loop spaces (v # vals) = (case strip_string spaces v of (t, n) \<Rightarrow> t # strip_loop n vals)"

definition stripExcessSpaces :: "string list \<Rightarrow> string list" where
  "stripExcessSpaces vals = strip_loop 0 vals"

text \<open>\<open>None\<close> where the slice of the parts of the opaque URL is out of range.\<close>

definition getURIPath :: "HTTPReq \<Rightarrow> string option" where
  "getURIPath u =
     (if length (hx_URLOpaque u) > 0 then
        (let parts = split_at CHR ''/'' (hx_URLOpaque u) in
         if length parts < 3 then None
         else Some (''/'' @ join ''/'' (drop 3 parts)))
      else Some (if hx_EscapedPath u = [] then ''/'' else hx_EscapedPath u))"

definition buildSigningScope :: "'t signing_env \<Rightarrow> string \<Rightarrow> string \<Rightarrow> 't \<Rightarrow> string" where
  "buildSigningScope sv region service dt = join ''/'' [sv_formatShortTime sv dt, region, service, awsV4Request]"

definition deriveSigningKey :: "'t signing_env \<Rightarrow> string \<Rightarrow> string \<Rightarrow> string \<Rightarrow> 't \<Rightarrow> byte list" where
  "deriveSigningKey sv region service secretKey dt =
     (let kDate = sv_hmac sv (str_bytes (''AWS4'' @ secretKey)) (str_bytes (sv_formatShortTime sv dt));
          kRegion = sv_hmac sv kDate (str_bytes region);
          kService = sv_hmac sv kRegion (str_bytes service)
      in sv_hmac sv kService (str_bytes awsV4Request))"

section \<open>The steps\<close>

definition isRequestSigned :: "'t signingCtx \<Rightarrow> bool" where
  "isRequestSigned ctx \<longleftrightarrow>
     cx_isPresign ctx \<and> Values_Get (cx_Query ctx) ''X-Amz-Signature'' \<noteq> [] \<or>
     Header_Get (hx_Header (cx_Request ctx)) ''Authorization'' \<noteq> []"

definition removePresign :: "'t signingCtx \<Rightarrow> 't signingCtx" where
  "removePresign ctx = ctx\<lparr>cx_Query := fold Values_Del
     [''X-Amz-Algorithm'', ''X-Amz-Signature'', ''X-Amz-Security-Token'', ''X-Amz-Date'', ''X-Amz-Expires'',
      ''X-Amz-Credential'', ''X-Amz-SignedHeaders''] (cx_Query ctx)\<rparr>"

definition handlePresignRemoval :: "'t signingCtx \<Rightarrow> 't signingCtx" where
  "handlePresignRemoval ctx =
     (if \<not> cx_isPresign ctx then ctx
      else let ctx = removePresign ctx in
        ctx\<lparr>cx_Request := (cx_Request ctx)\<lparr>hx_RawQuery := Values_Encode (cx_Query ctx)\<rparr>\<rparr>)"

definition sanitized :: "HTTPReq \<Rightarrow> HTTPReq" where
  "sanitized r =
     (let host = (if hx_Host r \<noteq> [] then hx_Host r else hx_URLHost r); port = portOnly host in
      if port \<noteq> [] \<and> isDefaultPort (hx_URLScheme r) port then r\<lparr>hx_Host := stripPort host\<rparr> else r)"

definition assignAmzQueryValues :: "'t signingCtx \<Rightarrow> 't signingCtx" where
  "assignAmzQueryValues ctx =
     (let token = cv_SessionToken (cx_credValues ctx) in
      if cx_isPresign ctx then
        let ctx = set_query ''X-Amz-Algorithm'' authHeaderPrefix ctx in
        if token \<noteq> [] then set_query ''X-Amz-Security-Token'' token ctx
        else ctx\<lparr>cx_Query := Values_Del ''X-Amz-Security-Token'' (cx_Query ctx)\<rparr>
      else if token \<noteq> [] then set_header ''X-Amz-Security-Token'' token ctx
      else ctx)"

definition buildTime :: "'t signing_env \<Rightarrow> 't signingCtx \<Rightarrow> 't signingCtx" where
  "buildTime sv ctx =
     (if cx_isPresign ctx then
        let duration = cx_ExpireTime ctx sdiv 1000000000 in
        set_query ''X-Amz-Expires'' (int_digits duration) (set_query ''X-Amz-Date'' (sv_formatTime sv (cx_Time ctx)) ctx)
      else set_header ''X-Amz-Date'' (sv_formatTime sv (cx_Time ctx)) ctx)"

definition buildCredentialString :: "'t signing_env \<Rightarrow> 't signingCtx \<Rightarrow> 't signingCtx" where
  "buildCredentialString sv ctx =
     (let ctx = ctx\<lparr>cx_credentialString := buildSigningScope sv (cx_Region ctx) (cx_ServiceName ctx) (cx_Time ctx)\<rparr> in
      if cx_isPresign ctx then
        set_query ''X-Amz-Credential'' (cv_AccessKeyID (cx_credValues ctx) @ ''/'' @ cx_credentialString ctx) ctx
      else ctx)"

text \<open>\<open>makeSha256Reader\<close>: the hash of what is left of the body, and the body at its old position.\<close>

definition makeSha256Reader :: "'t signing_env \<Rightarrow> (body, goerror, byte list) action" where
  "makeSha256Reader sv = act_bind (Body_Seek 0 SeekCurrent) (\<lambda>start b.
     case SeekerLen b of
       (res, b) \<Rightarrow>
         (case Body_Read (case res of Inl _ \<Rightarrow> length (bd_data b) | Inr size' \<Rightarrow> nat size') b of
            (content, b) \<Rightarrow>
              act_bind (Body_Seek start SeekStart) (\<lambda>_. act_ret (sv_sha256 sv content)) b))"

definition buildBodyDigest :: "'t signing_env \<Rightarrow> 't signingCtx \<Rightarrow> goerror option \<times> 't signingCtx" where
  "buildBodyDigest sv ctx =
     (let hash = Header_Get (hx_Header (cx_Request ctx)) ''X-Amz-Content-Sha256'' in
      if hash \<noteq> [] then (None, ctx\<lparr>cx_bodyDigest := hash\<rparr>)
      else
        let name = cx_ServiceName ctx;
            includeSHA256Header = cx_unsignedPayload ctx \<or>
              name \<in> set [''s3'', ''s3-object-lambda'', ''glacier'', ''s3-outposts''];
            s3Presign = cx_isPresign ctx \<and> name \<in> set [''s3'', ''s3-object-lambda''];
            finish = (\<lambda>hash include' ctx.
              let ctx = (if include' then set_header ''X-Amz-Content-Sha256'' hash ctx else ctx)
              in (None, ctx\<lparr>cx_bodyDigest := hash\<rparr>))
        in if cx_unsignedPayload ctx \<or> s3Presign then finish ''UNSIGNED-PAYLOAD'' (\<not> s3Presign) ctx
           else case cx_Body ctx of
                  None \<Rightarrow> finish emptyStringSHA256 includeSHA256Header ctx
                | Some b \<Rightarrow>
                    if \<not> IsReaderSeekable b then
                      (Some (PlainError ''cannot use unseekable request body, for signed request with body''), ctx)
                    else case makeSha256Reader sv b of
                           (Inl err, b) \<Rightarrow> (Some err, ctx\<lparr>cx_Body := Some b\<rparr>)
                         | (Inr hashBytes, b) \<Rightarrow> finish (hexEncode hashBytes) includeSHA256Header (ctx\<lparr>cx_Body := Some b\<rparr>))"

definition buildQuery :: "rule \<Rightarrow> Values \<Rightarrow> Values \<times> Values" where
  "buildQuery r header = (filter (\<lambda>kh. rule_IsValid r (fst kh)) header, filter (\<lambda>kh. \<not> rule_IsValid r (fst kh)) header)"

definition ToLower :: "string \<Rightarrow> string" where
  "ToLower s = map lower_char s"

text \<open>The loop of \<open>buildCanonicalHeaders\<close>: the names and the signed values so far.\<close>

definition header_step :: "rule \<Rightarrow> string \<times> string list \<Rightarrow> string list \<times> Values \<Rightarrow> string list \<times> Values" where
  "header_step r kv st = (case (kv, st) of
     ((k, v), (headers, shv)) \<Rightarrow>
       if \<not> rule_IsValid r k then (headers, shv)
       else
         let lowerCaseKey = ToLower k in
         case map_of shv lowerCaseKey of
           Some vs \<Rightarrow> (headers, AList.update lowerCaseKey (vs @ v) shv)
         | None \<Rightarrow> (headers @ [lowerCaseKey], AList.update lowerCaseKey v shv))"

definition header_item :: "HTTPReq \<Rightarrow> Values \<Rightarrow> string \<Rightarrow> string" where
  "header_item req shv k =
     (if k = ''host'' then ''host:'' @ (if hx_Host req \<noteq> [] then hx_Host req else hx_URLHost req)
      else k @ '':'' @ join '','' (map TrimSpace (Values_list shv k)))"

definition buildCanonicalHeaders :: "rule \<Rightarrow> Values \<Rightarrow> 't signingCtx \<Rightarrow> 't signingCtx" where
  "buildCanonicalHeaders r header ctx =
     (case fold (header_step r) header ([''host''], cx_SignedHeaderVals ctx) of
        (headers, shv) \<Rightarrow>
          let headers = sort headers;
              ctx = ctx\<lparr>cx_SignedHeaderVals := shv, cx_signedHeaders := join '';'' headers\<rparr>;
              ctx = (if cx_isPresign ctx then set_query ''X-Amz-SignedHeaders'' (cx_signedHeaders ctx) ctx else ctx);
              headerItems = stripExcessSpaces (map (header_item (cx_Request ctx) shv) headers)
          in ctx\<lparr>cx_canonicalHeaders := join [CHR 0x0A] headerItems\<rparr>)"

definition buildCanonicalString :: "'t signingCtx \<Rightarrow> 't signingCtx option" where
  "buildCanonicalString ctx =
     (let ctx = ctx\<lparr>cx_Request := (cx_Request ctx)\<lparr>hx_RawQuery := plus_to_percent (Values_Encode (cx_Query ctx))\<rparr>\<rparr> in
      case getURIPath (cx_Request ctx) of
        None \<Rightarrow> None
      | Some uri \<Rightarrow>
          let uri = (if \<not> cx_DisableURIPathEscaping ctx then EscapePath uri False else uri)
          in Some (ctx\<lparr>cx_canonicalString := join [CHR 0x0A]
               [hx_Method (cx_Request ctx), uri, hx_RawQuery (cx_Request ctx), cx_canonicalHeaders ctx @ [CHR 0x0A],
                cx_signedHeaders ctx, cx_bodyDigest ctx]\<rparr>))"

definition buildStringToSign :: "'t signing_env \<Rightarrow> 't signingCtx \<Rightarrow> 't signingCtx" where
  "buildStringToSign sv ctx = ctx\<lparr>cx_stringToSign := join [CHR 0x0A]
     [authHeaderPrefix, sv_formatTime sv (cx_Time ctx), cx_credentialString ctx,
      hexEncode (sv_sha256 sv (str_bytes (cx_canonicalString ctx)))]\<rparr>"

definition buildSignature :: "'t signing_env \<Rightarrow> 't signingCtx \<Rightarrow> 't signingCtx" where
  "buildSignature sv ctx =
     (let creds = deriveSigningKey sv (cx_Region ctx) (cx_ServiceName ctx) (cv_SecretAccessKey (cx_credValues ctx)) (cx_Time ctx)
      in ctx\<lparr>cx_signature := hexEncode (sv_hmac sv creds (str_bytes (cx_stringToSign ctx)))\<rparr>)"

definition hoist :: "bool \<Rightarrow> 't signingCtx \<Rightarrow> Values \<times> 't signingCtx" where
  "hoist disableHeaderHoisting ctx =
     (let unsignedHeaders = hx_Header (cx_Request ctx) in
      if cx_isPresign ctx \<and> \<not> disableHeaderHoisting then
        case buildQuery allowedQueryHoisting unsignedHeaders of
          (urlValues, unsignedHeaders) \<Rightarrow>
            (unsignedHeaders, ctx\<lparr>cx_Query := fold (\<lambda>(k, v). AList.update k v) urlValues (cx_Query ctx)\<rparr>)
      else (unsignedHeaders, ctx))"

definition attach_signature :: "'t signingCtx \<Rightarrow> 't signingCtx" where
  "attach_signature ctx =
     (if cx_isPresign ctx then
        ctx\<lparr>cx_Request := (cx_Request ctx)\<lparr>hx_RawQuery := hx_RawQuery (cx_Request ctx) @ ''&'' @ signatureQueryKey @ ''='' @
          cx_signature ctx\<rparr>\<rparr>
      else set_header ''Authorization'' (join '', ''
        [authHeaderPrefix @ '' Credential='' @ cv_AccessKeyID (cx_credValues ctx) @ ''/'' @ cx_credentialString ctx,
         ''SignedHeaders='' @ cx_signedHeaders ctx, authHeaderSignatureElem @ cx_signature ctx]) ctx)"

definition sign_build :: "'t signing_env \<Rightarrow> bool \<Rightarrow> 't signingCtx \<Rightarrow> (goerror option \<times> 't signingCtx) option" where
  "sign_build sv disableHeaderHoisting ctx =
     (case buildBodyDigest sv (buildCredentialString sv (buildTime sv ctx)) of
        (Some err, ctx) \<Rightarrow> Some (Some err, ctx)
      | (None, ctx) \<Rightarrow>
          (case hoist disableHeaderHoisting ctx of
             (unsignedHeaders, ctx) \<Rightarrow>
               (case buildCanonicalString (buildCanonicalHeaders ignoredHeaders unsignedHeaders ctx) of
                  None \<Rightarrow> None
                | Some ctx \<Rightarrow> Some (None, attach_signature (buildSignature sv (buildStringToSign sv ctx))))))"

section \<open>Signing a request\<close>

definition new_ctx :: "Signer \<Rightarrow> HTTPReq \<Rightarrow> body option \<Rightarrow> string \<Rightarrow> string \<Rightarrow> int \<Rightarrow> bool \<Rightarrow> 't \<Rightarrow> 't signingCtx" where
  "new_ctx v4 r body service region exp isPresign signTime =
     \<lparr>cx_ServiceName = service, cx_Region = region, cx_Request = r, cx_Body = body,
      cx_Query = map (\<lambda>(k, vs). (k, sort vs)) (ParseQuery (hx_RawQuery r)), cx_Time = signTime, cx_ExpireTime = exp,
      cx_SignedHeaderVals = [], cx_DisableURIPathEscaping = sn_DisableURIPathEscaping v4, cx_credValues = zero_Value,
      cx_isPresign = isPresign, cx_unsignedPayload = sn_UnsignedPayload v4, cx_bodyDigest = [], cx_signedHeaders = [],
      cx_canonicalHeaders = [], cx_canonicalString = [], cx_credentialString = [], cx_stringToSign = [], cx_signature = []\<rparr>"

text \<open>The result: the signed headers or the error, and the request as it is left. The context of the
  request is not canceled.\<close>

definition signWithBody :: "'t signing_env \<Rightarrow> 'p Provider \<Rightarrow> (unit \<Rightarrow> 't) \<Rightarrow> Signer \<Rightarrow> HTTPReq \<Rightarrow> body option \<Rightarrow> string \<Rightarrow> string \<Rightarrow>
    int \<Rightarrow> bool \<Rightarrow> 't \<Rightarrow> 'p Credentials \<Rightarrow> ((goerror + Values) \<times> HTTPReq \<times> 'p Credentials) option" where
  "signWithBody sv P currentTimeFn v4 r body service region exp isPresign signTime c =
     (let ctx = new_ctx v4 r body service region exp isPresign signTime;
          ctx = (if isRequestSigned ctx then handlePresignRemoval (ctx\<lparr>cx_Time := currentTimeFn ()\<rparr>) else ctx)
      in case Credentials_Get P c of
           None \<Rightarrow> None
         | Some ((creds, Some err), c) \<Rightarrow> Some (Inl err, cx_Request ctx, c)
         | Some ((creds, None), c) \<Rightarrow>
             let ctx = ctx\<lparr>cx_credValues := creds, cx_Request := sanitized (cx_Request ctx)\<rparr>
             in case sign_build sv (sn_DisableHeaderHoisting v4) (assignAmzQueryValues ctx) of
                  None \<Rightarrow> None
                | Some (Some err, ctx) \<Rightarrow> Some (Inl err, cx_Request ctx, c)
                | Some (None, ctx) \<Rightarrow>
                    Some (Inr (cx_SignedHeaderVals ctx),
                      (if \<not> (sn_DisableRequestBodyOverwrite v4 \<or> isPresign)
                       then (cx_Request ctx)\<lparr>hx_Body := cx_Body ctx\<rparr> else cx_Request ctx), c))"

definition Signer_Sign :: "'t signing_env \<Rightarrow> 'p Provider \<Rightarrow> (unit \<Rightarrow> 't) \<Rightarrow> Signer \<Rightarrow> HTTPReq \<Rightarrow> body option \<Rightarrow> string \<Rightarrow> string \<Rightarrow>
    't \<Rightarrow> 'p Credentials \<Rightarrow> ((goerror + Values) \<times> HTTPReq \<times> 'p Credentials) option" where
  "Signer_Sign sv P now v4 r body service region signTime c = signWithBody sv P now v4 r body service region 0 False signTime c"

definition Signer_Presign :: "'t signing_env \<Rightarrow> 'p Provider \<Rightarrow> (unit \<Rightarrow> 't) \<Rightarrow> Signer \<Rightarrow> HTTPReq \<Rightarrow> body option \<Rightarrow> string \<Rightarrow>
    string \<Rightarrow> int \<Rightarrow> 't \<Rightarrow> 'p Credentials \<Rightarrow> ((goerror + Values) \<times> HTTPReq \<times> 'p Credentials) option" where
  "Signer_Presign sv P now v4 r body service region exp signTime c = signWithBody sv P now v4 r body service region exp True signTime c"

text \<open>\<open>SignSDKRequestWithCurrentTime\<close>, without further options. \<open>anonymous\<close>: the credentials are the
  object \<open>AnonymousCredentials\<close>.\<close>

record 't sdk_request =
  sq_HTTPRequest :: HTTPReq
  sq_body :: "body option"
  sq_SigningRegion :: string
  sq_Region :: string
  sq_SigningName :: string
  sq_ServiceName :: string
  sq_NotHoist :: bool
  sq_ExpireTime :: int
  sq_Error :: "goerror option"
  sq_SignedHeaderVals :: "Values option"
  sq_LastSignedAt :: "'t option"

definition SignSDKRequestWithCurrentTime :: "'t signing_env \<Rightarrow> 'p Provider \<Rightarrow> (unit \<Rightarrow> 't) \<Rightarrow> bool \<Rightarrow> 't sdk_request \<Rightarrow>
    'p Credentials \<Rightarrow> ('t sdk_request \<times> 'p Credentials) option" where
  "SignSDKRequestWithCurrentTime sv P curTimeFn anonymous req c =
     (if anonymous then Some (req, c)
      else
        let region = (if sq_SigningRegion req = [] then sq_Region req else sq_SigningRegion req);
            name = (if sq_SigningName req = [] then sq_ServiceName req else sq_SigningName req);
            v4 = \<lparr>sn_DisableHeaderHoisting = sq_NotHoist req, sn_DisableURIPathEscaping = (name = ''s3''),
                  sn_DisableRequestBodyOverwrite = True, sn_UnsignedPayload = False\<rparr>;
            curTime = curTimeFn ()
        in case signWithBody sv P curTimeFn v4 (sq_HTTPRequest req) (sq_body req) name region (sq_ExpireTime req)
                  (sq_ExpireTime req > 0) curTime c of
             None \<Rightarrow> None
           | Some (Inl err, r, c) \<Rightarrow> Some (req\<lparr>sq_HTTPRequest := r, sq_Error := Some err, sq_SignedHeaderVals := None\<rparr>, c)
           | Some (Inr shv, r, c) \<Rightarrow>
               Some (req\<lparr>sq_HTTPRequest := r, sq_SignedHeaderVals := Some shv, sq_LastSignedAt := Some curTime\<rparr>, c))"

section \<open>Signatures of event stream messages\<close>

record StreamSigner =
  ss_region :: string
  ss_service :: string
  ss_prevSig :: "byte list"

definition buildEventStreamStringToSign :: "'t signing_env \<Rightarrow> byte list \<Rightarrow> byte list \<Rightarrow> byte list \<Rightarrow> string \<Rightarrow> 't \<Rightarrow> string" where
  "buildEventStreamStringToSign sv headers payload prevSig scope date = join [CHR 0x0A]
     [''AWS4-HMAC-SHA256-PAYLOAD'', sv_formatTime sv date, scope, hexEncode prevSig, hexEncode (sv_sha256 sv headers),
      hexEncode (sv_sha256 sv payload)]"

definition GetSignature :: "'t signing_env \<Rightarrow> 'p Provider \<Rightarrow> byte list \<Rightarrow> byte list \<Rightarrow> 't \<Rightarrow> StreamSigner \<times> 'p Credentials \<Rightarrow>
    ((goerror + byte list) \<times> StreamSigner \<times> 'p Credentials) option" where
  "GetSignature sv P headers payload date sc = (case sc of (s, c) \<Rightarrow>
     (case Credentials_Get P c of
        None \<Rightarrow> None
      | Some ((credValue, Some err), c) \<Rightarrow> Some (Inl err, s, c)
      | Some ((credValue, None), c) \<Rightarrow>
          let sigKey = deriveSigningKey sv (ss_region s) (ss_service s) (cv_SecretAccessKey credValue) date;
              keyPath = buildSigningScope sv (ss_region s) (ss_service s) date;
              stringToSign = buildEventStreamStringToSign sv headers payload (ss_prevSig s) keyPath date;
              signature = sv_hmac sv sigKey (str_bytes stringToSign)
          in Some (Inr signature, s\<lparr>ss_prevSig := signature\<rparr>, c)))"

end
