(* ===== verification/V4Spaces.thy ===== *)
theory V4Spaces
  imports V4Signer
begin

text \<open>
  \<open>stripExcessSpaces\<close> does what its comment says: every string becomes its words, separated by single
  spaces. The counter that lives on from one string to the next is always back at zero.
\<close>

definition blank_words :: "string \<Rightarrow> string list" where
  "blank_words s = filter (\<lambda>w. w \<noteq> []) (split_at CHR '' '' s)"

definition single_spaced :: "string \<Rightarrow> string" where
  "single_spaced s = join '' '' (blank_words s)"

lemma words_Nil [simp]: "blank_words [] = []"
  by (simp add: blank_words_def split_at.simps)

lemma words_blank [simp]: "is_blank c \<Longrightarrow> blank_words (c # s) = blank_words s"
  by (simp add: blank_words_def split_at.simps [of "CHR '' ''" "CHR '' '' # s"] is_blank_def upto_def past_def)

lemma words_word:
  assumes "w \<noteq> []" and "\<forall>c \<in> set w. \<not> is_blank c"
  shows "blank_words w = [w]" and "is_blank b \<Longrightarrow> blank_words (w @ b # s) = w # blank_words s"
proof -
  have n: "CHR '' '' \<notin> set w" using assms(2) by (auto simp: is_blank_def)
  then show "blank_words w = [w]" using assms(1) by (simp add: blank_words_def split_at.simps)
  assume "is_blank b"
  then have b: "b = CHR '' ''" by (simp add: is_blank_def)
  have "upto CHR '' '' (w @ CHR '' '' # s) = w" "past CHR '' '' (w @ CHR '' '' # s) = s"
    using n by (induction w) (auto simp: upto_def past_def)
  then show "blank_words (w @ b # s) = w # blank_words s"
    using assms(1) b by (simp add: blank_words_def split_at.simps [of "CHR '' ''" "w @ CHR '' '' # s"])
qed

lemma words_dropWhile [simp]: "blank_words (dropWhile is_blank s) = blank_words s"
  by (induction s) simp_all

lemma words_trailing: "\<forall>c \<in> set t. is_blank c \<Longrightarrow> blank_words (s @ t) = blank_words s"
proof (induction s rule: length_induct)
  case (1 s)
  show ?case
  proof (cases "s = [] \<or> is_blank (hd s)")
    case True
    show ?thesis
    proof (cases s)
      case Nil
      have "blank_words t = []" using "1.prems" by (induction t) simp_all
      with Nil show ?thesis by simp
    next
      case (Cons c cs)
      with True 1 show ?thesis by simp
    qed
  next
    case False
    define w where "w = takeWhile (\<lambda>c. \<not> is_blank c) s"
    define r where "r = dropWhile (\<lambda>c. \<not> is_blank c) s"
    have s: "s = w @ r" by (simp add: w_def r_def)
    have w: "w \<noteq> []" "\<forall>c \<in> set w. \<not> is_blank c"
      using False by (cases s; auto simp: w_def dest: set_takeWhileD)+
    show ?thesis
    proof (cases r)
      case Nil
      have "blank_words (w @ t) = [w]"
      proof (cases t)
        case (Cons b t')
        have "blank_words t' = []" using "1.prems" unfolding Cons by (induction t') simp_all
        with words_word(2) [OF w] "1.prems" Cons show ?thesis by simp
      qed (simp add: words_word(1) [OF w])
      with s Nil words_word(1) [OF w] show ?thesis by simp
    next
      case (Cons b r')
      have b: "is_blank b" using hd_dropWhile [of "\<lambda>c. \<not> is_blank c" s] Cons unfolding r_def by force
      have "length r' < length s" using s Cons by simp
      with 1 have "blank_words (r' @ t) = blank_words r'" by blast
      with s Cons words_word(2) [OF w b] show ?thesis by simp
    qed
  qed
qed

lemma words_trim [simp]: "blank_words (trim_blanks s) = blank_words s"
proof -
  have "s = rev (dropWhile is_blank (rev s)) @ rev (takeWhile is_blank (rev s))"
    by (metis rev_append rev_rev_ident takeWhile_dropWhile_id)
  then have "blank_words s = blank_words (rev (dropWhile is_blank (rev s)))"
    by (metis words_trailing set_rev set_takeWhileD)
  then show ?thesis by (simp add: trim_blanks_def)
qed

definition trimmed :: "string \<Rightarrow> bool" where
  "trimmed t \<longleftrightarrow> t = [] \<or> \<not> is_blank (hd t) \<and> \<not> is_blank (last t)"

lemma trimmed_trim: "trimmed (trim_blanks s)"
proof (cases "trim_blanks s = []")
  case False
  let ?u = "rev (dropWhile is_blank (rev s))"
  have "\<not> is_blank (hd (dropWhile is_blank ?u))"
    using False hd_dropWhile unfolding trim_blanks_def by blast
  moreover have "?u \<noteq> []" using False unfolding trim_blanks_def by (metis dropWhile.simps(1))
  then have "\<not> is_blank (last ?u)"
    using hd_dropWhile [of is_blank "rev s"] by (simp add: last_rev)
  moreover have "last (dropWhile is_blank ?u) = last ?u"
    using False unfolding trim_blanks_def by (metis last_append takeWhile_dropWhile_id)
  ultimately show ?thesis by (simp add: trimmed_def trim_blanks_def)
qed (simp add: trimmed_def)

lemma squeeze_reset: "\<not> is_blank c \<Longrightarrow> squeeze n (c # s) = squeeze 0 (c # s)"
  by simp

lemma squeeze_word0: "\<forall>c \<in> set w. \<not> is_blank c \<Longrightarrow> squeeze 0 (w @ s) = (w @ fst (squeeze 0 s), snd (squeeze 0 s))"
  by (induction w) (auto split: prod.splits)

lemma squeeze_word: "\<forall>c \<in> set w. \<not> is_blank c \<Longrightarrow> w \<noteq> [] \<Longrightarrow>
    squeeze n (w @ s) = (w @ fst (squeeze 0 s), snd (squeeze 0 s))"
  using squeeze_word0 [of w s] by (cases w) (simp_all split: prod.splits)

lemma squeeze_blanks: "\<forall>c \<in> set b. is_blank c \<Longrightarrow> s \<noteq> [] \<Longrightarrow> \<not> is_blank (hd s) \<Longrightarrow> squeeze (Suc n) (b @ s) = squeeze 0 s"
  by (induction b arbitrary: n) (auto simp: neq_Nil_conv split: prod.splits)

lemma squeeze_words:
  "trimmed t \<Longrightarrow> squeeze 0 t = (single_spaced t, 0)"
proof (induction t rule: length_induct)
  case (1 t)
  show ?case
  proof (cases "t = []")
    case False
    define w where "w = takeWhile (\<lambda>c. \<not> is_blank c) t"
    define r where "r = dropWhile (\<lambda>c. \<not> is_blank c) t"
    have t: "t = w @ r" by (simp add: w_def r_def)
    have h: "\<not> is_blank (hd t)" "\<not> is_blank (last t)" using "1.prems" False by (auto simp: trimmed_def)
    have w: "w \<noteq> []" "\<forall>c \<in> set w. \<not> is_blank c"
      using False h by (cases t; auto simp: w_def dest: set_takeWhileD)+
    show ?thesis
    proof (cases r)
      case Nil
      have "squeeze 0 w = (w, 0)" using squeeze_word [OF w(2,1), of 0 "[]"] by simp
      with t Nil show ?thesis by (simp add: single_spaced_def words_word(1) [OF w] join_def)
    next
      case (Cons b r')
      have b: "is_blank b" using hd_dropWhile [of "\<lambda>c. \<not> is_blank c" t] Cons unfolding r_def by force
      define t' where "t' = dropWhile is_blank r'"
      define bs where "bs = takeWhile is_blank r'"
      have r': "r' = bs @ t'" by (simp add: bs_def t'_def)
      have ne: "t' \<noteq> []"
      proof
        assume "t' = []"
        then have "\<forall>c \<in> set r'. is_blank c" by (simp add: t'_def dropWhile_eq_Nil_conv)
        then have "is_blank (last r)" using Cons b by auto
        then show False using h(2) t Cons by simp
      qed
      have hd': "\<not> is_blank (hd t')" using ne unfolding t'_def by (rule hd_dropWhile)
      have "last t = last t'" using t Cons r' ne by simp
      with hd' h(2) have tr: "trimmed t'" by (simp add: trimmed_def)
      have "length t' < length t" using t Cons r' by simp
      with 1 tr have IH: "squeeze 0 t' = (single_spaced t', 0)" by blast
      note hd'
      moreover have "\<forall>c \<in> set bs. is_blank c" by (auto simp: bs_def dest: set_takeWhileD)
      ultimately have "squeeze (Suc 0) (bs @ t') = squeeze 0 t'" using ne by (intro squeeze_blanks)
      then have "squeeze 0 r = (b # single_spaced t', 0)" using Cons b r' IH by simp
      then have s: "squeeze 0 t = (w @ b # single_spaced t', 0)" using squeeze_word [OF w(2,1), of 0 r] t by simp
      have "blank_words t' \<noteq> []"
      proof -
        obtain c cs where c: "t' = c # cs" using ne by (cases t') auto
        have "\<not> is_blank c" using tr c by (simp add: trimmed_def)
        then show ?thesis
          by (simp add: c blank_words_def split_at.simps [of _ "c # cs"] upto_def is_blank_def)
      qed
      moreover have "blank_words t = w # blank_words t'"
        using t Cons words_word(2) [OF w b] by (simp add: t'_def)
      ultimately have "single_spaced t = w @ b # single_spaced t'"
        using b by (cases "blank_words t'") (simp_all add: single_spaced_def join_def is_blank_def)
      with s show ?thesis by simp
    qed
  qed (simp add: single_spaced_def join_def)
qed

lemma squeeze_no_double: "cut_double s = None \<Longrightarrow> fst (squeeze 0 s) = s"
proof (induction s rule: cut_double.induct)
  case (1 c d s)
  then show ?case by (cases "is_blank c"; cases "is_blank d") (auto split: prod.splits)
qed (auto split: prod.splits)

lemma squeeze_cut:
  "cut_double s = Some (p, r) \<Longrightarrow> squeeze 0 s = (p @ fst (squeeze 0 r), snd (squeeze 0 r))"
proof (induction s arbitrary: p rule: cut_double.induct)
  case (1 c d s)
  show ?case
  proof (cases "is_blank c \<and> is_blank d")
    case True
    with 1 show ?thesis by simp
  next
    case False
    with "1.prems" obtain q where q: "cut_double (d # s) = Some (q, r)" "p = c # q" by auto
    note IH = "1.IH" [OF False q(1)]
    show ?thesis
    proof (cases "is_blank c")
      case True
      with False have "squeeze (Suc 0) (d # s) = squeeze 0 (d # s)" by simp
      with True q IH show ?thesis by (simp del: squeeze.simps(2) add: squeeze.simps(2) [of _ c])
    next
      case False
      with q IH show ?thesis by (simp del: squeeze.simps(2) add: squeeze.simps(2) [of _ c])
    qed
  qed
qed simp_all

lemma strip_string_spec: "strip_string 0 s = (single_spaced s, 0)"
proof -
  have sq: "squeeze 0 (trim_blanks s) = (single_spaced s, 0)"
    using squeeze_words [OF trimmed_trim] by (simp add: single_spaced_def)
  show ?thesis
  proof (cases "cut_double (trim_blanks s)")
    case None
    with squeeze_no_double [OF None] sq show ?thesis by (simp add: strip_string_def Let_def)
  next
    case (Some x)
    obtain p r where x: "x = (p, r)" by (cases x)
    with squeeze_cut [of "trim_blanks s" p r] Some sq show ?thesis
      by (auto simp: strip_string_def Let_def split: prod.splits)
  qed
qed

lemma strip_spec: "stripExcessSpaces vals = map single_spaced vals"
  unfolding stripExcessSpaces_def by (induction vals) (simp_all add: strip_string_spec)

end
