(* ===== verification/V4Order.thy ===== *)
theory V4Order
  imports V4Spaces IamClient "HOL-Library.Multiset"
begin

text \<open>
  The signature does not depend on the order in which Go iterates over the header and query maps:
  \<open>same_ctx\<close> relates two signing contexts that differ only in the order of those maps, every step of
  the signer keeps it, and the texts that are signed are equal.
\<close>

section \<open>The same map in another order\<close>

definition same_values :: "Values \<Rightarrow> Values \<Rightarrow> bool" where
  "same_values h h' \<longleftrightarrow> Values_wf h \<and> Values_wf h' \<and> map_of h = map_of h'"

lemma same_list: "same_values h h' \<Longrightarrow> Values_list h k = Values_list h' k"
  by (simp add: same_values_def Values_list_def)

lemma same_Header_Get: "same_values h h' \<Longrightarrow> Header_Get h k = Header_Get h' k"
  by (simp add: Header_Get_def same_list)

lemma same_Values_Get: "same_values h h' \<Longrightarrow> Values_Get h k = Values_Get h' k"
  by (simp add: Values_Get_def same_list)

lemma same_update: "same_values h h' \<Longrightarrow> v \<noteq> [] \<Longrightarrow> same_values (AList.update k v h) (AList.update k v h')"
  by (simp add: same_values_def update_values update_conv')

lemma same_Header_Set: "same_values h h' \<Longrightarrow> same_values (Header_Set k v h) (Header_Set k v h')"
  by (simp add: Header_Set_def same_update)

lemma same_Values_Set: "same_values h h' \<Longrightarrow> same_values (Values_Set k v h) (Values_Set k v h')"
  by (simp add: Values_Set_def same_update)

lemma Values_Del_wf: "Values_wf h \<Longrightarrow> Values_wf (Values_Del k h)"
  by (auto simp: Values_Del_def Values_wf_def AList.delete_eq distinct_map_filter)

lemma same_Values_Del: "same_values h h' \<Longrightarrow> same_values (Values_Del k h) (Values_Del k h')"
  by (simp add: same_values_def Values_Del_wf) (simp add: Values_Del_def delete_conv')

lemma same_set: "same_values h h' \<Longrightarrow> set h = set h'"
  unfolding same_values_def Values_wf_def using map_of_inject_set by blast

lemma same_mset: "same_values h h' \<Longrightarrow> mset h = mset h'"
proof -
  assume s: "same_values h h'"
  then have "distinct h" "distinct h'" by (simp_all add: same_values_def Values_wf_def distinct_map)
  with same_set [OF s] show ?thesis by (simp add: set_eq_iff_mset_eq_distinct)
qed

lemma same_filter:
  assumes "same_values h h'"
  shows "same_values (filter (\<lambda>kv. P (fst kv)) h) (filter (\<lambda>kv. P (fst kv)) h')"
proof -
  have wf: "Values_wf (filter (\<lambda>kv. P (fst kv)) g)" if "Values_wf g" for g
    using that by (auto simp: Values_wf_def distinct_map_filter)
  have "set (filter (\<lambda>kv. P (fst kv)) h) = set (filter (\<lambda>kv. P (fst kv)) h')"
    using same_set [OF assms] by auto
  with assms wf show ?thesis
    unfolding same_values_def by (metis Values_wf_def map_of_inject_set)
qed

lemma fold_update_map_of:
  "map_of (fold (\<lambda>(k, v). AList.update k v) xs h) = map_of h ++ map_of (rev xs)"
proof (induction xs arbitrary: h)
  case (Cons x xs)
  then show ?case by (cases x) (auto simp: update_conv' map_add_def fun_eq_iff split: option.splits)
qed simp

lemma fold_update_wf: "Values_wf h \<Longrightarrow> \<forall>kv \<in> set xs. snd kv \<noteq> [] \<Longrightarrow> Values_wf (fold (\<lambda>(k, v). AList.update k v) xs h)"
  by (induction xs arbitrary: h) (auto simp: update_values)

lemma map_of_rev_distinct: "distinct (map fst xs) \<Longrightarrow> map_of (rev xs) = map_of xs"
  by (metis distinct_rev map_of_inject_set rev_map set_rev)

lemma same_fold_update:
  assumes "same_values h h'" and "same_values u u'"
  shows "same_values (fold (\<lambda>(k, v). AList.update k v) u h) (fold (\<lambda>(k, v). AList.update k v) u' h')"
proof -
  have wf: "Values_wf h" "Values_wf h'" "\<forall>kv \<in> set u. snd kv \<noteq> []" "\<forall>kv \<in> set u'. snd kv \<noteq> []"
    "distinct (map fst u)" "distinct (map fst u')" "map_of h = map_of h'" "map_of u = map_of u'"
    using assms by (simp_all add: same_values_def Values_wf_def)
  then show ?thesis
    by (simp add: same_values_def fold_update_map_of map_of_rev_distinct fold_update_wf)
qed

lemma same_encode: "same_values h h' \<Longrightarrow> Values_Encode h = Values_Encode h'"
proof -
  assume s: "same_values h h'"
  have "mset (map fst h) = mset (map fst h')" using same_mset [OF s] by simp
  then have "sort (map fst h) = sort (map fst h')" by (metis properties_for_sort mset_sort sorted_sort)
  with same_list [OF s] show ?thesis by (simp add: Values_Encode_def encode_with_def Values_pairs_def)
qed

section \<open>Canonical keys\<close>

lemma canonical_Set: "header_canonical h \<Longrightarrow> header_canonical (Header_Set k v h)"
  by (simp add: Header_Set_def update_canonical canonical_idem)

lemma lower_distinct:
  assumes "Values_wf h" and "header_canonical h"
  shows "distinct (map (ToLower \<circ> fst) h)"
proof -
  have "inj_on ToLower (fst ` set h)"
    using assms(2) unfolding inj_on_def ToLower_def header_canonical_def by (metis canonical_lower imageE)
  with assms(1) show ?thesis by (simp add: Values_wf_def distinct_map comp_inj_on)
qed

section \<open>Canonical headers\<close>

abbreviation lower_key :: "string \<times> string list \<Rightarrow> string \<times> string list" where
  "lower_key kv \<equiv> (ToLower (fst kv), snd kv)"

lemma header_fold:
  assumes "distinct (map (ToLower \<circ> fst) h)" and "\<forall>kv \<in> set h. ToLower (fst kv) \<notin> fst ` set sv"
  shows "fold (header_step r) h (names, sv) =
    (names @ map (ToLower \<circ> fst) (filter (\<lambda>kv. rule_IsValid r (fst kv)) h), sv @ map lower_key (filter (\<lambda>kv. rule_IsValid r (fst kv)) h))"
  using assms
proof (induction h arbitrary: names sv)
  case (Cons kv h)
  obtain k v where kv: "kv = (k, v)" by (cases kv)
  show ?case
  proof (cases "rule_IsValid r k")
    case True
    have "map_of sv (ToLower k) = None" using Cons.prems(2) kv by (simp add: map_of_eq_None_iff)
    moreover have "AList.update (ToLower k) v sv = sv @ [(ToLower k, v)]"
      using Cons.prems(2) kv by (intro update_other_last) simp
    ultimately have "header_step r kv (names, sv) = (names @ [ToLower k], sv @ [(ToLower k, v)])"
      using True kv by (simp add: header_step_def Let_def)
    moreover have "\<forall>kv \<in> set h. ToLower (fst kv) \<notin> fst ` set (sv @ [(ToLower k, v)])" and "distinct (map (ToLower \<circ> fst) h)"
      using Cons.prems kv by (force simp: image_iff, simp add: comp_def)
    ultimately show ?thesis using Cons.IH [of "sv @ [(ToLower k, v)]" "names @ [ToLower k]"] kv True by (simp add: comp_def)
  next
    case False
    then have "header_step r kv (names, sv) = (names, sv)" by (simp add: header_step_def kv)
    moreover have "\<forall>kv \<in> set h. ToLower (fst kv) \<notin> fst ` set sv" and "distinct (map (ToLower \<circ> fst) h)"
      using Cons.prems by (simp_all add: comp_def)
    ultimately show ?thesis using Cons.IH [of sv names] kv False by (simp add: comp_def)
  qed
qed simp

lemma header_fold_same:
  assumes "same_values h h'" and "header_canonical h" and "header_canonical h'"
  obtains names names' sv sv' where "fold (header_step r) h ([''host''], []) = (names, sv)"
    "fold (header_step r) h' ([''host''], []) = (names', sv')" "mset names = mset names'" "map_of sv = map_of sv'"
proof -
  let ?f = "filter (\<lambda>kv. rule_IsValid r (fst kv))"
  have d: "distinct (map (ToLower \<circ> fst) h)" "distinct (map (ToLower \<circ> fst) h')"
    using assms lower_distinct by (auto simp: same_values_def)
  have m: "mset (?f h) = mset (?f h')" using same_mset [OF assms(1)] by simp
  then have "mset (map (ToLower \<circ> fst) (?f h)) = mset (map (ToLower \<circ> fst) (?f h'))" by simp
  moreover have "map_of (map lower_key (?f h)) = map_of (map lower_key (?f h'))"
  proof (subst map_of_inject_set)
    show "distinct (map fst (map lower_key (?f h)))" "distinct (map fst (map lower_key (?f h')))"
      using d by (simp_all add: comp_def distinct_map_filter)
    show "set (map lower_key (?f h)) = set (map lower_key (?f h'))" by (simp only: set_map mset_eq_setD [OF m])
  qed
  moreover have "mset ([''host''] @ map (ToLower \<circ> fst) (?f h)) = mset ([''host''] @ map (ToLower \<circ> fst) (?f h'))"
    using calculation(1) by simp
  ultimately show thesis
    by (intro that [OF header_fold [OF d(1)] header_fold [OF d(2)]]) simp_all
qed

section \<open>Contexts\<close>

definition ctx_rest :: "'t signingCtx \<Rightarrow> 't signingCtx" where
  "ctx_rest c = c\<lparr>cx_Request := (cx_Request c)\<lparr>hx_Header := []\<rparr>, cx_Query := [], cx_SignedHeaderVals := []\<rparr>"

definition same_ctx :: "'t signingCtx \<Rightarrow> 't signingCtx \<Rightarrow> bool" where
  "same_ctx c d \<longleftrightarrow> ctx_rest c = ctx_rest d \<and> same_values (hx_Header (cx_Request c)) (hx_Header (cx_Request d)) \<and>
     header_canonical (hx_Header (cx_Request c)) \<and> header_canonical (hx_Header (cx_Request d)) \<and>
     same_values (cx_Query c) (cx_Query d) \<and> map_of (cx_SignedHeaderVals c) = map_of (cx_SignedHeaderVals d)"

lemma same_ctxE:
  assumes "same_ctx c d"
  obtains h q sv where "d = c\<lparr>cx_Request := (cx_Request c)\<lparr>hx_Header := h\<rparr>, cx_Query := q, cx_SignedHeaderVals := sv\<rparr>"
    "same_values (hx_Header (cx_Request c)) h" "header_canonical (hx_Header (cx_Request c))" "header_canonical h"
    "same_values (cx_Query c) q" "map_of (cx_SignedHeaderVals c) = map_of sv"
proof -
  have e: "ctx_rest c = ctx_rest d" using assms by (simp add: same_ctx_def)
  have "d = c\<lparr>cx_Request := (cx_Request c)\<lparr>hx_Header := hx_Header (cx_Request d)\<rparr>, cx_Query := cx_Query d,
      cx_SignedHeaderVals := cx_SignedHeaderVals d\<rparr>"
    using arg_cong [OF e, of "\<lambda>x. x\<lparr>cx_Request := (cx_Request x)\<lparr>hx_Header := hx_Header (cx_Request d)\<rparr>, cx_Query := cx_Query d,
      cx_SignedHeaderVals := cx_SignedHeaderVals d\<rparr>"] by (simp add: ctx_rest_def)
  from that [OF this] show thesis using assms unfolding same_ctx_def by blast
qed

lemma same_fields:
  assumes "same_ctx c d"
  shows "cx_isPresign c = cx_isPresign d" "cx_credValues c = cx_credValues d" "cx_Time c = cx_Time d"
    "cx_ExpireTime c = cx_ExpireTime d" "cx_Region c = cx_Region d" "cx_ServiceName c = cx_ServiceName d"
    "cx_unsignedPayload c = cx_unsignedPayload d" "cx_Body c = cx_Body d" "cx_DisableURIPathEscaping c = cx_DisableURIPathEscaping d"
    "cx_credentialString c = cx_credentialString d" "cx_bodyDigest c = cx_bodyDigest d" "cx_signedHeaders c = cx_signedHeaders d"
    "cx_canonicalHeaders c = cx_canonicalHeaders d" "cx_canonicalString c = cx_canonicalString d"
    "cx_stringToSign c = cx_stringToSign d" "cx_signature c = cx_signature d"
    "hx_Method (cx_Request c) = hx_Method (cx_Request d)" "hx_RawQuery (cx_Request c) = hx_RawQuery (cx_Request d)"
    "getURIPath (cx_Request c) = getURIPath (cx_Request d)"
  using assms by - (erule same_ctxE, simp add: getURIPath_def)+

section \<open>The steps keep the relation\<close>

lemma same_set_header: "same_ctx c d \<Longrightarrow> same_ctx (set_header k v c) (set_header k v d)"
  by (erule same_ctxE) (simp add: same_ctx_def ctx_rest_def same_Header_Set canonical_Set)

lemma same_set_query: "same_ctx c d \<Longrightarrow> same_ctx (set_query k v c) (set_query k v d)"
  by (erule same_ctxE) (simp add: same_ctx_def ctx_rest_def same_Values_Set)

lemma same_cx_Query: "same_ctx c d \<Longrightarrow> same_values q q' \<Longrightarrow> same_ctx (c\<lparr>cx_Query := q\<rparr>) (d\<lparr>cx_Query := q'\<rparr>)"
  by (erule same_ctxE) (simp add: same_ctx_def ctx_rest_def)

lemma same_queries: "same_ctx c d \<Longrightarrow> same_values (cx_Query c) (cx_Query d)"
  by (simp add: same_ctx_def)

lemma same_headers: "same_ctx c d \<Longrightarrow> same_values (hx_Header (cx_Request c)) (hx_Header (cx_Request d))"
  by (simp add: same_ctx_def)

lemma same_del_query: "same_ctx c d \<Longrightarrow> same_ctx (c\<lparr>cx_Query := Values_Del k (cx_Query c)\<rparr>) (d\<lparr>cx_Query := Values_Del k (cx_Query d)\<rparr>)"
  by (intro same_cx_Query same_Values_Del same_queries)

lemma same_setfield:
  assumes "same_ctx c d"
  shows "same_ctx (c\<lparr>cx_Request := (cx_Request c)\<lparr>hx_RawQuery := x\<rparr>\<rparr>) (d\<lparr>cx_Request := (cx_Request d)\<lparr>hx_RawQuery := x\<rparr>\<rparr>)"
    "same_ctx (c\<lparr>cx_credentialString := x\<rparr>) (d\<lparr>cx_credentialString := x\<rparr>)"
    "same_ctx (c\<lparr>cx_bodyDigest := x\<rparr>) (d\<lparr>cx_bodyDigest := x\<rparr>)"
    "same_ctx (c\<lparr>cx_Body := b\<rparr>) (d\<lparr>cx_Body := b\<rparr>)"
    "same_ctx (c\<lparr>cx_canonicalString := x\<rparr>) (d\<lparr>cx_canonicalString := x\<rparr>)"
    "same_ctx (c\<lparr>cx_canonicalHeaders := x\<rparr>) (d\<lparr>cx_canonicalHeaders := x\<rparr>)"
    "same_ctx (c\<lparr>cx_signedHeaders := x\<rparr>) (d\<lparr>cx_signedHeaders := x\<rparr>)"
    "same_ctx (c\<lparr>cx_stringToSign := x\<rparr>) (d\<lparr>cx_stringToSign := x\<rparr>)"
    "same_ctx (c\<lparr>cx_signature := x\<rparr>) (d\<lparr>cx_signature := x\<rparr>)"
    "same_ctx (c\<lparr>cx_credValues := v\<rparr>) (d\<lparr>cx_credValues := v\<rparr>)"
    "same_ctx (c\<lparr>cx_Time := t\<rparr>) (d\<lparr>cx_Time := t\<rparr>)"
  using assms by - (erule same_ctxE, simp add: same_ctx_def ctx_rest_def)+

lemma same_isRequestSigned: "same_ctx c d \<Longrightarrow> isRequestSigned c = isRequestSigned d"
proof -
  assume s: "same_ctx c d"
  then have "Values_Get (cx_Query c) k = Values_Get (cx_Query d) k"
    "Header_Get (hx_Header (cx_Request c)) k = Header_Get (hx_Header (cx_Request d)) k" for k
    unfolding same_ctx_def using same_Values_Get same_Header_Get by blast+
  with same_fields(1) [OF s] show ?thesis by (simp only: isRequestSigned_def)
qed

lemma same_dels: "same_values q q' \<Longrightarrow> same_values (fold Values_Del ks q) (fold Values_Del ks q')"
  by (induction ks arbitrary: q q') (simp_all add: same_Values_Del)

lemma same_removePresign: "same_ctx c d \<Longrightarrow> same_ctx (removePresign c) (removePresign d)"
  unfolding removePresign_def by (intro same_cx_Query same_dels same_queries)

lemma same_handlePresignRemoval: "same_ctx c d \<Longrightarrow> same_ctx (handlePresignRemoval c) (handlePresignRemoval d)"
proof -
  assume s: "same_ctx c d"
  note r = same_removePresign [OF s]
  then have "Values_Encode (cx_Query (removePresign c)) = Values_Encode (cx_Query (removePresign d))"
    by (intro same_encode) (simp add: same_ctx_def)
  with s same_setfield(1) [OF r] same_fields(1) [OF s] show ?thesis by (simp add: handlePresignRemoval_def Let_def)
qed

lemma same_assign: "same_ctx c d \<Longrightarrow> same_ctx (assignAmzQueryValues c) (assignAmzQueryValues d)"
proof -
  assume s: "same_ctx c d"
  note q = same_set_query [OF s, of "''X-Amz-Algorithm''" authHeaderPrefix]
  show ?thesis
    using s same_fields(1,2) [OF s] same_set_query [OF q] same_del_query [OF q] same_set_header [OF s]
    by (auto simp: assignAmzQueryValues_def Let_def)
qed

lemma same_buildTime: "same_ctx c d \<Longrightarrow> same_ctx (buildTime sv c) (buildTime sv d)"
proof -
  assume s: "same_ctx c d"
  note f = same_fields(1,3,4) [OF s]
  have "same_ctx (set_query ''X-Amz-Expires'' v (set_query ''X-Amz-Date'' u c)) (set_query ''X-Amz-Expires'' v (set_query ''X-Amz-Date'' u d))" for u v
    by (intro same_set_query s)
  with f same_set_header [OF s] show ?thesis by (simp add: buildTime_def Let_def)
qed


lemma same_credential: "same_ctx c d \<Longrightarrow> same_ctx (buildCredentialString sv c) (buildCredentialString sv d)"
proof -
  assume s: "same_ctx c d"
  note t = same_setfield(2) [OF s, of "buildSigningScope sv (cx_Region d) (cx_ServiceName d) (cx_Time d)"]
  show ?thesis
    using t same_set_query [OF t] same_fields(1,2,3,5,6) [OF s] by (simp add: buildCredentialString_def Let_def)
qed

definition same_result :: "goerror option \<times> 't signingCtx \<Rightarrow> goerror option \<times> 't signingCtx \<Rightarrow> bool" where
  "same_result x y \<longleftrightarrow> fst x = fst y \<and> same_ctx (snd x) (snd y)"

lemma same_digest: "same_ctx c d \<Longrightarrow> same_result (buildBodyDigest sv c) (buildBodyDigest sv d)"
proof -
  assume s: "same_ctx c d"
  note body = same_set_header [OF same_setfield(4) [OF s], simplified]
  note f = same_fields(1,6,7,8) [OF s] same_Header_Get [OF same_headers [OF s], of "''X-Amz-Content-Sha256''"]
  show ?thesis
    unfolding buildBodyDigest_def same_result_def Let_def f
    by (auto split: option.splits sum.splits prod.splits intro!: same_setfield(3,4) same_set_header s body)
qed

lemma same_hoist:
  assumes "same_ctx c d" and "hoist b c = (h, c')" and "hoist b d = (h', d')"
  shows "same_values h h' \<and> header_canonical h \<and> header_canonical h' \<and> same_ctx c' d'"
proof -
  have can: "header_canonical (filter P h)" if "header_canonical h" for P h
    using that by (auto simp: header_canonical_def)
  note f = same_filter [OF same_headers [OF assms(1)]]
  have "same_ctx (c\<lparr>cx_Query := fold (\<lambda>(k, v). AList.update k v) (filter (\<lambda>kh. rule_IsValid r (fst kh)) (hx_Header (cx_Request c))) (cx_Query c)\<rparr>)
      (d\<lparr>cx_Query := fold (\<lambda>(k, v). AList.update k v) (filter (\<lambda>kh. rule_IsValid r (fst kh)) (hx_Header (cx_Request d))) (cx_Query d)\<rparr>)" for r
    by (intro same_cx_Query same_fold_update same_queries assms(1) f)
  then show ?thesis
    using assms same_fields(1) [OF assms(1)] can f
    by (auto simp: hoist_def buildQuery_def Let_def same_ctx_def split: if_splits)
qed

lemma same_canonical_headers:
  assumes "same_ctx c d" and "cx_SignedHeaderVals c = []" and "cx_SignedHeaderVals d = []"
    and "same_values h h'" and "header_canonical h" and "header_canonical h'"
  shows "same_ctx (buildCanonicalHeaders r h c) (buildCanonicalHeaders r h' d)"
proof -
  obtain names names' shv shv' where f: "fold (header_step r) h ([''host''], []) = (names, shv)"
    "fold (header_step r) h' ([''host''], []) = (names', shv')" "mset names = mset names'" "map_of shv = map_of shv'"
    by (rule header_fold_same [OF assms(4-6)])
  have n: "sort names = sort names'" using f(3) by (metis properties_for_sort mset_sort sorted_sort)
  have i: "header_item (cx_Request x) shv = header_item (cx_Request y) shv'" if "same_ctx x y" for x y :: "'a signingCtx"
    using that f(4) by (elim same_ctxE) (simp add: header_item_def fun_eq_iff Values_list_def)
  define c1 where "c1 = c\<lparr>cx_SignedHeaderVals := shv, cx_signedHeaders := join '';'' (sort names')\<rparr>"
  define d1 where "d1 = d\<lparr>cx_SignedHeaderVals := shv', cx_signedHeaders := join '';'' (sort names')\<rparr>"
  define c2 where "c2 = (if cx_isPresign c1 then set_query ''X-Amz-SignedHeaders'' (cx_signedHeaders c1) c1 else c1)"
  define d2 where "d2 = (if cx_isPresign d1 then set_query ''X-Amz-SignedHeaders'' (cx_signedHeaders d1) d1 else d1)"
  have s1: "same_ctx c1 d1" using assms(1) f(4) unfolding c1_def d1_def by (elim same_ctxE) (simp add: same_ctx_def ctx_rest_def)
  have s2: "same_ctx c2 d2" using s1 same_set_query [OF s1] same_fields(1,12) [OF s1] by (simp add: c2_def d2_def)
  have c: "buildCanonicalHeaders r h c = c2\<lparr>cx_canonicalHeaders := join [CHR 0x0A] (stripExcessSpaces (map (header_item (cx_Request c2) shv) (sort names')))\<rparr>"
    by (simp only: buildCanonicalHeaders_def assms(2) f(1) Let_def n prod.case c1_def c2_def)
  have d: "buildCanonicalHeaders r h' d = d2\<lparr>cx_canonicalHeaders := join [CHR 0x0A] (stripExcessSpaces (map (header_item (cx_Request d2) shv') (sort names')))\<rparr>"
    by (simp only: buildCanonicalHeaders_def assms(3) f(2) Let_def prod.case d1_def d2_def)
  show ?thesis unfolding c d i [OF s2] by (rule same_setfield(6) [OF s2])
qed

lemma same_canonical_string:
  assumes "same_ctx c d"
  shows "rel_option same_ctx (buildCanonicalString c) (buildCanonicalString d)"
proof -
  have q: "Values_Encode (cx_Query c) = Values_Encode (cx_Query d)" by (rule same_encode [OF same_queries [OF assms]])
  note s = same_setfield(1) [OF assms, of "plus_to_percent (Values_Encode (cx_Query d))"]
  note f = same_fields(9,11,12,13,17,18,19) [OF s]
  show ?thesis
    unfolding buildCanonicalString_def Let_def q f
    by (auto split: option.splits intro: same_setfield(5) [OF s])
qed

section \<open>The signer\<close>

lemma no_signed_yet:
  "cx_SignedHeaderVals (set_header k v c) = cx_SignedHeaderVals c"
  "cx_SignedHeaderVals (buildTime sv c) = cx_SignedHeaderVals c"
  "cx_SignedHeaderVals (assignAmzQueryValues c) = cx_SignedHeaderVals c"
  "cx_SignedHeaderVals (buildCredentialString sv c) = cx_SignedHeaderVals c"
  "cx_SignedHeaderVals (snd (buildBodyDigest sv c)) = cx_SignedHeaderVals c"
  "cx_SignedHeaderVals (snd (hoist b c)) = cx_SignedHeaderVals c"
  "cx_SignedHeaderVals (handlePresignRemoval c) = cx_SignedHeaderVals c"
  by (auto simp: buildTime_def assignAmzQueryValues_def buildCredentialString_def buildBodyDigest_def hoist_def buildQuery_def
      handlePresignRemoval_def removePresign_def Let_def split: option.splits sum.splits prod.splits)

lemma same_attach:
  assumes "same_ctx c d"
  shows "same_ctx (attach_signature (buildSignature sv (buildStringToSign sv c))) (attach_signature (buildSignature sv (buildStringToSign sv d)))"
proof -
  note f = same_fields [OF assms]
  have s: "same_ctx (buildStringToSign sv c) (buildStringToSign sv d)"
    unfolding buildStringToSign_def f by (rule same_setfield(8) [OF assms])
  note g = same_fields [OF s]
  have t: "same_ctx (buildSignature sv (buildStringToSign sv c)) (buildSignature sv (buildStringToSign sv d))"
    unfolding buildSignature_def Let_def g by (rule same_setfield(9) [OF s])
  note h = same_fields [OF t]
  show ?thesis
    unfolding attach_signature_def h using same_setfield(1) [OF t] same_set_header [OF t] by simp
qed

lemma same_build:
  assumes "same_ctx c d" and "cx_SignedHeaderVals c = []" and "cx_SignedHeaderVals d = []"
  shows "rel_option same_result (sign_build sv b c) (sign_build sv b d)"
proof -
  obtain e c1 where c1: "buildBodyDigest sv (buildCredentialString sv (buildTime sv c)) = (e, c1)" by fastforce
  obtain e' d1 where d1: "buildBodyDigest sv (buildCredentialString sv (buildTime sv d)) = (e', d1)" by fastforce
  have "same_result (e, c1) (e', d1)"
    unfolding c1 [symmetric] d1 [symmetric] by (intro same_digest same_credential same_buildTime assms(1))
  then have e: "e' = e" and s: "same_ctx c1 d1" by (simp_all add: same_result_def)
  have n1: "cx_SignedHeaderVals c1 = []" "cx_SignedHeaderVals d1 = []"
    using no_signed_yet(2,4,5) c1 d1 assms(2,3) by (metis snd_conv)+
  show ?thesis
  proof (cases e)
    case (Some err)
    then show ?thesis using c1 d1 e s by (simp add: sign_build_def same_result_def)
  next
    case None
    obtain h c2 where c2: "hoist b c1 = (h, c2)" by fastforce
    obtain h' d2 where d2: "hoist b d1 = (h', d2)" by fastforce
    note hh = same_hoist [OF s c2 d2]
    have n2: "cx_SignedHeaderVals c2 = []" "cx_SignedHeaderVals d2 = []"
      using no_signed_yet(6) c2 d2 n1 by (metis snd_conv)+
    have "same_ctx (buildCanonicalHeaders ignoredHeaders h c2) (buildCanonicalHeaders ignoredHeaders h' d2)"
      using hh n2 by (intro same_canonical_headers) simp_all
    from same_canonical_string [OF this] show ?thesis
      unfolding sign_build_def c1 d1 e None
      by (cases rule: option.rel_cases) (simp_all add: c2 d2 same_result_def same_attach)
  qed
qed

lemma Values_Add_wf: "Values_wf h \<Longrightarrow> Values_wf (Values_Add k v h)"
  by (simp add: Values_Add_def update_values)

lemma ParseQuery_wf: "Values_wf (ParseQuery q)"
proof -
  have "Values_wf h \<Longrightarrow> Values_wf (fold (\<lambda>(k, v). Values_Add k v) xs h)" for xs h
    by (induction xs arbitrary: h) (auto simp: Values_Add_wf)
  then show ?thesis by (simp add: ParseQuery_def)
qed

lemma sort_Nil_iff [simp]: "sort xs = [] \<longleftrightarrow> xs = []"
  by (metis set_empty set_sort)

lemma sorted_lists_wf: "Values_wf h \<Longrightarrow> Values_wf (map (\<lambda>(k, vs). (k, sort vs)) h)"
  by (auto simp: Values_wf_def comp_def case_prod_beta)

lemma same_new:
  assumes "same_values (hx_Header r) h'" and "header_canonical (hx_Header r)" and "header_canonical h'"
  shows "same_ctx (new_ctx v4 r body service region exp p t) (new_ctx v4 (r\<lparr>hx_Header := h'\<rparr>) body service region exp p t)"
  using assms sorted_lists_wf [OF ParseQuery_wf]
  by (simp add: new_ctx_def same_ctx_def ctx_rest_def) (simp add: same_values_def)

lemma same_sanitized: "same_ctx c d \<Longrightarrow> same_ctx (c\<lparr>cx_Request := sanitized (cx_Request c)\<rparr>) (d\<lparr>cx_Request := sanitized (cx_Request d)\<rparr>)"
  by (erule same_ctxE) (simp add: same_ctx_def ctx_rest_def sanitized_def Let_def)

text \<open>What a caller sees of a signed request: its headers and the signed values as maps.\<close>

definition sign_outcome :: "(goerror + Values) \<times> HTTPReq \<times> 'c \<Rightarrow>
    (goerror + (string \<Rightarrow> string list option)) \<times> HTTPReq \<times> (string \<Rightarrow> string list option) \<times> 'c" where
  "sign_outcome = (\<lambda>(res, r, c). (map_sum id map_of res, r\<lparr>hx_Header := []\<rparr>, map_of (hx_Header r), c))"

lemma same_sign_outcome:
  assumes "same_ctx c d"
  shows "sign_outcome (Inl err, cx_Request c, p) = sign_outcome (Inl err, cx_Request d, p)"
    "sign_outcome (Inr (cx_SignedHeaderVals c), cx_Request c, p) = sign_outcome (Inr (cx_SignedHeaderVals d), cx_Request d, p)"
    "sign_outcome (Inr (cx_SignedHeaderVals c), (cx_Request c)\<lparr>hx_Body := cx_Body c\<rparr>, p) =
       sign_outcome (Inr (cx_SignedHeaderVals d), (cx_Request d)\<lparr>hx_Body := cx_Body d\<rparr>, p)"
  using assms by - (erule same_ctxE, simp add: sign_outcome_def same_values_def)+

text \<open>What \<open>signWithBody\<close> does once the credentials are there, over the context before and after them.\<close>

definition sign_with where
  "sign_with sv v4 p res ctx ctx_of = (case res of
     None \<Rightarrow> None
   | Some ((creds, Some err), c) \<Rightarrow> Some (Inl err, cx_Request ctx, c)
   | Some ((creds, None), c) \<Rightarrow>
       (case sign_build sv (sn_DisableHeaderHoisting v4) (ctx_of creds) of
          None \<Rightarrow> None
        | Some (Some err, ctx) \<Rightarrow> Some (Inl err, cx_Request ctx, c)
        | Some (None, ctx) \<Rightarrow>
            Some (Inr (cx_SignedHeaderVals ctx),
              (if \<not> (sn_DisableRequestBodyOverwrite v4 \<or> p) then (cx_Request ctx)\<lparr>hx_Body := cx_Body ctx\<rparr> else cx_Request ctx), c)))"

lemma same_sign:
  assumes "same_values (hx_Header r) h'" and "header_canonical (hx_Header r)" and "header_canonical h'"
  shows "map_option sign_outcome (signWithBody sv P now v4 r body service region exp p t c) =
    map_option sign_outcome (signWithBody sv P now v4 (r\<lparr>hx_Header := h'\<rparr>) body service region exp p t c)"
proof -
  define a where "a = new_ctx v4 r body service region exp p t"
  define b where "b = new_ctx v4 (r\<lparr>hx_Header := h'\<rparr>) body service region exp p t"
  define a1 where "a1 = (if isRequestSigned a then handlePresignRemoval (a\<lparr>cx_Time := now ()\<rparr>) else a)"
  define b1 where "b1 = (if isRequestSigned b then handlePresignRemoval (b\<lparr>cx_Time := now ()\<rparr>) else b)"
  define a2 where "a2 = (\<lambda>v. assignAmzQueryValues (a1\<lparr>cx_credValues := v, cx_Request := sanitized (cx_Request a1)\<rparr>))"
  define b2 where "b2 = (\<lambda>v. assignAmzQueryValues (b1\<lparr>cx_credValues := v, cx_Request := sanitized (cx_Request b1)\<rparr>))"
  have s: "same_ctx a b" unfolding a_def b_def by (rule same_new [OF assms])
  have s1: "same_ctx a1 b1"
    unfolding a1_def b1_def same_isRequestSigned [OF s]
    using s same_handlePresignRemoval [OF same_setfield(11) [OF s]] by simp
  have s2: "same_ctx (a2 v) (b2 v)" for v
    unfolding a2_def b2_def
    using same_assign [OF same_sanitized [OF same_setfield(10) [OF s1, of v]]] by simp
  have n: "cx_SignedHeaderVals (a2 v) = []" "cx_SignedHeaderVals (b2 v) = []" for v
    unfolding a2_def b2_def a1_def b1_def by (simp_all add: no_signed_yet a_def b_def new_ctx_def)
  have *: "rel_option same_result (sign_build sv x (a2 v)) (sign_build sv x (b2 v))" for v x by (rule same_build [OF s2 n])
  have A: "signWithBody sv P now v4 r body service region exp p t c = sign_with sv v4 p (Credentials_Get P c) a1 a2"
    unfolding signWithBody_def sign_with_def Let_def a2_def a1_def a_def ..
  have B: "signWithBody sv P now v4 (r\<lparr>hx_Header := h'\<rparr>) body service region exp p t c = sign_with sv v4 p (Credentials_Get P c) b1 b2"
    unfolding signWithBody_def sign_with_def Let_def b2_def b1_def b_def ..
  show ?thesis unfolding A B
  proof (cases "Credentials_Get P c")
    case (Some res)
    obtain creds err c' where res: "res = ((creds, err), c')" by (metis prod.exhaust)
    show "map_option sign_outcome (sign_with sv v4 p (Credentials_Get P c) a1 a2) = map_option sign_outcome (sign_with sv v4 p (Credentials_Get P c) b1 b2)"
    proof (cases err)
      case None
      show ?thesis using * [of "sn_DisableHeaderHoisting v4" creds]
      proof (cases rule: option.rel_cases)
        case (Some x y)
        obtain e d where x: "x = (e, d)" by (cases x)
        obtain f where y: "y = (e, f)" and s: "same_ctx d f" using Some(3) x by (cases y) (auto simp: same_result_def)
        show ?thesis using Some(1,2) x y \<open>err = None\<close> res \<open>Credentials_Get P c = Some res\<close> same_sign_outcome [OF s, where p = c']
          by (cases e) (simp_all add: sign_with_def)
      qed (simp add: sign_with_def Some res None)
    qed (simp add: sign_with_def Some res same_sign_outcome(1) [OF s1])
  qed (simp add: sign_with_def)
qed

end
