(* ===== verification/V4Verify.thy ===== *)
theory V4Verify
  imports V4Order
begin

text \<open>
  What a service does with a signed request: it reads the signature back and computes it again from
  the request it received. \<open>GetSignedRequestSignature\<close> of \<open>v4.go\<close> does the first; \<open>canonical_request\<close> and
  \<open>request_signature\<close> state the second, from the request alone. The two agree on what the signer sends.
\<close>

section \<open>Reading the signature\<close>

text \<open>The two errors of \<open>hex.DecodeString\<close> are one here.\<close>

fun hexDecode :: "string \<Rightarrow> byte list option" where
  "hexDecode [] = Some []"
| "hexDecode [c] = None"
| "hexDecode (c # d # s) =
     (case (unhex c, unhex d) of
        (Some x, Some y) \<Rightarrow> map_option (Cons (word_of_nat (16 * x + y))) (hexDecode s)
      | _ \<Rightarrow> None)"

definition DecodeString :: "string \<Rightarrow> goerror + byte list" where
  "DecodeString s = (case hexDecode s of None \<Rightarrow> Inl (PlainError ''encoding/hex'') | Some bs \<Rightarrow> Inr bs)"

definition has_infix :: "string \<Rightarrow> string \<Rightarrow> bool" where
  "has_infix s sep \<longleftrightarrow> list_ex (\<lambda>i. take (length sep) (drop i s) = sep) [0..<Suc (length s)]"

text \<open>\<open>strings.Split (s, ", ")\<close>.\<close>

fun split_comma :: "string \<Rightarrow> string \<Rightarrow> string list" where
  "split_comma acc (c # d # s) =
     (if c = CHR '','' \<and> d = CHR '' '' then acc # split_comma [] s else split_comma (acc @ [c]) (d # s))"
| "split_comma acc s = [acc @ s]"

definition GetSignedRequestSignature :: "HTTPReq \<Rightarrow> goerror + byte list" where
  "GetSignedRequestSignature r =
     (let auth = Header_Get (hx_Header r) ''Authorization'';
          from_query = (let sig = Values_Get (ParseQuery (hx_RawQuery r)) ''X-Amz-Signature'' in
            if sig \<noteq> [] then DecodeString sig else Inl (PlainError ''request not signed''))
      in if auth \<noteq> [] then
           case find (\<lambda>p. has_infix p authHeaderSignatureElem) (split_comma [] auth) of
             None \<Rightarrow> from_query
           | Some p \<Rightarrow>
               let sig = drop (length authHeaderSignatureElem) p in
               if sig = [] then Inl (PlainError ''invalid request signature authorization header'') else DecodeString sig
         else from_query)"

section \<open>Computing it again\<close>

definition canonical_item :: "HTTPReq \<Rightarrow> string \<Rightarrow> string" where
  "canonical_item r k = single_spaced
     (if k = ''host'' then ''host:'' @ (if hx_Host r \<noteq> [] then hx_Host r else hx_URLHost r)
      else k @ '':'' @ join '','' (map TrimSpace (Values_list (map lower_key (hx_Header r)) k)))"

definition canonical_request :: "bool \<Rightarrow> HTTPReq \<Rightarrow> string list \<Rightarrow> string \<Rightarrow> string option" where
  "canonical_request noEscape r names digest = map_option (\<lambda>uri. join [CHR 0x0A]
     [hx_Method r, (if noEscape then uri else EscapePath uri False),
      encode_with ''%20'' (ParseQuery (hx_RawQuery r)), join [CHR 0x0A] (map (canonical_item r) names) @ [CHR 0x0A],
      join '';'' names, digest]) (getURIPath r)"

definition credential_scope :: "'t signing_env \<Rightarrow> string \<Rightarrow> string \<Rightarrow> 't \<Rightarrow> string" where
  "credential_scope sv region service dt = sv_formatShortTime sv dt @ ''/'' @ region @ ''/'' @ service @ ''/aws4_request''"

definition request_signature :: "'t signing_env \<Rightarrow> string \<Rightarrow> string \<Rightarrow> string \<Rightarrow> 't \<Rightarrow> string \<Rightarrow> byte list" where
  "request_signature sv region service secret dt canonical =
     sv_hmac sv
       (sv_hmac sv (sv_hmac sv (sv_hmac sv (sv_hmac sv (str_bytes (''AWS4'' @ secret)) (str_bytes (sv_formatShortTime sv dt)))
         (str_bytes region)) (str_bytes service)) (str_bytes ''aws4_request''))
       (str_bytes (''AWS4-HMAC-SHA256'' @ [CHR 0x0A] @ sv_formatTime sv dt @ [CHR 0x0A] @ credential_scope sv region service dt @
          [CHR 0x0A] @ hexEncode (sv_sha256 sv (str_bytes canonical))))"

lemma scope_eq: "buildSigningScope sv region service dt = credential_scope sv region service dt"
  by (simp add: buildSigningScope_def credential_scope_def join_def awsV4Request_def)

lemma signature_eq:
  "sv_hmac sv (deriveSigningKey sv region service secret dt) (str_bytes (join [CHR 0x0A] [authHeaderPrefix, sv_formatTime sv dt,
     buildSigningScope sv region service dt, hexEncode (sv_sha256 sv (str_bytes canonical))])) =
   request_signature sv region service secret dt canonical"
  by (simp add: request_signature_def deriveSigningKey_def Let_def scope_eq join_def authHeaderPrefix_def awsV4Request_def)

text \<open>The names a request is signed with: \<open>host\<close> and those of its headers that are not ignored.\<close>

definition names_to_sign :: "HTTPReq \<Rightarrow> string list" where
  "names_to_sign r = sort (''host'' # map (ToLower \<circ> fst) (filter (\<lambda>kv. rule_IsValid ignoredHeaders (fst kv)) (hx_Header r)))"

section \<open>Hexadecimal text\<close>

lemma unhex_lower: "n < 16 \<Longrightarrow> unhex (hex_lower n) = Some n"
proof -
  have "\<forall>n \<in> set [0..<16]. unhex (hex_lower n) = Some n" by code_simp
  then show "n < 16 \<Longrightarrow> ?thesis" by simp
qed

lemma hexDecode_encode: "hexDecode (hexEncode bs) = Some bs"
proof (induction bs)
  case (Cons b bs)
  have "unat b < 16 * 16" using unsigned_less [of b] by simp
  then have "unat b div 16 < 16" "unat b mod 16 < 16" by (auto intro: less_mult_imp_div_less)
  moreover have "word_of_nat (16 * (unat b div 16) + unat b mod 16) = b" by simp
  moreover have "hexEncode (b # bs) = hex_lower (unat b div 16) # hex_lower (unat b mod 16) # hexEncode bs"
    by (simp add: hexEncode_def)
  ultimately show ?case using Cons by (simp add: unhex_lower)
qed (simp add: hexEncode_def)

lemma hexEncode_length: "length (hexEncode bs) = 2 * length bs"
  by (induction bs) (simp_all add: hexEncode_def)

section \<open>The canonical headers\<close>

lemma same_values_refl: "same_values h h \<longleftrightarrow> Values_wf h"
  by (simp add: same_values_def)

lemma not_signed_set: "\<not> rule_IsValid r k \<Longrightarrow>
    filter (\<lambda>kv. rule_IsValid r (fst kv)) (AList.update k v h) = filter (\<lambda>kv. rule_IsValid r (fst kv)) h"
  by (induction h) auto

lemma lower_lookup:
  assumes "Values_wf h" and "header_canonical h" and "kv \<in> set h"
  shows "Values_list (map lower_key h) (ToLower (fst kv)) = snd kv"
proof -
  have "distinct (map fst (map lower_key h))" using lower_distinct [OF assms(1,2)] by (simp add: comp_def)
  moreover have "(ToLower (fst kv), snd kv) \<in> set (map lower_key h)" using assms(3) by force
  ultimately show ?thesis by (simp add: Values_list_def)
qed

text \<open>The signed headers of \<open>h\<close>, looked up in a larger map \<open>h'\<close> with the same of them.\<close>

lemma items_agree:
  assumes "Values_wf h'" and "header_canonical h'" and "hx_Header r = h'" and "k \<in> set (''host'' # map (ToLower \<circ> fst) (filter P h))"
    and "\<forall>kv \<in> set (filter P h). kv \<in> set h'" and "Values_wf h" and "header_canonical h"
    and "hx_Host req = hx_Host r" and "hx_URLHost req = hx_URLHost r"
  shows "single_spaced (header_item req (map lower_key (filter P h)) k) = canonical_item r k"
proof (cases "k = ''host''")
  case True
  with assms(8,9) show ?thesis by (simp add: header_item_def canonical_item_def)
next
  case False
  with assms(4) obtain kv where kv: "kv \<in> set (filter P h)" and k: "k = ToLower (fst kv)" by auto
  have "Values_wf (filter P h)" "header_canonical (filter P h)"
    using assms(6,7) by (auto simp: Values_wf_def distinct_map_filter header_canonical_def)
  then have "Values_list (map lower_key (filter P h)) k = snd kv" unfolding k by (rule lower_lookup [OF _ _ kv])
  moreover have "Values_list (map lower_key h') k = snd kv"
    unfolding k by (rule lower_lookup [OF assms(1,2)]) (use assms(5) kv in blast)
  ultimately show ?thesis using False assms(3) by (simp add: header_item_def canonical_item_def)
qed

definition signed_names :: "Values \<Rightarrow> string list" where
  "signed_names h = sort (''host'' # map (ToLower \<circ> fst) (filter (\<lambda>kv. rule_IsValid ignoredHeaders (fst kv)) h))"

lemma buildCanonicalHeaders_spec:
  assumes "Values_wf h" and "header_canonical h" and "cx_SignedHeaderVals c = []"
  shows "cx_signedHeaders (buildCanonicalHeaders ignoredHeaders h c) = join '';'' (signed_names h)"
    and "cx_canonicalHeaders (buildCanonicalHeaders ignoredHeaders h c) = join [CHR 0x0A] (map (\<lambda>k. single_spaced
      (header_item (cx_Request c) (map lower_key (filter (\<lambda>kv. rule_IsValid ignoredHeaders (fst kv)) h)) k)) (signed_names h))"
    and "cx_Request (buildCanonicalHeaders ignoredHeaders h c) = cx_Request c"
    and "cx_Query (buildCanonicalHeaders ignoredHeaders h c) =
      (if cx_isPresign c then Values_Set ''X-Amz-SignedHeaders'' (join '';'' (signed_names h)) (cx_Query c) else cx_Query c)"
    and "ctx_rest (buildCanonicalHeaders ignoredHeaders h c) = (ctx_rest c)\<lparr>
      cx_signedHeaders := cx_signedHeaders (buildCanonicalHeaders ignoredHeaders h c),
      cx_canonicalHeaders := cx_canonicalHeaders (buildCanonicalHeaders ignoredHeaders h c)\<rparr>"
proof -
  have d: "distinct (map (ToLower \<circ> fst) h)" by (rule lower_distinct [OF assms(1,2)])
  note f = header_fold [OF d, of "[]" ignoredHeaders "[''host'']"]
  show "cx_signedHeaders (buildCanonicalHeaders ignoredHeaders h c) = join '';'' (signed_names h)"
    "cx_canonicalHeaders (buildCanonicalHeaders ignoredHeaders h c) = join [CHR 0x0A] (map (\<lambda>k. single_spaced
      (header_item (cx_Request c) (map lower_key (filter (\<lambda>kv. rule_IsValid ignoredHeaders (fst kv)) h)) k)) (signed_names h))"
    "cx_Request (buildCanonicalHeaders ignoredHeaders h c) = cx_Request c"
    "cx_Query (buildCanonicalHeaders ignoredHeaders h c) =
      (if cx_isPresign c then Values_Set ''X-Amz-SignedHeaders'' (join '';'' (signed_names h)) (cx_Query c) else cx_Query c)"
    "ctx_rest (buildCanonicalHeaders ignoredHeaders h c) = (ctx_rest c)\<lparr>
      cx_signedHeaders := cx_signedHeaders (buildCanonicalHeaders ignoredHeaders h c),
      cx_canonicalHeaders := cx_canonicalHeaders (buildCanonicalHeaders ignoredHeaders h c)\<rparr>"
    using f by (simp_all add: buildCanonicalHeaders_def assms(3) Let_def signed_names_def strip_spec comp_def ctx_rest_def)
qed

section \<open>The query\<close>

lemma encode_sorted: "encode_with sp (sorted_values h) = encode_with sp h" if "Values_wf h"
proof -
  have k: "map fst (sorted_values h) = sort (map fst h)" by (simp add: sorted_values_def comp_def)
  have "Values_list (sorted_values h) k = Values_list h k" for k
  proof (cases "k \<in> fst ` set h")
    case True
    have "distinct (map fst (sorted_values h))" using that k by (simp add: Values_wf_def)
    moreover have "(k, Values_list h k) \<in> set (sorted_values h)" using True by (auto simp: sorted_values_def)
    ultimately show ?thesis by (simp add: Values_list_def [of "sorted_values h"])
  next
    case False
    then have "map_of (sorted_values h) k = None" "map_of h k = None"
      using k by (metis map_of_eq_None_iff set_map set_sort, metis map_of_eq_None_iff)
    then show ?thesis by (simp add: Values_list_def)
  qed
  then show ?thesis by (simp add: encode_with_def Values_pairs_def k sorted_sort_id)
qed

lemma encode_again: "Values_wf h \<Longrightarrow> encode_with ''%20'' (ParseQuery (encode_with ''%20'' h)) = encode_with ''%20'' h"
  by (simp add: ParseQuery_encode encode_sorted space_text_def)

section \<open>The end of signing\<close>

lemma getURIPath_fields:
  "getURIPath (r\<lparr>hx_RawQuery := x\<rparr>) = getURIPath r" "getURIPath (r\<lparr>hx_Header := h\<rparr>) = getURIPath r"
  "getURIPath (r\<lparr>hx_Body := b\<rparr>) = getURIPath r"
  by (simp_all add: getURIPath_def)

text \<open>The canonical string and the signature, of any context at the point where the headers to sign are known.\<close>

lemma signature_spec:
  assumes "Values_wf h" and "header_canonical h" and "cx_SignedHeaderVals c = []"
    and "buildCanonicalString (buildCanonicalHeaders ignoredHeaders h c) = Some d"
    and "cx_credentialString c = buildSigningScope sv (cx_Region c) (cx_ServiceName c) (cx_Time c)"
    and "q = (if cx_isPresign c then Values_Set ''X-Amz-SignedHeaders'' (join '';'' (signed_names h)) (cx_Query c) else cx_Query c)"
    and "getURIPath (cx_Request c) = Some uri"
  defines "canonical \<equiv> join [CHR 0x0A] [hx_Method (cx_Request c), if cx_DisableURIPathEscaping c then uri else EscapePath uri False,
      encode_with ''%20'' q, join [CHR 0x0A] (map (\<lambda>k. single_spaced
        (header_item (cx_Request c) (map lower_key (filter (\<lambda>kv. rule_IsValid ignoredHeaders (fst kv)) h)) k)) (signed_names h)) @ [CHR 0x0A],
      join '';'' (signed_names h), cx_bodyDigest c]"
  shows "cx_signature (buildSignature sv (buildStringToSign sv d)) =
      hexEncode (request_signature sv (cx_Region c) (cx_ServiceName c) (cv_SecretAccessKey (cx_credValues c)) (cx_Time c) canonical)"
    and "cx_Request (buildSignature sv (buildStringToSign sv d)) = (cx_Request c)\<lparr>hx_RawQuery := encode_with ''%20'' q\<rparr>"
    and "cx_signedHeaders (buildSignature sv (buildStringToSign sv d)) = join '';'' (signed_names h)"
    and "cx_isPresign (buildSignature sv (buildStringToSign sv d)) = cx_isPresign c"
    and "cx_credValues (buildSignature sv (buildStringToSign sv d)) = cx_credValues c"
    and "cx_credentialString (buildSignature sv (buildStringToSign sv d)) = cx_credentialString c"
proof -
  define b where "b = buildCanonicalHeaders ignoredHeaders h c"
  note bs = buildCanonicalHeaders_spec [OF assms(1-3), folded b_def]
  have rest: "ctx_rest b = (ctx_rest c)\<lparr>cx_signedHeaders := cx_signedHeaders b, cx_canonicalHeaders := cx_canonicalHeaders b\<rparr>" by (rule bs(5))
  have fields: "cx_isPresign b = cx_isPresign c" "cx_credValues b = cx_credValues c" "cx_Time b = cx_Time c" "cx_Region b = cx_Region c"
    "cx_ServiceName b = cx_ServiceName c" "cx_DisableURIPathEscaping b = cx_DisableURIPathEscaping c"
    "cx_credentialString b = cx_credentialString c" "cx_bodyDigest b = cx_bodyDigest c"
    by (simp_all add: b_def buildCanonicalHeaders_def Let_def split: prod.splits)
  have uri: "getURIPath ((cx_Request b)\<lparr>hx_RawQuery := x\<rparr>) = Some uri" for x using assms(7) bs(3) by (simp add: getURIPath_fields)
  have q: "cx_Query b = q" using bs(4) assms(6) by simp
  have d: "d = b\<lparr>cx_Request := (cx_Request b)\<lparr>hx_RawQuery := encode_with ''%20'' q\<rparr>, cx_canonicalString := canonical\<rparr>"
    using assms(4) uri bs(1-3) fields
    by (simp add: b_def [symmetric] buildCanonicalString_def Let_def plus_encode q canonical_def) (auto)
  show "cx_signature (buildSignature sv (buildStringToSign sv d)) =
      hexEncode (request_signature sv (cx_Region c) (cx_ServiceName c) (cv_SecretAccessKey (cx_credValues c)) (cx_Time c) canonical)"
    by (simp add: d buildSignature_def buildStringToSign_def Let_def fields assms(5) signature_eq)
  show "cx_Request (buildSignature sv (buildStringToSign sv d)) = (cx_Request c)\<lparr>hx_RawQuery := encode_with ''%20'' q\<rparr>"
    "cx_signedHeaders (buildSignature sv (buildStringToSign sv d)) = join '';'' (signed_names h)"
    "cx_isPresign (buildSignature sv (buildStringToSign sv d)) = cx_isPresign c"
    "cx_credValues (buildSignature sv (buildStringToSign sv d)) = cx_credValues c"
    "cx_credentialString (buildSignature sv (buildStringToSign sv d)) = cx_credentialString c"
    by (simp_all add: d buildSignature_def buildStringToSign_def Let_def fields bs)
qed

lemma digest_fields:
  "cx_isPresign (snd (buildBodyDigest sv c)) = cx_isPresign c"
  "cx_credValues (snd (buildBodyDigest sv c)) = cx_credValues c"
  "cx_Time (snd (buildBodyDigest sv c)) = cx_Time c"
  "cx_Region (snd (buildBodyDigest sv c)) = cx_Region c"
  "cx_ServiceName (snd (buildBodyDigest sv c)) = cx_ServiceName c"
  "cx_DisableURIPathEscaping (snd (buildBodyDigest sv c)) = cx_DisableURIPathEscaping c"
  "cx_SignedHeaderVals (snd (buildBodyDigest sv c)) = cx_SignedHeaderVals c"
  "(cx_Request (snd (buildBodyDigest sv c)))\<lparr>hx_Header := []\<rparr> = (cx_Request c)\<lparr>hx_Header := []\<rparr>"
  "cx_credentialString (snd (buildBodyDigest sv c)) = cx_credentialString c"
  by (auto simp: buildBodyDigest_def Let_def split: option.splits sum.splits prod.splits)

lemma credential_fields:
  "cx_isPresign (buildCredentialString sv c) = cx_isPresign c"
  "cx_credValues (buildCredentialString sv c) = cx_credValues c"
  "cx_Time (buildCredentialString sv c) = cx_Time c"
  "cx_Region (buildCredentialString sv c) = cx_Region c"
  "cx_ServiceName (buildCredentialString sv c) = cx_ServiceName c"
  "cx_DisableURIPathEscaping (buildCredentialString sv c) = cx_DisableURIPathEscaping c"
  "cx_SignedHeaderVals (buildCredentialString sv c) = cx_SignedHeaderVals c"
  "(cx_Request (buildCredentialString sv c))\<lparr>hx_Header := []\<rparr> = (cx_Request c)\<lparr>hx_Header := []\<rparr>"
  "cx_credentialString (buildCredentialString sv c) = buildSigningScope sv (cx_Region c) (cx_ServiceName c) (cx_Time c)"
  by (simp_all add: buildCredentialString_def Let_def)

lemma time_fields:
  "cx_isPresign (buildTime sv c) = cx_isPresign c"
  "cx_credValues (buildTime sv c) = cx_credValues c"
  "cx_Time (buildTime sv c) = cx_Time c"
  "cx_Region (buildTime sv c) = cx_Region c"
  "cx_ServiceName (buildTime sv c) = cx_ServiceName c"
  "cx_DisableURIPathEscaping (buildTime sv c) = cx_DisableURIPathEscaping c"
  "cx_SignedHeaderVals (buildTime sv c) = cx_SignedHeaderVals c"
  "(cx_Request (buildTime sv c))\<lparr>hx_Header := []\<rparr> = (cx_Request c)\<lparr>hx_Header := []\<rparr>"
  by (simp_all add: buildTime_def Let_def)

lemma prepared_fields:
  assumes "(e, d) = buildBodyDigest sv (buildCredentialString sv (buildTime sv c))"
  shows "cx_isPresign d = cx_isPresign c" "cx_credValues d = cx_credValues c" "cx_Time d = cx_Time c" "cx_Region d = cx_Region c"
    "cx_ServiceName d = cx_ServiceName c" "cx_DisableURIPathEscaping d = cx_DisableURIPathEscaping c"
    "cx_credentialString d = buildSigningScope sv (cx_Region c) (cx_ServiceName c) (cx_Time c)"
    "cx_SignedHeaderVals d = cx_SignedHeaderVals c"
    "(cx_Request d)\<lparr>hx_Header := []\<rparr> = (cx_Request c)\<lparr>hx_Header := []\<rparr>"
proof -
  have d: "d = snd (buildBodyDigest sv (buildCredentialString sv (buildTime sv c)))" by (metis assms snd_conv)
  show "cx_isPresign d = cx_isPresign c" "cx_credValues d = cx_credValues c" "cx_Time d = cx_Time c" "cx_Region d = cx_Region c"
    "cx_ServiceName d = cx_ServiceName c" "cx_DisableURIPathEscaping d = cx_DisableURIPathEscaping c"
    "cx_credentialString d = buildSigningScope sv (cx_Region c) (cx_ServiceName c) (cx_Time c)"
    "cx_SignedHeaderVals d = cx_SignedHeaderVals c"
    "(cx_Request d)\<lparr>hx_Header := []\<rparr> = (cx_Request c)\<lparr>hx_Header := []\<rparr>"
    by (simp_all only: d digest_fields credential_fields time_fields)
qed

lemma canonical_sha: "canonical_key ''X-Amz-Content-Sha256'' = ''X-Amz-Content-Sha256''"
  "canonical_key ''Authorization'' = ''Authorization''"
  by code_simp+

lemma digest_header:
  assumes "buildBodyDigest sv c = (None, d)"
  shows "Header_Get (hx_Header (cx_Request d)) ''X-Amz-Content-Sha256'' \<in> {[], cx_bodyDigest d}"
  using assms by (auto simp: buildBodyDigest_def Let_def canonical_sha simp del: canonical_from.simps split: option.splits sum.splits prod.splits if_splits)

lemma date_header:
  assumes "(e, d) = buildBodyDigest sv (buildCredentialString sv (buildTime sv c))" and "\<not> cx_isPresign c"
  shows "Header_Get (hx_Header (cx_Request d)) ''X-Amz-Date'' = sv_formatTime sv (cx_Time c)"
proof -
  have ne: "canonical_key ''X-Amz-Content-Sha256'' \<noteq> canonical_key ''X-Amz-Date''" by code_simp
  have "Header_Get (hx_Header (cx_Request (snd (buildBodyDigest sv x)))) ''X-Amz-Date'' = Header_Get (hx_Header (cx_Request x)) ''X-Amz-Date''" for x :: "'a signingCtx"
    using ne by (auto simp: buildBodyDigest_def Let_def simp del: canonical_from.simps split: option.splits sum.splits prod.splits)
  moreover have "Header_Get (hx_Header (cx_Request (buildCredentialString sv (buildTime sv c)))) ''X-Amz-Date'' = sv_formatTime sv (cx_Time c)"
    using assms(2) by (simp add: buildCredentialString_def buildTime_def Let_def)
  ultimately show ?thesis using assms(1) by (metis snd_conv)
qed

lemma good_prepared:
  assumes "same_ctx c c" and "(e, d) = buildBodyDigest sv (buildCredentialString sv (buildTime sv c))"
  shows "same_ctx d d"
proof -
  have "same_result (e, d) (e, d)"
    unfolding assms(2) by (intro same_digest same_credential same_buildTime assms(1))
  then show ?thesis by (simp add: same_result_def)
qed

lemma good_fields:
  assumes "same_ctx c c"
  shows "Values_wf (hx_Header (cx_Request c))" "header_canonical (hx_Header (cx_Request c))" "Values_wf (cx_Query c)"
  using assms by (simp_all add: same_ctx_def same_values_def)

lemma canonical_string_path:
  assumes "buildCanonicalString (buildCanonicalHeaders r h c) = Some d"
  obtains uri where "getURIPath (cx_Request c) = Some uri"
proof -
  have "cx_Request (buildCanonicalHeaders r h c) = cx_Request c"
    by (simp add: buildCanonicalHeaders_def Let_def split: prod.splits)
  with assms show thesis
    by (auto simp: buildCanonicalString_def Let_def getURIPath_fields split: option.splits intro: that)
qed

text \<open>The request that \<open>build\<close> leaves, of a context that signs with a header.\<close>

lemma sign_build_header:
  assumes "same_ctx c c" and "cx_SignedHeaderVals c = []" and "\<not> cx_isPresign c"
    and "sign_build sv b c = Some (None, d)"
  shows "\<exists>digest canonical. canonical_request (cx_DisableURIPathEscaping c) (cx_Request d) (names_to_sign (cx_Request d)) digest = Some canonical \<and>
    Header_Get (hx_Header (cx_Request d)) ''X-Amz-Date'' = sv_formatTime sv (cx_Time c) \<and>
    Header_Get (hx_Header (cx_Request d)) ''X-Amz-Content-Sha256'' \<in> {[], digest} \<and>
    Header_Get (hx_Header (cx_Request d)) ''Authorization'' = join '', ''
      [authHeaderPrefix @ '' Credential='' @ cv_AccessKeyID (cx_credValues c) @ ''/'' @ credential_scope sv (cx_Region c) (cx_ServiceName c) (cx_Time c),
       ''SignedHeaders='' @ join '';'' (names_to_sign (cx_Request d)),
       ''Signature='' @ hexEncode (request_signature sv (cx_Region c) (cx_ServiceName c) (cv_SecretAccessKey (cx_credValues c)) (cx_Time c) canonical)]"
proof -
  obtain e c1 where p: "(e, c1) = buildBodyDigest sv (buildCredentialString sv (buildTime sv c))" by (metis surj_pair)
  note f = prepared_fields [OF p]
  note g = good_fields [OF good_prepared [OF assms(1) p]]
  have h: "hoist b c1 = (hx_Header (cx_Request c1), c1)" using f(1) assms(3) by (simp add: hoist_def)
  from assms(4) h obtain d1 where e: "e = None"
    and d1: "buildCanonicalString (buildCanonicalHeaders ignoredHeaders (hx_Header (cx_Request c1)) c1) = Some d1"
    and d: "d = attach_signature (buildSignature sv (buildStringToSign sv d1))"
    by (auto simp: sign_build_def p [symmetric] split: option.splits)
  obtain uri where uri: "getURIPath (cx_Request c1) = Some uri"
    by (rule canonical_string_path [OF d1])
  have n: "cx_SignedHeaderVals c1 = []" using f(8) assms(2) by simp
  have cs: "cx_credentialString c1 = buildSigningScope sv (cx_Region c1) (cx_ServiceName c1) (cx_Time c1)" using f by simp
  have q: "cx_Query c1 = (if cx_isPresign c1 then Values_Set ''X-Amz-SignedHeaders'' (join '';'' (signed_names (hx_Header (cx_Request c1)))) (cx_Query c1)
      else cx_Query c1)" using f(1) assms(3) by simp
  note s = signature_spec [OF g(1,2) n d1 cs q uri]
  let ?h = "hx_Header (cx_Request c1)" and ?P = "\<lambda>kv :: string \<times> string list. rule_IsValid ignoredHeaders (fst kv)"
  let ?auth = "join '', ''
      [authHeaderPrefix @ '' Credential='' @ cv_AccessKeyID (cx_credValues c) @ ''/'' @ cx_credentialString c1,
       ''SignedHeaders='' @ join '';'' (signed_names ?h), authHeaderSignatureElem @ cx_signature (buildSignature sv (buildStringToSign sv d1))]"
  have r: "cx_Request d = (cx_Request c1)\<lparr>hx_RawQuery := encode_with ''%20'' (cx_Query c1), hx_Header := Header_Set ''Authorization'' ?auth ?h\<rparr>"
    unfolding d attach_signature_def s(2-6) using f assms(3) by simp
  have ign: "\<not> rule_IsValid ignoredHeaders ''Authorization''" by (simp add: ignoredHeaders_def)
  have flt: "filter ?P (hx_Header (cx_Request d)) = filter ?P ?h"
    unfolding r by (simp add: Header_Set_def canonical_sha not_signed_set [OF ign] del: canonical_from.simps)
  then have names: "names_to_sign (cx_Request d) = signed_names ?h" by (simp add: names_to_sign_def signed_names_def)
  have items: "single_spaced (header_item (cx_Request c1) (map lower_key (filter ?P ?h)) k) = canonical_item (cx_Request d) k"
    if "k \<in> set (signed_names ?h)" for k
  proof (rule items_agree)
    show "Values_wf (hx_Header (cx_Request d))" "header_canonical (hx_Header (cx_Request d))"
      unfolding r using g by (simp_all add: canonical_Set)
    show "\<forall>kv \<in> set (filter ?P ?h). kv \<in> set (hx_Header (cx_Request d))" by (metis filter_is_subset flt subset_iff)
    show "k \<in> set (''host'' # map (ToLower \<circ> fst) (filter ?P ?h))" using that by (simp only: signed_names_def set_sort)
  qed (use g in \<open>simp_all add: r\<close>)
  define canonical where "canonical = join [CHR 0x0A] [hx_Method (cx_Request c1), if cx_DisableURIPathEscaping c1 then uri else EscapePath uri False,
      encode_with ''%20'' (cx_Query c1), join [CHR 0x0A] (map (\<lambda>k. single_spaced
        (header_item (cx_Request c1) (map lower_key (filter ?P ?h)) k)) (signed_names ?h)) @ [CHR 0x0A],
      join '';'' (signed_names ?h), cx_bodyDigest c1]"
  have "canonical_request (cx_DisableURIPathEscaping c) (cx_Request d) (names_to_sign (cx_Request d)) (cx_bodyDigest c1) = Some canonical"
    unfolding canonical_def names using uri items
    by (simp add: canonical_request_def r getURIPath_fields encode_again g(3) f(6) cong: map_cong)
  moreover have "Header_Get (hx_Header (cx_Request d)) ''X-Amz-Content-Sha256'' \<in> {[], cx_bodyDigest c1}"
    using digest_header [OF p [symmetric, unfolded e]] by (simp add: r canonical_sha del: canonical_from.simps)
  moreover have "canonical_key ''Authorization'' \<noteq> canonical_key ''X-Amz-Date''" by code_simp
  then have "Header_Get (hx_Header (cx_Request d)) ''X-Amz-Date'' = sv_formatTime sv (cx_Time c)"
    using date_header [OF p assms(3)] by (simp add: r)
  moreover have "Header_Get (hx_Header (cx_Request d)) ''Authorization'' = ?auth" by (simp add: r)
  ultimately show ?thesis
    unfolding s(1) names canonical_def authHeaderSignatureElem_def f(2-5,7) scope_eq by blast
qed

section \<open>Presigned requests\<close>

lemma ParseQuery_pairs:
  assumes "ps \<noteq> []" and "space_text sp"
  shows "ParseQuery (join ''&'' (map (pair_text sp) ps)) = fold (\<lambda>(k, v). Values_Add k v) ps []"
proof -
  have clean: "\<forall>x \<in> set (escape_with sp s). x \<noteq> CHR ''&''" for s
    using escape_chars [OF assms(2)] by (fastforce simp: plain_char_def)
  have "split_at CHR ''&'' (join ''&'' (map (pair_text sp) ps)) = map (pair_text sp) ps"
    using clean assms(1) by (intro split_at_join) (auto simp: pair_text_def)
  then show ?thesis by (simp add: ParseQuery_def comp_def piece_pair [OF assms(2)] concat_map_singleton)
qed

lemma join_append: "xs \<noteq> [] \<Longrightarrow> join sep (xs @ [x]) = join sep xs @ sep @ x"
  by (cases xs) (simp_all add: join_def)

lemma hex_unreserved: "n < 16 \<Longrightarrow> unreserved (hex_lower n)"
proof -
  have "\<forall>n \<in> set [0..<16]. unreserved (hex_lower n)" by code_simp
  then show "n < 16 \<Longrightarrow> ?thesis" by simp
qed

lemma escape_unreserved: "\<forall>x \<in> set s. unreserved x \<Longrightarrow> escape_with sp s = s"
  by (induction s) (simp_all add: escape_with_def escape_char_def)

lemma hexEncode_unreserved: "\<forall>x \<in> set (hexEncode bs). unreserved x"
proof -
  have "unat b < 16 * 16" for b :: byte using unsigned_less [of b] by simp
  then have "unat b div 16 < 16" "unat b mod 16 < 16" for b :: byte by (auto intro: less_mult_imp_div_less)
  then show ?thesis by (auto simp: hexEncode_def hex_unreserved)
qed

lemma presigned_query:
  assumes "Values_wf q" and "q \<noteq> []"
  shows "ParseQuery (encode_with ''%20'' q @ ''&'' @ signatureQueryKey @ ''='' @ hexEncode bs) =
    Values_Add signatureQueryKey (hexEncode bs) (sorted_values q)"
proof -
  have sp: "space_text ''%20''" by (simp add: space_text_def)
  have "\<forall>x \<in> set signatureQueryKey. unreserved x" by (simp add: signatureQueryKey_def unreserved_def is_alnum_def)
  then have last: "pair_text ''%20'' (signatureQueryKey, hexEncode bs) = signatureQueryKey @ ''='' @ hexEncode bs"
    using hexEncode_unreserved by (simp add: pair_text_def escape_unreserved)
  have ne: "Values_pairs q \<noteq> []"
  proof -
    obtain k v where "(k, v) \<in> set q" using assms(2) by (cases q) auto
    then have "k \<in> set (map fst q)" by force
    with Values_list_not_Nil [OF assms(1)] show ?thesis by (auto simp: Values_pairs_def)
  qed
  have "encode_with ''%20'' q @ ''&'' @ signatureQueryKey @ ''='' @ hexEncode bs =
      join ''&'' (map (pair_text ''%20'') (Values_pairs q @ [(signatureQueryKey, hexEncode bs)]))"
    using ne last by (simp add: encode_with_def join_append)
  also have "ParseQuery \<dots> = Values_Add signatureQueryKey (hexEncode bs) (fold (\<lambda>(k, v). Values_Add k v) (Values_pairs q) [])"
    by (simp only: ParseQuery_pairs [OF _ sp] fold_append fold_simps comp_apply append_is_Nil_conv not_Cons_self2 prod.case simp_thms)
  also have "fold (\<lambda>(k, v). Values_Add k v) (Values_pairs q) [] = sorted_values q"
    using ParseQuery_encode [OF assms(1) sp] ParseQuery_pairs [OF ne sp] by (simp add: encode_with_def)
  finally show ?thesis .
qed

lemma hoist_fields:
  assumes "hoist b c = (h, d)"
  shows "d = c\<lparr>cx_Query := cx_Query d\<rparr>" "set h \<subseteq> set (hx_Header (cx_Request c))"
  using assms by (auto simp: hoist_def buildQuery_def Let_def split: if_splits)

lemma hoist_covers:
  assumes "hoist b c = (h, d)" and "Values_wf (hx_Header (cx_Request c))" and "kv \<in> set (hx_Header (cx_Request c))"
  shows "kv \<in> set h \<or> Values_list (cx_Query d) (fst kv) = snd kv"
proof (cases "cx_isPresign c \<and> \<not> b")
  case True
  let ?u = "filter (\<lambda>kh. rule_IsValid allowedQueryHoisting (fst kh)) (hx_Header (cx_Request c))"
  from True assms(1) have h: "h = filter (\<lambda>kh. \<not> rule_IsValid allowedQueryHoisting (fst kh)) (hx_Header (cx_Request c))"
    and q: "cx_Query d = fold (\<lambda>(k, v). AList.update k v) ?u (cx_Query c)"
    by (auto simp: hoist_def buildQuery_def Let_def)
  have "distinct (map fst ?u)" using assms(2) by (simp add: Values_wf_def distinct_map_filter)
  moreover have "kv \<in> set ?u" if "kv \<notin> set h" using that h assms(3) by auto
  ultimately have m: "map_of (rev ?u) (fst kv) = Some (snd kv)" if "kv \<notin> set h" using that by (simp add: map_of_rev_distinct map_of_eq_Some_iff)
  show ?thesis
  proof (cases "kv \<in> set h")
    case False
    then show ?thesis unfolding q Values_list_def fold_update_map_of map_add_def m [OF False] by simp
  qed simp
qed (use assms in \<open>auto simp: hoist_def Let_def\<close>)

text \<open>The request that \<open>build\<close> leaves, of a context that signs in the query.\<close>

lemma sign_build_query:
  assumes "same_ctx c c" and "cx_SignedHeaderVals c = []" and "cx_isPresign c"
    and "sign_build sv b c = Some (None, d)"
  shows "\<exists>names digest canonical q.
    ParseQuery (hx_RawQuery (cx_Request d)) = Values_Add ''X-Amz-Signature'' (hexEncode (request_signature sv (cx_Region c)
      (cx_ServiceName c) (cv_SecretAccessKey (cx_credValues c)) (cx_Time c) canonical)) (sorted_values q) \<and>
    canonical_request (cx_DisableURIPathEscaping c) ((cx_Request d)\<lparr>hx_RawQuery := encode_with ''%20'' q\<rparr>) names digest = Some canonical \<and>
    Values_Get q ''X-Amz-SignedHeaders'' = join '';'' names \<and>
    (\<forall>kv \<in> set (hx_Header (cx_Request d)). ToLower (fst kv) \<in> set names \<or> Values_list q (fst kv) = snd kv \<or>
      fst kv \<in> set [''Authorization'', ''User-Agent'', ''X-Amzn-Trace-Id'', ''X-Amz-SignedHeaders''])"
proof -
  obtain e c1 where p: "(e, c1) = buildBodyDigest sv (buildCredentialString sv (buildTime sv c))" by (metis surj_pair)
  note f = prepared_fields [OF p]
  note s1 = good_prepared [OF assms(1) p]
  note g = good_fields [OF s1]
  obtain h c2 where hc: "hoist b c1 = (h, c2)" by fastforce
  from same_hoist [OF s1 hc hc] have gh: "Values_wf h" "header_canonical h" and s2: "same_ctx c2 c2"
    by (simp_all add: same_values_def)
  define q0 where "q0 = cx_Query c2"
  have c2: "c2 = c1\<lparr>cx_Query := q0\<rparr>" unfolding q0_def by (rule hoist_fields(1) [OF hc])
  from assms(4) hc obtain d1 where d1: "buildCanonicalString (buildCanonicalHeaders ignoredHeaders h c2) = Some d1"
    and d: "d = attach_signature (buildSignature sv (buildStringToSign sv d1))"
    by (auto simp: sign_build_def p [symmetric] split: option.splits)
  obtain uri where uri: "getURIPath (cx_Request c2) = Some uri" by (rule canonical_string_path [OF d1])
  define names where "names = signed_names h"
  define q where "q = Values_Set ''X-Amz-SignedHeaders'' (join '';'' names) q0"
  have n: "cx_SignedHeaderVals c2 = []" using f(8) assms(2) by (simp add: c2)
  have cs: "cx_credentialString c2 = buildSigningScope sv (cx_Region c2) (cx_ServiceName c2) (cx_Time c2)" using f by (simp add: c2)
  have q: "q = (if cx_isPresign c2 then Values_Set ''X-Amz-SignedHeaders'' (join '';'' (signed_names h)) (cx_Query c2) else cx_Query c2)"
    using f(1) assms(3) by (simp add: c2 q_def names_def)
  note s = signature_spec [OF gh n d1 cs q uri]
  let ?P = "\<lambda>kv :: string \<times> string list. rule_IsValid ignoredHeaders (fst kv)"
  have wq: "Values_wf q" using good_fields(3) [OF s2] by (simp add: q_def q0_def Values_Set_def update_values)
  have qne: "q \<noteq> []" by (simp add: q_def Values_Set_def)
  have r: "cx_Request d = (cx_Request c1)\<lparr>hx_RawQuery := encode_with ''%20'' q @ ''&'' @ signatureQueryKey @ ''='' @
      cx_signature (buildSignature sv (buildStringToSign sv d1))\<rparr>"
    unfolding d attach_signature_def s(2,4) using f(1) assms(3) by (simp add: c2)
  have items: "single_spaced (header_item (cx_Request c2) (map lower_key (filter ?P h)) k) = canonical_item (cx_Request c1) k"
    if "k \<in> set names" for k
  proof (rule items_agree)
    show "Values_wf (hx_Header (cx_Request c1))" "header_canonical (hx_Header (cx_Request c1))" by (rule g)+
    show "\<forall>kv \<in> set (filter ?P h). kv \<in> set (hx_Header (cx_Request c1))" using hoist_fields(2) [OF hc] by auto
    show "k \<in> set (''host'' # map (ToLower \<circ> fst) (filter ?P h))" using that by (simp only: names_def signed_names_def set_sort)
  qed (use gh in \<open>simp_all add: c2\<close>)
  define canonical where "canonical = join [CHR 0x0A] [hx_Method (cx_Request c2), if cx_DisableURIPathEscaping c2 then uri else EscapePath uri False,
      encode_with ''%20'' q, join [CHR 0x0A] (map (\<lambda>k. single_spaced
        (header_item (cx_Request c2) (map lower_key (filter ?P h)) k)) (signed_names h)) @ [CHR 0x0A],
      join '';'' (signed_names h), cx_bodyDigest c2]"
  have sig: "cx_signature (buildSignature sv (buildStringToSign sv d1)) = hexEncode (request_signature sv (cx_Region c)
      (cx_ServiceName c) (cv_SecretAccessKey (cx_credValues c)) (cx_Time c) canonical)"
    unfolding s(1) canonical_def using f(2-5) by (simp add: c2)
  have it: "canonical_item ((cx_Request c1)\<lparr>hx_RawQuery := x\<rparr>) k = canonical_item (cx_Request c1) k" for x k
    by (simp add: canonical_item_def)
  have "canonical_request (cx_DisableURIPathEscaping c) ((cx_Request d)\<lparr>hx_RawQuery := encode_with ''%20'' q\<rparr>) names (cx_bodyDigest c1) = Some canonical"
    using items uri unfolding canonical_def names_def
    by (simp add: canonical_request_def r getURIPath_fields encode_again wq f(6) c2 it cong: map_cong)
  moreover have "Values_Get q ''X-Amz-SignedHeaders'' = join '';'' names"
    by (simp add: q_def Values_Get_def Values_Set_def Values_list_update)
  moreover have "ParseQuery (hx_RawQuery (cx_Request d)) = Values_Add ''X-Amz-Signature'' (hexEncode (request_signature sv (cx_Region c)
      (cx_ServiceName c) (cv_SecretAccessKey (cx_credValues c)) (cx_Time c) canonical)) (sorted_values q)"
    using presigned_query [OF wq qne] by (simp add: r sig signatureQueryKey_def)
  moreover have "ToLower (fst kv) \<in> set names \<or> Values_list q (fst kv) = snd kv \<or>
      fst kv \<in> set [''Authorization'', ''User-Agent'', ''X-Amzn-Trace-Id'', ''X-Amz-SignedHeaders'']"
    if kv: "kv \<in> set (hx_Header (cx_Request d))" for kv
  proof -
    have "kv \<in> set (hx_Header (cx_Request c1))" using kv by (simp add: r)
    from hoist_covers [OF hc g(1) this] show ?thesis
    proof
      assume "kv \<in> set h"
      then show ?thesis unfolding names_def signed_names_def set_sort by (auto simp: ignoredHeaders_def)
    next
      assume "Values_list (cx_Query c2) (fst kv) = snd kv"
      then show ?thesis by (simp add: q_def Values_Set_def Values_list_update q0_def)
    qed
  qed
  ultimately show ?thesis by blast
qed

section \<open>Signing, from the request as it comes\<close>

lemma new_ctx_good:
  "Values_wf (hx_Header r) \<Longrightarrow> header_canonical (hx_Header r) \<Longrightarrow>
    same_ctx (new_ctx v4 r body service region exp p t) (new_ctx v4 r body service region exp p t)"
  by (simp add: new_ctx_def same_ctx_def ctx_rest_def same_values_refl sorted_lists_wf ParseQuery_wf)

text \<open>The context that is built, of a request that is signed without error.\<close>

lemma signed_by_build:
  assumes "signWithBody sv P now v4 r body service region exp p t c = Some (Inr shv, r', c')"
    and "Values_wf (hx_Header r)" and "header_canonical (hx_Header r)"
  obtains v x d where "Credentials_Get P c = Some ((v, None), c')" "same_ctx x x" "cx_SignedHeaderVals x = []"
    "cx_isPresign x = p" "cx_credValues x = v" "cx_Region x = region" "cx_ServiceName x = service"
    "cx_DisableURIPathEscaping x = sn_DisableURIPathEscaping v4" "cx_Time x \<in> {t, now ()}"
    "sign_build sv (sn_DisableHeaderHoisting v4) x = Some (None, d)" "r'\<lparr>hx_Body := None\<rparr> = (cx_Request d)\<lparr>hx_Body := None\<rparr>"
    "shv = cx_SignedHeaderVals d"
proof -
  define a where "a = new_ctx v4 r body service region exp p t"
  define b where "b = (if isRequestSigned a then handlePresignRemoval (a\<lparr>cx_Time := now ()\<rparr>) else a)"
  have s: "same_ctx a a" unfolding a_def by (rule new_ctx_good [OF assms(2,3)])
  have sb: "same_ctx b b" unfolding b_def using s same_handlePresignRemoval [OF same_setfield(11) [OF s]] by simp
  have fb: "cx_SignedHeaderVals b = []" "cx_isPresign b = p" "cx_Region b = region" "cx_ServiceName b = service"
    "cx_DisableURIPathEscaping b = sn_DisableURIPathEscaping v4" "cx_Time b \<in> {t, now ()}"
    by (simp_all add: b_def a_def new_ctx_def handlePresignRemoval_def removePresign_def Let_def)
  define x where "x = (\<lambda>v. assignAmzQueryValues (b\<lparr>cx_credValues := v, cx_Request := sanitized (cx_Request b)\<rparr>))"
  have sx: "same_ctx (x v) (x v)" for v
    unfolding x_def using same_assign [OF same_sanitized [OF same_setfield(10) [OF sb, of v]]] by simp
  have fx: "cx_SignedHeaderVals (x v) = []" "cx_isPresign (x v) = p" "cx_credValues (x v) = v" "cx_Region (x v) = region"
    "cx_ServiceName (x v) = service" "cx_DisableURIPathEscaping (x v) = sn_DisableURIPathEscaping v4" "cx_Time (x v) \<in> {t, now ()}" for v
    using fb by (simp_all add: x_def assignAmzQueryValues_def Let_def)
  have A: "signWithBody sv P now v4 r body service region exp p t c = sign_with sv v4 p (Credentials_Get P c) b x"
    unfolding signWithBody_def sign_with_def Let_def x_def b_def a_def ..
  obtain v d where v: "Credentials_Get P c = Some ((v, None), c')"
    and d: "sign_build sv (sn_DisableHeaderHoisting v4) (x v) = Some (None, d)" "shv = cx_SignedHeaderVals d"
    and r': "r' = (if \<not> (sn_DisableRequestBodyOverwrite v4 \<or> p) then (cx_Request d)\<lparr>hx_Body := cx_Body d\<rparr> else cx_Request d)"
    using assms(1) unfolding A sign_with_def by (auto split: option.splits prod.splits)
  show thesis
    by (rule that [OF v sx fx d(1) _ d(2)]) (simp add: r')
qed

lemma body_is_not_signed:
  assumes "r\<lparr>hx_Body := None\<rparr> = r'\<lparr>hx_Body := None\<rparr>"
  shows "canonical_request b (r\<lparr>hx_RawQuery := q\<rparr>) = canonical_request b (r'\<lparr>hx_RawQuery := q\<rparr>)" "canonical_request b r = canonical_request b r'"
    "names_to_sign r = names_to_sign r'" "hx_Header r = hx_Header r'" "hx_RawQuery r = hx_RawQuery r'"
proof -
  have "r = r'\<lparr>hx_Body := hx_Body r\<rparr>" using arg_cong [OF assms, of "\<lambda>x. x\<lparr>hx_Body := hx_Body r\<rparr>"] by simp
  then obtain y where r: "r = r'\<lparr>hx_Body := y\<rparr>" ..
  have i: "canonical_item (x\<lparr>hx_Body := y\<rparr>) = canonical_item x" for x y by (simp add: canonical_item_def fun_eq_iff)
  have c: "canonical_request b (x\<lparr>hx_Body := y\<rparr>) = canonical_request b x" for x y
    unfolding canonical_request_def i getURIPath_fields by simp
  show "canonical_request b r = canonical_request b r'" unfolding r by (rule c)
  show "canonical_request b (r\<lparr>hx_RawQuery := q\<rparr>) = canonical_request b (r'\<lparr>hx_RawQuery := q\<rparr>)"
  proof -
    have "r\<lparr>hx_RawQuery := q\<rparr> = r'\<lparr>hx_RawQuery := q, hx_Body := y\<rparr>" unfolding r by (cases r') simp
    then show ?thesis by (simp only: c)
  qed
  show "names_to_sign r = names_to_sign r'" "hx_Header r = hx_Header r'" "hx_RawQuery r = hx_RawQuery r'"
    unfolding r by (simp_all add: names_to_sign_def)
qed

lemma Sign_verifies:
  assumes "Signer_Sign sv P now v4 r body service region t c = Some (Inr shv, r', c')"
    and "Values_wf (hx_Header r)" and "header_canonical (hx_Header r)"
  shows "\<exists>v time digest canonical. Credentials_Get P c = Some ((v, None), c') \<and> time \<in> {t, now ()} \<and>
    canonical_request (sn_DisableURIPathEscaping v4) r' (names_to_sign r') digest = Some canonical \<and>
    Header_Get (hx_Header r') ''X-Amz-Date'' = sv_formatTime sv time \<and>
    Header_Get (hx_Header r') ''X-Amz-Content-Sha256'' \<in> {[], digest} \<and>
    Header_Get (hx_Header r') ''Authorization'' = join '', ''
      [authHeaderPrefix @ '' Credential='' @ cv_AccessKeyID v @ ''/'' @ credential_scope sv region service time,
       ''SignedHeaders='' @ join '';'' (names_to_sign r'),
       ''Signature='' @ hexEncode (request_signature sv region service (cv_SecretAccessKey v) time canonical)]"
proof -
  obtain v x d where v: "Credentials_Get P c = Some ((v, None), c')" and x: "same_ctx x x" "cx_SignedHeaderVals x = []" "cx_isPresign x = False"
    "cx_credValues x = v" "cx_Region x = region" "cx_ServiceName x = service" "cx_DisableURIPathEscaping x = sn_DisableURIPathEscaping v4"
    "cx_Time x \<in> {t, now ()}" "sign_build sv (sn_DisableHeaderHoisting v4) x = Some (None, d)"
    and r: "r'\<lparr>hx_Body := None\<rparr> = (cx_Request d)\<lparr>hx_Body := None\<rparr>"
    by (rule signed_by_build [OF assms(1) [unfolded Signer_Sign_def] assms(2,3)])
  have "\<not> cx_isPresign x" using x(3) by simp
  note b = sign_build_header [OF x(1,2) this x(9), unfolded x(4-7)]
  show ?thesis
    unfolding body_is_not_signed [OF r]
    by (rule exE [OF b], elim exE conjE) (intro exI conjI, rule v, rule x(8), assumption+)
qed

lemma Presign_verifies:
  assumes "Signer_Presign sv P now v4 r body service region exp t c = Some (Inr shv, r', c')"
    and "Values_wf (hx_Header r)" and "header_canonical (hx_Header r)"
  shows "\<exists>v time names digest canonical q. Credentials_Get P c = Some ((v, None), c') \<and> time \<in> {t, now ()} \<and>
    ParseQuery (hx_RawQuery r') = Values_Add ''X-Amz-Signature''
      (hexEncode (request_signature sv region service (cv_SecretAccessKey v) time canonical)) (sorted_values q) \<and>
    canonical_request (sn_DisableURIPathEscaping v4) (r'\<lparr>hx_RawQuery := encode_with ''%20'' q\<rparr>) names digest = Some canonical \<and>
    Values_Get q ''X-Amz-SignedHeaders'' = join '';'' names \<and>
    (\<forall>kv \<in> set (hx_Header r'). ToLower (fst kv) \<in> set names \<or> Values_list q (fst kv) = snd kv \<or>
      fst kv \<in> set [''Authorization'', ''User-Agent'', ''X-Amzn-Trace-Id'', ''X-Amz-SignedHeaders''])"
proof -
  obtain v x d where v: "Credentials_Get P c = Some ((v, None), c')" and x: "same_ctx x x" "cx_SignedHeaderVals x = []" "cx_isPresign x = True"
    "cx_credValues x = v" "cx_Region x = region" "cx_ServiceName x = service" "cx_DisableURIPathEscaping x = sn_DisableURIPathEscaping v4"
    "cx_Time x \<in> {t, now ()}" "sign_build sv (sn_DisableHeaderHoisting v4) x = Some (None, d)"
    and r: "r'\<lparr>hx_Body := None\<rparr> = (cx_Request d)\<lparr>hx_Body := None\<rparr>"
    by (rule signed_by_build [OF assms(1) [unfolded Signer_Presign_def] assms(2,3)])
  have "cx_isPresign x" using x(3) by simp
  note b = sign_build_query [OF x(1,2) this x(9), unfolded x(4-7)]
  show ?thesis
    unfolding body_is_not_signed [OF r]
    by (rule exE [OF b], elim exE conjE) (intro exI conjI, rule v, rule x(8), assumption+)
qed

text \<open>A request without a body is always signed, once there are credentials.\<close>

lemma signs_without_body:
  fixes sv :: "'t signing_env"
  assumes "Credentials_Get P c = Some ((v, None), c')" and "hx_URLOpaque r = []"
  shows "\<exists>shv r'. signWithBody sv P now v4 r None service region exp p t c = Some (Inr shv, r', c')"
proof -
  have digest: "fst (buildBodyDigest sv x) = None" if "cx_Body x = None" for x :: "'t signingCtx"
    using that by (simp add: buildBodyDigest_def Let_def)
  have body: "cx_Body (buildCredentialString sv x) = cx_Body x" "cx_Body (buildTime sv x) = cx_Body x" "cx_Body (assignAmzQueryValues x) = cx_Body x"
    "cx_Body (handlePresignRemoval x) = cx_Body x" for x :: "'t signingCtx"
    by (simp_all add: buildCredentialString_def buildTime_def assignAmzQueryValues_def handlePresignRemoval_def removePresign_def Let_def)
  have opq: "hx_URLOpaque (cx_Request (snd (buildBodyDigest sv (buildCredentialString sv (buildTime sv x))))) = hx_URLOpaque (cx_Request x)"
    "hx_URLOpaque (cx_Request (assignAmzQueryValues x)) = hx_URLOpaque (cx_Request x)"
    "hx_URLOpaque (cx_Request (handlePresignRemoval x)) = hx_URLOpaque (cx_Request x)"
    "hx_URLOpaque (sanitized y) = hx_URLOpaque y" for x :: "'t signingCtx" and y
    using arg_cong [OF digest_fields(8), of hx_URLOpaque sv "buildCredentialString sv (buildTime sv x)"]
      arg_cong [OF credential_fields(8), of hx_URLOpaque sv "buildTime sv x"] arg_cong [OF time_fields(8), of hx_URLOpaque sv x]
    by (simp_all add: assignAmzQueryValues_def handlePresignRemoval_def removePresign_def Let_def sanitized_def)
  define b where "b = (let a = new_ctx v4 r None service region exp p t in if isRequestSigned a then handlePresignRemoval (a\<lparr>cx_Time := now ()\<rparr>) else a)"
  define x where "x = assignAmzQueryValues (b\<lparr>cx_credValues := v, cx_Request := sanitized (cx_Request b)\<rparr>)"
  obtain c1 where c1: "buildBodyDigest sv (buildCredentialString sv (buildTime sv x)) = (None, c1)"
    using digest [of "buildCredentialString sv (buildTime sv x)"]
    by (cases "buildBodyDigest sv (buildCredentialString sv (buildTime sv x))") (simp add: body x_def b_def Let_def new_ctx_def)
  obtain h c2 where h: "hoist (sn_DisableHeaderHoisting v4) c1 = (h, c2)" by fastforce
  have "hx_URLOpaque (cx_Request c1) = hx_URLOpaque (cx_Request x)" using opq(1) [of x] by (simp add: c1)
  also have "\<dots> = []" using assms(2) by (simp add: x_def b_def opq Let_def new_ctx_def)
  finally have "hx_URLOpaque (cx_Request c2) = []" by (subst hoist_fields(1) [OF h]) simp
  moreover have "cx_Request (buildCanonicalHeaders ignoredHeaders h c2) = cx_Request c2"
    by (simp add: buildCanonicalHeaders_def Let_def split: prod.splits)
  ultimately obtain d where "buildCanonicalString (buildCanonicalHeaders ignoredHeaders h c2) = Some d"
    by (simp add: buildCanonicalString_def getURIPath_def Let_def)
  with c1 h have "\<exists>d. sign_build sv (sn_DisableHeaderHoisting v4) x = Some (None, d)" by (simp add: sign_build_def)
  then show ?thesis unfolding x_def b_def signWithBody_def using assms(1) by (auto simp: Let_def)
qed

section \<open>Reading back\<close>

lemma presigned_read_back:
  assumes "ParseQuery (hx_RawQuery r) = Values_Add ''X-Amz-Signature'' (hexEncode s) q" and "Values_list q ''X-Amz-Signature'' = []"
    and "Header_Get (hx_Header r) ''Authorization'' = []" and "s \<noteq> []"
  shows "GetSignedRequestSignature r = Inr s"
proof -
  have "Values_Get (ParseQuery (hx_RawQuery r)) ''X-Amz-Signature'' = hexEncode s"
    using assms(1,2) by (simp add: Values_Get_def Values_Add_def Values_list_update)
  moreover have "hexEncode s \<noteq> []" using hexEncode_length [of s] assms(4) by (metis length_0_conv mult_eq_0_iff zero_neq_numeral)
  ultimately show ?thesis using assms(3) by (simp add: GetSignedRequestSignature_def Let_def DecodeString_def hexDecode_encode)
qed

end
