(* ===== verification/S3Pool.thy ===== *)
theory S3Pool
  imports AwsErrors
begin

text \<open>
  The pool of part buffers of the uploader, \<open>service/s3/s3manager/pool.go\<close>: a bounded number of byte
  slices that \<open>Get\<close> hands out and \<open>Put\<close> takes back, with a capacity that can be changed while
  goroutines wait.

  A channel is a record of its capacity, its buffer and whether it is closed; \<open>None\<close> is the nil
  channel. The operations that hold the write lock are functions on the pool. \<open>Get\<close> and \<open>Put\<close> hold the
  read lock only, so that their single channel operations interleave: \<open>pool_step\<close> is that interleaving,
  with one phase per goroutine in \<open>Get\<close>.
\<close>

section \<open>Channels\<close>

record 'a gochan =
  gc_cap :: nat
  gc_items :: "'a list"
  gc_closed :: bool

datatype 'a received = Item 'a | NotOk | Blocks

definition make_chan :: "nat \<Rightarrow> 'a gochan" where
  "make_chan n = \<lparr>gc_cap = n, gc_items = [], gc_closed = False\<rparr>"

definition chan_recv :: "'a gochan option \<Rightarrow> 'a received" where
  "chan_recv co = (case co of None \<Rightarrow> Blocks | Some c \<Rightarrow>
     (case gc_items c of x # _ \<Rightarrow> Item x | [] \<Rightarrow> if gc_closed c then NotOk else Blocks))"

definition chan_taken :: "'a gochan option \<Rightarrow> 'a gochan option" where
  "chan_taken co = map_option (\<lambda>c. c\<lparr>gc_items := tl (gc_items c)\<rparr>) co"

definition can_send :: "'a gochan option \<Rightarrow> bool" where
  "can_send co = (case co of None \<Rightarrow> False | Some c \<Rightarrow> length (gc_items c) < gc_cap c)"

definition chan_send :: "'a \<Rightarrow> 'a gochan option \<Rightarrow> 'a gochan option" where
  "chan_send x co = map_option (\<lambda>c. c\<lparr>gc_items := gc_items c @ [x]\<rparr>) co"

definition chan_len :: "'a gochan option \<Rightarrow> nat" where
  "chan_len co = (case co of None \<Rightarrow> 0 | Some c \<Rightarrow> length (gc_items c))"

section \<open>The pool\<close>

text \<open>\<open>mp_gen\<close> counts the channels that \<open>capacityChange\<close> has held: a goroutine keeps a reference to the one it
  found, and every earlier one is closed.\<close>

record maxSlicePool =
  mp_slices :: "byte list gochan option"
  mp_allocations :: "unit gochan option"
  mp_capacityChange :: "unit gochan option"
  mp_max :: int
  mp_sliceSize :: int
  mp_gen :: nat

definition newMaxSlicePool :: "int \<Rightarrow> maxSlicePool" where
  "newMaxSlicePool sliceSize = \<lparr>mp_slices = None, mp_allocations = None, mp_capacityChange = None, mp_max = 0,
     mp_sliceSize = sliceSize, mp_gen = 0\<rparr>"

definition errZeroCapacity :: goerror where
  "errZeroCapacity = PlainError ''get called on zero capacity pool''"

definition newSlice :: "maxSlicePool \<Rightarrow> byte list" where
  "newSlice p = replicate (nat (mp_sliceSize p)) 0"

definition pool_empty :: "maxSlicePool \<Rightarrow> maxSlicePool" where
  "pool_empty p = p\<lparr>mp_max := 0, mp_capacityChange := None, mp_allocations := None, mp_slices := None, mp_gen := Suc (mp_gen p)\<rparr>"

text \<open>\<open>None\<close>: a channel of negative capacity is made, which panics, or the loop that fills the new channel
  of allocations blocks.\<close>

definition ModifyCapacity :: "int \<Rightarrow> maxSlicePool \<Rightarrow> maxSlicePool option" where
  "ModifyCapacity delta p =
     (if delta = 0 then Some p
      else let p = p\<lparr>mp_max := mp_max p + delta\<rparr> in
        if mp_max p = 0 then Some (pool_empty p)
        else if mp_max p < 0 then None
        else
          let p = p\<lparr>mp_capacityChange := Some (make_chan (nat (mp_max p))), mp_gen := Suc (mp_gen p)\<rparr>;
              newAllocs = int (chan_len (mp_allocations p)) + delta
          in if newAllocs > mp_max p then None
             else let p = p\<lparr>mp_allocations := Some ((make_chan (nat (mp_max p)))\<lparr>gc_items := replicate (nat newAllocs) ()\<rparr>)\<rparr> in
               Some (p\<lparr>mp_slices := Some ((make_chan (nat (mp_max p)))\<lparr>gc_items :=
                 (case mp_slices p of None \<Rightarrow> [] | Some origSlices \<Rightarrow> take (nat (mp_max p)) (gc_items origSlices))\<rparr>)\<rparr>))"

definition pool_Close :: "maxSlicePool \<Rightarrow> maxSlicePool" where
  "pool_Close p = pool_empty p"

definition notifyCapacity :: "maxSlicePool \<Rightarrow> maxSlicePool" where
  "notifyCapacity p = (if can_send (mp_capacityChange p) then p\<lparr>mp_capacityChange := chan_send () (mp_capacityChange p)\<rparr> else p)"

text \<open>The wrapper that gives the capacity back: \<open>byteSlicePool\<close> and \<open>returnCapacity\<close>.\<close>

record returnCapacityPoolCloser =
  rc_pool :: maxSlicePool
  rc_returnCapacity :: int

definition rc_ModifyCapacity :: "int \<Rightarrow> returnCapacityPoolCloser \<Rightarrow> returnCapacityPoolCloser option" where
  "rc_ModifyCapacity delta n =
     (let n = (if delta > 0 then n\<lparr>rc_returnCapacity := - 1 * delta\<rparr> else n)
      in map_option (\<lambda>p. n\<lparr>rc_pool := p\<rparr>) (ModifyCapacity delta (rc_pool n)))"

definition rc_Close :: "returnCapacityPoolCloser \<Rightarrow> returnCapacityPoolCloser option" where
  "rc_Close n =
     (if rc_returnCapacity n < 0 then map_option (\<lambda>p. n\<lparr>rc_pool := p\<rparr>) (ModifyCapacity (rc_returnCapacity n) (rc_pool n)) else Some n)"

section \<open>Goroutines\<close>

text \<open>
  Where a call of \<open>Get\<close> is: before the check of its context, before it takes the read lock, at the
  first and the second \<open>select\<close>, both under the read lock, waiting on the channel number \<open>g\<close>, or
  returned. With it, whether its context is done.
\<close>

datatype pool_phase =
    GetEnters
  | GetLocks
  | GetFirst
  | GetSecond
  | GetWaits nat
  | GetReturns "goerror + byte list"

record pool_system =
  py_pool :: maxSlicePool
  py_gets :: "(pool_phase \<times> bool) list"
  py_notifying :: nat
  py_held :: "byte list list"

definition ctx_Err :: goerror where
  "ctx_Err = PlainError ''context canceled''"

abbreviation get_at :: "nat \<Rightarrow> pool_phase \<times> bool \<Rightarrow> pool_system \<Rightarrow> pool_system" where
  "get_at i g s \<equiv> s\<lparr>py_gets := (py_gets s)[i := g]\<rparr>"

definition get_is :: "nat \<Rightarrow> pool_phase \<Rightarrow> bool \<Rightarrow> pool_system \<Rightarrow> bool" where
  "get_is i g done' s \<longleftrightarrow> i < length (py_gets s) \<and> py_gets s ! i = (g, done')"

text \<open>The read lock is held.\<close>

definition read_locked :: "pool_system \<Rightarrow> bool" where
  "read_locked s \<longleftrightarrow> py_notifying s > 0 \<or> (\<exists>gd \<in> set (py_gets s). fst gd = GetFirst \<or> fst gd = GetSecond)"

inductive pool_step :: "pool_system \<Rightarrow> pool_system \<Rightarrow> bool" where
  get_call: "pool_step s (s\<lparr>py_gets := py_gets s @ [(GetEnters, False)]\<rparr>)"
| ctx_done: "get_is i g False s \<Longrightarrow> pool_step s (get_at i (g, True) s)"
| get_enter: "get_is i GetEnters False s \<Longrightarrow> pool_step s (get_at i (GetLocks, False) s)"
| get_canceled: "get_is i g True s \<Longrightarrow> g = GetEnters \<or> g = GetFirst \<or> g = GetSecond \<or> g = GetWaits n \<Longrightarrow>
    pool_step s (get_at i (GetReturns (Inl ctx_Err), True) s)"
| get_lock: "get_is i GetLocks d s \<Longrightarrow> pool_step s (get_at i (GetFirst, d) s)"
| get_slice: "get_is i GetFirst d s \<Longrightarrow> chan_recv (mp_slices (py_pool s)) = Item bs \<Longrightarrow>
    pool_step s ((get_at i (GetReturns (Inr bs), d) s)
      \<lparr>py_pool := (py_pool s)\<lparr>mp_slices := chan_taken (mp_slices (py_pool s))\<rparr>, py_held := bs # py_held s\<rparr>)"
| get_slices_closed: "get_is i GetFirst d s \<Longrightarrow> chan_recv (mp_slices (py_pool s)) = NotOk \<Longrightarrow>
    pool_step s (get_at i (GetReturns (Inl errZeroCapacity), d) s)"
| get_first_default: "get_is i GetFirst False s \<Longrightarrow> chan_recv (mp_slices (py_pool s)) = Blocks \<Longrightarrow>
    pool_step s (get_at i (GetSecond, False) s)"
| get_allocation: "get_is i GetSecond d s \<Longrightarrow> chan_recv (mp_allocations (py_pool s)) = Item u \<Longrightarrow>
    pool_step s ((get_at i (GetReturns (Inr (newSlice (py_pool s))), d) s)
      \<lparr>py_pool := (py_pool s)\<lparr>mp_allocations := chan_taken (mp_allocations (py_pool s))\<rparr>, py_held := newSlice (py_pool s) # py_held s\<rparr>)"
| get_allocations_closed: "get_is i GetSecond d s \<Longrightarrow> chan_recv (mp_allocations (py_pool s)) = NotOk \<Longrightarrow>
    pool_step s (get_at i (GetReturns (Inl errZeroCapacity), d) s)"
| get_zero: "get_is i GetSecond False s \<Longrightarrow> chan_recv (mp_allocations (py_pool s)) = Blocks \<Longrightarrow> mp_max (py_pool s) = 0 \<Longrightarrow>
    pool_step s (get_at i (GetReturns (Inl errZeroCapacity), False) s)"
| get_wait: "get_is i GetSecond False s \<Longrightarrow> chan_recv (mp_allocations (py_pool s)) = Blocks \<Longrightarrow> mp_max (py_pool s) \<noteq> 0 \<Longrightarrow>
    pool_step s (get_at i (GetWaits (mp_gen (py_pool s)), False) s)"
| get_notified: "get_is i (GetWaits g) d s \<Longrightarrow> g = mp_gen (py_pool s) \<Longrightarrow> chan_recv (mp_capacityChange (py_pool s)) = Item u \<Longrightarrow>
    pool_step s ((get_at i (GetLocks, d) s)
      \<lparr>py_pool := (py_pool s)\<lparr>mp_capacityChange := chan_taken (mp_capacityChange (py_pool s))\<rparr>\<rparr>)"
| get_closed: "get_is i (GetWaits g) d s \<Longrightarrow> g < mp_gen (py_pool s) \<Longrightarrow> pool_step s (get_at i (GetLocks, d) s)"
| put_nothing: "py_held s = before_b @ bs # after_b \<Longrightarrow> mp_max (py_pool s) = 0 \<or> \<not> can_send (mp_slices (py_pool s)) \<Longrightarrow>
    pool_step s (s\<lparr>py_held := before_b @ after_b\<rparr>)"
| put_slice: "py_held s = before_b @ bs # after_b \<Longrightarrow> length bs' = length bs \<Longrightarrow> mp_max (py_pool s) \<noteq> 0 \<Longrightarrow> can_send (mp_slices (py_pool s)) \<Longrightarrow>
    pool_step s (s\<lparr>py_held := before_b @ after_b, py_notifying := Suc (py_notifying s),
      py_pool := (py_pool s)\<lparr>mp_slices := chan_send bs' (mp_slices (py_pool s))\<rparr>\<rparr>)"
| put_notify: "py_notifying s = Suc n \<Longrightarrow>
    pool_step s (s\<lparr>py_notifying := n, py_pool := notifyCapacity (py_pool s)\<rparr>)"
| modify: "\<not> read_locked s \<Longrightarrow> ModifyCapacity delta (py_pool s) = Some p \<Longrightarrow> pool_step s (s\<lparr>py_pool := p\<rparr>)"
| closes: "\<not> read_locked s \<Longrightarrow> pool_step s (s\<lparr>py_pool := pool_Close (py_pool s)\<rparr>)"

section \<open>Pools that do not shrink\<close>

text \<open>Runs in which the capacity is never lowered, and those of them in which no context is canceled.\<close>

definition pool_start :: "int \<Rightarrow> pool_system" where
  "pool_start sliceSize = \<lparr>py_pool = newMaxSlicePool sliceSize, py_gets = [], py_notifying = 0, py_held = []\<rparr>"

inductive pool_reaches :: "int \<Rightarrow> pool_system \<Rightarrow> bool" for sliceSize where
  start: "pool_reaches sliceSize (pool_start sliceSize)"
| step: "pool_reaches sliceSize s \<Longrightarrow> pool_step s t \<Longrightarrow> mp_max (py_pool s) \<le> mp_max (py_pool t) \<Longrightarrow> pool_reaches sliceSize t"

definition good_chan :: "nat \<Rightarrow> 'a gochan option \<Rightarrow> bool" where
  "good_chan n co = (case co of None \<Rightarrow> n = 0
     | Some c \<Rightarrow> n > 0 \<and> gc_cap c = n \<and> \<not> gc_closed c \<and> length (gc_items c) \<le> n)"

definition sized :: "nat \<Rightarrow> byte list gochan option \<Rightarrow> bool" where
  "sized n co = (case co of None \<Rightarrow> True | Some c \<Rightarrow> (\<forall>bs \<in> set (gc_items c). length bs = n))"

definition pool_ok :: "int \<Rightarrow> maxSlicePool \<Rightarrow> byte list list \<Rightarrow> bool" where
  "pool_ok sz p held \<longleftrightarrow> (let n = nat (mp_max p) in
     0 \<le> mp_max p \<and> mp_sliceSize p = sz \<and> good_chan n (mp_slices p) \<and> good_chan n (mp_allocations p) \<and> good_chan n (mp_capacityChange p) \<and>
     chan_len (mp_slices p) + chan_len (mp_allocations p) + length held = n \<and>
     (\<forall>bs \<in> set held. length bs = nat sz) \<and> sized (nat sz) (mp_slices p))"

abbreviation pool_inv :: "int \<Rightarrow> pool_system \<Rightarrow> bool" where
  "pool_inv sz s \<equiv> pool_ok sz (py_pool s) (py_held s)"

lemma chan_facts:
  "good_chan n co \<Longrightarrow> good_chan n (chan_taken co)"
  "good_chan n co \<Longrightarrow> can_send co \<Longrightarrow> good_chan n (chan_send x co)"
  "good_chan n co \<Longrightarrow> can_send co \<longleftrightarrow> chan_len co < n"
  "good_chan n co \<Longrightarrow> chan_recv co \<noteq> NotOk"
  "chan_recv co = Item x \<Longrightarrow> chan_len co = Suc (chan_len (chan_taken co))"
  "good_chan n co \<Longrightarrow> chan_recv co = Blocks \<longleftrightarrow> chan_len co = 0"
  "can_send co \<Longrightarrow> chan_len (chan_send x co) = Suc (chan_len co)"
  "good_chan n co \<Longrightarrow> chan_len co \<le> n"
  by (auto simp: good_chan_def chan_taken_def can_send_def chan_send_def chan_len_def chan_recv_def split: option.splits list.splits if_splits)

lemma set_tl_subset: "set (tl xs) \<subseteq> set xs"
  by (cases xs) auto

lemma sized_facts:
  "sized n co \<Longrightarrow> sized n (chan_taken co)"
  "sized n co \<Longrightarrow> length bs = n \<Longrightarrow> sized n (chan_send bs co)"
  "sized n co \<Longrightarrow> chan_recv co = Item bs \<Longrightarrow> length bs = n"
  by (auto simp: sized_def chan_taken_def chan_send_def chan_recv_def split: option.splits list.splits if_splits dest: set_mp [OF set_tl_subset])

lemma notify_fields [simp]:
  "mp_slices (notifyCapacity p) = mp_slices p" "mp_allocations (notifyCapacity p) = mp_allocations p"
  "mp_max (notifyCapacity p) = mp_max p" "mp_sliceSize (notifyCapacity p) = mp_sliceSize p" "mp_gen (notifyCapacity p) = mp_gen p"
  by (simp_all add: notifyCapacity_def)

lemma notify_good: "good_chan n (mp_capacityChange p) \<Longrightarrow> good_chan n (mp_capacityChange (notifyCapacity p))"
  by (simp add: notifyCapacity_def chan_facts(2))

lemma modify_grows:
  assumes "pool_inv sz s" and "ModifyCapacity delta (py_pool s) = Some p" and "mp_max (py_pool s) \<le> mp_max p"
  shows "pool_inv sz (s\<lparr>py_pool := p\<rparr>)" and "p = py_pool s \<or> mp_gen p = Suc (mp_gen (py_pool s))"
proof -
  let ?q = "py_pool s"
  have i: "0 \<le> mp_max ?q" "mp_sliceSize ?q = sz" "good_chan (nat (mp_max ?q)) (mp_slices ?q)"
    "chan_len (mp_slices ?q) + chan_len (mp_allocations ?q) + length (py_held s) = nat (mp_max ?q)"
    "\<forall>bs \<in> set (py_held s). length bs = nat sz" "sized (nat sz) (mp_slices ?q)"
    using assms(1) by (simp_all add: pool_ok_def Let_def)
  have "pool_inv sz (s\<lparr>py_pool := p\<rparr>) \<and> (p = ?q \<or> mp_gen p = Suc (mp_gen ?q))"
  proof (cases "delta = 0")
    case True
    then have "p = ?q" using assms(2) by (simp add: ModifyCapacity_def)
    with assms(1) show ?thesis by simp
  next
    case False
    have d: "delta > 0"
    proof (rule ccontr)
      assume "\<not> delta > 0"
      then have "mp_max p < mp_max ?q"
        using assms(2) False i(1) by (auto simp: ModifyCapacity_def pool_empty_def Let_def split: if_splits)
      with assms(3) show False by simp
    qed
    let ?m = "mp_max ?q + delta" and ?old = "case mp_slices ?q of None \<Rightarrow> [] | Some c \<Rightarrow> take (nat (mp_max ?q + delta)) (gc_items c)"
    have m: "?m > 0" using d i(1) by simp
    have len: "length ?old = chan_len (mp_slices ?q)"
      using i(3) d by (auto simp: good_chan_def chan_len_def split: option.splits)
    have p: "p = ?q\<lparr>mp_max := ?m, mp_capacityChange := Some (make_chan (nat ?m)), mp_gen := Suc (mp_gen ?q),
        mp_allocations := Some ((make_chan (nat ?m))\<lparr>gc_items := replicate (nat (int (chan_len (mp_allocations ?q)) + delta)) ()\<rparr>),
        mp_slices := Some ((make_chan (nat ?m))\<lparr>gc_items := ?old\<rparr>)\<rparr>"
      using assms(2) d m by (cases "mp_slices ?q") (simp_all add: ModifyCapacity_def Let_def split: if_splits)
    have "\<forall>bs \<in> set ?old. length bs = nat sz"
      using i(6) by (cases "mp_slices ?q") (auto simp: sized_def dest: in_set_takeD)
    moreover have "nat (int x + delta) = x + nat delta" "nat ?m = nat (mp_max ?q) + nat delta" for x
      using d i(1) by linarith+
    ultimately show ?thesis
      unfolding p using i len m d
      by (simp add: pool_ok_def Let_def good_chan_def make_chan_def chan_len_def [of "Some _"] sized_def)
  qed
  then show "pool_inv sz (s\<lparr>py_pool := p\<rparr>)" and "p = py_pool s \<or> mp_gen p = Suc (mp_gen (py_pool s))" by simp_all
qed

lemma take_keeps:
  assumes "pool_inv sz s" and "chan_recv (mp_slices (py_pool s)) = Item bs"
  shows "pool_inv sz (s\<lparr>py_pool := (py_pool s)\<lparr>mp_slices := chan_taken (mp_slices (py_pool s))\<rparr>, py_held := bs # py_held s\<rparr>)"
  using assms chan_facts(5) [OF assms(2)]
  by (simp add: pool_ok_def Let_def chan_facts(1) sized_facts(1)) (metis sized_facts(3))

lemma allocate_keeps:
  assumes "pool_inv sz s" and "chan_recv (mp_allocations (py_pool s)) = Item u"
  shows "pool_inv sz (s\<lparr>py_pool := (py_pool s)\<lparr>mp_allocations := chan_taken (mp_allocations (py_pool s))\<rparr>,
    py_held := newSlice (py_pool s) # py_held s\<rparr>)"
  using assms chan_facts(5) [OF assms(2)] by (auto simp: pool_ok_def Let_def chan_facts(1) newSlice_def)

lemma token_keeps: "pool_inv sz s \<Longrightarrow>
    pool_inv sz (s\<lparr>py_pool := (py_pool s)\<lparr>mp_capacityChange := chan_taken (mp_capacityChange (py_pool s))\<rparr>\<rparr>)"
  by (simp add: pool_ok_def Let_def chan_facts(1))

lemma notify_keeps: "pool_inv sz s \<Longrightarrow> pool_inv sz (s\<lparr>py_pool := notifyCapacity (py_pool s)\<rparr>)"
  by (simp add: pool_ok_def Let_def notify_good)

lemma room_for_held:
  assumes "pool_inv sz s" and "py_held s \<noteq> []"
  shows "mp_max (py_pool s) \<noteq> 0" and "can_send (mp_slices (py_pool s))"
proof -
  let ?p = "py_pool s"
  have g: "good_chan (nat (mp_max ?p)) (mp_slices ?p)" "chan_len (mp_slices ?p) + chan_len (mp_allocations ?p) + length (py_held s) = nat (mp_max ?p)"
    using assms(1) by (simp_all add: pool_ok_def Let_def)
  have "0 < length (py_held s)" using assms(2) by simp
  with g chan_facts(3) [OF g(1)] show "can_send (mp_slices ?p)" and "mp_max ?p \<noteq> 0" by linarith+
qed

lemma put_keeps:
  assumes "pool_inv sz s" and "py_held s = h @ bs # h'" and "length bs' = length bs"
  shows "pool_inv sz (s\<lparr>py_held := h @ h', py_pool := (py_pool s)\<lparr>mp_slices := chan_send bs' (mp_slices (py_pool s))\<rparr>\<rparr>)"
proof -
  have "can_send (mp_slices (py_pool s))" by (rule room_for_held [OF assms(1)]) (simp add: assms(2))
  with assms show ?thesis by (simp add: pool_ok_def Let_def chan_facts(2,7) sized_facts(2))
qed

theorem pool_step_inv:
  assumes "pool_step s t" and "pool_inv sz s" and "mp_max (py_pool s) \<le> mp_max (py_pool t)"
  shows "pool_inv sz t"
  using assms
proof (cases rule: pool_step.cases)
  case (get_slice i d bs)
  with take_keeps [OF assms(2)] show ?thesis by simp
next
  case (get_allocation i d u)
  with allocate_keeps [OF assms(2)] show ?thesis by simp
next
  case (get_notified i g d u)
  with token_keeps [OF assms(2)] show ?thesis by simp
next
  case (put_nothing h bs h')
  have "py_held s \<noteq> []" using put_nothing by simp
  with room_for_held [OF assms(2)] put_nothing show ?thesis by blast
next
  case (put_slice h bs h' bs')
  with put_keeps [OF assms(2), of h bs h' bs'] show ?thesis by simp
next
  case (put_notify n)
  with notify_keeps [OF assms(2)] show ?thesis by simp
next
  case (modify delta p)
  with modify_grows(1) [OF assms(2)] assms(3) show ?thesis by simp
next
  case closes
  with assms(2,3) show ?thesis
    by (auto simp: pool_ok_def Let_def pool_Close_def pool_empty_def good_chan_def chan_len_def sized_def)
qed (use assms in simp_all)

theorem pool_reaches_inv: "pool_reaches sz s \<Longrightarrow> pool_inv sz s"
proof (induction rule: pool_reaches.induct)
  case start
  then show ?case by (simp add: pool_start_def pool_ok_def newMaxSlicePool_def good_chan_def chan_len_def sized_def)
next
  case (step s t)
  then show ?case using pool_step_inv by blast
qed

section \<open>The semaphore the pool implements\<close>

text \<open>A counting semaphore, as its capacity and the number of its holders.\<close>

inductive sem_step :: "nat \<times> nat \<Rightarrow> nat \<times> nat \<Rightarrow> bool" where
  idle: "sem_step x x"
| acquire: "h < m \<Longrightarrow> sem_step (m, h) (m, Suc h)"
| release: "sem_step (m, Suc h) (m, h)"
| grow: "m \<le> m' \<Longrightarrow> sem_step (m, h) (m', h)"

definition sem_of :: "pool_system \<Rightarrow> nat \<times> nat" where
  "sem_of s = (nat (mp_max (py_pool s)), length (py_held s))"

theorem pool_simulates:
  assumes "pool_step s t" and "pool_inv sz s" and "mp_max (py_pool s) \<le> mp_max (py_pool t)"
  shows "sem_step (sem_of s) (sem_of t)"
proof -
  have t: "pool_inv sz t" by (rule pool_step_inv [OF assms])
  have b: "length (py_held t) \<le> nat (mp_max (py_pool t))" using t by (simp add: pool_ok_def Let_def)
  show ?thesis using assms(1)
  proof (cases rule: pool_step.cases)
    case (get_slice i d bs)
    with b show ?thesis by (simp add: sem_of_def sem_step.acquire)
  next
    case (get_allocation i d u)
    with b show ?thesis by (simp add: sem_of_def sem_step.acquire)
  next
    case (put_nothing h bs h')
    then show ?thesis by (simp add: sem_of_def sem_step.release)
  next
    case (put_slice h bs h' bs')
    then show ?thesis by (simp add: sem_of_def sem_step.release)
  next
    case (modify delta p)
    then show ?thesis using assms(3) by (simp add: sem_of_def sem_step.grow)
  next
    case closes
    then show ?thesis using assms(3) by (simp add: sem_of_def sem_step.grow)
  qed (simp_all add: sem_of_def sem_step.idle)
qed

section \<open>Nobody sleeps next to a free slice\<close>

text \<open>
  The goroutines about to look at the pool again. While somebody waits, or is about to, every slice in the
  pool has one of them, a token in \<open>capacityChange\<close>, or a \<open>Put\<close> that has not notified yet.
\<close>

definition looking :: "pool_phase \<times> bool \<Rightarrow> bool" where
  "looking gd \<longleftrightarrow> fst gd = GetLocks \<or> fst gd = GetFirst"

definition awake :: "pool_system \<Rightarrow> nat" where
  "awake s = length (filter looking (py_gets s))"

definition sleeping :: "pool_system \<Rightarrow> bool" where
  "sleeping s \<longleftrightarrow> (\<exists>d. (GetWaits (mp_gen (py_pool s)), d) \<in> set (py_gets s))"

definition wake_inv :: "pool_system \<Rightarrow> bool" where
  "wake_inv s \<longleftrightarrow>
     (\<forall>g d. (GetWaits g, d) \<in> set (py_gets s) \<longrightarrow> g \<le> mp_gen (py_pool s)) \<and>
     (sleeping s \<or> (\<exists>d. (GetSecond, d) \<in> set (py_gets s)) \<longrightarrow>
        chan_len (mp_slices (py_pool s)) \<le> chan_len (mp_capacityChange (py_pool s)) + awake s + py_notifying s) \<and>
     (sleeping s \<longrightarrow> chan_len (mp_allocations (py_pool s)) = 0)"

lemma filter_update_length:
  "i < length xs \<Longrightarrow> length (filter P (xs[i := x])) + (if P (xs ! i) then 1 else 0) = length (filter P xs) + (if P x then 1 else 0)"
proof (induction xs arbitrary: i)
  case (Cons y xs)
  then show ?case by (cases i) auto
qed simp

lemma awake_at:
  assumes "get_is i g d s" and "py_gets t = (py_gets s)[i := (g', d')]"
  shows "awake t + (if looking (g, d) then 1 else 0) = awake s + (if looking (g', d') then 1 else 0)"
  using assms filter_update_length [of i "py_gets s" looking "(g', d')"] by (simp add: awake_def get_is_def)

lemma in_update: "gd \<in> set (xs[i := x]) \<Longrightarrow> gd = x \<or> gd \<in> set xs"
  using set_update_subset_insert by fastforce

text \<open>A step of one \<open>Get\<close>, which does not put slices or allocations into the pool.\<close>

lemma wake_at:
  assumes "wake_inv s" and "get_is i g d s" and "py_gets t = (py_gets s)[i := (g', d')]" and "mp_gen (py_pool t) = mp_gen (py_pool s)"
    and "chan_len (mp_allocations (py_pool t)) \<le> chan_len (mp_allocations (py_pool s))"
    and "\<And>n. g' = GetWaits n \<Longrightarrow> n = mp_gen (py_pool s) \<and> chan_len (mp_allocations (py_pool s)) = 0 \<and> g = GetSecond"
    and "g' = GetSecond \<Longrightarrow> chan_len (mp_slices (py_pool t)) = 0"
    and "chan_len (mp_slices (py_pool t)) + chan_len (mp_capacityChange (py_pool s)) + (if looking (g, d) then 1 else 0) + py_notifying s \<le>
      chan_len (mp_slices (py_pool s)) + chan_len (mp_capacityChange (py_pool t)) + (if looking (g', d') then 1 else 0) + py_notifying t
      \<or> chan_len (mp_slices (py_pool t)) = 0"
  shows "wake_inv t"
proof -
  have sub: "gd = (g', d') \<or> gd \<in> set (py_gets s)" if "gd \<in> set (py_gets t)" for gd
    using that assms(3) by (simp add: in_update)
  have here: "(g, d) \<in> set (py_gets s)" using assms(2) by (force simp: get_is_def in_set_conv_nth)
  have slp: "sleeping s \<or> g = GetSecond" if "sleeping t"
    using that sub assms(4,6) unfolding sleeping_def by (metis prod.inject)
  have al: "chan_len (mp_allocations (py_pool t)) = 0" if "sleeping t"
    using that sub assms(1,4-6) unfolding sleeping_def wake_inv_def by (metis le_zero_eq prod.inject)
  have "chan_len (mp_slices (py_pool t)) \<le> chan_len (mp_capacityChange (py_pool t)) + awake t + py_notifying t"
    if "sleeping t \<or> (\<exists>d. (GetSecond, d) \<in> set (py_gets t))"
  proof (cases "chan_len (mp_slices (py_pool t)) = 0")
    case False
    then have "g' \<noteq> GetSecond" using assms(7) by blast
    then have "sleeping s \<or> (\<exists>d. (GetSecond, d) \<in> set (py_gets s))" using that slp sub here by (metis prod.inject)
    then have "chan_len (mp_slices (py_pool s)) \<le> chan_len (mp_capacityChange (py_pool s)) + awake s + py_notifying s"
      using assms(1) by (simp add: wake_inv_def)
    with assms(8) False awake_at [OF assms(2,3)] show ?thesis by linarith
  qed simp
  moreover have "n \<le> mp_gen (py_pool t)" if "(GetWaits n, b) \<in> set (py_gets t)" for n b
    using sub [OF that] assms(1,4,6) by (auto simp: wake_inv_def)
  ultimately show ?thesis using al by (simp add: wake_inv_def)
qed

lemma notify_len:
  assumes "good_chan n (mp_capacityChange p)" and "chan_len (mp_slices p) \<le> n"
  shows "chan_len (mp_slices p) \<le> chan_len (mp_capacityChange (notifyCapacity p)) \<and>
    chan_len (mp_capacityChange (notifyCapacity p)) = chan_len (mp_capacityChange p) \<or>
    chan_len (mp_capacityChange (notifyCapacity p)) = Suc (chan_len (mp_capacityChange p))"
  using assms chan_facts(3) [OF assms(1)] by (auto simp: notifyCapacity_def chan_facts(7))

lemma modify_nobody:
  assumes "\<not> read_locked s" and "wake_inv s" and "mp_gen p = Suc (mp_gen (py_pool s))"
  shows "wake_inv (s\<lparr>py_pool := p\<rparr>)"
proof -
  have "g \<le> mp_gen (py_pool s)" if "(GetWaits g, d) \<in> set (py_gets s)" for g d
    using assms(2) that unfolding wake_inv_def by blast
  then have "\<not> sleeping (s\<lparr>py_pool := p\<rparr>)" using assms(3) unfolding sleeping_def by fastforce
  moreover have "(GetSecond, d) \<notin> set (py_gets s)" for d using assms(1) unfolding read_locked_def by force
  ultimately show ?thesis using assms(2,3) by (auto simp: wake_inv_def)
qed

theorem wake_step:
  assumes "pool_step s t" and "wake_inv s" and "pool_inv sz s" and "mp_max (py_pool s) \<le> mp_max (py_pool t)"
    and "\<forall>gd \<in> set (py_gets t). \<not> snd gd"
  shows "wake_inv t"
  using assms(1)
proof (cases rule: pool_step.cases)
  case get_call
  then show ?thesis using assms(2) by (auto simp: wake_inv_def sleeping_def awake_def looking_def)
next
  case (ctx_done i g)
  then show ?thesis using assms(5) by (force simp: get_is_def in_set_conv_nth)
next
  case (get_enter i)
  then show ?thesis by (intro wake_at [OF assms(2), of i GetEnters False t GetLocks False]) (simp_all add: looking_def)
next
  case (get_canceled i g n)
  then show ?thesis using assms(5) by (force simp: get_is_def in_set_conv_nth)
next
  case (get_lock i d)
  then show ?thesis by (intro wake_at [OF assms(2), of i GetLocks d t GetFirst d]) (simp_all add: looking_def)
next
  case (get_slice i d bs)
  then show ?thesis using chan_facts(5) [of "mp_slices (py_pool s)" bs]
    by (intro wake_at [OF assms(2), of i GetFirst d t "GetReturns (Inr bs)" d]) (simp_all add: looking_def)
next
  case (get_slices_closed i d)
  then show ?thesis using assms(3) chan_facts(4) by (auto simp: pool_ok_def Let_def)
next
  case (get_first_default i)
  have "chan_len (mp_slices (py_pool s)) = 0" using assms(3) get_first_default chan_facts(6) by (auto simp: pool_ok_def Let_def)
  with get_first_default show ?thesis
    by (intro wake_at [OF assms(2), of i GetFirst False t GetSecond False]) (simp_all add: looking_def)
next
  case (get_allocation i d u)
  then show ?thesis using chan_facts(5) [of "mp_allocations (py_pool s)" u]
    by (intro wake_at [OF assms(2), of i GetSecond d t "GetReturns (Inr (newSlice (py_pool s)))" d]) (simp_all add: looking_def)
next
  case (get_allocations_closed i d)
  then show ?thesis using assms(3) chan_facts(4) by (auto simp: pool_ok_def Let_def)
next
  case (get_zero i)
  then show ?thesis
    by (intro wake_at [OF assms(2), of i GetSecond False t "GetReturns (Inl errZeroCapacity)" False]) (simp_all add: looking_def)
next
  case (get_wait i)
  have "chan_len (mp_allocations (py_pool s)) = 0" using assms(3) get_wait chan_facts(6) by (auto simp: pool_ok_def Let_def)
  with get_wait show ?thesis
    by (intro wake_at [OF assms(2), of i GetSecond False t "GetWaits (mp_gen (py_pool s))" False]) (simp_all add: looking_def)
next
  case (get_notified i g d u)
  then show ?thesis using chan_facts(5) [of "mp_capacityChange (py_pool s)" u]
    by (intro wake_at [OF assms(2), of i "GetWaits g" d t GetLocks d]) (simp_all add: looking_def)
next
  case (get_closed i g d)
  then show ?thesis by (intro wake_at [OF assms(2), of i "GetWaits g" d t GetLocks d]) (simp_all add: looking_def)
next
  case (put_nothing h bs h')
  then show ?thesis using assms(2) by (simp add: wake_inv_def sleeping_def awake_def)
next
  case (put_slice h bs h' bs')
  then show ?thesis using assms(2) by (auto simp: wake_inv_def sleeping_def awake_def chan_facts(7))
next
  case (put_notify n)
  have g: "good_chan (nat (mp_max (py_pool s))) (mp_capacityChange (py_pool s))" "chan_len (mp_slices (py_pool s)) \<le> nat (mp_max (py_pool s))"
    using assms(3) by (simp_all add: pool_ok_def Let_def)
  from notify_len [OF g] put_notify assms(2) show ?thesis by (auto simp: wake_inv_def sleeping_def awake_def)
next
  case (modify delta p)
  with modify_grows(2) [OF assms(3) modify(3)] assms(4) have "p = py_pool s \<or> mp_gen p = Suc (mp_gen (py_pool s))" by simp
  then show ?thesis using modify modify_nobody [OF modify(2) assms(2)] assms(2) by auto
next
  case closes
  then show ?thesis using modify_nobody [OF closes(2) assms(2)] by (simp add: pool_Close_def pool_empty_def)
qed

lemma step_gets:
  "pool_step s t \<Longrightarrow> py_gets t = py_gets s @ [(GetEnters, False)] \<or> py_gets t = py_gets s \<or>
    (\<exists>i g d g' d'. get_is i g d s \<and> py_gets t = (py_gets s)[i := (g', d')] \<and> (d \<longrightarrow> d'))"
  by (erule pool_step.cases) (simp_all, blast+)

lemma done_stays:
  assumes "pool_step s t" and "\<forall>gd \<in> set (py_gets t). \<not> snd gd"
  shows "\<forall>gd \<in> set (py_gets s). \<not> snd gd"
  using step_gets [OF assms(1)]
proof (elim disjE exE conjE)
  fix i g d g' d'
  assume i: "get_is i g d s" and t: "py_gets t = (py_gets s)[i := (g', d')]" and d: "d \<longrightarrow> d'"
  show ?thesis
  proof
    fix gd assume "gd \<in> set (py_gets s)"
    then obtain j where j: "j < length (py_gets s)" "gd = py_gets s ! j" by (metis in_set_conv_nth)
    have "py_gets t ! j \<in> set (py_gets t)" using j(1) t by simp
    with assms(2) have "\<not> snd (py_gets t ! j)" by blast
    with i t d j show "\<not> snd gd" by (cases "j = i") (auto simp: get_is_def)
  qed
qed (use assms(2) in auto)

theorem pool_wakes:
  "pool_reaches sz s \<Longrightarrow> \<forall>gd \<in> set (py_gets s). \<not> snd gd \<Longrightarrow> wake_inv s"
proof (induction rule: pool_reaches.induct)
  case start
  then show ?case by (simp add: pool_start_def wake_inv_def sleeping_def)
next
  case (step s t)
  then show ?case using wake_step done_stays pool_reaches_inv by blast
qed

section \<open>What goes wrong otherwise\<close>

text \<open>All slices are out, the capacity is lowered by \<open>d\<close> and raised again: \<open>d\<close> more can be allocated.\<close>

lemma shrink_and_grow:
  assumes "pool_ok sz p held" and "0 < d" and "d < mp_max p" and "length held = nat (mp_max p)"
  shows "\<exists>p' p''. ModifyCapacity (- d) p = Some p' \<and> ModifyCapacity d p' = Some p'' \<and> mp_max p'' = mp_max p \<and>
    chan_len (mp_allocations p'') = nat d"
proof -
  have z: "chan_len (mp_allocations p) = 0" "chan_len (mp_slices p) = 0" using assms(1,4) by (simp_all add: pool_ok_def Let_def)
  have s: "(case mp_slices p of None \<Rightarrow> [] | Some c \<Rightarrow> take n (gc_items c)) = []" for n
    using z(2) by (cases "mp_slices p") (simp_all add: chan_len_def)
  show ?thesis
    using assms(2,3) z s by (simp add: ModifyCapacity_def Let_def make_chan_def chan_len_def [of "Some _"])
qed

text \<open>A pool of one slice: the second and the third \<open>Get\<close> wait, the slice comes back and the second is
  notified, but its context is done when it looks; the third waits on, with the slice in the pool.\<close>

definition one_pool :: "byte list list \<Rightarrow> nat \<Rightarrow> nat \<Rightarrow> maxSlicePool" where
  "one_pool slices allocs tokens = \<lparr>mp_slices = Some \<lparr>gc_cap = 1, gc_items = slices, gc_closed = False\<rparr>,
     mp_allocations = Some \<lparr>gc_cap = 1, gc_items = replicate allocs (), gc_closed = False\<rparr>,
     mp_capacityChange = Some \<lparr>gc_cap = 1, gc_items = replicate tokens (), gc_closed = False\<rparr>,
     mp_max = 1, mp_sliceSize = 1, mp_gen = 1\<rparr>"

definition one_system :: "byte list list \<Rightarrow> nat \<Rightarrow> nat \<Rightarrow> (pool_phase \<times> bool) list \<Rightarrow> nat \<Rightarrow> byte list list \<Rightarrow> pool_system" where
  "one_system slices allocs tokens gets notifying held =
     \<lparr>py_pool = one_pool slices allocs tokens, py_gets = gets, py_notifying = notifying, py_held = held\<rparr>"

lemma one_step:
  "pool_reaches 1 s \<Longrightarrow> pool_step s (one_system a b c d e f) \<Longrightarrow> mp_max (py_pool s) \<le> 1 \<Longrightarrow> pool_reaches 1 (one_system a b c d e f)"
  by (erule pool_reaches.step) (simp_all add: one_system_def one_pool_def)

lemmas one_defs = one_system_def one_pool_def get_is_def chan_recv_def chan_taken_def chan_send_def can_send_def newSlice_def
  notifyCapacity_def

lemma one_calls:
  assumes "pool_reaches 1 (one_system a b c g e f)"
  shows "pool_reaches 1 (one_system a b c (g @ [(GetLocks, False)]) e f)"
proof -
  let ?s = "one_system a b c (g @ [(GetEnters, False)]) e f"
  have "pool_step (one_system a b c g e f) ?s" using pool_step.get_call [of "one_system a b c g e f"] by (simp add: one_system_def)
  from one_step [OF assms this] have s: "pool_reaches 1 ?s" by (simp add: one_system_def one_pool_def)
  have "pool_step ?s (one_system a b c (g @ [(GetLocks, False)]) e f)"
    using pool_step.get_enter [of "length g" ?s] by (simp add: one_system_def get_is_def)
  from one_step [OF s this] show ?thesis by (simp add: one_system_def one_pool_def)
qed

lemma one_phase:
  assumes "pool_reaches 1 (one_system a b c g e f)" and "pool_step (one_system a b c g e f) (one_system a' b' c' g' e' f')"
  shows "pool_reaches 1 (one_system a' b' c' g' e' f')"
  by (rule one_step [OF assms]) (simp add: one_system_def one_pool_def)

lemma one_waits:
  assumes "pool_reaches 1 (one_system [] 0 0 g 0 f)" and "i < length g" and "g ! i = (GetLocks, False)"
  shows "pool_reaches 1 (one_system [] 0 0 (g[i := (GetWaits 1, False)]) 0 f)"
proof -
  have "pool_reaches 1 (one_system [] 0 0 (g[i := (GetFirst, False)]) 0 f)"
    using pool_step.get_lock [of i False "one_system [] 0 0 g 0 f"] assms
    by (intro one_phase [OF assms(1)]) (simp add: one_system_def get_is_def)
  then have "pool_reaches 1 (one_system [] 0 0 (g[i := (GetSecond, False)]) 0 f)"
    by (rule one_phase) (use pool_step.get_first_default [of i "one_system [] 0 0 (g[i := (GetFirst, False)]) 0 f"] assms(2) in
      \<open>simp add: one_defs\<close>)
  then show ?thesis
    by (rule one_phase) (use pool_step.get_wait [of i "one_system [] 0 0 (g[i := (GetSecond, False)]) 0 f"] assms(2) in
      \<open>simp add: one_defs\<close>)
qed

lemma lost_wakeup_run:
  "pool_reaches 1 (one_system [[0]] 0 0 [(GetReturns (Inr [0]), False), (GetReturns (Inl ctx_Err), True), (GetWaits 1, False)] 0 [])"
proof -
  have "pool_step (pool_start 1) (one_system [] 1 0 [] 0 [])"
    using pool_step.modify [of "pool_start 1" 1 "one_pool [] 1 0"]
    by (simp add: pool_start_def read_locked_def ModifyCapacity_def newMaxSlicePool_def make_chan_def chan_len_def one_system_def one_pool_def Let_def)
  from one_step [OF pool_reaches.start this] have "pool_reaches 1 (one_system [] 1 0 [] 0 [])"
    by (simp add: pool_start_def newMaxSlicePool_def)
  from one_calls [OF one_calls [OF one_calls [OF this]]]
  have "pool_reaches 1 (one_system [] 1 0 [(GetLocks, False), (GetLocks, False), (GetLocks, False)] 0 [])" by simp
  then have "pool_reaches 1 (one_system [] 1 0 [(GetFirst, False), (GetLocks, False), (GetLocks, False)] 0 [])"
    by (rule one_phase) (use pool_step.get_lock [of 0 False "one_system [] 1 0 [(GetLocks, False), (GetLocks, False), (GetLocks, False)] 0 []"] in \<open>simp add: one_defs\<close>)
  then have "pool_reaches 1 (one_system [] 1 0 [(GetSecond, False), (GetLocks, False), (GetLocks, False)] 0 [])"
    by (rule one_phase) (use pool_step.get_first_default [of 0 "one_system [] 1 0 [(GetFirst, False), (GetLocks, False), (GetLocks, False)] 0 []"] in \<open>simp add: one_defs\<close>)
  then have "pool_reaches 1 (one_system [] 0 0 [(GetReturns (Inr [0]), False), (GetLocks, False), (GetLocks, False)] 0 [[0]])"
    by (rule one_phase) (use pool_step.get_allocation [of 0 False "one_system [] 1 0 [(GetSecond, False), (GetLocks, False), (GetLocks, False)] 0 []" "()"] in \<open>simp add: one_defs\<close>)
  from one_waits [OF one_waits [OF this, of 1], of 2]
  have "pool_reaches 1 (one_system [] 0 0 [(GetReturns (Inr [0]), False), (GetWaits 1, False), (GetWaits 1, False)] 0 [[0]])" by simp
  then have "pool_reaches 1 (one_system [[0]] 0 0 [(GetReturns (Inr [0]), False), (GetWaits 1, False), (GetWaits 1, False)] 1 [])"
    by (rule one_phase) (use pool_step.put_slice [of "one_system [] 0 0 [(GetReturns (Inr [0]), False), (GetWaits 1, False), (GetWaits 1, False)] 0 [[0]]" "[]" "[0]" "[]" "[0]"] in \<open>simp add: one_defs\<close>)
  then have "pool_reaches 1 (one_system [[0]] 0 1 [(GetReturns (Inr [0]), False), (GetWaits 1, False), (GetWaits 1, False)] 0 [])"
    by (rule one_phase) (use pool_step.put_notify [of "one_system [[0]] 0 0 [(GetReturns (Inr [0]), False), (GetWaits 1, False), (GetWaits 1, False)] 1 []" 0] in \<open>simp add: one_defs\<close>)
  then have "pool_reaches 1 (one_system [[0]] 0 0 [(GetReturns (Inr [0]), False), (GetLocks, False), (GetWaits 1, False)] 0 [])"
    by (rule one_phase) (use pool_step.get_notified [of 1 1 False "one_system [[0]] 0 1 [(GetReturns (Inr [0]), False), (GetWaits 1, False), (GetWaits 1, False)] 0 []" "()"] in \<open>simp add: one_defs\<close>)
  then have "pool_reaches 1 (one_system [[0]] 0 0 [(GetReturns (Inr [0]), False), (GetLocks, True), (GetWaits 1, False)] 0 [])"
    by (rule one_phase) (use pool_step.ctx_done [of 1 GetLocks "one_system [[0]] 0 0 [(GetReturns (Inr [0]), False), (GetLocks, False), (GetWaits 1, False)] 0 []"] in \<open>simp add: one_defs\<close>)
  then have "pool_reaches 1 (one_system [[0]] 0 0 [(GetReturns (Inr [0]), False), (GetFirst, True), (GetWaits 1, False)] 0 [])"
    by (rule one_phase) (use pool_step.get_lock [of 1 True "one_system [[0]] 0 0 [(GetReturns (Inr [0]), False), (GetLocks, True), (GetWaits 1, False)] 0 []"] in \<open>simp add: one_defs\<close>)
  then show ?thesis
    by (rule one_phase) (use pool_step.get_canceled [of 1 GetFirst "one_system [[0]] 0 0 [(GetReturns (Inr [0]), False), (GetFirst, True), (GetWaits 1, False)] 0 []" 0] in \<open>simp add: one_defs\<close>)
qed

end
