(* ===== verification/S3Batch.thy ===== *)
theory S3Batch
  imports AwsPagination
begin

text \<open>
  Batched deletes, \<open>service/s3/s3manager/batch.go\<close>: the iterators, the loop that collects objects into
  batches, and what becomes of the errors.

  The iterator interface is a record of its methods over a state and the world that requests and the
  functions \<open>After\<close> change; \<open>None\<close> is a panic. \<open>Delete\<close> ends when the iterator does, so that its loop
  is partial.
\<close>

section \<open>Objects and errors\<close>

record DeleteObjectInput =
  di_Bucket :: "string option"
  di_Key :: "string option"
  di_MFA :: "string option"
  di_RequestPayer :: "string option"
  di_VersionId :: "string option"

record 'w BatchDeleteObject =
  bo_Object :: DeleteObjectInput
  bo_After :: "('w \<Rightarrow> goerror option \<times> 'w) option"

text \<open>\<open>DeleteObjectsInput\<close> with its \<open>Delete.Objects\<close>, pairs of key and version.\<close>

record DeleteObjectsInput =
  ds_Bucket :: "string option"
  ds_MFA :: "string option"
  ds_RequestPayer :: "string option"
  ds_Objects :: "(string option \<times> string option) list"

record result_error =
  se_Code :: "string option"
  se_Message :: "string option"
  se_Key :: "string option"

record batch_Error =
  ex_OrigErr :: goerror
  ex_Bucket :: "string option"
  ex_Key :: "string option"

record BatchError =
  bx_Errors :: "batch_Error list"
  bx_code :: string
  bx_message :: string

definition newError :: "goerror \<Rightarrow> string option \<Rightarrow> string option \<Rightarrow> batch_Error" where
  "newError err bucket key = \<lparr>ex_OrigErr = err, ex_Bucket = bucket, ex_Key = key\<rparr>"

definition new_BatchError :: "string \<Rightarrow> string \<Rightarrow> batch_Error list \<Rightarrow> BatchError" where
  "new_BatchError code message err = \<lparr>bx_Errors = err, bx_code = code, bx_message = message\<rparr>"

definition DefaultBatchSize :: int where
  "DefaultBatchSize = 100"

definition ErrDeleteBatchFailCode :: string where
  "ErrDeleteBatchFailCode = ''DeleteBatchError''"

definition errDefaultDeleteBatchMessage :: string where
  "errDefaultDeleteBatchMessage = ''failed to delete''"

text \<open>The client of a \<open>BatchDelete\<close>: \<open>DeleteObjectsWithContext\<close> fails or returns the errors of objects.\<close>

record 'w BatchDelete =
  bd_DeleteObjects :: "DeleteObjectsInput \<Rightarrow> 'w \<Rightarrow> (goerror + result_error list) \<times> 'w"
  bd_BatchSize :: int

section \<open>Iterators\<close>

record ('i, 'w) BatchDeleteIterator =
  bi_Next :: "'i \<Rightarrow> 'w \<Rightarrow> (bool \<times> 'i \<times> 'w) option"
  bi_Err :: "'i \<Rightarrow> goerror option"
  bi_DeleteObject :: "'i \<Rightarrow> 'w BatchDeleteObject option"

record 'w DeleteObjectsIterator =
  oi_Objects :: "'w BatchDeleteObject list"
  oi_index :: nat
  oi_inc :: bool

definition objects_Next :: "'w DeleteObjectsIterator \<Rightarrow> 'w \<Rightarrow> (bool \<times> 'w DeleteObjectsIterator \<times> 'w) option" where
  "objects_Next iter w =
     (let iter = (if oi_inc iter then iter\<lparr>oi_index := oi_index iter + 1\<rparr> else iter\<lparr>oi_inc := True\<rparr>)
      in Some (oi_index iter < length (oi_Objects iter), iter, w))"

definition objects_DeleteObject :: "'w DeleteObjectsIterator \<Rightarrow> 'w BatchDeleteObject option" where
  "objects_DeleteObject iter = (if oi_index iter < length (oi_Objects iter) then Some (oi_Objects iter ! oi_index iter) else None)"

definition objects_iterator :: "('w DeleteObjectsIterator, 'w) BatchDeleteIterator" where
  "objects_iterator = \<lparr>bi_Next = objects_Next, bi_Err = (\<lambda>_. None), bi_DeleteObject = objects_DeleteObject\<rparr>"

text \<open>The iterator over the objects of a listing: a page is the list of the keys of its \<open>Contents\<close>.\<close>

record DeleteListIterator =
  li_Bucket :: "string option"
  li_Paginator :: "string option list Pagination"
  li_objects :: "string option list"

definition NewDeleteListIterator :: "string option \<Rightarrow> DeleteListIterator" where
  "NewDeleteListIterator bucket = \<lparr>li_Bucket = bucket, li_Paginator = newPagination False, li_objects = []\<rparr>"

definition list_Next :: "(string option list, 'w) page_client \<Rightarrow> DeleteListIterator \<Rightarrow> 'w \<Rightarrow> (bool \<times> DeleteListIterator \<times> 'w) option" where
  "list_Next cl iter w =
     (let iter = (if length (li_objects iter) > 0 then iter\<lparr>li_objects := tl (li_objects iter)\<rparr> else iter) in
      if length (li_objects iter) = 0 then
        case Next cl (li_Paginator iter) w of
          None \<Rightarrow> None
        | Some (ok, p, w) \<Rightarrow>
            let iter = iter\<lparr>li_Paginator := p\<rparr>;
                iter = (if ok then iter\<lparr>li_objects := (case pn_curPage p of None \<Rightarrow> [] | Some page \<Rightarrow> page)\<rparr> else iter)
            in Some (length (li_objects iter) > 0, iter, w)
      else Some (True, iter, w))"

definition list_Err :: "DeleteListIterator \<Rightarrow> goerror option" where
  "list_Err iter = pn_err (li_Paginator iter)"

definition list_DeleteObject :: "DeleteListIterator \<Rightarrow> 'w BatchDeleteObject option" where
  "list_DeleteObject iter = (case li_objects iter of
     [] \<Rightarrow> None
   | key # _ \<Rightarrow> Some \<lparr>bo_Object = \<lparr>di_Bucket = li_Bucket iter, di_Key = key, di_MFA = None, di_RequestPayer = None, di_VersionId = None\<rparr>,
       bo_After = None\<rparr>)"

definition list_iterator :: "(string option list, 'w) page_client \<Rightarrow> (DeleteListIterator, 'w) BatchDeleteIterator" where
  "list_iterator cl = \<lparr>bi_Next = list_Next cl, bi_Err = list_Err, bi_DeleteObject = list_DeleteObject\<rparr>"

section \<open>Deleting\<close>

definition initDeleteObjectsInput :: "DeleteObjectInput \<Rightarrow> DeleteObjectsInput" where
  "initDeleteObjectsInput ob = \<lparr>ds_Bucket = di_Bucket ob, ds_MFA = di_MFA ob, ds_RequestPayer = di_RequestPayer ob, ds_Objects = []\<rparr>"

definition add_object :: "DeleteObjectInput \<Rightarrow> DeleteObjectsInput \<Rightarrow> DeleteObjectsInput" where
  "add_object ob input = input\<lparr>ds_Objects := ds_Objects input @ [(di_Key ob, di_VersionId ob)]\<rparr>"

text \<open>One comparison of two pointers to strings, three times in \<open>hasParity\<close>.\<close>

definition same_pointee :: "string option \<Rightarrow> string option \<Rightarrow> bool" where
  "same_pointee a b = (case (a, b) of (Some x, Some y) \<Rightarrow> x = y | (None, None) \<Rightarrow> True | _ \<Rightarrow> False)"

definition hasParity :: "DeleteObjectsInput \<Rightarrow> 'w BatchDeleteObject \<Rightarrow> bool" where
  "hasParity o1 o2 \<longleftrightarrow> same_pointee (ds_Bucket o1) (di_Bucket (bo_Object o2)) \<and> same_pointee (ds_MFA o1) (di_MFA (bo_Object o2)) \<and>
     same_pointee (ds_RequestPayer o1) (di_RequestPayer (bo_Object o2))"

definition result_errors :: "DeleteObjectsInput \<Rightarrow> goerror + result_error list \<Rightarrow> batch_Error list" where
  "result_errors input res = (case res of
     Inl err \<Rightarrow> map (\<lambda>kv. newError err (ds_Bucket input) (fst kv)) (ds_Objects input)
   | Inr errors \<Rightarrow> map (\<lambda>e.
       let code = (case se_Code e of None \<Rightarrow> ErrDeleteBatchFailCode | Some c \<Rightarrow> c);
           msg = (case se_Message e of None \<Rightarrow> errDefaultDeleteBatchMessage | Some m \<Rightarrow> m)
       in newError (awserr_New code msg None) (ds_Bucket input) (se_Key e)) errors)"

fun run_After :: "'w BatchDeleteObject list \<Rightarrow> 'w \<Rightarrow> batch_Error list \<times> 'w" where
  "run_After [] w = ([], w)"
| "run_After (ob # objects) w =
     (case bo_After ob of
        None \<Rightarrow> run_After objects w
      | Some after_fn \<Rightarrow>
          (case after_fn w of
             (None, w) \<Rightarrow> run_After objects w
           | (Some err, w) \<Rightarrow>
               (case run_After objects w of
                  (errs, w) \<Rightarrow> (newError err (di_Bucket (bo_Object ob)) (di_Key (bo_Object ob)) # errs, w))))"

definition deleteBatch :: "'w BatchDelete \<Rightarrow> DeleteObjectsInput \<Rightarrow> 'w BatchDeleteObject list \<Rightarrow> 'w \<Rightarrow> batch_Error list \<times> 'w" where
  "deleteBatch d input objects w =
     (case bd_DeleteObjects d input w of
        (res, w) \<Rightarrow> (case run_After objects w of (errs, w) \<Rightarrow> (result_errors input res @ errs, w)))"

text \<open>What the loop carries: the errors, the collected objects and the input they go into.\<close>

type_synonym 'w collected = "batch_Error list \<times> 'w BatchDeleteObject list \<times> DeleteObjectsInput option"

definition collect :: "'w BatchDelete \<Rightarrow> 'w BatchDeleteObject \<Rightarrow> 'w collected \<Rightarrow> 'w \<Rightarrow> 'w collected \<times> 'w" where
  "collect d ob st w = (case st of (errs, objects, input) \<Rightarrow>
     let input = (case input of None \<Rightarrow> initDeleteObjectsInput (bo_Object ob) | Some i \<Rightarrow> i);
         parity = hasParity input ob;
         input = (if parity then add_object (bo_Object ob) input else input);
         objects = (if parity then objects @ [ob] else objects)
     in if int (length (ds_Objects input)) = bd_BatchSize d \<or> \<not> parity then
          (case deleteBatch d input objects w of
             (err, w) \<Rightarrow>
               ((errs @ err, (if \<not> parity then [ob] else []),
                 (if \<not> parity then Some (add_object (bo_Object ob) (initDeleteObjectsInput (bo_Object ob))) else None)), w))
        else ((errs, objects, Some input), w))"

partial_function (option) delete_loop ::
    "('i, 'w) BatchDeleteIterator \<Rightarrow> 'w BatchDelete \<Rightarrow> 'i \<Rightarrow> 'w collected \<Rightarrow> 'w \<Rightarrow> ('w collected \<times> 'i \<times> 'w) option" where
  "delete_loop it d iter st w =
     (case bi_Next it iter w of
        None \<Rightarrow> None
      | Some (ok, iter, w) \<Rightarrow>
          if \<not> ok then Some (st, iter, w)
          else case bi_DeleteObject it iter of
                 None \<Rightarrow> None
               | Some ob \<Rightarrow> (case collect d ob st w of (st, w) \<Rightarrow> delete_loop it d iter st w))"

definition BatchDelete_Delete ::
    "('i, 'w) BatchDeleteIterator \<Rightarrow> 'w BatchDelete \<Rightarrow> 'i \<Rightarrow> 'w \<Rightarrow> (BatchError option \<times> 'i \<times> 'w) option" where
  "BatchDelete_Delete it d iter w =
     (case delete_loop it d iter ([], [], None) w of
        None \<Rightarrow> None
      | Some ((errs, objects, input), iter, w) \<Rightarrow>
          let errs = (case bi_Err it iter of None \<Rightarrow> errs | Some e \<Rightarrow> errs @ [newError e None None]);
              (errs, w) = (case input of
                  None \<Rightarrow> (errs, w)
                | Some i \<Rightarrow> if length (ds_Objects i) > 0
                    then (case deleteBatch d i objects w of (err, w) \<Rightarrow> (errs @ err, w)) else (errs, w))
          in Some (if length errs > 0 then Some (new_BatchError ''BatchedDeleteIncomplete'' ''some objects have failed to be deleted.'' errs)
                   else None, iter, w))"

section \<open>The batches\<close>

text \<open>Objects that can share a request, and the requests for a list of objects: as many of the next objects
  as can share one, up to \<open>n\<close>.\<close>

definition same_request :: "'w BatchDeleteObject \<Rightarrow> 'w BatchDeleteObject \<Rightarrow> bool" where
  "same_request a b \<longleftrightarrow> di_Bucket (bo_Object a) = di_Bucket (bo_Object b) \<and> di_MFA (bo_Object a) = di_MFA (bo_Object b) \<and>
     di_RequestPayer (bo_Object a) = di_RequestPayer (bo_Object b)"

definition first_batch :: "nat \<Rightarrow> 'w BatchDeleteObject list \<Rightarrow> 'w BatchDeleteObject list" where
  "first_batch n obs = (case obs of [] \<Rightarrow> [] | ob # rest \<Rightarrow> ob # take (n - 1) (takeWhile (same_request ob) rest))"

function batches :: "nat \<Rightarrow> 'w BatchDeleteObject list \<Rightarrow> 'w BatchDeleteObject list list" where
  "batches n [] = []"
| "batches n (ob # rest) = first_batch n (ob # rest) # batches n (drop (length (first_batch n (ob # rest))) (ob # rest))"
  by pat_completeness auto
termination by (relation "measure (\<lambda>(n, obs). length obs)") (auto simp: first_batch_def)

declare batches.simps(2) [simp del]

definition batch_input :: "'w BatchDeleteObject list \<Rightarrow> DeleteObjectsInput" where
  "batch_input b = (initDeleteObjectsInput (bo_Object (hd b)))\<lparr>ds_Objects := map (\<lambda>ob. (di_Key (bo_Object ob), di_VersionId (bo_Object ob))) b\<rparr>"

fun run_batches :: "'w BatchDelete \<Rightarrow> 'w BatchDeleteObject list list \<Rightarrow> 'w \<Rightarrow> batch_Error list \<times> 'w" where
  "run_batches d [] w = ([], w)"
| "run_batches d (b # bs) w =
     (case deleteBatch d (batch_input b) b w of (errs, w) \<Rightarrow> (case run_batches d bs w of (errs', w) \<Rightarrow> (errs @ errs', w)))"

lemma parity_same: "b \<noteq> [] \<Longrightarrow> hasParity (batch_input b) ob \<longleftrightarrow> same_request (hd b) ob"
  by (auto simp: hasParity_def same_pointee_def same_request_def batch_input_def initDeleteObjectsInput_def split: option.splits)

lemma batch_grows: "b \<noteq> [] \<Longrightarrow> add_object (bo_Object ob) (batch_input b) = batch_input (b @ [ob])"
  by (simp add: add_object_def batch_input_def)

lemma batch_starts: "add_object (bo_Object ob) (initDeleteObjectsInput (bo_Object ob)) = batch_input [ob]"
  by (simp add: add_object_def batch_input_def initDeleteObjectsInput_def)

lemma take_takeWhile_drop: "take k (takeWhile P xs) @ drop (length (take k (takeWhile P xs))) xs = xs"
proof (induction xs arbitrary: k)
  case (Cons x xs)
  then show ?case by (cases k) simp_all
qed simp

lemma first_batch_facts:
  "first_batch n obs @ drop (length (first_batch n obs)) obs = obs"
  "obs \<noteq> [] \<Longrightarrow> first_batch n obs \<noteq> []"
  "1 \<le> n \<Longrightarrow> length (first_batch n obs) \<le> n"
  "\<forall>ob \<in> set (first_batch n obs). same_request (hd (first_batch n obs)) ob"
proof -
  show "first_batch n obs @ drop (length (first_batch n obs)) obs = obs"
    by (cases obs) (simp_all add: first_batch_def take_takeWhile_drop [simplified])
qed (auto simp: first_batch_def same_request_def split: list.splits dest!: in_set_takeD set_takeWhileD)

lemma batches_partition:
  assumes "1 \<le> n"
  shows "concat (batches n obs) = obs \<and> (\<forall>b \<in> set (batches n obs). b \<noteq> [] \<and> length b \<le> n \<and> (\<forall>ob \<in> set b. same_request (hd b) ob))"
  using assms
proof (induction n obs rule: batches.induct)
  case (2 n ob rest)
  let ?f = "first_batch n (ob # rest)"
  have "concat (batches n (ob # rest)) = ?f @ drop (length ?f) (ob # rest)" using 2 by (simp add: batches.simps(2))
  with first_batch_facts(1) have "concat (batches n (ob # rest)) = ob # rest" by metis
  with 2 first_batch_facts(2-4) [where obs = "ob # rest" and n = n] show ?case
    by (simp add: batches.simps(2))
qed simp

section \<open>The loop makes these batches\<close>

text \<open>What the loop has collected, \<open>g\<close>, is the start of the next batch.\<close>

definition collected :: "batch_Error list \<Rightarrow> 'w BatchDeleteObject list \<Rightarrow> 'w collected" where
  "collected errs g = (errs, g, if g = [] then None else Some (batch_input g))"

definition growing :: "nat \<Rightarrow> 'w BatchDeleteObject list \<Rightarrow> bool" where
  "growing n g \<longleftrightarrow> length g < n \<and> (\<forall>ob \<in> set g. same_request (hd g) ob)"

definition finish :: "'w BatchDelete \<Rightarrow> 'w collected \<times> 'w \<Rightarrow> batch_Error list \<times> 'w" where
  "finish d stw = (case stw of ((errs, objects, input), w) \<Rightarrow>
     (case input of
        None \<Rightarrow> (errs, w)
      | Some i \<Rightarrow> if length (ds_Objects i) > 0
          then (case deleteBatch d i objects w of (err, w) \<Rightarrow> (errs @ err, w)) else (errs, w)))"

fun collect_all :: "'w BatchDelete \<Rightarrow> 'w BatchDeleteObject list \<Rightarrow> 'w collected \<Rightarrow> 'w \<Rightarrow> 'w collected \<times> 'w" where
  "collect_all d [] st w = (st, w)"
| "collect_all d (ob # obs) st w = (case collect d ob st w of (st, w) \<Rightarrow> collect_all d obs st w)"

lemma batch_objects [simp]: "length (ds_Objects (batch_input b)) = length b" "ds_Objects (batch_input b) = [] \<longleftrightarrow> b = []"
  by (simp_all add: batch_input_def)

lemma run_append_errors: "run_batches d (b # bs) w = (case deleteBatch d (batch_input b) b w of (errs, w) \<Rightarrow> map_prod ((@) errs) id (run_batches d bs w))"
  by (simp add: split_def map_prod_def)

lemma same_request_sym: "same_request a b = same_request b a" "same_request a b \<Longrightarrow> same_request b c \<Longrightarrow> same_request a c"
  by (auto simp: same_request_def)

lemma first_batch_grown:
  assumes "growing n g" and "g \<noteq> []"
  shows "first_batch n (g @ obs) = g @ take (n - length g) (takeWhile (same_request (hd g)) obs)"
proof -
  obtain x xs where g: "g = x # xs" using assms(2) by (cases g) auto
  have "takeWhile (same_request x) (xs @ obs) = xs @ takeWhile (same_request x) obs"
    using assms(1) g by (simp add: growing_def)
  then show ?thesis using assms(1) by (auto simp: first_batch_def g growing_def)
qed

lemma loop_batches:
  assumes "1 \<le> n" and "bd_BatchSize d = int n" and "growing n g"
  shows "finish d (collect_all d obs (collected errs g) w) = map_prod ((@) errs) id (run_batches d (batches n (g @ obs)) w)"
  using assms(3)
proof (induction obs arbitrary: errs g w)
  case Nil
  show ?case
  proof (cases "g = []")
    case False
    then obtain x xs where g: "g = x # xs" by (cases g) auto
    have "first_batch n g = g" using first_batch_grown [OF Nil False, of "[]"] by simp
    then have "batches n g = [g]" by (simp add: g batches.simps(2))
    with False show ?thesis by (simp add: finish_def collected_def split_def map_prod_def)
  qed (simp add: finish_def collected_def)
next
  case (Cons ob obs)
  have none: "growing n []" using assms(1) by (simp add: growing_def)
  have one: "growing n [ob]" if "n \<noteq> 1" using assms(1) that by (simp add: growing_def same_request_def)
  show ?case
  proof (cases "g = []")
    case True
    have p: "hasParity (initDeleteObjectsInput (bo_Object ob)) ob"
      by (simp add: hasParity_def initDeleteObjectsInput_def same_pointee_def split: option.splits)
    show ?thesis
    proof (cases "n = 1")
      case n1: True
      then have "collect d ob (collected errs g) w = (case deleteBatch d (batch_input [ob]) [ob] w of (err, w) \<Rightarrow> (collected (errs @ err) [], w))"
        using assms(2) p by (simp add: collect_def collected_def True Let_def batch_starts split_def)
      moreover have "batches n (ob # obs) = [ob] # batches n obs" using n1 by (simp add: batches.simps(2) first_batch_def)
      ultimately show ?thesis using True by (simp add: Cons.IH [OF none] split_def map_prod_def run_append_errors)
    next
      case False
      then have "collect d ob (collected errs g) w = (collected errs [ob], w)"
        using assms(1,2) p by (simp add: collect_def collected_def True Let_def batch_starts)
      then show ?thesis using Cons.IH [OF one [OF False]] True by simp
    qed
  next
    case False
    then obtain x xs where g: "g = x # xs" by (cases g) auto
    show ?thesis
    proof (cases "same_request (hd g) ob")
      case same: True
      have grown: "\<forall>y \<in> set (g @ [ob]). same_request (hd (g @ [ob])) y" using Cons.prems same False by (simp add: growing_def)
      show ?thesis
      proof (cases "Suc (length g) = n")
        case True
        have "collect d ob (collected errs g) w = (case deleteBatch d (batch_input (g @ [ob])) (g @ [ob]) w of (err, w) \<Rightarrow> (collected (errs @ err) [], w))"
          using assms(2) True False same by (simp add: collect_def collected_def Let_def parity_same batch_grows split_def)
        moreover have "n - length g = Suc 0" using True by linarith
        then have "first_batch n (g @ ob # obs) = g @ [ob]"
          using first_batch_grown [OF Cons.prems False, of "ob # obs"] same by simp
        then have "batches n (g @ ob # obs) = (g @ [ob]) # batches n obs" by (simp add: g batches.simps(2))
        ultimately show ?thesis by (simp add: Cons.IH [OF none] split_def map_prod_def run_append_errors)
      next
        case more: False
        then have "collect d ob (collected errs g) w = (collected errs (g @ [ob]), w)"
          using assms(2) False same by (simp add: collect_def collected_def Let_def parity_same batch_grows)
        moreover have "growing n (g @ [ob])" using more Cons.prems grown by (simp add: growing_def)
        ultimately show ?thesis using Cons.IH [of "g @ [ob]" errs w] by simp
      qed
    next
      case other: False
      have "collect d ob (collected errs g) w = (case deleteBatch d (batch_input g) g w of (err, w) \<Rightarrow> (collected (errs @ err) [ob], w))"
        using False other by (simp add: collect_def collected_def Let_def parity_same batch_starts split_def)
      moreover have "first_batch n (g @ ob # obs) = g" using first_batch_grown [OF Cons.prems False, of "ob # obs"] other by simp
      then have "batches n (g @ ob # obs) = g # batches n (ob # obs)" by (simp add: g batches.simps(2))
      moreover have "n \<noteq> 1" using Cons.prems False by (auto simp: growing_def)
      ultimately show ?thesis using Cons.IH [OF one] by (simp add: split_def map_prod_def run_append_errors)
    qed
  qed
qed

section \<open>The iterators\<close>

text \<open>The contract of an iterator over a known list of objects: what is \<open>left\<close> of it.\<close>

locale object_source =
  fixes it :: "('i, 'w) BatchDeleteIterator" and left :: "'i \<Rightarrow> 'w BatchDeleteObject list"
  assumes next_object: "left i = ob # obs \<Longrightarrow> \<exists>i'. bi_Next it i w = Some (True, i', w) \<and> bi_DeleteObject it i' = Some ob \<and> left i' = obs"
    and next_none: "left i = [] \<Longrightarrow> \<exists>i'. bi_Next it i w = Some (False, i', w) \<and> bi_Err it i' = None"
begin

lemma loop_collects:
  "\<exists>i'. delete_loop it d i st w = Some (fst (collect_all d (left i) st w), i', snd (collect_all d (left i) st w)) \<and> bi_Err it i' = None"
proof (induction "left i" arbitrary: i st w)
  case Nil
  then obtain i' where "bi_Next it i w = Some (False, i', w)" "bi_Err it i' = None" using next_none [of i w] by metis
  then show ?case by (subst delete_loop.simps) (simp add: Nil [symmetric])
next
  case (Cons ob obs)
  then obtain i' where n: "bi_Next it i w = Some (True, i', w)" "bi_DeleteObject it i' = Some ob" "left i' = obs"
    using next_object [of i ob obs w] by metis
  obtain st' w' where c: "collect d ob st w = (st', w')" by fastforce
  have "delete_loop it d i st w = delete_loop it d i' st' w'" by (subst delete_loop.simps) (simp add: n c)
  moreover have "collect_all d (left i) st w = collect_all d (left i') st' w'" by (simp add: Cons(2) [symmetric] n(3) c)
  ultimately show ?case using Cons(1) [OF n(3) [symmetric], of st' w'] by simp
qed

theorem Delete_batches:
  assumes "1 \<le> bd_BatchSize d"
  shows "\<exists>i'. BatchDelete_Delete it d i w = Some
    (case run_batches d (batches (nat (bd_BatchSize d)) (left i)) w of (errs, w) \<Rightarrow>
       (if errs = [] then None else Some (new_BatchError ''BatchedDeleteIncomplete'' ''some objects have failed to be deleted.'' errs), i', w))"
proof -
  let ?c = "collect_all d (left i) ([], [], None) w"
  obtain errs objects input w' where c: "?c = ((errs, objects, input), w')" by (metis prod.exhaust)
  obtain i' where l: "delete_loop it d i ([], [], None) w = Some ((errs, objects, input), i', w')" and e: "bi_Err it i' = None"
    using loop_collects [of d i "([], [], None)" w] c by auto
  have "growing (nat (bd_BatchSize d)) []" using assms by (simp add: growing_def)
  from loop_batches [OF _ _ this, of d "left i" "[]" w] assms
  have "finish d ?c = run_batches d (batches (nat (bd_BatchSize d)) (left i)) w"
    by (simp add: collected_def prod.map_id map_prod_def)
  then have "finish d ((errs, objects, input), w') = run_batches d (batches (nat (bd_BatchSize d)) (left i)) w" by (simp add: c)
  then show ?thesis
    by (intro exI [of _ i']) (auto simp: BatchDelete_Delete_def l e finish_def Let_def split: option.splits prod.splits)
qed

end

definition objects_left :: "'w DeleteObjectsIterator \<Rightarrow> 'w BatchDeleteObject list" where
  "objects_left i = drop (if oi_inc i then Suc (oi_index i) else oi_index i) (oi_Objects i)"

interpretation objects: object_source objects_iterator objects_left
proof
  fix i :: "'w DeleteObjectsIterator" and ob obs and w :: 'w
  assume l: "objects_left i = ob # obs"
  let ?n = "if oi_inc i then Suc (oi_index i) else oi_index i"
  have "?n < length (oi_Objects i)" "oi_Objects i ! ?n = ob" "drop (Suc ?n) (oi_Objects i) = obs"
    using l unfolding objects_left_def
    by (metis drop_eq_Nil2 linorder_not_less list.distinct(1), metis hd_drop_conv_nth drop_eq_Nil2 linorder_not_less list.distinct(1) list.sel(1),
        metis drop_Suc drop_tl list.sel(3))
  then show "\<exists>i'. bi_Next objects_iterator i w = Some (True, i', w) \<and> bi_DeleteObject objects_iterator i' = Some ob \<and> objects_left i' = obs"
    by (auto simp: objects_iterator_def objects_Next_def objects_DeleteObject_def objects_left_def Let_def)
next
  fix i :: "'w DeleteObjectsIterator" and w :: 'w
  assume "objects_left i = []"
  then show "\<exists>i'. bi_Next objects_iterator i w = Some (False, i', w) \<and> bi_Err objects_iterator i' = None"
    by (auto simp: objects_iterator_def objects_Next_def objects_left_def Let_def)
qed

text \<open>The iterator over a listing ends at the first page without objects, and \<open>Delete\<close> reports success.\<close>

lemma list_stops:
  assumes "Next cl (newPagination False) w = Some (True, p, w')" and "pn_curPage p = Some []"
  shows "BatchDelete_Delete (list_iterator cl) d (NewDeleteListIterator b) w = Some (None, \<lparr>li_Bucket = b, li_Paginator = p, li_objects = []\<rparr>, w')"
proof -
  have "pn_err p = None"
    using assms(1) by (auto simp: Next_def newPagination_def Let_def split: option.splits prod.splits sum.splits if_splits)
  moreover have "bi_Next (list_iterator cl) (NewDeleteListIterator b) w = Some (False, \<lparr>li_Bucket = b, li_Paginator = p, li_objects = []\<rparr>, w')"
    using assms by (simp add: list_iterator_def list_Next_def NewDeleteListIterator_def Let_def)
  ultimately show ?thesis
    by (simp add: BatchDelete_Delete_def delete_loop.simps) (simp add: list_iterator_def list_Err_def)
qed

end
