(* ===== verification/S3Cipher.thy ===== *)
theory S3Cipher
  imports AwsErrors
begin

text \<open>
  The content ciphers of the encryption client, \<open>service/s3/s3crypto\<close>: \<open>pkcs7_padder.go\<close>,
  \<open>aes_cbc_padder.go\<close>, \<open>padder.go\<close>, the streaming readers of \<open>aes_cbc.go\<close> and the buffering ones of
  \<open>aes_gcm.go\<close>.

  A call of \<open>Read\<close> gets the caller's buffer and returns it with what it holds then, with the number of
  bytes that are said to be read and the error; \<open>None\<close> is a panic of \<open>CryptBlocks\<close>. The source of a
  reader is the bytes still to come and the sizes of the next reads, as a network connection might
  deliver them. The block cipher and the authenticated cipher are parameters.
\<close>

section \<open>Padding\<close>

definition pkcs7MaxPaddingSize :: nat where
  "pkcs7MaxPaddingSize = 255"

definition errPKCS7Padding :: goerror where
  "errPKCS7Padding = awserr_New ''InvalidPadding'' ''invalid padding'' None"

definition pkcs7_Pad :: "int \<Rightarrow> byte list \<Rightarrow> nat \<Rightarrow> goerror + byte list" where
  "pkcs7_Pad blockSize buf n =
     (if blockSize < 1 \<or> blockSize > int pkcs7MaxPaddingSize
      then Inl (awserr_New ''InvalidBlockSize'' ''block size must be between 1 and 255'' None)
      else let size' = nat blockSize - n mod nat blockSize in Inr (buf @ replicate size' (word_of_nat size')))"

text \<open>\<open>crypto/subtle\<close>: the comparisons give 1 or 0.\<close>

definition ConstantTimeLessOrEq :: "int \<Rightarrow> int \<Rightarrow> int" where
  "ConstantTimeLessOrEq x y = (if x \<le> y then 1 else 0)"

definition ConstantTimeByteEq :: "byte \<Rightarrow> byte \<Rightarrow> int" where
  "ConstantTimeByteEq x y = (if x = y then 1 else 0)"

definition ConstantTimeSelect :: "int \<Rightarrow> int \<Rightarrow> int \<Rightarrow> int" where
  "ConstantTimeSelect v x y = (if v = 1 then x else y)"

definition check_byte :: "byte list \<Rightarrow> byte \<Rightarrow> nat \<Rightarrow> int \<Rightarrow> int" where
  "check_byte buf padLen i good =
     (let b = buf ! (length buf - 1 - i);
          outOfRange = ConstantTimeLessOrEq (int (unat padLen)) (int i);
          equal = ConstantTimeByteEq padLen b
      in good AND ConstantTimeSelect outOfRange 1 equal)"

definition pkcs7_Unpad :: "byte list \<Rightarrow> goerror + byte list" where
  "pkcs7_Unpad buf =
     (if length buf = 0 then Inl errPKCS7Padding
      else
        let padLen = buf ! (length buf - 1);
            toCheck = (if pkcs7MaxPaddingSize > length buf then length buf else pkcs7MaxPaddingSize);
            good = fold (check_byte buf padLen) [0..<toCheck] 1;
            good = good AND ConstantTimeLessOrEq 1 (int (unat padLen));
            good = good AND ConstantTimeLessOrEq (int (unat padLen)) (int (length buf))
        in if good \<noteq> 1 then Inl errPKCS7Padding else Inr (take (length buf - unat padLen) buf))"

text \<open>A \<open>Padder\<close>: the interface, \<open>AESCBCPadder\<close> and \<open>NoPadder\<close>.\<close>

record Padder =
  pa_Pad :: "byte list \<Rightarrow> nat \<Rightarrow> goerror + byte list"
  pa_Unpad :: "byte list \<Rightarrow> goerror + byte list"
  pa_Name :: string

definition NewPKCS7Padder :: "int \<Rightarrow> Padder" where
  "NewPKCS7Padder blockSize = \<lparr>pa_Pad = pkcs7_Pad blockSize, pa_Unpad = pkcs7_Unpad, pa_Name = ''PKCS7Padding''\<rparr>"

definition AESCBCPadder :: Padder where
  "AESCBCPadder = \<lparr>pa_Pad = pkcs7_Pad 16, pa_Unpad = pkcs7_Unpad, pa_Name = ''PKCS5Padding''\<rparr>"

definition NoPadder :: Padder where
  "NoPadder = \<lparr>pa_Pad = (\<lambda>b n. Inr b), pa_Unpad = (\<lambda>b. Inr b), pa_Name = ''NoPadding''\<rparr>"

section \<open>Sources\<close>

datatype read_err = AtEOF | ReadFails goerror

record source =
  so_bytes :: "byte list"
  so_sizes :: "nat list"
  so_end :: "goerror option"

definition source_Read :: "byte list \<Rightarrow> source \<Rightarrow> byte list \<times> nat \<times> read_err option \<times> source" where
  "source_Read data s =
     (if so_bytes s = [] then
        (data, 0, Some (case so_end s of None \<Rightarrow> AtEOF | Some e \<Rightarrow> ReadFails e), s)
      else
        let n = min (length data) (min (length (so_bytes s)) (case so_sizes s of [] \<Rightarrow> length data | k # _ \<Rightarrow> k))
        in (take n (so_bytes s) @ drop n data, n, None, s\<lparr>so_bytes := drop n (so_bytes s), so_sizes := tl (so_sizes s)\<rparr>))"

section \<open>Cipher block chaining\<close>

text \<open>
  \<open>cipher.BlockMode\<close> of \<open>crypto/cipher\<close>: a function on blocks and the block that the next one is
  combined with. \<open>CryptBlocks\<close> wants full blocks and room for them.
\<close>

record BlockMode =
  bm_crypt :: "byte list \<Rightarrow> byte list"
  bm_iv :: "byte list"
  bm_size :: nat

definition xor_bytes :: "byte list \<Rightarrow> byte list \<Rightarrow> byte list" where
  "xor_bytes a b = map (\<lambda>(x, y). x XOR y) (zip a b)"

fun cbc_blocks :: "(byte list \<Rightarrow> byte list \<Rightarrow> byte list \<times> byte list) \<Rightarrow> nat \<Rightarrow> nat \<Rightarrow> byte list \<Rightarrow> byte list \<Rightarrow> byte list \<times> byte list" where
  "cbc_blocks step bs 0 iv src = ([], iv)"
| "cbc_blocks step bs (Suc n) iv src =
     (case step iv (take bs src) of
        (block, iv) \<Rightarrow> (case cbc_blocks step bs n iv (drop bs src) of (rest, iv) \<Rightarrow> (block @ rest, iv)))"

definition encrypt_block :: "(byte list \<Rightarrow> byte list) \<Rightarrow> byte list \<Rightarrow> byte list \<Rightarrow> byte list \<times> byte list" where
  "encrypt_block enc iv p = (let c = enc (xor_bytes p iv) in (c, c))"

definition decrypt_block :: "(byte list \<Rightarrow> byte list) \<Rightarrow> byte list \<Rightarrow> byte list \<Rightarrow> byte list \<times> byte list" where
  "decrypt_block dec iv c = (xor_bytes (dec c) iv, c)"

definition CryptBlocks :: "((byte list \<Rightarrow> byte list) \<Rightarrow> byte list \<Rightarrow> byte list \<Rightarrow> byte list \<times> byte list) \<Rightarrow> BlockMode \<Rightarrow>
    byte list \<Rightarrow> byte list \<Rightarrow> (byte list \<times> BlockMode) option" where
  "CryptBlocks step bm dst src =
     (if length src mod bm_size bm \<noteq> 0 \<or> length dst < length src then None
      else case cbc_blocks (step (bm_crypt bm)) (bm_size bm) (length src div bm_size bm) (bm_iv bm) src of
             (out, iv) \<Rightarrow> Some (out @ drop (length src) dst, bm\<lparr>bm_iv := iv\<rparr>))"

definition getSliceSize :: "nat \<Rightarrow> nat \<Rightarrow> nat \<Rightarrow> nat" where
  "getSliceSize blockSize bufSize dataSize =
     (let size' = (if bufSize > dataSize then int dataSize else int bufSize);
          size' = size' - size' mod int blockSize - int blockSize
      in if size' \<le> 0 then blockSize else nat size')"

text \<open>The readers, with \<open>size\<close> used by the one that encrypts only.\<close>

record cbc_reader =
  cb_mode :: BlockMode
  cb_src :: source
  cb_padder :: Padder
  cb_size :: nat
  cb_buf :: "byte list"

type_synonym 'r read_result = "(byte list \<times> nat \<times> read_err option \<times> 'r) option"

text \<open>\<open>reader.buf.Read(b)\<close> for a fresh \<open>b\<close> of size \<open>k\<close>: \<open>b\<close> is zero where nothing is read.\<close>

definition buf_read :: "nat \<Rightarrow> byte list \<Rightarrow> byte list \<times> nat \<times> byte list" where
  "buf_read k buf = (take k buf @ replicate (k - length buf) 0, min k (length buf), drop k buf)"

text \<open>At the end of the source: some of the buffered bytes, and with the last of them the padding.\<close>

definition cbc_encrypt_end :: "byte list \<Rightarrow> cbc_reader \<Rightarrow> cbc_reader read_result" where
  "cbc_encrypt_end data r =
     (case buf_read (getSliceSize (bm_size (cb_mode r)) (length (cb_buf r)) (length data)) (cb_buf r) of (b, n, rest) \<Rightarrow>
        let r = r\<lparr>cb_buf := rest\<rparr>;
            padded = (if rest = [] then map_sum id Some (pa_Pad (cb_padder r) (take n b) (cb_size r)) else Inr None)
        in case padded of
             Inl e \<Rightarrow> Some (data, n, Some (ReadFails e), r)
           | Inr bo \<Rightarrow>
               let b = (case bo of Some b' \<Rightarrow> b' | None \<Rightarrow> b);
                   n = (case bo of Some b' \<Rightarrow> length b' | None \<Rightarrow> n);
                   err = (case bo of Some _ \<Rightarrow> Some AtEOF | None \<Rightarrow> None)
               in if n > 0 then
                    (case CryptBlocks encrypt_block (cb_mode r) data b of
                       None \<Rightarrow> None
                     | Some (data, bm) \<Rightarrow> Some (data, n, err, r\<lparr>cb_mode := bm\<rparr>))
                  else Some (data, n, err, r))"

text \<open>After \<open>n\<close> bytes were read without error.\<close>

definition cbc_encrypt_more :: "byte list \<Rightarrow> nat \<Rightarrow> cbc_reader \<Rightarrow> cbc_reader read_result" where
  "cbc_encrypt_more data n r =
     (let blockSize = bm_size (cb_mode r); size' = length (cb_buf r) in
      if size' \<ge> blockSize then
        let nBlocks = (if size' > length data then length data div blockSize else size' div blockSize)
        in if nBlocks > 0 then
             (case buf_read (nBlocks * blockSize) (cb_buf r) of (b, n, rest) \<Rightarrow>
                (case CryptBlocks encrypt_block (cb_mode r) data (take n b) of
                   None \<Rightarrow> None
                 | Some (data, bm) \<Rightarrow> Some (data, n, None, r\<lparr>cb_buf := rest, cb_mode := bm\<rparr>)))
           else Some (data, n, None, r)
      else Some (data, 0, None, r))"

definition cbc_encrypt_Read :: "byte list \<Rightarrow> cbc_reader \<Rightarrow> cbc_reader read_result" where
  "cbc_encrypt_Read data r =
     (case source_Read data (cb_src r) of (data, n, err, src) \<Rightarrow>
        let r = r\<lparr>cb_src := src, cb_size := cb_size r + n, cb_buf := cb_buf r @ take n data\<rparr>
        in case err of
             Some AtEOF \<Rightarrow> cbc_encrypt_end data r
           | Some (ReadFails e) \<Rightarrow> Some (data, n, Some (ReadFails e), r)
           | None \<Rightarrow> cbc_encrypt_more data n r)"

definition cbc_decrypt_end :: "byte list \<Rightarrow> cbc_reader \<Rightarrow> cbc_reader read_result" where
  "cbc_decrypt_end data r =
     (case buf_read (getSliceSize (bm_size (cb_mode r)) (length (cb_buf r)) (length data)) (cb_buf r) of (b, n, rest) \<Rightarrow>
        let r = r\<lparr>cb_buf := rest\<rparr> in
        case (if n > 0 then CryptBlocks decrypt_block (cb_mode r) data b else Some (data, cb_mode r)) of
          None \<Rightarrow> None
        | Some (data, bm) \<Rightarrow>
            let r = r\<lparr>cb_mode := bm\<rparr> in
            if rest = [] then
              (case pa_Unpad (cb_padder r) (take n data) of
                 Inl e \<Rightarrow> Some (data, 0, Some (ReadFails e), r)
               | Inr b \<Rightarrow> Some (data, length b, Some AtEOF, r))
            else Some (data, n, None, r))"

definition cbc_decrypt_more :: "byte list \<Rightarrow> nat \<Rightarrow> cbc_reader \<Rightarrow> cbc_reader read_result" where
  "cbc_decrypt_more data n r =
     (let blockSize = bm_size (cb_mode r); size' = length (cb_buf r) in
      if size' \<ge> blockSize then
        let nBlocks = int (if size' > length data then length data div blockSize else size' div blockSize) - int blockSize
        in if nBlocks > 0 then
             (case buf_read (nat nBlocks * blockSize) (cb_buf r) of (b, n, rest) \<Rightarrow>
                (case CryptBlocks decrypt_block (cb_mode r) data (take n b) of
                   None \<Rightarrow> None
                 | Some (data, bm) \<Rightarrow> Some (data, n, None, r\<lparr>cb_buf := rest, cb_mode := bm\<rparr>)))
           else Some (data, 0, None, r)
      else Some (data, n, None, r))"

definition cbc_decrypt_Read :: "byte list \<Rightarrow> cbc_reader \<Rightarrow> cbc_reader read_result" where
  "cbc_decrypt_Read data r =
     (case source_Read data (cb_src r) of (data, n, err, src) \<Rightarrow>
        let r = r\<lparr>cb_src := src, cb_buf := cb_buf r @ take n data\<rparr>
        in case err of
             Some AtEOF \<Rightarrow> cbc_decrypt_end data r
           | Some (ReadFails e) \<Rightarrow> Some (data, n, Some (ReadFails e), r)
           | None \<Rightarrow> cbc_decrypt_more data n r)"

text \<open>\<open>io.Copy\<close> and \<open>ioutil.ReadAll\<close> from such a reader through a buffer: what is read, and the error
  other than the end.\<close>

partial_function (option) read_all :: "(byte list \<Rightarrow> 'r \<Rightarrow> 'r read_result) \<Rightarrow> byte list \<Rightarrow> 'r \<Rightarrow> (byte list \<times> goerror option) option" where
  "read_all rd data r =
     (case rd data r of
        None \<Rightarrow> None
      | Some (data, n, err, r) \<Rightarrow>
          (case err of
             None \<Rightarrow> Option.bind (read_all rd data r) (\<lambda>(bs, e). Some (take n data @ bs, e))
           | Some err \<Rightarrow> Some (take n data, (case err of AtEOF \<Rightarrow> None | ReadFails e \<Rightarrow> Some e))))"

section \<open>Authenticated encryption\<close>

text \<open>\<open>cipher.AEAD\<close>: \<open>Seal\<close> and \<open>Open\<close> by nonce. The one of \<open>cipher.NewGCM\<close> panics for a nonce that is not
  12 bytes.\<close>

definition gcmStandardNonceSize :: nat where
  "gcmStandardNonceSize = 12"

record AEAD =
  ae_Seal :: "byte list \<Rightarrow> byte list \<Rightarrow> byte list"
  ae_Open :: "byte list \<Rightarrow> byte list \<Rightarrow> goerror + byte list"

record gcm_reader =
  gr_aead :: AEAD
  gr_nonce :: "byte list"
  gr_src :: source
  gr_buf :: "byte list option"

text \<open>\<open>ioutil.ReadAll\<close> of a source; \<open>bytes.Buffer.Read\<close>.\<close>

definition source_ReadAll :: "source \<Rightarrow> goerror + byte list" where
  "source_ReadAll s = (case so_end s of None \<Rightarrow> Inr (so_bytes s) | Some e \<Rightarrow> Inl e)"

definition buffer_Read :: "byte list \<Rightarrow> byte list \<Rightarrow> byte list \<times> nat \<times> read_err option \<times> byte list" where
  "buffer_Read data buf =
     (if buf = [] \<and> data \<noteq> [] then (data, 0, Some AtEOF, buf)
      else let n = min (length data) (length buf) in (take n buf @ drop n data, n, None, drop n buf))"

definition gcm_Read :: "(AEAD \<Rightarrow> byte list \<Rightarrow> byte list \<Rightarrow> goerror + byte list) \<Rightarrow> byte list \<Rightarrow> gcm_reader \<Rightarrow> gcm_reader read_result" where
  "gcm_Read crypt data r =
     (let opened = (case gr_buf r of
          Some buf \<Rightarrow> Some (Inr buf)
        | None \<Rightarrow> (case source_ReadAll (gr_src r) of
            Inl e \<Rightarrow> Some (Inl e)
          | Inr b \<Rightarrow> if length (gr_nonce r) \<noteq> gcmStandardNonceSize then None else Some (crypt (gr_aead r) (gr_nonce r) b)))
      in case opened of
           None \<Rightarrow> None
         | Some (Inl e) \<Rightarrow> Some (data, 0, Some (ReadFails e), r)
         | Some (Inr buf) \<Rightarrow> (case buffer_Read data buf of (data, n, err, rest) \<Rightarrow> Some (data, n, err, r\<lparr>gr_buf := Some rest\<rparr>)))"

definition gcm_encrypt_Read :: "byte list \<Rightarrow> gcm_reader \<Rightarrow> gcm_reader read_result" where
  "gcm_encrypt_Read = gcm_Read (\<lambda>a nonce b. Inr (ae_Seal a nonce b))"

definition gcm_decrypt_Read :: "byte list \<Rightarrow> gcm_reader \<Rightarrow> gcm_reader read_result" where
  "gcm_decrypt_Read = gcm_Read ae_Open"

section \<open>Ciphers\<close>

text \<open>\<open>aes.NewCipher\<close>, \<open>cipher.NewGCM\<close>: \<open>None\<close> for a key that is not 16, 24 or 32 bytes.\<close>

record crypto =
  cy_encrypt :: "byte list \<Rightarrow> byte list \<Rightarrow> byte list"
  cy_decrypt :: "byte list \<Rightarrow> byte list \<Rightarrow> byte list"
  cy_aead :: "byte list \<Rightarrow> AEAD"

definition aes_NewCipher :: "byte list \<Rightarrow> goerror option" where
  "aes_NewCipher key = (if length key \<in> {16, 24, 32} then None else Some (PlainError ''crypto/aes: invalid key size''))"

definition cbc_Encrypt :: "crypto \<Rightarrow> byte list \<Rightarrow> byte list \<Rightarrow> Padder \<Rightarrow> source \<Rightarrow> cbc_reader" where
  "cbc_Encrypt cy key iv padder src = \<lparr>cb_mode = \<lparr>bm_crypt = cy_encrypt cy key, bm_iv = iv, bm_size = 16\<rparr>, cb_src = src,
     cb_padder = padder, cb_size = 0, cb_buf = []\<rparr>"

definition cbc_Decrypt :: "crypto \<Rightarrow> byte list \<Rightarrow> byte list \<Rightarrow> Padder \<Rightarrow> source \<Rightarrow> cbc_reader" where
  "cbc_Decrypt cy key iv padder src = \<lparr>cb_mode = \<lparr>bm_crypt = cy_decrypt cy key, bm_iv = iv, bm_size = 16\<rparr>, cb_src = src,
     cb_padder = padder, cb_size = 0, cb_buf = []\<rparr>"

definition gcm_open_reader :: "crypto \<Rightarrow> byte list \<Rightarrow> byte list \<Rightarrow> source \<Rightarrow> gcm_reader" where
  "gcm_open_reader cy key iv src = \<lparr>gr_aead = cy_aead cy key, gr_nonce = iv, gr_src = src, gr_buf = None\<rparr>"

end
