(* ===== verification/S3Crypto.thy ===== *)
theory S3Crypto
  imports S3Cipher GoHttp
begin

text \<open>
  The encryption and decryption clients, \<open>service/s3/s3crypto\<close>: what an object is encrypted with
  (\<open>CipherData\<close>), how its key is made and recovered (\<open>kms_key_handler.go\<close>,
  \<open>kms_context_key_handler.go\<close>), where that is kept (\<open>envelope.go\<close>, \<open>strategy.go\<close>), which algorithms
  a client takes (\<open>crypto_registry.go\<close>), and the handlers the clients put into a request
  (\<open>shared_client.go\<close>).

  An interface with one method is a function; \<open>'w\<close> is the world that KMS, the random numbers and the
  service change. \<open>None\<close> as the result of a function is a panic. The key service, JSON, the block
  ciphers and the storage are parameters.
\<close>

section \<open>Cipher data\<close>

type_synonym MaterialDescription = "string \<rightharpoonup> string option"

record CipherData =
  cd_Key :: "byte list"
  cd_IV :: "byte list"
  cd_WrapAlgorithm :: string
  cd_CEKAlgorithm :: string
  cd_TagLength :: string
  cd_MaterialDescription :: MaterialDescription
  cd_EncryptedKey :: "byte list"
  cd_Padder :: "Padder option"

definition zero_CipherData :: CipherData where
  "zero_CipherData = \<lparr>cd_Key = [], cd_IV = [], cd_WrapAlgorithm = [], cd_CEKAlgorithm = [], cd_TagLength = [],
     cd_MaterialDescription = Map.empty, cd_EncryptedKey = [], cd_Padder = None\<rparr>"

record Envelope =
  en_IV :: string
  en_CipherKey :: string
  en_MatDesc :: string
  en_WrapAlg :: string
  en_CEKAlg :: string
  en_TagLen :: string
  en_UnencryptedMD5 :: string
  en_UnencryptedContentLen :: string

definition zero_Envelope :: Envelope where
  "zero_Envelope = \<lparr>en_IV = [], en_CipherKey = [], en_MatDesc = [], en_WrapAlg = [], en_CEKAlg = [], en_TagLen = [],
     en_UnencryptedMD5 = [], en_UnencryptedContentLen = []\<rparr>"

text \<open>
  What is not under \<open>src\<close>, or generated: AES, \<open>crypto/rand\<close>, \<open>crypto/sha256\<close>, \<open>encoding/json\<close>
  (\<open>ce_json_lax\<close> reads an envelope with the two numbers left raw, \<open>ce_json_string\<close> and
  \<open>ce_json_int64\<close> one value), and the client of the key service.
\<close>

record 'w crypto_env =
  ce_crypto :: crypto
  ce_rand :: "nat \<Rightarrow> 'w \<Rightarrow> (goerror + byte list) \<times> 'w"
  ce_sha256 :: "byte list \<Rightarrow> byte list"
  ce_json_encode :: "MaterialDescription \<Rightarrow> goerror + string"
  ce_json_decode :: "string \<Rightarrow> goerror + MaterialDescription option"
  ce_json_envelope :: "Envelope \<Rightarrow> goerror + byte list"
  ce_json_lax :: "byte list \<Rightarrow> goerror + (Envelope \<times> byte list \<times> byte list)"
  ce_json_string :: "byte list \<Rightarrow> goerror + string option"
  ce_json_int64 :: "byte list \<Rightarrow> goerror + int"

record 'w kms_client =
  km_GenerateDataKey :: "MaterialDescription \<Rightarrow> string option \<Rightarrow> string \<Rightarrow> 'w \<Rightarrow> (goerror + byte list \<times> byte list) \<times> 'w"
  km_Decrypt :: "string option \<Rightarrow> MaterialDescription \<Rightarrow> byte list \<Rightarrow> 'w \<Rightarrow> (goerror + byte list) \<times> 'w"

definition generateBytes :: "'w crypto_env \<Rightarrow> nat \<Rightarrow> 'w \<Rightarrow> (goerror + byte list) \<times> 'w" where
  "generateBytes env n w = ce_rand env n w"

text \<open>\<open>json.Unmarshal(b, &md)\<close> into a map that is there: \<open>null\<close> leaves it as it is.\<close>

definition decodeDescription :: "'w crypto_env \<Rightarrow> string \<Rightarrow> MaterialDescription \<Rightarrow> goerror + MaterialDescription" where
  "decodeDescription env b md = (case ce_json_decode env b of
     Inl e \<Rightarrow> Inl e | Inr None \<Rightarrow> Inr md | Inr (Some m) \<Rightarrow> Inr (md ++ m))"

section \<open>Envelopes\<close>

definition metaHeader :: string where "metaHeader = ''x-amz-meta''"
definition keyV1Header :: string where "keyV1Header = ''x-amz-key''"
definition keyV2Header :: string where "keyV2Header = keyV1Header @ ''-v2''"
definition ivHeader :: string where "ivHeader = ''x-amz-iv''"
definition matDescHeader :: string where "matDescHeader = ''x-amz-matdesc''"
definition cekAlgorithmHeader :: string where "cekAlgorithmHeader = ''x-amz-cek-alg''"
definition wrapAlgorithmHeader :: string where "wrapAlgorithmHeader = ''x-amz-wrap-alg''"
definition tagLengthHeader :: string where "tagLengthHeader = ''x-amz-tag-len''"
definition unencryptedContentLengthHeader :: string where "unencryptedContentLengthHeader = ''x-amz-unencrypted-content-length''"
definition DefaultInstructionKeySuffix :: string where "DefaultInstructionKeySuffix = ''.instruction''"

definition getJSONNumberAsString :: "'w crypto_env \<Rightarrow> byte list \<Rightarrow> goerror + string" where
  "getJSONNumberAsString env data =
     (if length data = 0 then Inr []
      else case ce_json_string env data of
        Inr (Some s) \<Rightarrow> Inr s
      | Inr None \<Rightarrow> Inr []
      | Inl _ \<Rightarrow> (case ce_json_int64 env data of
          Inr i \<Rightarrow> Inr (int_digits i)
        | Inl _ \<Rightarrow> Inl (PlainError ''failed to parse as JSON Number'')))"

definition Envelope_UnmarshalJSON :: "'w crypto_env \<Rightarrow> byte list \<Rightarrow> Envelope \<Rightarrow> goerror option \<times> Envelope" where
  "Envelope_UnmarshalJSON env b e =
     (case ce_json_lax env b of
        Inl err \<Rightarrow> (Some err, e)
      | Inr (inner, tagLen, contentLen) \<Rightarrow>
          (case getJSONNumberAsString env tagLen of
             Inl err \<Rightarrow> (Some (PlainError (''failed to parse tag length: '' @ pe_text err)), inner\<lparr>en_TagLen := []\<rparr>)
           | Inr s \<Rightarrow>
               let e = inner\<lparr>en_TagLen := s\<rparr> in
               (case getJSONNumberAsString env contentLen of
                  Inl err \<Rightarrow> (Some (PlainError (''failed to parse unencrypted content length: '' @ pe_text err)), e\<lparr>en_UnencryptedContentLen := []\<rparr>)
                | Inr s \<Rightarrow> (None, e\<lparr>en_UnencryptedContentLen := s\<rparr>))))"

definition encodeMeta :: "'w crypto_env \<Rightarrow> int \<Rightarrow> CipherData \<Rightarrow> goerror + Envelope" where
  "encodeMeta env contentLength cd =
     (case ce_json_encode env (cd_MaterialDescription cd) of
        Inl err \<Rightarrow> Inl err
      | Inr matdesc \<Rightarrow> Inr (zero_Envelope\<lparr>
          en_CipherKey := Base64_EncodeToString (cd_EncryptedKey cd), en_IV := Base64_EncodeToString (cd_IV cd), en_MatDesc := matdesc,
          en_WrapAlg := cd_WrapAlgorithm cd, en_CEKAlg := cd_CEKAlgorithm cd, en_TagLen := cd_TagLength cd,
          en_UnencryptedContentLen := int_digits contentLength\<rparr>))"

text \<open>
  The request of a put, as far as the strategies and the handler use it, and the response of a get.
  \<open>Metadata\<close> is \<open>None\<close> where the map is nil.
\<close>

record put_request =
  pu_Bucket :: "string option"
  pu_Key :: string
  pu_Metadata :: "(string \<rightharpoonup> string) option"
  pu_Header :: Values
  pu_Body :: source
  pu_Error :: "goerror option"

record get_response =
  go_Bucket :: "string option"
  go_Key :: string
  go_Header :: Values
  go_Body :: source

type_synonym 'w SaveStrategy = "Envelope \<Rightarrow> put_request \<Rightarrow> 'w \<Rightarrow> goerror option \<times> put_request \<times> 'w"
type_synonym 'w LoadStrategy = "get_response \<Rightarrow> 'w \<Rightarrow> (goerror + Envelope) \<times> 'w"

definition header_metadata :: "Envelope \<Rightarrow> (string \<rightharpoonup> string) \<Rightarrow> (string \<rightharpoonup> string)" where
  "header_metadata e m =
     (let m = m(canonical_key keyV2Header \<mapsto> en_CipherKey e, canonical_key ivHeader \<mapsto> en_IV e,
        canonical_key matDescHeader \<mapsto> en_MatDesc e, canonical_key wrapAlgorithmHeader \<mapsto> en_WrapAlg e,
        canonical_key cekAlgorithmHeader \<mapsto> en_CEKAlg e, canonical_key unencryptedContentLengthHeader \<mapsto> en_UnencryptedContentLen e)
      in if length (en_TagLen e) > 0 then m(canonical_key tagLengthHeader \<mapsto> en_TagLen e) else m)"

definition HeaderV2_Save :: "'w SaveStrategy" where
  "HeaderV2_Save e req w =
     (let m = (case pu_Metadata req of None \<Rightarrow> Map.empty | Some m \<Rightarrow> m)
      in (None, req\<lparr>pu_Metadata := Some (header_metadata e m)\<rparr>, w))"

text \<open>The instruction file: the client of the storage is a parameter.\<close>

definition S3_Save :: "'w crypto_env \<Rightarrow> (string option \<Rightarrow> string \<Rightarrow> byte list \<Rightarrow> 'w \<Rightarrow> goerror option \<times> 'w) \<Rightarrow> string \<Rightarrow> 'w SaveStrategy" where
  "S3_Save env put suffix e req w =
     (case ce_json_envelope env e of
        Inl err \<Rightarrow> (Some err, req, w)
      | Inr b \<Rightarrow>
          (case put (pu_Bucket req) (pu_Key req @ (if suffix = [] then DefaultInstructionKeySuffix else suffix)) b w of
             (err, w) \<Rightarrow> (err, req, w)))"

definition meta_Get :: "Values \<Rightarrow> string \<Rightarrow> string" where
  "meta_Get h k = Header_Get h (metaHeader @ ''-'' @ k)"

definition HeaderV2_Load :: "'w LoadStrategy" where
  "HeaderV2_Load r w = (let h = go_Header r in
     (Inr (zero_Envelope\<lparr>en_CipherKey := meta_Get h keyV2Header, en_IV := meta_Get h ivHeader, en_MatDesc := meta_Get h matDescHeader,
        en_WrapAlg := meta_Get h wrapAlgorithmHeader, en_CEKAlg := meta_Get h cekAlgorithmHeader, en_TagLen := meta_Get h tagLengthHeader,
        en_UnencryptedContentLen := meta_Get h unencryptedContentLengthHeader\<rparr>), w))"

definition S3_Load :: "'w crypto_env \<Rightarrow> (string option \<Rightarrow> string \<Rightarrow> 'w \<Rightarrow> (goerror + source) \<times> 'w) \<Rightarrow> string \<Rightarrow> 'w LoadStrategy" where
  "S3_Load env get suffix r w =
     (let suffix = (if suffix = [] then DefaultInstructionKeySuffix else suffix) in
      case get (go_Bucket r) (go_Key r @ suffix) w of
        (Inl err, w) \<Rightarrow> (Inl err, w)
      | (Inr body, w) \<Rightarrow>
          (case source_ReadAll body of
             Inl err \<Rightarrow> (Inl err, w)
           | Inr b \<Rightarrow> (case Envelope_UnmarshalJSON env b zero_Envelope of
               (Some err, _) \<Rightarrow> (Inl err, w) | (None, e) \<Rightarrow> (Inr e, w))))"

definition defaultV2_Load :: "'w crypto_env \<Rightarrow> (string option \<Rightarrow> string \<Rightarrow> 'w \<Rightarrow> (goerror + source) \<times> 'w) \<Rightarrow> string \<Rightarrow> 'w LoadStrategy" where
  "defaultV2_Load env get suffix r w =
     (if meta_Get (go_Header r) keyV2Header \<noteq> [] then HeaderV2_Load r w
      else if meta_Get (go_Header r) keyV1Header \<noteq> []
      then (Inl (awserr_New ''V1NotSupportedError'' ''The AWS SDK for Go does not support version 1'' None), w)
      else S3_Load env get suffix r w)"

section \<open>Key handlers\<close>

type_synonym 'w decrypter = "byte list \<Rightarrow> 'w \<Rightarrow> (goerror + byte list) \<times> 'w"
type_synonym 'w WrapEntry = "Envelope \<Rightarrow> goerror + 'w decrypter"

definition KMSWrap :: string where "KMSWrap = ''kms''"
definition KMSContextWrap :: string where "KMSContextWrap = ''kms+context''"
definition kmsAWSCEKContextKey :: string where "kmsAWSCEKContextKey = ''aws:'' @ cekAlgorithmHeader"

record 'w kmsKeyHandler =
  kh_kms :: "'w kms_client"
  kh_cmkID :: "string option"
  kh_useProvidedCMK :: bool
  kh_data :: CipherData

definition newKMSKeyHandler :: "'w kms_client \<Rightarrow> string \<Rightarrow> MaterialDescription option \<Rightarrow> 'w kmsKeyHandler" where
  "newKMSKeyHandler client cmkID matdesc =
     (let matdesc = (case matdesc of None \<Rightarrow> Map.empty | Some m \<Rightarrow> m);
          matdesc = matdesc(''kms_cmk_id'' \<mapsto> Some cmkID)
      in \<lparr>kh_kms = client, kh_cmkID = Some cmkID, kh_useProvidedCMK = False,
          kh_data = zero_CipherData\<lparr>cd_WrapAlgorithm := KMSWrap, cd_MaterialDescription := matdesc\<rparr>\<rparr>)"

definition newKMSWrapEntry :: "'w kms_client \<Rightarrow> 'w kmsKeyHandler" where
  "newKMSWrapEntry client = \<lparr>kh_kms = client, kh_cmkID = None, kh_useProvidedCMK = False, kh_data = zero_CipherData\<rparr>"

definition kms_DecryptKey :: "'w kmsKeyHandler \<Rightarrow> 'w decrypter" where
  "kms_DecryptKey kp key w =
     km_Decrypt (kh_kms kp) (if kh_useProvidedCMK kp then kh_cmkID kp else None) (cd_MaterialDescription (kh_data kp)) key w"

definition kms_decryptHandler :: "'w crypto_env \<Rightarrow> 'w kmsKeyHandler \<Rightarrow> 'w WrapEntry" where
  "kms_decryptHandler env kp e =
     (case decodeDescription env (en_MatDesc e) Map.empty of
        Inl err \<Rightarrow> Inl err
      | Inr m \<Rightarrow>
          if m ''kms_cmk_id'' = None then Inl (awserr_New ''MissingCMKIDError'' ''Material description is missing CMK ID'' None)
          else Inr (kms_DecryptKey (kp\<lparr>kh_data := (kh_data kp)\<lparr>cd_MaterialDescription := m, cd_WrapAlgorithm := KMSWrap\<rparr>\<rparr>)))"

definition NewKMSWrapEntry :: "'w crypto_env \<Rightarrow> 'w kms_client \<Rightarrow> 'w WrapEntry" where
  "NewKMSWrapEntry env client = kms_decryptHandler env (newKMSWrapEntry client)"

definition newKMSWrapEntryWithCMK :: "'w crypto_env \<Rightarrow> 'w kms_client \<Rightarrow> string \<Rightarrow> 'w WrapEntry" where
  "newKMSWrapEntryWithCMK env client cmkID =
     kms_decryptHandler env ((newKMSWrapEntry client)\<lparr>kh_useProvidedCMK := True, kh_cmkID := Some cmkID\<rparr>)"

text \<open>The data key from the service and a random IV, in both handlers.\<close>

definition generate_key :: "'w crypto_env \<Rightarrow> 'w kms_client \<Rightarrow> string option \<Rightarrow> CipherData \<Rightarrow> nat \<Rightarrow> 'w \<Rightarrow> (goerror + CipherData) \<times> 'w" where
  "generate_key env client cmkID cd ivSize w =
     (case km_GenerateDataKey client (cd_MaterialDescription cd) cmkID ''AES_256'' w of
        (Inl err, w) \<Rightarrow> (Inl err, w)
      | (Inr (plaintext, blob), w) \<Rightarrow>
          (case generateBytes env ivSize w of
             (Inl err, w) \<Rightarrow> (Inl err, w)
           | (Inr iv, w) \<Rightarrow> (Inr (cd\<lparr>cd_Key := plaintext, cd_IV := iv, cd_EncryptedKey := blob\<rparr>), w)))"

type_synonym 'w generator = "nat \<Rightarrow> nat \<Rightarrow> 'w \<Rightarrow> (goerror + CipherData) \<times> 'w"
type_synonym 'w generator_with_alg = "nat \<Rightarrow> nat \<Rightarrow> string \<Rightarrow> 'w \<Rightarrow> (goerror + CipherData) \<times> 'w"

definition kms_GenerateCipherData :: "'w crypto_env \<Rightarrow> 'w kmsKeyHandler \<Rightarrow> 'w generator" where
  "kms_GenerateCipherData env kp keySize ivSize w = generate_key env (kh_kms kp) (kh_cmkID kp) (kh_data kp) ivSize w"

definition NewKMSKeyGenerator :: "'w crypto_env \<Rightarrow> 'w kms_client \<Rightarrow> string \<Rightarrow> 'w generator" where
  "NewKMSKeyGenerator env client cmkID = kms_GenerateCipherData env (newKMSKeyHandler client cmkID (Some Map.empty))"

record 'w kmsContextKeyHandler =
  xh_kms :: "'w kms_client"
  xh_cmkID :: "string option"
  xh_data :: CipherData

definition newKMSContextKeyHandler :: "'w kms_client \<Rightarrow> string \<Rightarrow> MaterialDescription option \<Rightarrow> 'w kmsContextKeyHandler" where
  "newKMSContextKeyHandler client cmkID matdesc =
     \<lparr>xh_kms = client, xh_cmkID = Some cmkID, xh_data = zero_CipherData\<lparr>cd_WrapAlgorithm := KMSContextWrap,
        cd_MaterialDescription := (case matdesc of None \<Rightarrow> Map.empty | Some m \<Rightarrow> m)\<rparr>\<rparr>"

definition context_GenerateCipherData :: "'w crypto_env \<Rightarrow> 'w kmsContextKeyHandler \<Rightarrow> 'w generator_with_alg" where
  "context_GenerateCipherData env kp keySize ivSize cekAlgorithm w =
     (let cd = xh_data kp in
      if length cekAlgorithm = 0 then (Inl (PlainError ''cek algorithm identifier must not be empty''), w)
      else if cd_MaterialDescription cd kmsAWSCEKContextKey \<noteq> None then
        (Inl (PlainError (''conflict in reserved KMS Encryption Context key '' @ kmsAWSCEKContextKey @
           ''. This value is reserved for the S3 Encryption Client and cannot be set by the user'')), w)
      else generate_key env (xh_kms kp) (xh_cmkID kp)
        (cd\<lparr>cd_MaterialDescription := (cd_MaterialDescription cd)(kmsAWSCEKContextKey \<mapsto> Some cekAlgorithm)\<rparr>) ivSize w)"

definition context_DecryptKey :: "'w kmsContextKeyHandler \<Rightarrow> 'w decrypter" where
  "context_DecryptKey kp key w = km_Decrypt (xh_kms kp) (xh_cmkID kp) (cd_MaterialDescription (xh_data kp)) key w"

definition context_decryptHandler :: "'w crypto_env \<Rightarrow> 'w kmsContextKeyHandler \<Rightarrow> 'w WrapEntry" where
  "context_decryptHandler env kp e =
     (if en_WrapAlg e \<noteq> KMSContextWrap then
        Inl (PlainError (cekAlgorithmHeader @ '' value `'' @ en_WrapAlg e @ ''` did not match the expected algorithm `'' @ KMSContextWrap @
          ''` for this handler''))
      else case decodeDescription env (en_MatDesc e) Map.empty of
        Inl err \<Rightarrow> Inl err
      | Inr m \<Rightarrow>
          (case m kmsAWSCEKContextKey of
             None \<Rightarrow> Inl (PlainError (''required key '' @ kmsAWSCEKContextKey @ '' is missing from encryption context''))
           | Some v \<Rightarrow>
               if v \<noteq> Some (en_CEKAlg e) then
                 Inl (PlainError ''the content encryption algorithm used at encryption time does not match the algorithm stored for decryption time. The object may be altered or corrupted'')
               else Inr (context_DecryptKey (kp\<lparr>xh_data := (xh_data kp)\<lparr>cd_MaterialDescription := m, cd_WrapAlgorithm := KMSContextWrap\<rparr>\<rparr>))))"

definition newKMSContextWrapEntryWithCMK :: "'w crypto_env \<Rightarrow> 'w kms_client \<Rightarrow> string \<Rightarrow> 'w WrapEntry" where
  "newKMSContextWrapEntryWithCMK env client cmkID =
     context_decryptHandler env \<lparr>xh_kms = client, xh_cmkID = Some cmkID, xh_data = zero_CipherData\<rparr>"

definition newKMSContextWrapEntryWithAnyCMK :: "'w crypto_env \<Rightarrow> 'w kms_client \<Rightarrow> 'w WrapEntry" where
  "newKMSContextWrapEntryWithAnyCMK env client =
     context_decryptHandler env \<lparr>xh_kms = client, xh_cmkID = None, xh_data = zero_CipherData\<rparr>"

section \<open>Content ciphers\<close>

definition AESGCMNoPadding :: string where "AESGCMNoPadding = ''AES/GCM/NoPadding''"
definition AESCBC :: string where "AESCBC = ''AES/CBC''"

datatype ContentCipher = CBCContentCipher CipherData | GCMContentCipher CipherData

fun GetCipherData :: "ContentCipher \<Rightarrow> CipherData" where
  "GetCipherData (CBCContentCipher cd) = cd"
| "GetCipherData (GCMContentCipher cd) = cd"

type_synonym CEKEntry = "CipherData \<Rightarrow> (goerror + ContentCipher) option"

text \<open>\<open>NewCBCEncrypter\<close> and \<open>NewCBCDecrypter\<close> panic for an IV that is not a block.\<close>

definition newAESCBC :: "CipherData \<Rightarrow> (goerror option) option" where
  "newAESCBC cd = (case aes_NewCipher (cd_Key cd) of
     Some err \<Rightarrow> Some (Some err) | None \<Rightarrow> if length (cd_IV cd) \<noteq> 16 then None else Some None)"

definition newAESCBCContentCipher :: CEKEntry where
  "newAESCBCContentCipher cd =
     (case (if length (cd_CEKAlgorithm cd) = 0
            then map_option (\<lambda>p. cd\<lparr>cd_CEKAlgorithm := AESCBC @ ''/'' @ pa_Name p\<rparr>) (cd_Padder cd) else Some cd) of
        None \<Rightarrow> None
      | Some cd \<Rightarrow> (case newAESCBC cd of
          None \<Rightarrow> None
        | Some (Some err) \<Rightarrow> Some (Inl err)
        | Some None \<Rightarrow> Some (Inr (CBCContentCipher cd))))"

definition newAESGCM :: "CipherData \<Rightarrow> goerror option" where
  "newAESGCM cd = aes_NewCipher (cd_Key cd)"

definition newAESGCMContentCipher :: CEKEntry where
  "newAESGCMContentCipher cd =
     (let cd = cd\<lparr>cd_CEKAlgorithm := AESGCMNoPadding, cd_TagLength := ''128''\<rparr> in
      case newAESGCM cd of Some err \<Rightarrow> Some (Inl err) | None \<Rightarrow> Some (Inr (GCMContentCipher cd)))"

text \<open>The readers of a content cipher.\<close>

datatype content_reader = CBCEncrypts cbc_reader | GCMEncrypts gcm_reader | CBCDecrypts cbc_reader | GCMDecrypts gcm_reader

fun content_Read :: "byte list \<Rightarrow> content_reader \<Rightarrow> content_reader read_result" where
  "content_Read data (CBCEncrypts r) = map_option (\<lambda>(d, n, e, r). (d, n, e, CBCEncrypts r)) (cbc_encrypt_Read data r)"
| "content_Read data (GCMEncrypts r) = map_option (\<lambda>(d, n, e, r). (d, n, e, GCMEncrypts r)) (gcm_encrypt_Read data r)"
| "content_Read data (CBCDecrypts r) = map_option (\<lambda>(d, n, e, r). (d, n, e, CBCDecrypts r)) (cbc_decrypt_Read data r)"
| "content_Read data (GCMDecrypts r) = map_option (\<lambda>(d, n, e, r). (d, n, e, GCMDecrypts r)) (gcm_decrypt_Read data r)"

text \<open>A CBC cipher whose padder is nil panics when its reader comes to use it; here, when the reader is made.\<close>

fun EncryptContents :: "crypto \<Rightarrow> ContentCipher \<Rightarrow> source \<Rightarrow> content_reader option" where
  "EncryptContents cy (CBCContentCipher cd) src =
     map_option (\<lambda>padder. CBCEncrypts (cbc_Encrypt cy (cd_Key cd) (cd_IV cd) padder src)) (cd_Padder cd)"
| "EncryptContents cy (GCMContentCipher cd) src = Some (GCMEncrypts (gcm_open_reader cy (cd_Key cd) (cd_IV cd) src))"

fun DecryptContents :: "crypto \<Rightarrow> ContentCipher \<Rightarrow> source \<Rightarrow> content_reader option" where
  "DecryptContents cy (CBCContentCipher cd) src =
     map_option (\<lambda>padder. CBCDecrypts (cbc_Decrypt cy (cd_Key cd) (cd_IV cd) padder src)) (cd_Padder cd)"
| "DecryptContents cy (GCMContentCipher cd) src = Some (GCMDecrypts (gcm_open_reader cy (cd_Key cd) (cd_IV cd) src))"

text \<open>The builders of content ciphers, over the generator they were made with; \<open>fixture\<close> is whether it is
  one of the SDK.\<close>

datatype 'w ContentCipherBuilder =
    CBCBuilder "'w generator" Padder
  | GCMBuilder "'w generator"
  | GCMBuilderV2 "'w generator_with_alg" bool

definition cbcKeySize :: nat where "cbcKeySize = 32"
definition cbcNonceSize :: nat where "cbcNonceSize = 16"
definition gcmKeySize :: nat where "gcmKeySize = 32"
definition gcmNonceSize :: nat where "gcmNonceSize = 12"

fun new_ContentCipher :: "'w ContentCipherBuilder \<Rightarrow> 'w \<Rightarrow> ((goerror + ContentCipher) \<times> 'w) option" where
  "new_ContentCipher (CBCBuilder generator padder) w =
     (case generator cbcKeySize cbcNonceSize w of
        (Inl err, w) \<Rightarrow> Some (Inl err, w)
      | (Inr cd, w) \<Rightarrow> map_option (\<lambda>c. (c, w)) (newAESCBCContentCipher (cd\<lparr>cd_Padder := Some padder\<rparr>)))"
| "new_ContentCipher (GCMBuilder generator) w =
     (case generator gcmKeySize gcmNonceSize w of
        (Inl err, w) \<Rightarrow> Some (Inl err, w)
      | (Inr cd, w) \<Rightarrow> map_option (\<lambda>c. (c, w)) (newAESGCMContentCipher cd))"
| "new_ContentCipher (GCMBuilderV2 generator fixture) w =
     (case generator gcmKeySize gcmNonceSize AESGCMNoPadding w of
        (Inl err, w) \<Rightarrow> Some (Inl err, w)
      | (Inr cd, w) \<Rightarrow> map_option (\<lambda>c. (c, w)) (newAESGCMContentCipher cd))"

datatype clientVersion = v1ClientVersion | v2ClientVersion

definition errDeprecatedIncompatibleCipherBuilder :: goerror where
  "errDeprecatedIncompatibleCipherBuilder = PlainError ''attempted to use deprecated or incompatible cipher builder''"

fun isEncryptionVersionCompatible :: "'w ContentCipherBuilder \<Rightarrow> clientVersion \<Rightarrow> goerror option" where
  "isEncryptionVersionCompatible (GCMBuilderV2 g fixture) version =
     (if version \<noteq> v2ClientVersion then Some errDeprecatedIncompatibleCipherBuilder else None)"
| "isEncryptionVersionCompatible (CBCBuilder g p) version =
     (if version \<noteq> v1ClientVersion then Some errDeprecatedIncompatibleCipherBuilder else None)"
| "isEncryptionVersionCompatible (GCMBuilder g) version =
     (if version \<noteq> v1ClientVersion then Some errDeprecatedIncompatibleCipherBuilder else None)"

end
