(* ===== verification/S3CipherRuns.thy ===== *)
theory S3CipherRuns
  imports S3Cipher
begin

text \<open>
  What the readers of \<open>S3Cipher\<close> produce over a whole stream: encryption is the chained encryption of
  the padded text whatever sizes the reads of the source have, decryption is its inverse, and the
  constant-time check of the padding is the plain one.
\<close>

section \<open>The check of the padding\<close>

definition plain_Unpad :: "byte list \<Rightarrow> goerror + byte list" where
  "plain_Unpad buf =
     (if buf \<noteq> [] \<and> 1 \<le> unat (last buf) \<and> unat (last buf) \<le> length buf \<and>
         drop (length buf - unat (last buf)) buf = replicate (unat (last buf)) (last buf)
      then Inr (take (length buf - unat (last buf)) buf) else Inl errPKCS7Padding)"

lemma fold_and:
  assumes "\<And>i. c i = 0 \<or> c i = (1 :: int)" and "g = 0 \<or> g = 1"
  shows "fold (\<lambda>i g. g AND c i) xs g = 0 \<or> fold (\<lambda>i g. g AND c i) xs g = 1"
    and "fold (\<lambda>i g. g AND c i) xs g = 1 \<longleftrightarrow> g = 1 \<and> (\<forall>i \<in> set xs. c i = 1)"
proof -
  have "(fold (\<lambda>i g. g AND c i) xs g = 0 \<or> fold (\<lambda>i g. g AND c i) xs g = 1) \<and>
      (fold (\<lambda>i g. g AND c i) xs g = 1 \<longleftrightarrow> g = 1 \<and> (\<forall>i \<in> set xs. c i = 1))"
    using assms(2)
  proof (induction xs arbitrary: g)
    case (Cons i xs)
    have a: "g AND c i = 0 \<or> g AND c i = 1" "g AND c i = 1 \<longleftrightarrow> g = 1 \<and> c i = 1" using assms(1) [of i] Cons.prems by auto
    note IH = Cons.IH [OF a(1)]
    have "(\<forall>k \<in> set (i # xs). c k = 1) \<longleftrightarrow> c i = 1 \<and> (\<forall>k \<in> set xs. c k = 1)" by simp
    with IH a(2) show ?case unfolding fold_simps comp_apply by blast
  qed simp
  then show "fold (\<lambda>i g. g AND c i) xs g = 0 \<or> fold (\<lambda>i g. g AND c i) xs g = 1"
    and "fold (\<lambda>i g. g AND c i) xs g = 1 \<longleftrightarrow> g = 1 \<and> (\<forall>i \<in> set xs. c i = 1)" by blast+
qed

lemma ConstantTime_nat: "ConstantTimeLessOrEq (int m) (int n) = (if m \<le> n then 1 else 0)"
  by (simp add: ConstantTimeLessOrEq_def)

lemma check_bytes:
  shows "unat p \<le> n \<Longrightarrow> fold (check_byte buf p) [0..<n] 1 = 1 \<longleftrightarrow> (\<forall>i < unat p. buf ! (length buf - 1 - i) = p)"
    and "fold (check_byte buf p) [0..<n] 1 = 0 \<or> fold (check_byte buf p) [0..<n] 1 = 1"
proof -
  define c where "c = (\<lambda>i :: nat. ConstantTimeSelect (ConstantTimeLessOrEq (int (unat p)) (int i)) 1 (ConstantTimeByteEq p (buf ! (length buf - 1 - i))))"
  have e: "check_byte buf p = (\<lambda>i g. g AND c i)" by (simp add: fun_eq_iff check_byte_def c_def Let_def)
  have c: "c i = (if unat p \<le> i \<or> buf ! (length buf - 1 - i) = p then 1 else 0)" for i
    unfolding c_def ConstantTime_nat ConstantTimeSelect_def ConstantTimeByteEq_def by simp
  have c01: "c i = 0 \<or> c i = 1" for i by (simp add: c)
  show "fold (check_byte buf p) [0..<n] 1 = 0 \<or> fold (check_byte buf p) [0..<n] 1 = 1"
    unfolding e by (rule fold_and(1) [where c = c, OF c01]) simp
  assume p: "unat p \<le> n"
  have "fold (check_byte buf p) [0..<n] 1 = 1 \<longleftrightarrow> (\<forall>i \<in> set [0..<n]. c i = 1)"
    unfolding e using fold_and(2) [where c = c and g = 1 and xs = "[0..<n]", OF c01] by blast
  also have "\<dots> \<longleftrightarrow> (\<forall>i < unat p. buf ! (length buf - 1 - i) = p)"
    using p by (force simp: c not_le)
  finally show "fold (check_byte buf p) [0..<n] 1 = 1 \<longleftrightarrow> (\<forall>i < unat p. buf ! (length buf - 1 - i) = p)" .
qed

lemma tail_replicate:
  assumes "n \<le> length xs"
  shows "(\<forall>i < n. xs ! (length xs - 1 - i) = x) \<longleftrightarrow> drop (length xs - n) xs = replicate n x"
proof
  assume l: "\<forall>i < n. xs ! (length xs - 1 - i) = x"
  show "drop (length xs - n) xs = replicate n x"
  proof (rule nth_equalityI)
    fix i assume "i < length (drop (length xs - n) xs)"
    then have i: "i < n" using assms by simp
    then have "length xs - n + i = length xs - 1 - (n - 1 - i)" using assms by linarith
    with l [rule_format, of "n - 1 - i"] i assms show "drop (length xs - n) xs ! i = replicate n x ! i" by simp
  qed (use assms in simp)
next
  assume d: "drop (length xs - n) xs = replicate n x"
  show "\<forall>i < n. xs ! (length xs - 1 - i) = x"
  proof (intro allI impI)
    fix i assume i: "i < n"
    have "drop (length xs - n) xs ! (n - 1 - i) = x" using d i by simp
    moreover have "length xs - n + (n - 1 - i) = length xs - 1 - i" using i assms by linarith
    ultimately show "xs ! (length xs - 1 - i) = x" using assms by simp
  qed
qed

theorem Unpad_plain: "pkcs7_Unpad buf = plain_Unpad buf"
proof (cases "buf = []")
  case True
  then show ?thesis by (simp add: pkcs7_Unpad_def plain_Unpad_def)
next
  case False
  let ?p = "last buf"
  define n where "n = (if pkcs7MaxPaddingSize > length buf then length buf else pkcs7MaxPaddingSize)"
  define g where "g = fold (check_byte buf ?p) [0..<n] 1"
  have l: "buf ! (length buf - 1) = ?p" using False by (simp add: last_conv_nth)
  have n: "unat ?p \<le> length buf \<Longrightarrow> unat ?p \<le> n" using unat_byte_less [of ?p] by (simp add: n_def pkcs7MaxPaddingSize_def)
  have g: "g = 0 \<or> g = 1" unfolding g_def by (rule check_bytes(2))
  have one: "ConstantTimeLessOrEq 1 (int m) = (if 1 \<le> m then 1 else 0)" for m by (simp add: ConstantTimeLessOrEq_def)
  let ?all = "(g AND ConstantTimeLessOrEq 1 (int (unat ?p))) AND ConstantTimeLessOrEq (int (unat ?p)) (int (length buf))"
  have "?all = 1 \<longleftrightarrow> g = 1 \<and> 1 \<le> unat ?p \<and> unat ?p \<le> length buf"
    using g unfolding one ConstantTime_nat by auto
  also have "\<dots> \<longleftrightarrow> 1 \<le> unat ?p \<and> unat ?p \<le> length buf \<and> drop (length buf - unat ?p) buf = replicate (unat ?p) ?p"
    using check_bytes(1) [OF n, of buf] tail_replicate [of "unat ?p" buf ?p] unfolding g_def by blast
  finally have "?all = 1 \<longleftrightarrow> 1 \<le> unat ?p \<and> unat ?p \<le> length buf \<and> drop (length buf - unat ?p) buf = replicate (unat ?p) ?p" .
  moreover have "pkcs7_Unpad buf = (if ?all \<noteq> 1 then Inl errPKCS7Padding else Inr (take (length buf - unat ?p) buf))"
    using False unfolding pkcs7_Unpad_def Let_def l n_def [symmetric] g_def [symmetric] by simp
  ultimately show ?thesis using False by (simp add: plain_Unpad_def)
qed

lemma Unpad_Pad:
  assumes "pkcs7_Pad bs buf n = Inr padded" and "k \<le> length buf"
  shows "pkcs7_Unpad (drop k padded) = Inr (drop k buf)"
proof -
  define m where "m = nat bs - n mod nat bs"
  have b: "1 \<le> bs" "bs \<le> 255" and p: "padded = buf @ replicate m (word_of_nat m)"
    using assms(1) by (auto simp: pkcs7_Pad_def pkcs7MaxPaddingSize_def Let_def m_def split: if_splits)
  have m: "1 \<le> m" "m \<le> 255" using b unfolding m_def by (auto simp: Suc_leI)
  then have u: "unat (word_of_nat m :: byte) = m" by (simp add: unat_of_nat)
  have d: "drop k padded = drop k buf @ replicate m (word_of_nat m)" using assms(2) p by simp
  have l: "last (drop k padded) = word_of_nat m" using m(1) d by simp
  then show ?thesis unfolding Unpad_plain plain_Unpad_def l u using m d by simp
qed

section \<open>Chained blocks\<close>

abbreviation block :: "byte list \<Rightarrow> bool" where
  "block b \<equiv> length b = 16"

definition step_ok :: "(byte list \<Rightarrow> byte list \<Rightarrow> byte list \<times> byte list) \<Rightarrow> bool" where
  "step_ok step \<longleftrightarrow> (\<forall>iv b. block iv \<and> block b \<longrightarrow> block (fst (step iv b)) \<and> block (snd (step iv b)))"

lemma cbc_length:
  assumes "step_ok step"
  shows "block iv \<Longrightarrow> length src = 16 * n \<Longrightarrow>
    length (fst (cbc_blocks step 16 n iv src)) = 16 * n \<and> block (snd (cbc_blocks step 16 n iv src))"
proof (induction n arbitrary: iv src)
  case (Suc n)
  obtain b iv' where s: "step iv (take 16 src) = (b, iv')" by fastforce
  have "block (take 16 src)" using Suc.prems(2) by simp
  with assms Suc.prems(1) s have b: "block b" "block iv'" unfolding step_ok_def by (metis fst_conv, metis snd_conv)
  have "length (drop 16 src) = 16 * n" using Suc.prems(2) by simp
  from Suc.IH [OF b(2) this] show ?case using s b(1) by (simp add: split_def)
qed simp

lemma cbc_append:
  assumes "length a = 16 * n"
  shows "cbc_blocks step 16 (n + m) iv (a @ b) =
    (case cbc_blocks step 16 n iv a of (o1, iv') \<Rightarrow> (case cbc_blocks step 16 m iv' b of (o2, iv'') \<Rightarrow> (o1 @ o2, iv'')))"
  using assms
proof (induction n arbitrary: iv a)
  case (Suc n)
  then have "16 \<le> length a" by simp
  with Suc show ?case by (simp add: split_def)
qed (simp add: split_def)

text \<open>All of a text of full blocks.\<close>

definition cbc_all :: "(byte list \<Rightarrow> byte list \<Rightarrow> byte list \<times> byte list) \<Rightarrow> byte list \<Rightarrow> byte list \<Rightarrow> byte list" where
  "cbc_all step iv src = fst (cbc_blocks step 16 (length src div 16) iv src)"

lemma cbc_all_append:
  assumes "length a mod 16 = 0"
  shows "cbc_all step iv (a @ b) = cbc_all step iv a @ cbc_all step (snd (cbc_blocks step 16 (length a div 16) iv a)) b"
proof -
  have a: "length a = 16 * (length a div 16)" using assms by auto
  then have "length (a @ b) div 16 = length a div 16 + length b div 16" by (simp add: div_add1_eq assms)
  then show ?thesis unfolding cbc_all_def using cbc_append [OF a, of step "length b div 16" iv b] by (simp add: split_def)
qed

lemma cbc_all_Nil [simp]: "cbc_all step iv [] = []"
  by (simp add: cbc_all_def)

lemma CryptBlocks_ok:
  assumes "step_ok (step (bm_crypt bm))" and "bm_size bm = 16" and "block (bm_iv bm)"
    and "length src mod 16 = 0" and "length src \<le> length dst"
  shows "CryptBlocks step bm dst src = Some (cbc_all (step (bm_crypt bm)) (bm_iv bm) src @ drop (length src) dst,
      bm\<lparr>bm_iv := snd (cbc_blocks (step (bm_crypt bm)) 16 (length src div 16) (bm_iv bm) src)\<rparr>)"
    and "length (cbc_all (step (bm_crypt bm)) (bm_iv bm) src) = length src"
    and "block (snd (cbc_blocks (step (bm_crypt bm)) 16 (length src div 16) (bm_iv bm) src))"
proof -
  have l: "length src = 16 * (length src div 16)" using assms(4) by auto
  show "CryptBlocks step bm dst src = Some (cbc_all (step (bm_crypt bm)) (bm_iv bm) src @ drop (length src) dst,
      bm\<lparr>bm_iv := snd (cbc_blocks (step (bm_crypt bm)) 16 (length src div 16) (bm_iv bm) src)\<rparr>)"
    using assms by (simp add: CryptBlocks_def cbc_all_def split_def)
  show "length (cbc_all (step (bm_crypt bm)) (bm_iv bm) src) = length src"
    and "block (snd (cbc_blocks (step (bm_crypt bm)) 16 (length src div 16) (bm_iv bm) src))"
    using cbc_length [OF assms(1,3) l] l by (simp_all add: cbc_all_def)
qed

lemma xor_length [simp]: "length (xor_bytes a b) = min (length a) (length b)"
  by (simp add: xor_bytes_def)

lemma xor_xor: "length a = length b \<Longrightarrow> xor_bytes (xor_bytes a b) b = a"
proof (induction a b rule: list_induct2)
  case (Cons x xs y ys)
  have "(x XOR y) XOR y = x" by (simp add: xor.assoc)
  with Cons show ?case by (simp add: xor_bytes_def)
qed (simp add: xor_bytes_def)

lemma encrypt_step_ok: "(\<And>b. block b \<Longrightarrow> block (enc b)) \<Longrightarrow> step_ok (encrypt_block enc)"
  by (simp add: step_ok_def encrypt_block_def Let_def)

lemma decrypt_step_ok: "(\<And>b. block b \<Longrightarrow> block (dec b)) \<Longrightarrow> step_ok (decrypt_block dec)"
  by (simp add: step_ok_def decrypt_block_def)

lemma cbc_inverse:
  assumes "\<And>b. block b \<Longrightarrow> block (enc b) \<and> dec (enc b) = b"
  shows "block iv \<Longrightarrow> length src = 16 * n \<Longrightarrow>
    fst (cbc_blocks (decrypt_block dec) 16 n iv (fst (cbc_blocks (encrypt_block enc) 16 n iv src))) = src"
proof (induction n arbitrary: iv src)
  case (Suc n)
  let ?p = "take 16 src" and ?c = "enc (xor_bytes (take 16 src) iv)"
  have p: "block ?p" using Suc.prems(2) by simp
  then have c: "block ?c" "dec ?c = xor_bytes ?p iv" using assms [of "xor_bytes ?p iv"] Suc.prems(1) by simp_all
  have "length (drop 16 src) = 16 * n" using Suc.prems(2) by simp
  from Suc.IH [OF c(1) this] c p Suc.prems(1) show ?case
    by (simp add: encrypt_block_def decrypt_block_def Let_def split_def xor_xor)
qed simp

lemma cbc_all_inverse:
  assumes "\<And>b. block b \<Longrightarrow> block (enc b) \<and> dec (enc b) = b" and "block iv" and "length src mod 16 = 0"
  shows "cbc_all (decrypt_block dec) iv (cbc_all (encrypt_block enc) iv src) = src"
proof -
  have l: "length src = 16 * (length src div 16)" using assms(3) by auto
  have "length (cbc_all (encrypt_block enc) iv src) = length src"
    using cbc_length [OF encrypt_step_ok assms(2) l] assms(1) l by (simp add: cbc_all_def)
  then show ?thesis unfolding cbc_all_def using cbc_inverse [of enc dec, OF assms(1,2) l] by simp
qed

section \<open>A stream that is encrypted\<close>

definition pending :: "cbc_reader \<Rightarrow> byte list" where
  "pending r = cb_buf r @ so_bytes (cb_src r)"

definition reads_left :: "cbc_reader \<Rightarrow> nat" where
  "reads_left r = 2 * length (so_bytes (cb_src r)) + length (so_sizes (cb_src r)) + length (cb_buf r)"

definition end_size :: "cbc_reader \<Rightarrow> nat" where
  "end_size r = cb_size r + length (so_bytes (cb_src r))"

definition reader_ok :: "((byte list \<Rightarrow> byte list) \<Rightarrow> byte list \<Rightarrow> byte list \<Rightarrow> byte list \<times> byte list) \<Rightarrow> cbc_reader \<Rightarrow> bool" where
  "reader_ok step r \<longleftrightarrow> bm_size (cb_mode r) = 16 \<and> step_ok (step (bm_crypt (cb_mode r))) \<and> block (bm_iv (cb_mode r)) \<and>
     so_end (cb_src r) = None \<and> cb_padder r = AESCBCPadder"

text \<open>A call that returns \<open>16 * k\<close> processed bytes and no error.\<close>

definition moves_on :: "((byte list \<Rightarrow> byte list) \<Rightarrow> byte list \<Rightarrow> byte list \<Rightarrow> byte list \<times> byte list) \<Rightarrow> byte list \<Rightarrow> cbc_reader \<Rightarrow>
    nat \<Rightarrow> byte list \<Rightarrow> cbc_reader \<Rightarrow> bool" where
  "moves_on step data r k data' r' \<longleftrightarrow>
     (let S = step (bm_crypt (cb_mode r)); iv = bm_iv (cb_mode r); out = take (16 * k) (pending r) in
      length data' = length data \<and> reader_ok step r' \<and> bm_crypt (cb_mode r') = bm_crypt (cb_mode r) \<and>
      16 * k \<le> length (pending r) \<and> pending r' = drop (16 * k) (pending r) \<and> take (16 * k) data' = cbc_all S iv out \<and>
      bm_iv (cb_mode r') = snd (cbc_blocks S 16 k iv out) \<and> reads_left r' < reads_left r)"

lemma moves_on_none:
  assumes "reader_ok step r" and "cb_mode r' = cb_mode r" and "cb_padder r' = cb_padder r" and "so_end (cb_src r') = so_end (cb_src r)"
    and "pending r' = pending r" and "reads_left r' < reads_left r" and "length data' = length data"
  shows "moves_on step data r 0 data' r'"
  using assms by (simp add: moves_on_def reader_ok_def Let_def)

lemma source_step:
  assumes "so_bytes s \<noteq> []" and "data \<noteq> []"
  obtains n where "source_Read data s = (take n (so_bytes s) @ drop n data, n, None, s\<lparr>so_bytes := drop n (so_bytes s), so_sizes := tl (so_sizes s)\<rparr>)"
    "n \<le> length data" "n \<le> length (so_bytes s)" "n > 0 \<or> so_sizes s \<noteq> []"
proof -
  define n where "n = min (length data) (min (length (so_bytes s)) (case so_sizes s of [] \<Rightarrow> length data | k # _ \<Rightarrow> k))"
  have "source_Read data s = (take n (so_bytes s) @ drop n data, n, None, s\<lparr>so_bytes := drop n (so_bytes s), so_sizes := tl (so_sizes s)\<rparr>)"
    using assms(1) by (simp add: source_Read_def n_def Let_def)
  moreover have "n \<le> length data" "n \<le> length (so_bytes s)" by (simp_all add: n_def)
  moreover have "n > 0 \<or> so_sizes s \<noteq> []" using assms by (simp add: n_def split: list.splits)
  ultimately show thesis by (rule that)
qed

lemma crypt_moves_on:
  assumes "reader_ok step r" and "cb_mode r1 = cb_mode r" and "cb_padder r1 = cb_padder r" and "so_end (cb_src r1) = None"
    and "cb_buf r1 @ so_bytes (cb_src r1) = pending r"
    and "16 * k \<le> length (cb_buf r1)" and "16 * k \<le> length data'" and "length data' = length data"
    and "reads_left r1 < reads_left r + 16 * k"
  shows "\<exists>data'' bm. CryptBlocks step (cb_mode r1) data' (take (16 * k) (cb_buf r1)) = Some (data'', bm) \<and>
    moves_on step data r k data'' (r1\<lparr>cb_buf := drop (16 * k) (cb_buf r1), cb_mode := bm\<rparr>)"
proof -
  let ?b = "take (16 * k) (cb_buf r1)" and ?S = "step (bm_crypt (cb_mode r))" and ?iv = "bm_iv (cb_mode r)"
  have b: "length ?b = 16 * k" "length ?b mod 16 = 0" "length ?b div 16 = k" using assms(6) by simp_all
  have p: "take (16 * k) (pending r) = ?b" using assms(5,6) by (metis take_append append_Nil2 diff_is_0_eq take_0)
  have ok: "step_ok (step (bm_crypt (cb_mode r1)))" "bm_size (cb_mode r1) = 16" "block (bm_iv (cb_mode r1))"
    using assms(1,2) by (simp_all add: reader_ok_def)
  have le: "length ?b \<le> length data'" using assms(7) b(1) by simp
  note c = CryptBlocks_ok [where step = step and bm = "cb_mode r1", OF ok b(2) le, unfolded b(3), unfolded b(1) assms(2)]
  let ?r = "r1\<lparr>cb_buf := drop (16 * k) (cb_buf r1), cb_mode := (cb_mode r)\<lparr>bm_iv := snd (cbc_blocks ?S 16 k ?iv ?b)\<rparr>\<rparr>"
  have "16 * k \<le> length (pending r)" using assms(6) arg_cong [OF assms(5), of length] by simp
  moreover have "pending ?r = drop (16 * k) (pending r)" using assms(6) by (simp add: pending_def [of ?r] assms(5) [symmetric])
  moreover have "reads_left ?r < reads_left r" using assms(6,9) by (simp add: reads_left_def [of ?r] reads_left_def [of r1])
  moreover have "reader_ok step ?r" using assms(1-4) c(3) ok(1) by (simp add: reader_ok_def)
  ultimately have "moves_on step data r k (cbc_all ?S ?iv ?b @ drop (16 * k) data') ?r"
    unfolding moves_on_def Let_def p using assms(7,8) c(2) by simp
  with c(1) show ?thesis unfolding assms(2) by blast
qed

lemma buf_read_full: "k \<le> length buf \<Longrightarrow> buf_read k buf = (take k buf, k, drop k buf)"
  by (simp add: buf_read_def)

lemma encrypt_reads:
  assumes "reader_ok encrypt_block r" and "so_bytes (cb_src r) \<noteq> []" and "16 \<le> length data"
  shows "\<exists>k data' r'. cbc_encrypt_Read data r = Some (data', 16 * k, None, r') \<and> moves_on encrypt_block data r k data' r' \<and> end_size r' = end_size r"
proof -
  have dne: "data \<noteq> []" using assms(3) by auto
  obtain n where s: "source_Read data (cb_src r) = (take n (so_bytes (cb_src r)) @ drop n data, n, None,
      (cb_src r)\<lparr>so_bytes := drop n (so_bytes (cb_src r)), so_sizes := tl (so_sizes (cb_src r))\<rparr>)"
    and n: "n \<le> length data" "n \<le> length (so_bytes (cb_src r))" "n > 0 \<or> so_sizes (cb_src r) \<noteq> []"
    by (rule source_step [OF assms(2) dne])
  define data1 where "data1 = take n (so_bytes (cb_src r)) @ drop n data"
  define r1 where "r1 = r\<lparr>cb_src := (cb_src r)\<lparr>so_bytes := drop n (so_bytes (cb_src r)), so_sizes := tl (so_sizes (cb_src r))\<rparr>,
    cb_size := cb_size r + n, cb_buf := cb_buf r @ take n (so_bytes (cb_src r))\<rparr>"
  have l1: "length data1 = length data" using n by (simp add: data1_def)
  have r1: "cb_mode r1 = cb_mode r" "cb_padder r1 = cb_padder r" "so_end (cb_src r1) = None" "pending r1 = pending r" "end_size r1 = end_size r"
    using assms(1) n by (auto simp: r1_def reader_ok_def pending_def end_size_def)
  have less: "reads_left r1 < reads_left r"
    using n by (cases "so_sizes (cb_src r)") (simp_all add: r1_def reads_left_def)
  have bs: "bm_size (cb_mode r) = 16" using assms(1) by (simp add: reader_ok_def)
  have t: "take n data1 = take n (so_bytes (cb_src r))" using n by (simp add: data1_def)
  let ?k = "if length (cb_buf r1) > length data then length data div 16 else length (cb_buf r1) div 16"
  have "cbc_encrypt_Read data r = cbc_encrypt_more data1 n r1"
    unfolding cbc_encrypt_Read_def s prod.case Let_def data1_def [symmetric] t by (simp add: r1_def)
  moreover have k: "16 * ?k \<le> length (cb_buf r1)" "16 * ?k \<le> length data1" using l1 by auto
  moreover have "?k > 0" if "length (cb_buf r1) \<ge> 16" using that assms(3) by (simp add: div_greater_zero_iff)
  moreover have "\<exists>data'' bm. CryptBlocks encrypt_block (cb_mode r1) data1 (take (16 * ?k) (cb_buf r1)) = Some (data'', bm) \<and>
      moves_on encrypt_block data r ?k data'' (r1\<lparr>cb_buf := drop (16 * ?k) (cb_buf r1), cb_mode := bm\<rparr>)"
    using r1(4) less by (intro crypt_moves_on [OF assms(1) r1(1,2,3) _ k l1]) (simp_all add: pending_def)
  moreover have "end_size (r1\<lparr>cb_buf := x, cb_mode := y\<rparr>) = end_size r" for x y using r1(5) by (simp add: end_size_def)
  moreover have "moves_on encrypt_block data r 0 data1 r1"
    using r1 less l1 assms(1) by (intro moves_on_none) (simp_all add: reader_ok_def)
  ultimately show ?thesis
    by (cases "length (cb_buf r1) \<ge> 16")
      (fastforce simp: cbc_encrypt_more_def bs r1(1,5) l1 Let_def buf_read_full mult.commute [of _ 16] simp del: One_nat_def)+
qed

lemma slice_size:
  assumes "32 \<le> L" and "L mod 16 = 0"
  shows "getSliceSize 16 B L mod 16 = 0" and "16 \<le> getSliceSize 16 B L" and "getSliceSize 16 B L \<le> L"
    and "getSliceSize 16 B L < B \<or> B \<le> 16 \<and> getSliceSize 16 B L = 16"
proof -
  define m where "m = (if B > L then int L else int B)"
  define s where "s = m - m mod 16 - 16"
  have g: "getSliceSize 16 B L = (if s \<le> 0 then 16 else nat s)" by (simp add: getSliceSize_def m_def s_def Let_def)
  have m: "0 \<le> m" "m \<le> int L" "m \<le> int B" by (simp_all add: m_def)
  have s16: "s mod 16 = 0" by (simp add: s_def mod_diff_left_eq [symmetric] minus_mod_eq_mult_div)
  have ms: "0 \<le> m mod 16" "m mod 16 < 16" by simp_all
  have "nat s mod 16 = 0" if "0 < s" using nat_mod_distrib [of s 16] s16 that by simp
  then show "getSliceSize 16 B L mod 16 = 0" unfolding g by simp
  have "16 \<le> s" if "0 < s" using s16 that by (simp add: zdvd_imp_le mod_eq_0_iff_dvd)
  then show "16 \<le> getSliceSize 16 B L" unfolding g by (cases "s \<le> 0") simp_all
  show "getSliceSize 16 B L \<le> L" using m(2) ms assms unfolding g s_def by (auto split: if_splits)
  show "getSliceSize 16 B L < B \<or> B \<le> 16 \<and> getSliceSize 16 B L = 16"
  proof (cases "s \<le> 0")
    case True
    have "B \<le> 16 \<or> 16 < B" by linarith
    then show ?thesis unfolding g using True by auto
  next
    case False
    then show ?thesis unfolding g using m(3) ms by (simp add: s_def) linarith
  qed
qed

text \<open>What is still to be encrypted, with its padding.\<close>

definition padded :: "cbc_reader \<Rightarrow> byte list" where
  "padded r = (let m = 16 - end_size r mod 16 in pending r @ replicate m (word_of_nat m))"

lemma pad_full: "(a + (16 - a mod 16)) mod 16 = (0 :: nat)"
  by presburger

lemma encrypt_ends:
  assumes "reader_ok encrypt_block r" and "so_bytes (cb_src r) = []" and "32 \<le> length data" and "length data mod 16 = 0"
    and "end_size r mod 16 = length (pending r) mod 16"
  shows "(\<exists>k data' r'. cbc_encrypt_Read data r = Some (data', 16 * k, None, r') \<and> moves_on encrypt_block data r k data' r' \<and> end_size r' = end_size r) \<or>
    (\<exists>data' n r'. cbc_encrypt_Read data r = Some (data', n, Some AtEOF, r') \<and>
      take n data' = cbc_all (encrypt_block (bm_crypt (cb_mode r))) (bm_iv (cb_mode r)) (padded r))"
proof -
  let ?B = "length (cb_buf r)"
  define sz where "sz = getSliceSize 16 ?B (length data)"
  note sz = slice_size [OF assms(3,4), of ?B, folded sz_def]
  have ok: "bm_size (cb_mode r) = 16" "so_end (cb_src r) = None" "cb_padder r = AESCBCPadder"
    "step_ok (encrypt_block (bm_crypt (cb_mode r)))" "block (bm_iv (cb_mode r))" using assms(1) by (simp_all add: reader_ok_def)
  have src: "source_Read data (cb_src r) = (data, 0, Some AtEOF, cb_src r)" using assms(2) ok(2) by (simp add: source_Read_def)
  have rd: "cbc_encrypt_Read data r = cbc_encrypt_end data r" by (simp add: cbc_encrypt_Read_def src)
  show ?thesis
  proof (cases "sz < ?B")
    case True
    define k where "k = sz div 16"
    have k: "sz = 16 * k" "k > 0" using sz(1,2) by (auto simp: k_def)
    have "\<exists>data'' bm. CryptBlocks encrypt_block (cb_mode r) data (take (16 * k) (cb_buf r)) = Some (data'', bm) \<and>
        moves_on encrypt_block data r k data'' (r\<lparr>cb_buf := drop (16 * k) (cb_buf r), cb_mode := bm\<rparr>)"
      using True sz(3) k assms(1) ok(2) by (intro crypt_moves_on) (simp_all add: pending_def)
    moreover have "drop (16 * k) (cb_buf r) \<noteq> []" using True k by simp
    moreover have "end_size (r\<lparr>cb_buf := x, cb_mode := y\<rparr>) = end_size r" for x y by (simp add: end_size_def)
    ultimately show ?thesis
      unfolding rd cbc_encrypt_end_def ok(1) sz_def [symmetric] using True k by (fastforce simp: buf_read_full Let_def)
  next
    case False
    then have B: "?B \<le> 16" "sz = 16" using sz(4) by simp_all
    define m where "m = 16 - end_size r mod 16"
    let ?p = "cb_buf r @ replicate m (word_of_nat m)"
    have pe: "pending r = cb_buf r" "end_size r = cb_size r" using assms(2) by (simp_all add: pending_def end_size_def)
    have m: "1 \<le> m" "m \<le> 16" by (simp_all add: m_def Suc_leI)
    have pad: "pa_Pad (cb_padder r) (cb_buf r) (cb_size r) = Inr ?p"
      by (simp add: ok(3) AESCBCPadder_def pkcs7_Pad_def pkcs7MaxPaddingSize_def Let_def m_def pe)
    have l: "length ?p mod 16 = 0"
    proof -
      have "end_size r mod 16 = length (cb_buf r) mod 16" using assms(5) pe(1) by simp
      then show ?thesis using pad_full [of "length (cb_buf r)"] unfolding m_def by simp
    qed
    have br: "buf_read sz (cb_buf r) = (cb_buf r @ replicate (sz - ?B) 0, ?B, [])" using B by (simp add: buf_read_def)
    have "length ?p \<le> length data" using B(1) m(2) assms(3) by simp
    note c = CryptBlocks_ok [where step = encrypt_block and bm = "cb_mode r", OF ok(4,1,5) l this]
    have p: "padded r = ?p" by (simp add: padded_def pe m_def Let_def)
    have e: "cbc_encrypt_end data r = Some (cbc_all (encrypt_block (bm_crypt (cb_mode r))) (bm_iv (cb_mode r)) ?p @ drop (length ?p) data,
        length ?p, Some AtEOF, r\<lparr>cb_buf := [], cb_mode := (cb_mode r)\<lparr>bm_iv := snd (cbc_blocks (encrypt_block (bm_crypt (cb_mode r))) 16 (length ?p div 16) (bm_iv (cb_mode r)) ?p)\<rparr>\<rparr>)"
      unfolding cbc_encrypt_end_def ok(1) sz_def [symmetric] br using c(1) pad m(1) by (simp add: Let_def)
    show ?thesis unfolding rd p by (rule disjI2, intro exI conjI, rule e) (simp add: c(2))
  qed
qed

lemma moves_on_rest:
  assumes "moves_on step data r k data' r'"
  shows "cbc_all (step (bm_crypt (cb_mode r))) (bm_iv (cb_mode r)) (pending r @ t) =
    take (16 * k) data' @ cbc_all (step (bm_crypt (cb_mode r'))) (bm_iv (cb_mode r')) (pending r' @ t)"
proof -
  let ?o = "take (16 * k) (pending r)"
  have l: "length ?o = 16 * k" using assms by (simp add: moves_on_def Let_def)
  then have m: "length ?o mod 16 = 0" "length ?o div 16 = k" by simp_all
  have "pending r @ t = ?o @ (drop (16 * k) (pending r) @ t)" by simp
  then have "cbc_all (step (bm_crypt (cb_mode r))) (bm_iv (cb_mode r)) (pending r @ t) =
      cbc_all (step (bm_crypt (cb_mode r))) (bm_iv (cb_mode r)) (?o @ (drop (16 * k) (pending r) @ t))" by (rule arg_cong)
  also note cbc_all_append [OF m(1)]
  finally show ?thesis using assms unfolding m(2) by (simp add: moves_on_def Let_def)
qed

theorem encrypt_stream:
  assumes "reader_ok encrypt_block r" and "32 \<le> length data" and "length data mod 16 = 0"
    and "end_size r mod 16 = length (pending r) mod 16"
  shows "read_all cbc_encrypt_Read data r = Some (cbc_all (encrypt_block (bm_crypt (cb_mode r))) (bm_iv (cb_mode r)) (padded r), None)"
  using assms
proof (induction "reads_left r" arbitrary: r data rule: less_induct)
  case less
  have again: ?case if rd: "cbc_encrypt_Read data r = Some (data', 16 * k, None, r')" and mv: "moves_on encrypt_block data r k data' r'"
      and es: "end_size r' = end_size r" for k data' r'
  proof -
    have r': "reads_left r' < reads_left r" "reader_ok encrypt_block r'" "length data' = length data" "end_size r' = end_size r"
      "length (pending r') = length (pending r) - 16 * k" "16 * k \<le> length (pending r)" using mv es by (simp_all add: moves_on_def Let_def)
    have "(length (pending r) - 16 * k) mod 16 = length (pending r) mod 16" using r'(6) by (metis le_add_diff_inverse2 mod_mult_self2)
    then have "end_size r' mod 16 = length (pending r') mod 16" using less.prems(4) r'(4,5) by simp
    from less.hyps [OF r'(1,2) _ _ this, of data'] less.prems(2,3) r'(3)
    have "read_all cbc_encrypt_Read data' r' = Some (cbc_all (encrypt_block (bm_crypt (cb_mode r'))) (bm_iv (cb_mode r')) (padded r'), None)" by simp
    then show ?thesis
      using rd moves_on_rest [OF mv] r'(4) by (subst read_all.simps) (simp add: padded_def Let_def)
  qed
  have l16: "16 \<le> length data" using less.prems(2) by simp
  show ?case
  proof (cases "so_bytes (cb_src r) = []")
    case True
    from encrypt_ends [OF less.prems(1) True less.prems(2-4)] again show ?thesis
      by (auto simp: read_all.simps [of _ data r])
  next
    case False
    from encrypt_reads [OF less.prems(1) False l16] again show ?thesis by blast
  qed
qed

section \<open>A stream that is decrypted\<close>

text \<open>The first bytes come as at least one block: the source has no short read while nothing is buffered.\<close>

definition no_short_read :: "cbc_reader \<Rightarrow> bool" where
  "no_short_read r \<longleftrightarrow> 16 \<le> length (cb_buf r) \<or> cb_buf r = [] \<and> (\<forall>k \<in> set (so_sizes (cb_src r)). 16 \<le> k)"

lemma decrypt_reads:
  assumes "reader_ok decrypt_block r" and "so_bytes (cb_src r) \<noteq> []" and "32 \<le> length data" and "no_short_read r"
    and "length (pending r) mod 16 = 0"
  shows "\<exists>k data' r'. cbc_decrypt_Read data r = Some (data', 16 * k, None, r') \<and> moves_on decrypt_block data r k data' r' \<and> 16 \<le> length (cb_buf r')"
proof -
  have dne: "data \<noteq> []" using assms(3) by auto
  define n where "n = min (length data) (min (length (so_bytes (cb_src r))) (case so_sizes (cb_src r) of [] \<Rightarrow> length data | k # _ \<Rightarrow> k))"
  have s: "source_Read data (cb_src r) = (take n (so_bytes (cb_src r)) @ drop n data, n, None,
      (cb_src r)\<lparr>so_bytes := drop n (so_bytes (cb_src r)), so_sizes := tl (so_sizes (cb_src r))\<rparr>)"
    using assms(2) by (simp add: source_Read_def n_def Let_def)
  have n: "n \<le> length data" "n \<le> length (so_bytes (cb_src r))" by (simp_all add: n_def)
  have n0: "n > 0 \<or> so_sizes (cb_src r) \<noteq> []" using assms(2) dne by (simp add: n_def split: list.splits)
  define data1 where "data1 = take n (so_bytes (cb_src r)) @ drop n data"
  define r1 where "r1 = r\<lparr>cb_src := (cb_src r)\<lparr>so_bytes := drop n (so_bytes (cb_src r)), so_sizes := tl (so_sizes (cb_src r))\<rparr>,
    cb_buf := cb_buf r @ take n (so_bytes (cb_src r))\<rparr>"
  have l1: "length data1 = length data" using n by (simp add: data1_def)
  have r1: "cb_mode r1 = cb_mode r" "cb_padder r1 = cb_padder r" "so_end (cb_src r1) = None" "pending r1 = pending r"
    using assms(1) n by (auto simp: r1_def reader_ok_def pending_def)
  have less: "reads_left r1 < reads_left r"
    using n n0 by (cases "so_sizes (cb_src r)") (simp_all add: r1_def reads_left_def)
  have bs: "bm_size (cb_mode r) = 16" using assms(1) by (simp add: reader_ok_def)
  have t: "take n data1 = take n (so_bytes (cb_src r))" using n by (simp add: data1_def)
  have rd: "cbc_decrypt_Read data r = cbc_decrypt_more data1 n r1"
    unfolding cbc_decrypt_Read_def s prod.case Let_def data1_def [symmetric] t by (simp add: r1_def)
  have buf: "16 \<le> length (cb_buf r1)"
  proof (cases "16 \<le> length (cb_buf r)")
    case False
    with assms(4) have e: "cb_buf r = []" "\<forall>k \<in> set (so_sizes (cb_src r)). 16 \<le> k" by (simp_all add: no_short_read_def)
    then have "length (so_bytes (cb_src r)) mod 16 = 0" using assms(5) by (simp add: pending_def)
    then have "16 \<le> length (so_bytes (cb_src r))" using assms(2) by (metis dvd_imp_le length_greater_0_conv mod_eq_0_iff_dvd)
    then have "16 \<le> n" using e(2) assms(3) by (simp add: n_def split: list.splits)
    then show ?thesis using n by (simp add: r1_def)
  qed (simp add: r1_def)
  define k where "k = nat (int (if length (cb_buf r1) > length data then length data div 16 else length (cb_buf r1) div 16) - 16)"
  have k: "16 * k \<le> length (cb_buf r1)" "16 * k \<le> length data1" "0 < k \<Longrightarrow> 16 * k + 16 \<le> length (cb_buf r1)"
    unfolding k_def l1 by (auto split: if_splits)
  show ?thesis
  proof (cases "0 < k")
    case True
    have "\<exists>data'' bm. CryptBlocks decrypt_block (cb_mode r1) data1 (take (16 * k) (cb_buf r1)) = Some (data'', bm) \<and>
        moves_on decrypt_block data r k data'' (r1\<lparr>cb_buf := drop (16 * k) (cb_buf r1), cb_mode := bm\<rparr>)"
      using r1(4) less by (intro crypt_moves_on [OF assms(1) r1(1,2,3) _ k(1,2) l1]) (simp_all add: pending_def)
    moreover have "16 \<le> length (drop (16 * k) (cb_buf r1))" using k(3) [OF True] by simp
    ultimately show ?thesis
      unfolding rd cbc_decrypt_more_def Let_def r1(1) bs l1 k_def [symmetric] using buf True k(1)
      by (fastforce simp: buf_read_full mult.commute [of _ 16] k_def)
  next
    case False
    then have "cbc_decrypt_more data1 n r1 = Some (data1, 0, None, r1)"
      using buf by (cases "length (cb_buf r1) > length data") (simp_all add: cbc_decrypt_more_def Let_def r1(1) bs l1 k_def)
    moreover have "moves_on decrypt_block data r 0 data1 r1"
      using r1 less l1 assms(1) by (intro moves_on_none) (simp_all add: reader_ok_def)
    ultimately show ?thesis unfolding rd using buf by fastforce
  qed
qed

text \<open>The last block decides.\<close>

definition unpadded :: "byte list \<Rightarrow> byte list \<times> goerror option" where
  "unpadded p = (case pkcs7_Unpad (drop (length p - 16) p) of
     Inr b \<Rightarrow> (take (length p - 16) p @ b, None) | Inl e \<Rightarrow> (take (length p - 16) p, Some e))"

lemma unpadded_append: "16 \<le> length p \<Longrightarrow> unpadded (q @ p) = map_prod ((@) q) id (unpadded p)"
  by (simp add: unpadded_def split: sum.splits)

lemma decrypt_ends:
  assumes "reader_ok decrypt_block r" and "so_bytes (cb_src r) = []" and "32 \<le> length data" and "length data mod 16 = 0"
    and "length (pending r) mod 16 = 0" and "pending r \<noteq> []"
  shows "(\<exists>k data' r'. cbc_decrypt_Read data r = Some (data', 16 * k, None, r') \<and> moves_on decrypt_block data r k data' r' \<and> 16 \<le> length (cb_buf r')) \<or>
    (\<exists>data' n err r'. cbc_decrypt_Read data r = Some (data', n, Some err, r') \<and>
      (take n data', case err of AtEOF \<Rightarrow> None | ReadFails e \<Rightarrow> Some e) =
        unpadded (cbc_all (decrypt_block (bm_crypt (cb_mode r))) (bm_iv (cb_mode r)) (pending r)))"
proof -
  let ?B = "length (cb_buf r)"
  define sz where "sz = getSliceSize 16 ?B (length data)"
  note sz = slice_size [OF assms(3,4), of ?B, folded sz_def]
  have ok: "bm_size (cb_mode r) = 16" "so_end (cb_src r) = None" "cb_padder r = AESCBCPadder"
    "step_ok (decrypt_block (bm_crypt (cb_mode r)))" "block (bm_iv (cb_mode r))" using assms(1) by (simp_all add: reader_ok_def)
  have src: "source_Read data (cb_src r) = (data, 0, Some AtEOF, cb_src r)" using assms(2) ok(2) by (simp add: source_Read_def)
  have rd: "cbc_decrypt_Read data r = cbc_decrypt_end data r" by (simp add: cbc_decrypt_Read_def src)
  have pe: "pending r = cb_buf r" using assms(2) by (simp add: pending_def)
  show ?thesis
  proof (cases "sz < ?B")
    case True
    define k where "k = sz div 16"
    have k: "sz = 16 * k" "k > 0" using sz(1,2) by (auto simp: k_def)
    have "\<exists>data'' bm. CryptBlocks decrypt_block (cb_mode r) data (take (16 * k) (cb_buf r)) = Some (data'', bm) \<and>
        moves_on decrypt_block data r k data'' (r\<lparr>cb_buf := drop (16 * k) (cb_buf r), cb_mode := bm\<rparr>)"
      using True sz(3) k assms(1) ok(2) by (intro crypt_moves_on) (simp_all add: pending_def)
    moreover have "drop (16 * k) (cb_buf r) \<noteq> []" using True k by simp
    moreover have "16 \<le> length (drop (16 * k) (cb_buf r))"
    proof -
      have "(?B - 16 * k) mod 16 = 0" "0 < ?B - 16 * k" using assms(5) pe True k by (auto simp: mod_eq_0_iff_dvd)
      then show ?thesis by (simp add: mod_eq_0_iff_dvd dvd_imp_le)
    qed
    ultimately show ?thesis
      unfolding rd cbc_decrypt_end_def ok(1) sz_def [symmetric] using True k by (fastforce simp: buf_read_full Let_def)
  next
    case False
    then have "?B \<le> 16" "sz = 16" using sz(4) by simp_all
    moreover have "16 \<le> ?B" using assms(5,6) pe by (metis dvd_imp_le length_greater_0_conv mod_eq_0_iff_dvd)
    ultimately have B: "?B = 16" "sz = 16" by simp_all
    let ?o = "cbc_all (decrypt_block (bm_crypt (cb_mode r))) (bm_iv (cb_mode r)) (cb_buf r)"
    have br: "buf_read sz (cb_buf r) = (cb_buf r, 16, [])" using B by (simp add: buf_read_def)
    have "length (cb_buf r) mod 16 = 0" "length (cb_buf r) \<le> length data" using B(1) assms(3) by simp_all
    note c = CryptBlocks_ok [where step = decrypt_block and bm = "cb_mode r", OF ok(4,1,5) this]
    have lo: "length ?o = 16" using c(2) B(1) by simp
    have pad: "pa_Unpad (cb_padder r) = pkcs7_Unpad" by (simp add: ok(3) AESCBCPadder_def)
    show ?thesis
    proof (cases "pkcs7_Unpad ?o")
      case (Inl err)
      then have "unpadded ?o = ([], Some err)" using lo by (simp add: unpadded_def)
      then show ?thesis unfolding rd cbc_decrypt_end_def ok(1) sz_def [symmetric] br using c(1) lo B(1) Inl
        by (intro disjI2) (simp add: Let_def pad pe)
    next
      case (Inr b)
      then have un: "unpadded ?o = (b, None)" using lo by (simp add: unpadded_def)
      have "b = take (length b) ?o" using Inr unfolding Unpad_plain plain_Unpad_def by (auto split: if_splits)
      moreover have "length b \<le> 16" using Inr lo unfolding Unpad_plain plain_Unpad_def by (auto split: if_splits)
      ultimately have "take (length b) (?o @ drop 16 data) = b" using lo by simp
      then show ?thesis unfolding rd cbc_decrypt_end_def ok(1) sz_def [symmetric] br using c(1) lo B(1) Inr un
        by (intro disjI2) (simp add: Let_def pad pe)
    qed
  qed
qed

theorem decrypt_stream:
  assumes "reader_ok decrypt_block r" and "32 \<le> length data" and "length data mod 16 = 0" and "no_short_read r"
    and "length (pending r) mod 16 = 0" and "pending r \<noteq> []"
  shows "read_all cbc_decrypt_Read data r = Some (unpadded (cbc_all (decrypt_block (bm_crypt (cb_mode r))) (bm_iv (cb_mode r)) (pending r)))"
  using assms
proof (induction "reads_left r" arbitrary: r data rule: less_induct)
  case less
  have again: ?case if rd: "cbc_decrypt_Read data r = Some (data', 16 * k, None, r')" and mv: "moves_on decrypt_block data r k data' r'"
      and b: "16 \<le> length (cb_buf r')" for k data' r'
  proof -
    let ?P = "cbc_all (decrypt_block (bm_crypt (cb_mode r'))) (bm_iv (cb_mode r')) (pending r')"
    have r': "reads_left r' < reads_left r" "reader_ok decrypt_block r'" "length data' = length data"
      "length (pending r') = length (pending r) - 16 * k" "16 * k \<le> length (pending r)" using mv by (simp_all add: moves_on_def Let_def)
    have m: "length (pending r') mod 16 = 0" using r'(4,5) less.prems(5) by (simp add: mod_eq_0_iff_dvd)
    have l: "16 \<le> length (pending r')" using b by (simp add: pending_def)
    then have ne: "pending r' \<noteq> []" by auto
    have "no_short_read r'" using b by (simp add: no_short_read_def)
    from less.hyps [OF r'(1,2) _ _ this m ne, of data'] less.prems(2,3) r'(3)
    have IH: "read_all cbc_decrypt_Read data' r' = Some (unpadded ?P)" by simp
    have "length (pending r') = 16 * (length (pending r') div 16)" using m by auto
    with cbc_length [of "decrypt_block (bm_crypt (cb_mode r'))" "bm_iv (cb_mode r')"] r'(2)
    have "length ?P = length (pending r')" by (simp add: reader_ok_def cbc_all_def)
    then have "unpadded (take (16 * k) data' @ ?P) = map_prod ((@) (take (16 * k) data')) id (unpadded ?P)" using l by (intro unpadded_append) simp
    then show ?thesis
      using rd IH moves_on_rest [OF mv, of "[]"] by (subst read_all.simps) (simp add: map_prod_def split_def)
  qed
  show ?case
  proof (cases "so_bytes (cb_src r) = []")
    case True
    from decrypt_ends [OF less.prems(1) True less.prems(2,3,5,6)] again show ?thesis
      by (auto simp: read_all.simps [of _ data r])
  next
    case False
    from decrypt_reads [OF less.prems(1) False less.prems(2,4,5)] again show ?thesis by blast
  qed
qed

section \<open>From text to text\<close>

definition aes_ok :: "crypto \<Rightarrow> byte list \<Rightarrow> bool" where
  "aes_ok cy key \<longleftrightarrow> (\<forall>b. length b = 16 \<longrightarrow> length (cy_encrypt cy key b) = 16 \<and> length (cy_decrypt cy key b) = 16 \<and>
     cy_decrypt cy key (cy_encrypt cy key b) = b)"

definition ciphertext :: "crypto \<Rightarrow> byte list \<Rightarrow> byte list \<Rightarrow> byte list \<Rightarrow> byte list" where
  "ciphertext cy key iv text = (let m = 16 - length text mod 16 in
     cbc_all (encrypt_block (cy_encrypt cy key)) iv (text @ replicate m (word_of_nat m)))"

lemma cbc_encrypts:
  assumes "aes_ok cy key" and "block iv" and "32 \<le> length data" and "length data mod 16 = 0"
  shows "read_all cbc_encrypt_Read data (cbc_Encrypt cy key iv AESCBCPadder \<lparr>so_bytes = text, so_sizes = ks, so_end = None\<rparr>) =
    Some (ciphertext cy key iv text, None)"
proof -
  let ?r = "cbc_Encrypt cy key iv AESCBCPadder \<lparr>so_bytes = text, so_sizes = ks, so_end = None\<rparr>"
  have "step_ok (encrypt_block (cy_encrypt cy key))" by (rule encrypt_step_ok) (use assms(1) in \<open>simp add: aes_ok_def\<close>)
  then have "reader_ok encrypt_block ?r" using assms(2) by (simp add: reader_ok_def cbc_Encrypt_def)
  moreover have "end_size ?r = length text" "pending ?r = text" by (simp_all add: end_size_def pending_def cbc_Encrypt_def)
  ultimately show ?thesis
    using encrypt_stream [of ?r data] assms(3,4) by (simp add: padded_def ciphertext_def Let_def) (simp add: cbc_Encrypt_def)
qed

lemma cbc_decrypts:
  assumes "aes_ok cy key" and "block iv" and "32 \<le> length data" and "length data mod 16 = 0" and "\<forall>k \<in> set ks. 16 \<le> k"
  shows "read_all cbc_decrypt_Read data (cbc_Decrypt cy key iv AESCBCPadder
    \<lparr>so_bytes = ciphertext cy key iv text, so_sizes = ks, so_end = None\<rparr>) = Some (text, None)"
proof -
  let ?c = "ciphertext cy key iv text"
  let ?r = "cbc_Decrypt cy key iv AESCBCPadder \<lparr>so_bytes = ?c, so_sizes = ks, so_end = None\<rparr>"
  define m where "m = 16 - length text mod 16"
  let ?p = "text @ replicate m (word_of_nat m) :: byte list"
  have m: "1 \<le> m" "m \<le> 16" by (simp_all add: m_def Suc_leI)
  have lp: "length ?p mod 16 = 0" using pad_full [of "length text"] by (simp add: m_def)
  have enc: "step_ok (encrypt_block (cy_encrypt cy key))" by (rule encrypt_step_ok) (use assms(1) in \<open>simp add: aes_ok_def\<close>)
  have "length ?p = 16 * (length ?p div 16)" using lp by auto
  from cbc_length [OF enc assms(2) this] have lc: "length ?c = length ?p"
    unfolding ciphertext_def Let_def m_def [symmetric] cbc_all_def using lp by auto
  have "step_ok (decrypt_block (cy_decrypt cy key))" by (rule decrypt_step_ok) (use assms(1) in \<open>simp add: aes_ok_def\<close>)
  then have "reader_ok decrypt_block ?r" using assms(2) by (simp add: reader_ok_def cbc_Decrypt_def)
  moreover have pe: "pending ?r = ?c" by (simp add: pending_def cbc_Decrypt_def)
  moreover have "no_short_read ?r" using assms(5) by (simp add: no_short_read_def cbc_Decrypt_def)
  moreover have "length (pending ?r) mod 16 = 0" unfolding pe lc by (rule lp)
  moreover have "pending ?r \<noteq> []"
  proof -
    have "0 < length ?c" unfolding lc using m(1) by simp
    then show ?thesis unfolding pe by simp
  qed
  ultimately have "read_all cbc_decrypt_Read data ?r = Some (unpadded (cbc_all (decrypt_block (cy_decrypt cy key)) iv ?c))"
    using decrypt_stream [of ?r data] assms(3,4) by (simp add: cbc_Decrypt_def)
  also have "cbc_all (decrypt_block (cy_decrypt cy key)) iv ?c = ?p"
    unfolding ciphertext_def Let_def m_def [symmetric] using assms(1) by (intro cbc_all_inverse [OF _ assms(2) lp]) (simp add: aes_ok_def)
  also have "unpadded ?p = (text, None)"
  proof -
    have "pkcs7_Pad 16 text (length text) = Inr ?p"
      by (simp add: pkcs7_Pad_def pkcs7MaxPaddingSize_def m_def Let_def)
    moreover have "length ?p - 16 \<le> length text" using m by simp
    ultimately have "pkcs7_Unpad (drop (length ?p - 16) ?p) = Inr (drop (length ?p - 16) text)" by (rule Unpad_Pad)
    moreover have "take (length ?p - 16) ?p = take (length ?p - 16) text" using m by simp
    ultimately show ?thesis unfolding unpadded_def by simp
  qed
  finally show ?thesis .
qed

text \<open>A first read of less than a block: its bytes are returned as they came.\<close>

lemma short_read_not_decrypted:
  assumes "0 < n" and "n < 16" and "n \<le> length c" and "n \<le> length data"
  shows "\<exists>data' r'. cbc_decrypt_Read data (cbc_Decrypt cy key iv padder \<lparr>so_bytes = c, so_sizes = n # ks, so_end = None\<rparr>) =
    Some (data', n, None, r') \<and> take n data' = take n c"
proof -
  have "c \<noteq> []" using assms(1,3) by auto
  then show ?thesis
    using assms by (simp add: cbc_decrypt_Read_def cbc_Decrypt_def source_Read_def Let_def cbc_decrypt_more_def min_absorb1 min_absorb2)
qed

text \<open>A buffer of less than a block: the second read returns text as it is.\<close>

lemma small_buffer_not_encrypted:
  assumes "length data < 16" and "16 \<le> length buf + length data" and "length data \<le> length text" and "data \<noteq> []"
    and "bm_size (cb_mode r) = 16" and "cb_buf r = buf" and "cb_src r = \<lparr>so_bytes = text, so_sizes = [], so_end = None\<rparr>"
  shows "\<exists>data' r'. cbc_encrypt_Read data r = Some (data', length data, None, r') \<and> take (length data) data' = take (length data) text"
proof -
  have "text \<noteq> []" using assms(3,4) by auto
  then show ?thesis
    using assms by (simp add: cbc_encrypt_Read_def source_Read_def Let_def cbc_encrypt_more_def min_absorb1 min_absorb2)
qed

text \<open>The authenticated cipher, read through a buffer of any size.\<close>

lemma buffer_reads:
  assumes "data \<noteq> []" and "gr_buf r = Some buf"
  shows "read_all (gcm_Read crypt) data r = Some (buf, None)"
  using assms
proof (induction "length buf" arbitrary: buf r data rule: less_induct)
  case less
  show ?case
  proof (cases "buf = []")
    case True
    with less.prems show ?thesis by (subst read_all.simps) (simp add: gcm_Read_def buffer_Read_def Let_def)
  next
    case False
    define n where "n = min (length data) (length buf)"
    have n: "0 < n" "n \<le> length data" "n \<le> length buf" using False less.prems(1) by (simp_all add: n_def)
    let ?d = "take n buf @ drop n data" and ?r = "r\<lparr>gr_buf := Some (drop n buf)\<rparr>"
    have "gcm_Read crypt data r = Some (?d, n, None, ?r)"
      using less.prems(2) False by (simp add: gcm_Read_def buffer_Read_def Let_def n_def)
    moreover have "read_all (gcm_Read crypt) ?d ?r = Some (drop n buf, None)"
      using n less.prems(1) False by (intro less.hyps) auto
    ultimately show ?thesis using n by (subst read_all.simps) (simp add: min_absorb2)
  qed
qed

lemma gcm_reads:
  assumes "data \<noteq> []" and "gr_buf r = None" and "so_end (gr_src r) = None" and "crypt (gr_aead r) (gr_nonce r) (so_bytes (gr_src r)) = Inr out"
    and "length (gr_nonce r) = 12"
  shows "read_all (gcm_Read crypt) data r = Some (out, None)"
proof -
  have "gcm_Read crypt data r = gcm_Read crypt data (r\<lparr>gr_buf := Some out\<rparr>)"
    using assms(2-5) by (simp add: gcm_Read_def source_ReadAll_def gcmStandardNonceSize_def)
  then have "read_all (gcm_Read crypt) data r = read_all (gcm_Read crypt) data (r\<lparr>gr_buf := Some out\<rparr>)"
    by (simp only: read_all.simps [of _ data])
  also have "\<dots> = Some (out, None)" by (rule buffer_reads) (simp_all add: assms(1))
  finally show ?thesis .
qed

end
