(* ===== verification/S3CryptoClient.thy ===== *)
theory S3CryptoClient
  imports S3Crypto S3CipherRuns
begin

text \<open>
  The registry of algorithms, \<open>crypto_registry.go\<close>, and the clients, \<open>shared_client.go\<close>,
  \<open>encryption_client.go\<close>, \<open>decryption_client.go\<close> and their second versions: the handler that encrypts
  the body of a put when the request is built, and the one that decrypts the body of a response.
\<close>

section \<open>The registry\<close>

text \<open>A map of the registry: \<open>None\<close> is nil, as is an entry \<open>None\<close>.\<close>

type_synonym 'e entries = "(string \<times> 'e option) list option"

record 'w CryptoRegistry =
  cr_wrap :: "'w WrapEntry entries"
  cr_cek :: "CEKEntry entries"
  cr_padder :: "Padder entries"

definition NewCryptoRegistry :: "'w CryptoRegistry" where
  "NewCryptoRegistry = \<lparr>cr_wrap = Some [], cr_cek = Some [], cr_padder = Some []\<rparr>"

definition initCryptoRegistryFrom :: "'w WrapEntry entries \<Rightarrow> CEKEntry entries \<Rightarrow> Padder entries \<Rightarrow> 'w CryptoRegistry" where
  "initCryptoRegistryFrom wrapRegistry cekRegistry padderRegistry = \<lparr>cr_wrap = wrapRegistry, cr_cek = cekRegistry, cr_padder = padderRegistry\<rparr>"

definition newErrDuplicateRegistryEntry :: "string \<Rightarrow> string \<Rightarrow> goerror" where
  "newErrDuplicateRegistryEntry registry key = PlainError (''duplicate '' @ registry @ '' registry entry, '' @ key)"

text \<open>The methods of the three maps differ in the map, the error for nil and the kind in the other error: the
  entry and whether the name is there, the outcome of an addition (\<open>None\<close>: a write to a nil map), and the
  removed entry with the map that is left.\<close>

definition entry_get :: "'e entries \<Rightarrow> string \<Rightarrow> 'e option \<times> bool" where
  "entry_get es name = (case es of None \<Rightarrow> (None, False)
     | Some l \<Rightarrow> (case map_of l name of None \<Rightarrow> (None, False) | Some entry \<Rightarrow> (entry, True)))"

definition entry_add :: "goerror \<Rightarrow> string \<Rightarrow> string \<Rightarrow> 'e option \<Rightarrow> 'e entries \<Rightarrow> (goerror option \<times> 'e entries) option" where
  "entry_add errNil kind name entry es =
     (case entry of
        None \<Rightarrow> Some (Some errNil, es)
      | Some e \<Rightarrow>
          if snd (entry_get es name) then Some (Some (newErrDuplicateRegistryEntry kind name), es)
          else map_option (\<lambda>l. (None, Some (AList.update name (Some e) l))) es)"

definition entry_remove :: "string \<Rightarrow> 'e entries \<Rightarrow> ('e option \<times> bool) \<times> 'e entries" where
  "entry_remove name es = (entry_get es name, map_option (AList.delete name) es)"

definition GetWrap :: "'w CryptoRegistry \<Rightarrow> string \<Rightarrow> 'w WrapEntry option \<times> bool" where
  "GetWrap c name = entry_get (cr_wrap c) name"

definition AddWrap :: "string \<Rightarrow> 'w WrapEntry option \<Rightarrow> 'w CryptoRegistry \<Rightarrow> (goerror option \<times> 'w CryptoRegistry) option" where
  "AddWrap name entry c = map_option (\<lambda>(err, es). (err, c\<lparr>cr_wrap := es\<rparr>)) (entry_add (PlainError ''wrap entry must not be nil'') ''wrap'' name entry (cr_wrap c))"

definition RemoveWrap :: "string \<Rightarrow> 'w CryptoRegistry \<Rightarrow> ('w WrapEntry option \<times> bool) \<times> 'w CryptoRegistry" where
  "RemoveWrap name c = (case entry_remove name (cr_wrap c) of (r, es) \<Rightarrow> (r, c\<lparr>cr_wrap := es\<rparr>))"

definition GetCEK :: "'w CryptoRegistry \<Rightarrow> string \<Rightarrow> CEKEntry option \<times> bool" where
  "GetCEK c name = entry_get (cr_cek c) name"

definition AddCEK :: "string \<Rightarrow> CEKEntry option \<Rightarrow> 'w CryptoRegistry \<Rightarrow> (goerror option \<times> 'w CryptoRegistry) option" where
  "AddCEK name entry c = map_option (\<lambda>(err, es). (err, c\<lparr>cr_cek := es\<rparr>)) (entry_add (PlainError ''cek entry must not be nil'') ''cek'' name entry (cr_cek c))"

definition RemoveCEK :: "string \<Rightarrow> 'w CryptoRegistry \<Rightarrow> (CEKEntry option \<times> bool) \<times> 'w CryptoRegistry" where
  "RemoveCEK name c = (case entry_remove name (cr_cek c) of (r, es) \<Rightarrow> (r, c\<lparr>cr_cek := es\<rparr>))"

definition GetPadder :: "'w CryptoRegistry \<Rightarrow> string \<Rightarrow> Padder option \<times> bool" where
  "GetPadder c name = entry_get (cr_padder c) name"

definition AddPadder :: "string \<Rightarrow> Padder option \<Rightarrow> 'w CryptoRegistry \<Rightarrow> (goerror option \<times> 'w CryptoRegistry) option" where
  "AddPadder name entry c = map_option (\<lambda>(err, es). (err, c\<lparr>cr_padder := es\<rparr>)) (entry_add (PlainError ''padder must not be nil'') ''padder'' name entry (cr_padder c))"

definition RemovePadder :: "string \<Rightarrow> 'w CryptoRegistry \<Rightarrow> (Padder option \<times> bool) \<times> 'w CryptoRegistry" where
  "RemovePadder name c = (case entry_remove name (cr_padder c) of (r, es) \<Rightarrow> (r, c\<lparr>cr_padder := es\<rparr>))"

definition entry_count :: "'e entries \<Rightarrow> nat" where
  "entry_count es = (case es of None \<Rightarrow> 0 | Some l \<Rightarrow> length l)"

definition registry_valid :: "'w CryptoRegistry \<Rightarrow> goerror option" where
  "registry_valid c =
     (if entry_count (cr_wrap c) = 0 then Some (PlainError ''at least one key wrapping algorithms must be provided'')
      else if entry_count (cr_cek c) = 0 then Some (PlainError ''at least one content decryption algorithms must be provided'')
      else None)"

text \<open>The functions that register what the SDK has; a nil registry is \<open>None\<close>.\<close>

definition errNilCryptoRegistry :: goerror where
  "errNilCryptoRegistry = PlainError ''provided CryptoRegistry must not be nil''"

definition with_registry :: "('w CryptoRegistry \<Rightarrow> (goerror option \<times> 'w CryptoRegistry) option) \<Rightarrow> 'w CryptoRegistry option \<Rightarrow>
    (goerror option \<times> 'w CryptoRegistry option) option" where
  "with_registry f registry = (case registry of
     None \<Rightarrow> Some (Some errNilCryptoRegistry, None)
   | Some c \<Rightarrow> map_option (\<lambda>(err, c). (err, Some c)) (f c))"

definition RegisterKMSWrapWithCMK :: "'w crypto_env \<Rightarrow> 'w kms_client \<Rightarrow> string \<Rightarrow> 'w CryptoRegistry option \<Rightarrow> (goerror option \<times> 'w CryptoRegistry option) option" where
  "RegisterKMSWrapWithCMK env client cmkID = with_registry (AddWrap KMSWrap (Some (newKMSWrapEntryWithCMK env client cmkID)))"

definition RegisterKMSWrapWithAnyCMK :: "'w crypto_env \<Rightarrow> 'w kms_client \<Rightarrow> 'w CryptoRegistry option \<Rightarrow> (goerror option \<times> 'w CryptoRegistry option) option" where
  "RegisterKMSWrapWithAnyCMK env client = with_registry (AddWrap KMSWrap (Some (NewKMSWrapEntry env client)))"

definition RegisterKMSContextWrapWithCMK :: "'w crypto_env \<Rightarrow> 'w kms_client \<Rightarrow> string \<Rightarrow> 'w CryptoRegistry option \<Rightarrow> (goerror option \<times> 'w CryptoRegistry option) option" where
  "RegisterKMSContextWrapWithCMK env client cmkID = with_registry (AddWrap KMSContextWrap (Some (newKMSContextWrapEntryWithCMK env client cmkID)))"

definition RegisterKMSContextWrapWithAnyCMK :: "'w crypto_env \<Rightarrow> 'w kms_client \<Rightarrow> 'w CryptoRegistry option \<Rightarrow> (goerror option \<times> 'w CryptoRegistry option) option" where
  "RegisterKMSContextWrapWithAnyCMK env client = with_registry (AddWrap KMSContextWrap (Some (newKMSContextWrapEntryWithAnyCMK env client)))"

definition RegisterAESCBCContentCipher :: "Padder \<Rightarrow> 'w CryptoRegistry option \<Rightarrow> (goerror option \<times> 'w CryptoRegistry option) option" where
  "RegisterAESCBCContentCipher padder = with_registry (\<lambda>c.
     let name = AESCBC @ ''/'' @ pa_Name padder in
     case AddCEK name (Some newAESCBCContentCipher) c of
       None \<Rightarrow> None
     | Some (Some err, c) \<Rightarrow> Some (Some err, c)
     | Some (None, c) \<Rightarrow> AddPadder name (Some padder) c)"

text \<open>\<open>v.(noPadder)\<close>: the padder of the SDK that is called so.\<close>

definition RegisterAESGCMContentCipher :: "(Padder option \<Rightarrow> bool) \<Rightarrow> 'w CryptoRegistry option \<Rightarrow> (goerror option \<times> 'w CryptoRegistry option) option" where
  "RegisterAESGCMContentCipher is_noPadder = with_registry (\<lambda>c.
     case AddCEK AESGCMNoPadding (Some newAESGCMContentCipher) c of
       None \<Rightarrow> None
     | Some (Some err, c) \<Rightarrow> Some (Some err, c)
     | Some (None, c) \<Rightarrow>
         let padderName = pa_Name NoPadder in
         (case GetPadder c padderName of (v, ok) \<Rightarrow>
            if \<not> ok then AddPadder padderName (Some NoPadder) c
            else if \<not> is_noPadder v then
              Some (Some (PlainError (padderName @ '' is already registred but does not match expected type s3crypto.noPadder'')), c)
            else Some (None, c)))"

section \<open>Decryption\<close>

definition wrapFromEnvelope :: "'w CryptoRegistry \<Rightarrow> Envelope \<Rightarrow> goerror + 'w decrypter" where
  "wrapFromEnvelope registry e =
     (case fst (GetWrap registry (en_WrapAlg e)) of
        None \<Rightarrow> Inl (awserr_New ''InvalidWrapAlgorithmError'' (''wrap algorithm isn't supported, '' @ en_WrapAlg e) None)
      | Some f \<Rightarrow> f e)"

text \<open>\<open>cekAlg[strings.LastIndex(cekAlg, "/")+1:]\<close>\<close>

definition after_last_slash :: "string \<Rightarrow> string" where
  "after_last_slash s = rev (takeWhile (\<lambda>c. c \<noteq> CHR ''/'') (rev s))"

definition getPadder :: "'w CryptoRegistry \<Rightarrow> string \<Rightarrow> Padder option" where
  "getPadder registry cekAlg =
     (case GetPadder registry cekAlg of (padder, ok) \<Rightarrow>
        if ok then padder
        else case GetPadder registry (after_last_slash cekAlg) of (padder, ok) \<Rightarrow> if ok then padder else Some NoPadder)"

definition errBase64 :: goerror where
  "errBase64 = PlainError ''illegal base64 data''"

definition cekFromEnvelope :: "'w CryptoRegistry \<Rightarrow> Envelope \<Rightarrow> 'w decrypter \<Rightarrow> 'w \<Rightarrow> ((goerror + ContentCipher) \<times> 'w) option" where
  "cekFromEnvelope registry e decrypter w =
     (case fst (GetCEK registry (en_CEKAlg e)) of
        None \<Rightarrow> Some (Inl (awserr_New ''InvalidCEKAlgorithmError'' (''cek algorithm isn't supported, '' @ en_CEKAlg e) None), w)
      | Some f \<Rightarrow>
          (case (Base64_DecodeString (en_CipherKey e), Base64_DecodeString (en_IV e)) of
             (Some key, Some iv) \<Rightarrow>
               (case decrypter key w of
                  (Inl err, w) \<Rightarrow> Some (Inl err, w)
                | (Inr key, w) \<Rightarrow>
                    map_option (\<lambda>r. (r, w)) (f (zero_CipherData\<lparr>cd_Key := key, cd_IV := iv, cd_CEKAlgorithm := en_CEKAlg e,
                      cd_Padder := getPadder registry (en_CEKAlg e)\<rparr>)))
           | _ \<Rightarrow> Some (Inl errBase64, w)))"

definition contentCipherFromEnvelope :: "'w CryptoRegistry \<Rightarrow> Envelope \<Rightarrow> 'w \<Rightarrow> ((goerror + ContentCipher) \<times> 'w) option" where
  "contentCipherFromEnvelope registry e w = (case wrapFromEnvelope registry e of
     Inl err \<Rightarrow> Some (Inl err, w) | Inr wrap \<Rightarrow> cekFromEnvelope registry e wrap w)"

text \<open>The handler of the response: its error, with which the body is closed, or the new body.\<close>

definition get_Unmarshal :: "'w crypto_env \<Rightarrow> 'w LoadStrategy \<Rightarrow> 'w CryptoRegistry \<Rightarrow> get_response \<Rightarrow> 'w \<Rightarrow> ((goerror + content_reader) \<times> 'w) option" where
  "get_Unmarshal env load registry r w =
     (case load r w of
        (Inl err, w) \<Rightarrow> Some (Inl err, w)
      | (Inr e, w) \<Rightarrow>
          (case contentCipherFromEnvelope registry e w of
             None \<Rightarrow> None
           | Some (Inl err, w) \<Rightarrow> Some (Inl err, w)
           | Some (Inr cipher, w) \<Rightarrow> map_option (\<lambda>rd. (Inr rd, w)) (DecryptContents (ce_crypto env) cipher (go_Body r))))"

section \<open>Encryption\<close>

text \<open>
  The handler of a put. The reader is copied through a buffer of \<open>io.Copy\<close>, 32 KB; the bytes counted by
  \<open>contentLengthReader\<close> are all of the source, which both ciphers read to its end before they end.
\<close>

definition copy_buffer :: "byte list" where
  "copy_buffer = replicate 32768 0"

definition put_encrypted :: "'w crypto_env \<Rightarrow> 'w SaveStrategy \<Rightarrow> ContentCipher \<Rightarrow> put_request \<Rightarrow> 'w \<Rightarrow> (put_request \<times> 'w) option" where
  "put_encrypted env save encryptor r w =
     (case EncryptContents (ce_crypto env) encryptor (pu_Body r) of
        None \<Rightarrow> None
      | Some reader \<Rightarrow>
          (case read_all content_Read copy_buffer reader of
             None \<Rightarrow> None
           | Some (out, Some err) \<Rightarrow> Some (r\<lparr>pu_Error := Some err\<rparr>, w)
           | Some (out, None) \<Rightarrow>
               (case encodeMeta env (int (length (so_bytes (pu_Body r)))) (GetCipherData encryptor) of
                  Inl err \<Rightarrow> Some (r\<lparr>pu_Error := Some err\<rparr>, w)
                | Inr e \<Rightarrow>
                    (let r = r\<lparr>pu_Header := Header_Set ''X-Amz-Content-Sha256'' (hexEncode (ce_sha256 env out)) (pu_Header r),
                               pu_Body := \<lparr>so_bytes = out, so_sizes = [], so_end = None\<rparr>\<rparr>
                     in case save e r w of (err, r, w) \<Rightarrow> Some (r\<lparr>pu_Error := err\<rparr>, w)))))"

definition put_Build :: "'w crypto_env \<Rightarrow> 'w SaveStrategy \<Rightarrow> 'w ContentCipherBuilder \<Rightarrow> put_request \<Rightarrow> 'w \<Rightarrow> (put_request \<times> 'w) option" where
  "put_Build env save builder r w =
     (case new_ContentCipher builder w of
        None \<Rightarrow> None
      | Some (Inl err, w) \<Rightarrow> Some (r\<lparr>pu_Error := Some err\<rparr>, w)
      | Some (Inr encryptor, w) \<Rightarrow> put_encrypted env save encryptor r w)"

section \<open>Clients\<close>

definition clientConstructionErrorCode :: string where
  "clientConstructionErrorCode = ''ClientConstructionError''"

text \<open>The first encryption client checks its builder in each call, the second when it is made.\<close>

definition validateV1EncryptionClientConstruction :: "'w ContentCipherBuilder \<Rightarrow> goerror option" where
  "validateV1EncryptionClientConstruction builder =
     map_option (\<lambda>err. awserr_New clientConstructionErrorCode ''invalid client configuration'' (Some err))
       (isEncryptionVersionCompatible builder v1ClientVersion)"

record 'w EncryptionClientOptions =
  eo_ContentCipherBuilder :: "'w ContentCipherBuilder"
  eo_SaveStrategy :: "'w SaveStrategy"

definition NewEncryptionClientV2 :: "'w ContentCipherBuilder \<Rightarrow> ('w EncryptionClientOptions \<Rightarrow> 'w EncryptionClientOptions) list \<Rightarrow> goerror + 'w EncryptionClientOptions" where
  "NewEncryptionClientV2 builder options =
     (let clientOptions = fold (\<lambda>option o'. option o') options \<lparr>eo_ContentCipherBuilder = builder, eo_SaveStrategy = HeaderV2_Save\<rparr>
      in case isEncryptionVersionCompatible builder v2ClientVersion of Some err \<Rightarrow> Inl err | None \<Rightarrow> Inr clientOptions)"

definition v1_PutObject :: "'w crypto_env \<Rightarrow> 'w EncryptionClientOptions \<Rightarrow> put_request \<Rightarrow> 'w \<Rightarrow> (put_request \<times> 'w) option" where
  "v1_PutObject env c r w =
     (case validateV1EncryptionClientConstruction (eo_ContentCipherBuilder c) of
        Some err \<Rightarrow> Some (r\<lparr>pu_Error := Some err\<rparr>, w)
      | None \<Rightarrow> put_Build env (eo_SaveStrategy c) (eo_ContentCipherBuilder c) r w)"

definition v2_PutObject :: "'w crypto_env \<Rightarrow> 'w EncryptionClientOptions \<Rightarrow> put_request \<Rightarrow> 'w \<Rightarrow> (put_request \<times> 'w) option" where
  "v2_PutObject env c r w = put_Build env (eo_SaveStrategy c) (eo_ContentCipherBuilder c) r w"

definition v1_registry :: "'w crypto_env \<Rightarrow> 'w kms_client \<Rightarrow> 'w CryptoRegistry" where
  "v1_registry env kmsClient = initCryptoRegistryFrom
     (Some [(KMSWrap, Some (NewKMSWrapEntry env kmsClient)), (KMSContextWrap, Some (newKMSContextWrapEntryWithAnyCMK env kmsClient))])
     (Some [(AESGCMNoPadding, Some newAESGCMContentCipher), (AESCBC @ ''/'' @ pa_Name AESCBCPadder, Some newAESCBCContentCipher)])
     (Some [(AESCBC @ ''/'' @ pa_Name AESCBCPadder, Some AESCBCPadder), (pa_Name NoPadder, Some NoPadder)])"

record 'w DecryptionClientOptions =
  do_LoadStrategy :: "'w LoadStrategy"
  do_CryptoRegistry :: "'w CryptoRegistry"

definition NewDecryptionClientV2 :: "'w LoadStrategy \<Rightarrow> 'w CryptoRegistry \<Rightarrow> ('w DecryptionClientOptions \<Rightarrow> 'w DecryptionClientOptions) list \<Rightarrow>
    goerror + 'w DecryptionClientOptions" where
  "NewDecryptionClientV2 defaultLoad cryptoRegistry options =
     (let clientOptions = fold (\<lambda>option o'. option o') options \<lparr>do_LoadStrategy = defaultLoad, do_CryptoRegistry = cryptoRegistry\<rparr>
      in case registry_valid cryptoRegistry of Some err \<Rightarrow> Inl err | None \<Rightarrow> Inr clientOptions)"

definition GetObject :: "'w crypto_env \<Rightarrow> 'w DecryptionClientOptions \<Rightarrow> get_response \<Rightarrow> 'w \<Rightarrow> ((goerror + content_reader) \<times> 'w) option" where
  "GetObject env c r w = get_Unmarshal env (do_LoadStrategy c) (do_CryptoRegistry c) r w"

end
