(* ===== verification/S3CryptoRuns.thy ===== *)
theory S3CryptoRuns
  imports S3CryptoClient
begin

text \<open>
  What the clients promise: an object that the second encryption client put is what the second decryption
  client gets; the key handler of \<open>kms+context\<close> ties the key to the content cipher, the older one does
  not.
\<close>

section \<open>Readers\<close>

lemma read_all_content:
  assumes "read_all rd data r = Some y" and C: "\<And>d r. content_Read d (C r) = map_option (\<lambda>(d, n, e, r). (d, n, e, C r)) (rd d r)"
  shows "read_all content_Read data (C r) = Some y"
proof -
  have "read_all rd0 data r = Some y \<Longrightarrow> rd0 = rd \<Longrightarrow> read_all content_Read data (C r) = Some y" for rd0
  proof (induction rd0 data r y rule: read_all.raw_induct [rotated, consumes 1, case_names step])
    case (step f rd0 data r y)
    obtain d n e r' where s: "rd data r = Some (d, n, e, r')" using step(2,3) by (auto split: option.splits)
    then have c: "content_Read data (C r) = Some (d, n, e, C r')" by (simp add: C)
    show ?case
    proof (cases e)
      case None
      then obtain bs err where "f rd0 d r' = Some (bs, err)" and y: "y = (take n d @ bs, err)"
        using step(2,3) s by (auto simp: bind_eq_Some_conv)
      from step(1) [OF this(1)] step(3) have "read_all content_Read d (C r') = Some (bs, err)" by simp
      then show ?thesis using c None y by (subst read_all.simps) simp
    next
      case (Some err)
      then show ?thesis using step(2,3) s c by (subst read_all.simps) simp
    qed
  qed
  with assms(1) show ?thesis by blast
qed

lemma reads_cbc:
  "read_all cbc_encrypt_Read data r = Some y \<Longrightarrow> read_all content_Read data (CBCEncrypts r) = Some y"
  "read_all cbc_decrypt_Read data r = Some y \<Longrightarrow> read_all content_Read data (CBCDecrypts r) = Some y"
  by (erule read_all_content, simp)+

lemma reads_gcm:
  "read_all gcm_encrypt_Read data g = Some y \<Longrightarrow> read_all content_Read data (GCMEncrypts g) = Some y"
  "read_all gcm_decrypt_Read data g = Some y \<Longrightarrow> read_all content_Read data (GCMDecrypts g) = Some y"
  by (erule read_all_content, simp)+

section \<open>The envelope in the headers\<close>

text \<open>The storage returns the metadata of an object in the headers of the response.\<close>

definition returns_metadata :: "(string \<rightharpoonup> string) \<Rightarrow> Values \<Rightarrow> bool" where
  "returns_metadata m h \<longleftrightarrow> (\<forall>k v. m k = Some v \<longrightarrow> meta_Get h k = v)"

lemmas header_names = keyV2Header_def keyV1Header_def ivHeader_def matDescHeader_def wrapAlgorithmHeader_def cekAlgorithmHeader_def
  unencryptedContentLengthHeader_def tagLengthHeader_def

lemma meta_Get_canonical: "meta_Get h (canonical_key k) = meta_Get h k"
proof -
  have "canonical_key (metaHeader @ ''-'' @ canonical_key k) = canonical_key (metaHeader @ ''-'' @ k)"
    by (simp add: metaHeader_def canonical_idem)
  then show ?thesis by (simp only: meta_Get_def Header_Get_def)
qed

lemma canonical_names:
  "canonical_key keyV2Header = ''X-Amz-Key-V2''" "canonical_key ivHeader = ''X-Amz-Iv''" "canonical_key matDescHeader = ''X-Amz-Matdesc''"
  "canonical_key wrapAlgorithmHeader = ''X-Amz-Wrap-Alg''" "canonical_key cekAlgorithmHeader = ''X-Amz-Cek-Alg''"
  "canonical_key unencryptedContentLengthHeader = ''X-Amz-Unencrypted-Content-Length''" "canonical_key tagLengthHeader = ''X-Amz-Tag-Len''"
  by code_simp+

lemma header_metadata_keys:
  "header_metadata e m (canonical_key keyV2Header) = Some (en_CipherKey e)"
  "header_metadata e m (canonical_key ivHeader) = Some (en_IV e)"
  "header_metadata e m (canonical_key matDescHeader) = Some (en_MatDesc e)"
  "header_metadata e m (canonical_key wrapAlgorithmHeader) = Some (en_WrapAlg e)"
  "header_metadata e m (canonical_key cekAlgorithmHeader) = Some (en_CEKAlg e)"
  "header_metadata e m (canonical_key unencryptedContentLengthHeader) = Some (en_UnencryptedContentLen e)"
  by (simp_all add: header_metadata_def Let_def canonical_names del: canonical_from.simps)

lemma loaded_envelope:
  assumes "returns_metadata (header_metadata e m) (go_Header r)"
  shows "\<exists>e'. HeaderV2_Load r w = (Inr e', w) \<and> en_CipherKey e' = en_CipherKey e \<and> en_IV e' = en_IV e \<and> en_MatDesc e' = en_MatDesc e \<and>
    en_WrapAlg e' = en_WrapAlg e \<and> en_CEKAlg e' = en_CEKAlg e"
proof -
  have g: "meta_Get (go_Header r) k = v" if "header_metadata e m (canonical_key k) = Some v" for k v
    using assms that meta_Get_canonical unfolding returns_metadata_def by metis
  show ?thesis using header_metadata_keys [of e m] by (simp add: HeaderV2_Load_def Let_def g)
qed

lemma default_loads_headers:
  assumes "returns_metadata (header_metadata e m) (go_Header r)" and "en_CipherKey e \<noteq> []"
  shows "defaultV2_Load env get suffix r w = HeaderV2_Load r w"
proof -
  have "meta_Get (go_Header r) keyV2Header = en_CipherKey e"
    using assms(1) header_metadata_keys(1) [of e m] meta_Get_canonical unfolding returns_metadata_def by metis
  then show ?thesis using assms(2) by (simp add: defaultV2_Load_def)
qed

section \<open>What a put leaves\<close>

lemma put_shape:
  assumes "put_Build env HeaderV2_Save builder r w = Some (r', w')" and "pu_Error r' = None"
  shows "\<exists>enc rd out e m. new_ContentCipher builder w = Some (Inr enc, w') \<and> EncryptContents (ce_crypto env) enc (pu_Body r) = Some rd \<and>
    read_all content_Read copy_buffer rd = Some (out, None) \<and>
    ce_json_encode env (cd_MaterialDescription (GetCipherData enc)) = Inr (en_MatDesc e) \<and>
    pu_Body r' = \<lparr>so_bytes = out, so_sizes = [], so_end = None\<rparr> \<and> pu_Metadata r' = Some (header_metadata e m) \<and>
    en_CipherKey e = Base64_EncodeToString (cd_EncryptedKey (GetCipherData enc)) \<and> en_IV e = Base64_EncodeToString (cd_IV (GetCipherData enc)) \<and>
    en_WrapAlg e = cd_WrapAlgorithm (GetCipherData enc) \<and> en_CEKAlg e = cd_CEKAlgorithm (GetCipherData enc)"
proof -
  obtain enc w1 where n: "new_ContentCipher builder w = Some (Inr enc, w1)" and p: "put_encrypted env HeaderV2_Save enc r w1 = Some (r', w')"
    using assms by (auto simp: put_Build_def split: option.splits sum.splits)
  obtain rd out where rd: "EncryptContents (ce_crypto env) enc (pu_Body r) = Some rd" "read_all content_Read copy_buffer rd = Some (out, None)"
    using p assms(2) by (auto simp: put_encrypted_def split: option.splits)
  obtain e where e: "encodeMeta env (int (length (so_bytes (pu_Body r)))) (GetCipherData enc) = Inr e"
    using p assms(2) rd by (auto simp: put_encrypted_def split: sum.splits)
  have r: "w1 = w'" "pu_Body r' = \<lparr>so_bytes = out, so_sizes = [], so_end = None\<rparr>"
    "pu_Metadata r' = Some (header_metadata e (case pu_Metadata r of None \<Rightarrow> Map.empty | Some m \<Rightarrow> m))"
    using p rd e by (auto simp: put_encrypted_def HeaderV2_Save_def Let_def)
  have "ce_json_encode env (cd_MaterialDescription (GetCipherData enc)) = Inr (en_MatDesc e) \<and>
    en_CipherKey e = Base64_EncodeToString (cd_EncryptedKey (GetCipherData enc)) \<and> en_IV e = Base64_EncodeToString (cd_IV (GetCipherData enc)) \<and>
    en_WrapAlg e = cd_WrapAlgorithm (GetCipherData enc) \<and> en_CEKAlg e = cd_CEKAlgorithm (GetCipherData enc)"
    using e by (auto simp: encodeMeta_def split: sum.splits)
  with n rd r show ?thesis by blast
qed

section \<open>What a get makes of it\<close>

text \<open>What the clients assume of the key service, of JSON and of the authenticated cipher.\<close>

definition kms_ok :: "'w kms_client \<Rightarrow> string \<Rightarrow> bool" where
  "kms_ok client cmk \<longleftrightarrow> (\<forall>ctx w key blob w'. km_GenerateDataKey client ctx (Some cmk) ''AES_256'' w = (Inr (key, blob), w') \<longrightarrow>
     length key = 32 \<and> blob \<noteq> [] \<and> (\<forall>id w. id = None \<or> id = Some cmk \<longrightarrow> fst (km_Decrypt client id ctx blob w) = Inr key))"

definition env_ok :: "'w crypto_env \<Rightarrow> bool" where
  "env_ok env \<longleftrightarrow> (\<forall>m s. ce_json_encode env m = Inr s \<longrightarrow> ce_json_decode env s = Inr (Some m)) \<and>
     (\<forall>n w b w'. ce_rand env n w = (Inr b, w') \<longrightarrow> length b = n) \<and>
     (\<forall>key nonce x. ae_Open (cy_aead (ce_crypto env) key) nonce (ae_Seal (cy_aead (ce_crypto env) key) nonce x) = Inr x)"

lemma context_opens:
  assumes "ce_json_decode env (en_MatDesc e) = Inr (Some ctx)" and "en_WrapAlg e = KMSContextWrap"
    and "ctx kmsAWSCEKContextKey = Some (Some (en_CEKAlg e))"
  shows "context_decryptHandler env kp e = Inr (km_Decrypt (xh_kms kp) (xh_cmkID kp) ctx)"
  using assms by (simp add: context_decryptHandler_def decodeDescription_def context_DecryptKey_def fun_eq_iff)

lemma kms_opens:
  assumes "ce_json_decode env (en_MatDesc e) = Inr (Some ctx)" and "ctx ''kms_cmk_id'' \<noteq> None"
  shows "kms_decryptHandler env kp e = Inr (km_Decrypt (kh_kms kp) (if kh_useProvidedCMK kp then kh_cmkID kp else None) ctx)"
  using assms by (auto simp: kms_decryptHandler_def decodeDescription_def kms_DecryptKey_def fun_eq_iff)

lemma base64_nonempty [simp]: "Base64_EncodeToString bs = [] \<longleftrightarrow> bs = []"
proof -
  have "base64_encode ns = [] \<longleftrightarrow> ns = []" for ns by (cases ns rule: base64_encode.cases) simp_all
  then show ?thesis by (simp add: Base64_EncodeToString_def)
qed

lemma key_of_32: "length key = 32 \<Longrightarrow> aes_NewCipher key = None"
  by (simp add: aes_NewCipher_def)

text \<open>The content cipher of an envelope whose wrap algorithm gives the decrypter \<open>d\<close>.\<close>

lemma cipher_of_envelope:
  assumes "fst (GetWrap registry (en_WrapAlg e)) = Some wrap" and "wrap e = Inr d" and "fst (GetCEK registry (en_CEKAlg e)) = Some f"
    and "en_CipherKey e = Base64_EncodeToString blob" and "en_IV e = Base64_EncodeToString iv" and "d blob w = (Inr key, w')"
  shows "contentCipherFromEnvelope registry e w = map_option (\<lambda>r. (r, w'))
    (f (zero_CipherData\<lparr>cd_Key := key, cd_IV := iv, cd_CEKAlgorithm := en_CEKAlg e, cd_Padder := getPadder registry (en_CEKAlg e)\<rparr>))"
  using assms by (simp add: contentCipherFromEnvelope_def wrapFromEnvelope_def cekFromEnvelope_def)

definition from_headers :: "'w crypto_env \<Rightarrow> 'w LoadStrategy \<Rightarrow> bool" where
  "from_headers env load \<longleftrightarrow> load = HeaderV2_Load \<or> (\<exists>get suffix. load = defaultV2_Load env get suffix)"

text \<open>The response to a put with the envelope \<open>e\<close>, opened with the decrypter \<open>d\<close> and the cipher of \<open>f\<close>.\<close>

lemma get_opens:
  assumes "from_headers env load" and "returns_metadata (header_metadata e m) (go_Header rs)"
    and "en_CipherKey e = Base64_EncodeToString blob" and "blob \<noteq> []" and "en_IV e = Base64_EncodeToString iv"
    and "fst (GetWrap registry (en_WrapAlg e)) = Some wrap" and "fst (GetCEK registry (en_CEKAlg e)) = Some f"
    and wrap: "\<And>e'. en_MatDesc e' = en_MatDesc e \<Longrightarrow> en_WrapAlg e' = en_WrapAlg e \<Longrightarrow> en_CEKAlg e' = en_CEKAlg e \<Longrightarrow> wrap e' = Inr d"
    and "d blob w2 = (Inr key, w3)"
    and "f (zero_CipherData\<lparr>cd_Key := key, cd_IV := iv, cd_CEKAlgorithm := en_CEKAlg e, cd_Padder := getPadder registry (en_CEKAlg e)\<rparr>) = Some (Inr cipher)"
    and "DecryptContents (ce_crypto env) cipher (go_Body rs) = Some rd"
  shows "get_Unmarshal env load registry rs w2 = Some (Inr rd, w3)"
proof -
  obtain e' where l: "HeaderV2_Load rs w2 = (Inr e', w2)" "en_CipherKey e' = en_CipherKey e" "en_IV e' = en_IV e" "en_MatDesc e' = en_MatDesc e"
    "en_WrapAlg e' = en_WrapAlg e" "en_CEKAlg e' = en_CEKAlg e"
    using loaded_envelope [OF assms(2), of w2] by blast
  have ne: "en_CipherKey e \<noteq> []" using assms(3,4) by simp
  have load: "load rs w2 = (Inr e', w2)"
    using assms(1) default_loads_headers [OF assms(2) ne] unfolding from_headers_def l(1) [symmetric] by metis
  have "contentCipherFromEnvelope registry e' w2 = map_option (\<lambda>r. (r, w3)) (f (zero_CipherData\<lparr>cd_Key := key, cd_IV := iv,
      cd_CEKAlgorithm := en_CEKAlg e', cd_Padder := getPadder registry (en_CEKAlg e')\<rparr>))"
    by (rule cipher_of_envelope [where d = d and f = f and blob = blob and wrap = wrap]) (simp_all add: l wrap assms)
  then show ?thesis using assms(10,11) by (simp add: get_Unmarshal_def load l)
qed

theorem put_get_gcm:
  assumes "put_Build env HeaderV2_Save (GCMBuilderV2 (context_GenerateCipherData env (newKMSContextKeyHandler client cmk md)) fx) r w = Some (r', w')"
    and "pu_Error r' = None" and "so_end (pu_Body r) = None"
    and "env_ok env" and "kms_ok client cmk"
    and "fst (GetWrap registry KMSContextWrap) = Some (context_decryptHandler env \<lparr>xh_kms = client, xh_cmkID = kid, xh_data = xd\<rparr>)" and "kid = None \<or> kid = Some cmk"
    and "fst (GetCEK registry AESGCMNoPadding) = Some newAESGCMContentCipher"
    and "from_headers env load" and "\<forall>m. pu_Metadata r' = Some m \<longrightarrow> returns_metadata m (go_Header rs)"
    and "go_Body rs = \<lparr>so_bytes = so_bytes (pu_Body r'), so_sizes = ks, so_end = None\<rparr>"
  shows "\<exists>rd w3. get_Unmarshal env load registry rs w2 = Some (Inr rd, w3) \<and>
    (\<forall>data. data \<noteq> [] \<longrightarrow> read_all content_Read data rd = Some (so_bytes (pu_Body r), None))"
proof -
  let ?g = "context_GenerateCipherData env (newKMSContextKeyHandler client cmk md)"
  obtain enc rd out e m where s: "new_ContentCipher (GCMBuilderV2 ?g fx) w = Some (Inr enc, w')"
    "EncryptContents (ce_crypto env) enc (pu_Body r) = Some rd" "read_all content_Read copy_buffer rd = Some (out, None)"
    "ce_json_encode env (cd_MaterialDescription (GetCipherData enc)) = Inr (en_MatDesc e)"
    "pu_Body r' = \<lparr>so_bytes = out, so_sizes = [], so_end = None\<rparr>" "pu_Metadata r' = Some (header_metadata e m)"
    "en_CipherKey e = Base64_EncodeToString (cd_EncryptedKey (GetCipherData enc))" "en_IV e = Base64_EncodeToString (cd_IV (GetCipherData enc))"
    "en_WrapAlg e = cd_WrapAlgorithm (GetCipherData enc)" "en_CEKAlg e = cd_CEKAlgorithm (GetCipherData enc)"
    using put_shape [OF assms(1,2)] by blast
  obtain ctx key blob iv w1 where g: "km_GenerateDataKey client ctx (Some cmk) ''AES_256'' w = (Inr (key, blob), w1)" "fst (ce_rand env 12 w1) = Inr iv"
    "ctx kmsAWSCEKContextKey = Some (Some AESGCMNoPadding)"
    "?g gcmKeySize gcmNonceSize AESGCMNoPadding w = (Inr (zero_CipherData\<lparr>cd_WrapAlgorithm := KMSContextWrap, cd_MaterialDescription := ctx,
       cd_Key := key, cd_IV := iv, cd_EncryptedKey := blob\<rparr>), w')"
    using s(1) by (auto simp: context_GenerateCipherData_def generate_key_def generateBytes_def newKMSContextKeyHandler_def Let_def gcmNonceSize_def
      split: if_splits sum.splits prod.splits)
  have key: "length key = 32" "blob \<noteq> []" "\<And>w. fst (km_Decrypt client kid ctx blob w) = Inr key"
    using assms(5,7) g(1) unfolding kms_ok_def by blast+
  have iv: "length iv = 12" using assms(4) g(2) unfolding env_ok_def by (metis prod.collapse)
  define cd where "cd = zero_CipherData\<lparr>cd_WrapAlgorithm := KMSContextWrap, cd_MaterialDescription := ctx, cd_Key := key, cd_IV := iv,
    cd_EncryptedKey := blob, cd_CEKAlgorithm := AESGCMNoPadding, cd_TagLength := ''128''\<rparr>"
  have enc: "enc = GCMContentCipher cd" using s(1) g(4) key_of_32 [OF key(1)] by (simp add: newAESGCMContentCipher_def newAESGCM_def cd_def)
  let ?a = "cy_aead (ce_crypto env) key"
  have "read_all gcm_encrypt_Read copy_buffer (gcm_open_reader (ce_crypto env) key iv (pu_Body r)) = Some (ae_Seal ?a iv (so_bytes (pu_Body r)), None)"
    unfolding gcm_encrypt_Read_def by (rule gcm_reads) (simp_all add: copy_buffer_def gcm_open_reader_def assms(3) iv)
  from reads_gcm(1) [OF this] s(2,3) have out: "out = ae_Seal ?a iv (so_bytes (pu_Body r))" by (simp add: enc cd_def)
  have rm: "returns_metadata (header_metadata e m) (go_Header rs)" using assms(10) s(6) by blast
  obtain w3 where d: "km_Decrypt client kid ctx blob w2 = (Inr key, w3)" using key(3) [of w2] by (metis prod.collapse)
  have e: "en_WrapAlg e = KMSContextWrap" "en_CEKAlg e = AESGCMNoPadding" "en_CipherKey e = Base64_EncodeToString blob" "en_IV e = Base64_EncodeToString iv"
    using s(7-10) by (simp_all add: enc cd_def)
  have js: "ce_json_decode env (en_MatDesc e) = Inr (Some ctx)" using assms(4) s(4) by (simp add: env_ok_def enc cd_def)
  have w: "context_decryptHandler env \<lparr>xh_kms = client, xh_cmkID = kid, xh_data = xd\<rparr> e' = Inr (km_Decrypt client kid ctx)"
    if "en_MatDesc e' = en_MatDesc e" "en_WrapAlg e' = en_WrapAlg e" "en_CEKAlg e' = en_CEKAlg e" for e'
    using context_opens [of env e' ctx "\<lparr>xh_kms = client, xh_cmkID = kid, xh_data = xd\<rparr>"] that js e(1,2) g(3) by simp
  let ?rd = "GCMDecrypts (gcm_open_reader (ce_crypto env) key iv (go_Body rs))"
  have "get_Unmarshal env load registry rs w2 = Some (Inr ?rd, w3)" 
    by (rule get_opens [where cipher = "GCMContentCipher (zero_CipherData\<lparr>cd_Key := key, cd_IV := iv, cd_CEKAlgorithm := AESGCMNoPadding,
          cd_Padder := getPadder registry AESGCMNoPadding, cd_TagLength := ''128''\<rparr>)" and f = newAESGCMContentCipher and blob = blob and d = "km_Decrypt client kid ctx", OF assms(9) rm e(3) key(2) e(4) _ _ w d])
      (simp_all add: e(1,2) assms(6,8) newAESGCMContentCipher_def newAESGCM_def key_of_32 [OF key(1)])
  moreover have "read_all content_Read data ?rd = Some (so_bytes (pu_Body r), None)" if "data \<noteq> []" for data
  proof (rule reads_gcm(2))
    show "read_all gcm_decrypt_Read data (gcm_open_reader (ce_crypto env) key iv (go_Body rs)) = Some (so_bytes (pu_Body r), None)"
      unfolding gcm_decrypt_Read_def
      by (rule gcm_reads) (use that assms(4) in \<open>simp_all add: gcm_open_reader_def assms(11) s(5) out iv env_ok_def\<close>)
  qed
  ultimately show ?thesis by blast
qed

lemma cbc_named: "AESCBC \<noteq> []"
  by (simp add: AESCBC_def)

text \<open>The same for the first clients with CBC; AES is a permutation of blocks.\<close>

theorem put_get_cbc:
  assumes "put_Build env HeaderV2_Save (CBCBuilder (kms_GenerateCipherData env (newKMSKeyHandler client cmk md)) AESCBCPadder) r w = Some (r', w')"
    and "pu_Error r' = None" and "so_end (pu_Body r) = None"
    and "env_ok env" and "kms_ok client cmk" and "\<forall>key. length key = 32 \<longrightarrow> aes_ok (ce_crypto env) key"
    and "registry = v1_registry env client"
    and "from_headers env load" and "\<forall>m. pu_Metadata r' = Some m \<longrightarrow> returns_metadata m (go_Header rs)"
    and "go_Body rs = \<lparr>so_bytes = so_bytes (pu_Body r'), so_sizes = ks, so_end = None\<rparr>" and "\<forall>k \<in> set ks. 16 \<le> k"
  shows "\<exists>rd w3. get_Unmarshal env load registry rs w2 = Some (Inr rd, w3) \<and>
    (\<forall>data. 32 \<le> length data \<and> length data mod 16 = 0 \<longrightarrow> read_all content_Read data rd = Some (so_bytes (pu_Body r), None))"
proof -
  let ?g = "kms_GenerateCipherData env (newKMSKeyHandler client cmk md)" and ?alg = "AESCBC @ ''/'' @ pa_Name AESCBCPadder"
  obtain enc rd out e m where s: "new_ContentCipher (CBCBuilder ?g AESCBCPadder) w = Some (Inr enc, w')"
    "EncryptContents (ce_crypto env) enc (pu_Body r) = Some rd" "read_all content_Read copy_buffer rd = Some (out, None)"
    "ce_json_encode env (cd_MaterialDescription (GetCipherData enc)) = Inr (en_MatDesc e)"
    "pu_Body r' = \<lparr>so_bytes = out, so_sizes = [], so_end = None\<rparr>" "pu_Metadata r' = Some (header_metadata e m)"
    "en_CipherKey e = Base64_EncodeToString (cd_EncryptedKey (GetCipherData enc))" "en_IV e = Base64_EncodeToString (cd_IV (GetCipherData enc))"
    "en_WrapAlg e = cd_WrapAlgorithm (GetCipherData enc)" "en_CEKAlg e = cd_CEKAlgorithm (GetCipherData enc)"
    using put_shape [OF assms(1,2)] by blast
  obtain ctx key blob iv w1 where g: "km_GenerateDataKey client ctx (Some cmk) ''AES_256'' w = (Inr (key, blob), w1)" "fst (ce_rand env 16 w1) = Inr iv"
    "ctx ''kms_cmk_id'' \<noteq> None"
    "?g cbcKeySize cbcNonceSize w = (Inr (zero_CipherData\<lparr>cd_WrapAlgorithm := KMSWrap, cd_MaterialDescription := ctx,
       cd_Key := key, cd_IV := iv, cd_EncryptedKey := blob\<rparr>), w')"
    using s(1) by (auto simp: kms_GenerateCipherData_def generate_key_def generateBytes_def newKMSKeyHandler_def Let_def cbcNonceSize_def
      split: if_splits sum.splits prod.splits)
  have key: "length key = 32" "blob \<noteq> []" "\<And>w. fst (km_Decrypt client None ctx blob w) = Inr key"
    using assms(5) g(1) unfolding kms_ok_def by blast+
  have iv: "length iv = 16" using assms(4) g(2) unfolding env_ok_def by (metis prod.collapse)
  define cd where "cd = zero_CipherData\<lparr>cd_WrapAlgorithm := KMSWrap, cd_MaterialDescription := ctx, cd_Key := key, cd_IV := iv,
    cd_EncryptedKey := blob, cd_CEKAlgorithm := ?alg, cd_Padder := Some AESCBCPadder\<rparr>"
  have enc: "enc = CBCContentCipher cd" using s(1) g(4) key_of_32 [OF key(1)] iv
    by (simp add: newAESCBCContentCipher_def newAESCBC_def cd_def zero_CipherData_def)
  have body: "pu_Body r = \<lparr>so_bytes = so_bytes (pu_Body r), so_sizes = so_sizes (pu_Body r), so_end = None\<rparr>"
    using assms(3) by (cases "pu_Body r") simp
  have aes: "aes_ok (ce_crypto env) key" using assms(6) key(1) by blast
  have "read_all cbc_encrypt_Read copy_buffer (cbc_Encrypt (ce_crypto env) key iv AESCBCPadder (pu_Body r)) = Some (ciphertext (ce_crypto env) key iv (so_bytes (pu_Body r)), None)"
    using cbc_encrypts [OF aes, of iv copy_buffer "so_bytes (pu_Body r)" "so_sizes (pu_Body r)", folded body] iv by (simp add: copy_buffer_def)
  from reads_cbc(1) [OF this] s(2,3) have out: "out = ciphertext (ce_crypto env) key iv (so_bytes (pu_Body r))" by (simp add: enc cd_def)
  have rm: "returns_metadata (header_metadata e m) (go_Header rs)" using assms(9) s(6) by blast
  obtain w3 where d: "km_Decrypt client None ctx blob w2 = (Inr key, w3)" using key(3) [of w2] by (metis prod.collapse)
  have e: "en_WrapAlg e = KMSWrap" "en_CEKAlg e = ?alg" "en_CipherKey e = Base64_EncodeToString blob" "en_IV e = Base64_EncodeToString iv"
    using s(7-10) by (simp_all add: enc cd_def)
  have js: "ce_json_decode env (en_MatDesc e) = Inr (Some ctx)" using assms(4) s(4) by (simp add: env_ok_def enc cd_def)
  have w: "NewKMSWrapEntry env client e' = Inr (km_Decrypt client None ctx)"
    if "en_MatDesc e' = en_MatDesc e" "en_WrapAlg e' = en_WrapAlg e" "en_CEKAlg e' = en_CEKAlg e" for e'
    using kms_opens [of env e' ctx] that js g(3) by (simp add: NewKMSWrapEntry_def newKMSWrapEntry_def)
  have reg: "fst (GetWrap registry KMSWrap) = Some (NewKMSWrapEntry env client)" "fst (GetCEK registry ?alg) = Some newAESCBCContentCipher"
    "getPadder registry ?alg = Some AESCBCPadder"
    by (simp_all add: assms(7) v1_registry_def initCryptoRegistryFrom_def GetWrap_def GetCEK_def GetPadder_def getPadder_def entry_get_def AESGCMNoPadding_def AESCBC_def)
  let ?rd = "CBCDecrypts (cbc_Decrypt (ce_crypto env) key iv AESCBCPadder (go_Body rs))"
  have src: "go_Body rs = \<lparr>so_bytes = ciphertext (ce_crypto env) key iv (so_bytes (pu_Body r)), so_sizes = ks, so_end = None\<rparr>"
    unfolding assms(10) s(5) out by simp
  have "get_Unmarshal env load registry rs w2 = Some (Inr ?rd, w3)"
    by (rule get_opens [where cipher = "CBCContentCipher (zero_CipherData\<lparr>cd_Key := key, cd_IV := iv, cd_CEKAlgorithm := ?alg,
          cd_Padder := Some AESCBCPadder\<rparr>)" and f = newAESCBCContentCipher and blob = blob and d = "km_Decrypt client None ctx", OF assms(8) rm e(3) key(2) e(4) _ _ w d])
      (simp_all add: e(1,2) reg reg [simplified] newAESCBCContentCipher_def newAESCBC_def key_of_32 [OF key(1)] iv cbc_named)
  moreover have "read_all content_Read data ?rd = Some (so_bytes (pu_Body r), None)" if "32 \<le> length data" "length data mod 16 = 0" for data
    unfolding src by (rule reads_cbc(2), rule cbc_decrypts [OF aes iv that assms(11)])
  ultimately show ?thesis by (intro exI [of _ ?rd] exI [of _ w3] conjI allI impI) simp_all
qed

section \<open>What the key is bound to\<close>

text \<open>The two content ciphers of the SDK are registered, and nothing else.\<close>

definition sdk_ciphers :: "'w CryptoRegistry \<Rightarrow> bool" where
  "sdk_ciphers registry \<longleftrightarrow> (\<forall>name f. fst (GetCEK registry name) = Some f \<longrightarrow>
     name = AESGCMNoPadding \<and> f = newAESGCMContentCipher \<or> name = AESCBC @ ''/'' @ pa_Name AESCBCPadder \<and> f = newAESCBCContentCipher)"

theorem context_binds:
  assumes "contentCipherFromEnvelope registry e w = Some (Inr cipher, w')"
    and "fst (GetWrap registry (en_WrapAlg e)) = Some (context_decryptHandler env kp)" and "sdk_ciphers registry"
  shows "\<exists>ctx blob. km_Decrypt (xh_kms kp) (xh_cmkID kp) ctx blob w = (Inr (cd_Key (GetCipherData cipher)), w') \<and>
    ctx kmsAWSCEKContextKey = Some (Some (cd_CEKAlgorithm (GetCipherData cipher)))"
proof -
  obtain ctx where c: "context_decryptHandler env kp e = Inr (km_Decrypt (xh_kms kp) (xh_cmkID kp) ctx)"
    "ctx kmsAWSCEKContextKey = Some (Some (en_CEKAlg e))"
    using assms(1,2) by (auto simp: contentCipherFromEnvelope_def wrapFromEnvelope_def context_decryptHandler_def context_DecryptKey_def [abs_def]
      split: sum.splits if_splits option.splits)
  obtain f blob iv key where f: "fst (GetCEK registry (en_CEKAlg e)) = Some f" "km_Decrypt (xh_kms kp) (xh_cmkID kp) ctx blob w = (Inr key, w')"
    "f (zero_CipherData\<lparr>cd_Key := key, cd_IV := iv, cd_CEKAlgorithm := en_CEKAlg e, cd_Padder := getPadder registry (en_CEKAlg e)\<rparr>) = Some (Inr cipher)"
    using assms(1,2) c(1) by (auto simp: contentCipherFromEnvelope_def wrapFromEnvelope_def cekFromEnvelope_def split: sum.splits option.splits prod.splits)
  have "cd_Key (GetCipherData cipher) = key \<and> cd_CEKAlgorithm (GetCipherData cipher) = en_CEKAlg e"
    using assms(3) f(1,3) unfolding sdk_ciphers_def
    by (fastforce simp: newAESGCMContentCipher_def newAESCBCContentCipher_def AESCBC_def Let_def split: option.splits)
  with c(2) f(2) show ?thesis by metis
qed

text \<open>The key of an envelope of the older handler opens with the other cipher too, once the envelope says so.\<close>

theorem kms_does_not_bind:
  assumes "contentCipherFromEnvelope (v1_registry env client) e w = Some (Inr (GCMContentCipher cd), w')" and "en_WrapAlg e = KMSWrap"
    and "length iv = 16"
  shows "\<exists>cd'. contentCipherFromEnvelope (v1_registry env client)
      (e\<lparr>en_CEKAlg := ''AES/CBC/PKCS5Padding'', en_IV := Base64_EncodeToString iv\<rparr>) w = Some (Inr (CBCContentCipher cd'), w') \<and> cd_Key cd' = cd_Key cd"
proof -
  let ?R = "v1_registry env client" and ?e = "e\<lparr>en_CEKAlg := ''AES/CBC/PKCS5Padding'', en_IV := Base64_EncodeToString iv\<rparr>"
  have wrap: "fst (GetWrap ?R KMSWrap) = Some (NewKMSWrapEntry env client)"
    by (simp add: v1_registry_def initCryptoRegistryFrom_def GetWrap_def entry_get_def)
  have cek: "fst (GetCEK ?R ''AES/CBC/PKCS5Padding'') = Some newAESCBCContentCipher" "getPadder ?R ''AES/CBC/PKCS5Padding'' = Some AESCBCPadder"
    by (simp_all add: v1_registry_def initCryptoRegistryFrom_def GetCEK_def GetPadder_def getPadder_def entry_get_def AESCBC_def AESCBCPadder_def AESGCMNoPadding_def)
  obtain d where d: "NewKMSWrapEntry env client e = Inr d"
    using assms(1,2) wrap by (auto simp: contentCipherFromEnvelope_def wrapFromEnvelope_def split: sum.splits)
  then have d': "NewKMSWrapEntry env client ?e = Inr d" by (simp add: NewKMSWrapEntry_def kms_decryptHandler_def)
  obtain blob key f iv0 where k: "Base64_DecodeString (en_CipherKey e) = Some blob" "d blob w = (Inr key, w')"
    "f (zero_CipherData\<lparr>cd_Key := key, cd_IV := iv0, cd_CEKAlgorithm := en_CEKAlg e, cd_Padder := getPadder ?R (en_CEKAlg e)\<rparr>) = Some (Inr (GCMContentCipher cd))"
    "f = newAESGCMContentCipher \<or> f = newAESCBCContentCipher"
    using assms(1,2) wrap d by (auto simp: contentCipherFromEnvelope_def wrapFromEnvelope_def cekFromEnvelope_def v1_registry_def initCryptoRegistryFrom_def
      GetCEK_def entry_get_def split: sum.splits option.splits prod.splits if_splits)
  have key: "cd_Key cd = key" "aes_NewCipher key = None"
    using k(3,4) by (auto simp: newAESGCMContentCipher_def newAESCBCContentCipher_def newAESGCM_def Let_def split: option.splits if_splits)
  show ?thesis
    using d' k(1,2) key wrap cek assms(2,3)
    by (simp add: contentCipherFromEnvelope_def wrapFromEnvelope_def cekFromEnvelope_def newAESCBCContentCipher_def newAESCBC_def)
qed

section \<open>Clients that panic, and a check that is passed by\<close>

text \<open>An initialisation vector of the envelope that is not a block, with CBC.\<close>

theorem wrong_iv:
  assumes "fst (GetWrap registry (en_WrapAlg e)) = Some wrap" and "wrap e = Inr d" and "fst (GetCEK registry (en_CEKAlg e)) = Some newAESCBCContentCipher"
    and "Base64_DecodeString (en_CipherKey e) = Some blob" and "Base64_DecodeString (en_IV e) = Some iv" and "d blob w = (Inr key, w')"
    and "length key = 32" and "length iv \<noteq> 16" and "en_CEKAlg e \<noteq> []"
  shows "contentCipherFromEnvelope registry e w = None"
  using assms by (simp add: contentCipherFromEnvelope_def wrapFromEnvelope_def cekFromEnvelope_def newAESCBCContentCipher_def newAESCBC_def key_of_32)

text \<open>The second encryption client takes a builder of the first one from an option.\<close>

theorem option_passes_check:
  "\<exists>c. NewEncryptionClientV2 (GCMBuilderV2 g True) [\<lambda>o'. o'\<lparr>eo_ContentCipherBuilder := CBCBuilder g' p\<rparr>] = Inr c \<and>
    isEncryptionVersionCompatible (eo_ContentCipherBuilder c) v2ClientVersion \<noteq> None"
  by (simp add: NewEncryptionClientV2_def)

end
