(* ===== verification/AwsConfig.thy ===== *)
theory AwsConfig
  imports IamProviders V4Verify
begin

text \<open>
  The configuration of clients, \<open>aws/config.go\<close>, and the parts of \<open>aws/endpoints/endpoints.go\<close>
  that a session reads. A pointer field is an option: the pointers to strings, booleans and numbers have the
  value they point to, \<open>HTTPClient\<close> has the address of the client, and the interface values and functions
  (\<open>Logger\<close>, \<open>Retryer\<close>, \<open>SleepDelay\<close>) are of a type \<open>'v\<close> that nothing here looks into. The
  resolver of endpoints, which works on generated tables, is a function.
\<close>

section \<open>Endpoints\<close>

datatype S3UsEast1RegionalEndpoint = UnsetS3UsEast1Endpoint | LegacyS3UsEast1Endpoint | RegionalS3UsEast1Endpoint

datatype DualStackEndpointState =
  DualStackEndpointStateUnset | DualStackEndpointStateEnabled | DualStackEndpointStateDisabled

text \<open>
  \<open>strings.EqualFold\<close> where one of the strings is ASCII: a rune folds to an ASCII letter when it is that letter
  in either case, or U+017F for s, or U+212A for k.
\<close>

definition fold_rune :: "rune \<Rightarrow> rune" where
  "fold_rune r = (if 65 \<le> r \<and> r \<le> 90 then r + 32 else if r = 0x17F then 115 else if r = 0x212A then 107 else r)"

definition EqualFold :: "string \<Rightarrow> string \<Rightarrow> bool" where
  "EqualFold s t \<longleftrightarrow> map fold_rune (str_Runes s) = map fold_rune (str_Runes t)"

definition GetS3UsEast1RegionalEndpoint :: "string \<Rightarrow> goerror + S3UsEast1RegionalEndpoint" where
  "GetS3UsEast1RegionalEndpoint s =
     (if EqualFold s ''legacy'' then Inr LegacyS3UsEast1Endpoint
      else if EqualFold s ''regional'' then Inr RegionalS3UsEast1Endpoint
      else Inl (PlainError (''unable to resolve the value of S3UsEast1RegionalEndpoint for '' @ s)))"

text \<open>The expression \<open>^([^:]+)://\<close>.\<close>

definition schemeRE :: "string \<Rightarrow> bool" where
  "schemeRE endpoint \<longleftrightarrow>
     (let rest = dropWhile (\<lambda>c. c \<noteq> CHR '':'') endpoint
      in length rest < length endpoint \<and> prefix_of ''://'' rest)"

definition AddScheme :: "string \<Rightarrow> bool \<Rightarrow> string" where
  "AddScheme endpoint disableSSL =
     (if \<not> schemeRE endpoint then (if disableSSL then ''http'' else ''https'') @ ''://'' @ endpoint
      else endpoint)"

record 'v EndpointOptions =
  eo_DisableSSL :: bool
  eo_UseDualStack :: bool
  eo_UseDualStackEndpoint :: DualStackEndpointState
  eo_StrictMatching :: bool
  eo_ResolveUnknownService :: bool
  eo_S3UsEast1RegionalEndpoint :: S3UsEast1RegionalEndpoint
  eo_ResolvedRegion :: string
  eo_Logger :: "'v option"
  eo_LogDeprecated :: bool

record ResolvedEndpoint =
  re_URL :: string
  re_PartitionID :: string
  re_SigningRegion :: string
  re_SigningName :: string
  re_SigningNameDerived :: bool
  re_SigningMethod :: string

definition zero_ResolvedEndpoint :: ResolvedEndpoint where
  "zero_ResolvedEndpoint = \<lparr>re_URL = [], re_PartitionID = [], re_SigningRegion = [], re_SigningName = [],
     re_SigningNameDerived = False, re_SigningMethod = []\<rparr>"

text \<open>\<open>EndpointFor\<close> of a resolver.\<close>

type_synonym 'v resolver = "string \<Rightarrow> string \<Rightarrow> 'v EndpointOptions \<Rightarrow> goerror + ResolvedEndpoint"

section \<open>The configuration\<close>

record ('c, 'v) Config =
  ac_CredentialsChainVerboseErrors :: "bool option"
  ac_Credentials :: "'c option"
  ac_Endpoint :: "string option"
  ac_EndpointResolver :: "'v resolver option"
  ac_EnforceShouldRetryCheck :: "bool option"
  ac_Region :: "string option"
  ac_DisableSSL :: "bool option"
  ac_HTTPClient :: "nat option"
  ac_LogLevel :: "nat option"
  ac_Logger :: "'v option"
  ac_MaxRetries :: "int option"
  ac_Retryer :: "'v option"
  ac_DisableParamValidation :: "bool option"
  ac_DisableComputeChecksums :: "bool option"
  ac_S3ForcePathStyle :: "bool option"
  ac_S3Disable100Continue :: "bool option"
  ac_S3UseAccelerate :: "bool option"
  ac_S3DisableContentMD5Validation :: "bool option"
  ac_S3UseARNRegion :: "bool option"
  ac_LowerCaseHeaderMaps :: "bool option"
  ac_EC2MetadataDisableTimeoutOverride :: "bool option"
  ac_EC2MetadataEnableFallback :: "bool option"
  ac_UseDualStack :: "bool option"
  ac_UseDualStackEndpoint :: DualStackEndpointState
  ac_SleepDelay :: "'v option"
  ac_DisableRestProtocolURICleaning :: "bool option"
  ac_EnableEndpointDiscovery :: "bool option"
  ac_DisableEndpointHostPrefix :: "bool option"
  ac_S3UsEast1RegionalEndpoint :: S3UsEast1RegionalEndpoint

definition NewConfig :: "('c, 'v) Config" where
  "NewConfig = \<lparr>ac_CredentialsChainVerboseErrors = None, ac_Credentials = None, ac_Endpoint = None, ac_EndpointResolver
     = None, ac_EnforceShouldRetryCheck = None, ac_Region = None, ac_DisableSSL = None, ac_HTTPClient = None, ac_LogLevel = None,
     ac_Logger = None, ac_MaxRetries = None, ac_Retryer = None, ac_DisableParamValidation = None, ac_DisableComputeChecksums =
     None, ac_S3ForcePathStyle = None, ac_S3Disable100Continue = None, ac_S3UseAccelerate = None, ac_S3DisableContentMD5Validation
     = None, ac_S3UseARNRegion = None, ac_LowerCaseHeaderMaps = None, ac_EC2MetadataDisableTimeoutOverride = None,
     ac_EC2MetadataEnableFallback = None, ac_UseDualStack = None, ac_UseDualStackEndpoint = DualStackEndpointStateUnset,
     ac_SleepDelay = None, ac_DisableRestProtocolURICleaning = None, ac_EnableEndpointDiscovery = None,
     ac_DisableEndpointHostPrefix = None, ac_S3UsEast1RegionalEndpoint = UnsetS3UsEast1Endpoint\<rparr>"

text \<open>The pointer helpers of \<open>aws/convert_types.go\<close>: the value, or the zero value of a nil pointer.\<close>

definition StringValue_ptr :: "string option \<Rightarrow> string" where
  "StringValue_ptr v = (case v of Some s \<Rightarrow> s | None \<Rightarrow> [])"

definition BoolValue_ptr :: "bool option \<Rightarrow> bool" where
  "BoolValue_ptr v = (case v of Some b \<Rightarrow> b | None \<Rightarrow> False)"

definition WithRegion :: "('c, 'v) Config \<Rightarrow> string \<Rightarrow> ('c, 'v) Config" where
  "WithRegion c region = c\<lparr>ac_Region := Some region\<rparr>"

definition WithEndpointDiscovery :: "('c, 'v) Config \<Rightarrow> bool \<Rightarrow> ('c, 'v) Config" where
  "WithEndpointDiscovery c t = c\<lparr>ac_EnableEndpointDiscovery := Some t\<rparr>"

definition WithCredentials :: "('c, 'v) Config \<Rightarrow> 'c \<Rightarrow> ('c, 'v) Config" where
  "WithCredentials c creds = c\<lparr>ac_Credentials := Some creds\<rparr>"

definition WithHTTPClient :: "('c, 'v) Config \<Rightarrow> nat \<Rightarrow> ('c, 'v) Config" where
  "WithHTTPClient c client = c\<lparr>ac_HTTPClient := Some client\<rparr>"

definition WithMaxRetries :: "('c, 'v) Config \<Rightarrow> int \<Rightarrow> ('c, 'v) Config" where
  "WithMaxRetries c n = c\<lparr>ac_MaxRetries := Some n\<rparr>"

definition WithLogger :: "('c, 'v) Config \<Rightarrow> 'v \<Rightarrow> ('c, 'v) Config" where
  "WithLogger c logger = c\<lparr>ac_Logger := Some logger\<rparr>"

definition WithLogLevel :: "('c, 'v) Config \<Rightarrow> nat \<Rightarrow> ('c, 'v) Config" where
  "WithLogLevel c level = c\<lparr>ac_LogLevel := Some level\<rparr>"

definition WithEndpointResolver :: "('c, 'v) Config \<Rightarrow> 'v resolver \<Rightarrow> ('c, 'v) Config" where
  "WithEndpointResolver c r = c\<lparr>ac_EndpointResolver := Some r\<rparr>"

section \<open>Merging\<close>

definition merge_ptr :: "'a option \<Rightarrow> 'a option \<Rightarrow> 'a option" where
  "merge_ptr other dst = (case other of None \<Rightarrow> dst | Some x \<Rightarrow> Some x)"

definition merge_enum :: "'a \<Rightarrow> 'a \<Rightarrow> 'a \<Rightarrow> 'a" where
  "merge_enum unset other dst = (if other \<noteq> unset then other else dst)"

definition mergeInConfig :: "('c, 'v) Config \<Rightarrow> ('c, 'v) Config option \<Rightarrow> ('c, 'v) Config" where
  "mergeInConfig dst other = (case other of
     None \<Rightarrow> dst
   | Some other \<Rightarrow> dst\<lparr>
       ac_CredentialsChainVerboseErrors := merge_ptr (ac_CredentialsChainVerboseErrors other) (ac_CredentialsChainVerboseErrors dst),
       ac_Credentials := merge_ptr (ac_Credentials other) (ac_Credentials dst),
       ac_Endpoint := merge_ptr (ac_Endpoint other) (ac_Endpoint dst),
       ac_EndpointResolver := merge_ptr (ac_EndpointResolver other) (ac_EndpointResolver dst),
       ac_Region := merge_ptr (ac_Region other) (ac_Region dst),
       ac_DisableSSL := merge_ptr (ac_DisableSSL other) (ac_DisableSSL dst),
       ac_HTTPClient := merge_ptr (ac_HTTPClient other) (ac_HTTPClient dst),
       ac_LogLevel := merge_ptr (ac_LogLevel other) (ac_LogLevel dst),
       ac_Logger := merge_ptr (ac_Logger other) (ac_Logger dst),
       ac_MaxRetries := merge_ptr (ac_MaxRetries other) (ac_MaxRetries dst),
       ac_Retryer := merge_ptr (ac_Retryer other) (ac_Retryer dst),
       ac_DisableParamValidation := merge_ptr (ac_DisableParamValidation other) (ac_DisableParamValidation dst),
       ac_DisableComputeChecksums := merge_ptr (ac_DisableComputeChecksums other) (ac_DisableComputeChecksums dst),
       ac_S3ForcePathStyle := merge_ptr (ac_S3ForcePathStyle other) (ac_S3ForcePathStyle dst),
       ac_S3Disable100Continue := merge_ptr (ac_S3Disable100Continue other) (ac_S3Disable100Continue dst),
       ac_S3UseAccelerate := merge_ptr (ac_S3UseAccelerate other) (ac_S3UseAccelerate dst),
       ac_S3DisableContentMD5Validation := merge_ptr (ac_S3DisableContentMD5Validation other) (ac_S3DisableContentMD5Validation dst),
       ac_S3UseARNRegion := merge_ptr (ac_S3UseARNRegion other) (ac_S3UseARNRegion dst),
       ac_UseDualStack := merge_ptr (ac_UseDualStack other) (ac_UseDualStack dst),
       ac_UseDualStackEndpoint := merge_enum DualStackEndpointStateUnset (ac_UseDualStackEndpoint other) (ac_UseDualStackEndpoint dst),
       ac_EC2MetadataDisableTimeoutOverride := merge_ptr (ac_EC2MetadataDisableTimeoutOverride other) (ac_EC2MetadataDisableTimeoutOverride dst),
       ac_EC2MetadataEnableFallback := merge_ptr (ac_EC2MetadataEnableFallback other) (ac_EC2MetadataEnableFallback dst),
       ac_SleepDelay := merge_ptr (ac_SleepDelay other) (ac_SleepDelay dst),
       ac_DisableRestProtocolURICleaning := merge_ptr (ac_DisableRestProtocolURICleaning other) (ac_DisableRestProtocolURICleaning dst),
       ac_EnforceShouldRetryCheck := merge_ptr (ac_EnforceShouldRetryCheck other) (ac_EnforceShouldRetryCheck dst),
       ac_EnableEndpointDiscovery := merge_ptr (ac_EnableEndpointDiscovery other) (ac_EnableEndpointDiscovery dst),
       ac_DisableEndpointHostPrefix := merge_ptr (ac_DisableEndpointHostPrefix other) (ac_DisableEndpointHostPrefix dst),
       ac_S3UsEast1RegionalEndpoint := merge_enum UnsetS3UsEast1Endpoint (ac_S3UsEast1RegionalEndpoint other) (ac_S3UsEast1RegionalEndpoint dst),
       ac_LowerCaseHeaderMaps := merge_ptr (ac_LowerCaseHeaderMaps other) (ac_LowerCaseHeaderMaps dst)\<rparr>)"

definition MergeIn :: "('c, 'v) Config \<Rightarrow> ('c, 'v) Config option list \<Rightarrow> ('c, 'v) Config" where
  "MergeIn c cfgs = foldl mergeInConfig c cfgs"

definition Config_Copy :: "('c, 'v) Config option \<Rightarrow> ('c, 'v) Config option list \<Rightarrow> ('c, 'v) Config" where
  "Config_Copy c cfgs = foldl (\<lambda>dst cfg. MergeIn dst [cfg]) (MergeIn NewConfig [c]) cfgs"

section \<open>Laws of merging\<close>

text \<open>
  Merging is a monoid with the empty configuration as its unit, so a copy is equal to its original, and merging
  configurations one after the other is merging their merge.
\<close>

named_theorems merge_simps \<open>how fields are merged\<close>

lemma merge_ptr_simps [merge_simps]:
  "merge_ptr None d = d" "merge_ptr (Some v) d = Some v" "merge_ptr x None = x" "merge_ptr x x = x"
  "merge_ptr x (merge_ptr y z) = merge_ptr (merge_ptr x y) z"
  by (cases x; simp add: merge_ptr_def)+

lemma merge_enum_simps [merge_simps]:
  "merge_enum u u d = d" "merge_enum u x u = x" "merge_enum u x x = x"
  "merge_enum u x (merge_enum u y z) = merge_enum u (merge_enum u x y) z"
  by (simp_all add: merge_enum_def)

text \<open>The fields of a merge.\<close>

lemma merge_fields [merge_simps]:
  "ac_CredentialsChainVerboseErrors (mergeInConfig dst (Some other)) = merge_ptr (ac_CredentialsChainVerboseErrors other) (ac_CredentialsChainVerboseErrors dst)"
  "ac_Credentials (mergeInConfig dst (Some other)) = merge_ptr (ac_Credentials other) (ac_Credentials dst)"
  "ac_Endpoint (mergeInConfig dst (Some other)) = merge_ptr (ac_Endpoint other) (ac_Endpoint dst)"
  "ac_EndpointResolver (mergeInConfig dst (Some other)) = merge_ptr (ac_EndpointResolver other) (ac_EndpointResolver dst)"
  "ac_Region (mergeInConfig dst (Some other)) = merge_ptr (ac_Region other) (ac_Region dst)"
  "ac_DisableSSL (mergeInConfig dst (Some other)) = merge_ptr (ac_DisableSSL other) (ac_DisableSSL dst)"
  "ac_HTTPClient (mergeInConfig dst (Some other)) = merge_ptr (ac_HTTPClient other) (ac_HTTPClient dst)"
  "ac_LogLevel (mergeInConfig dst (Some other)) = merge_ptr (ac_LogLevel other) (ac_LogLevel dst)"
  "ac_Logger (mergeInConfig dst (Some other)) = merge_ptr (ac_Logger other) (ac_Logger dst)"
  "ac_MaxRetries (mergeInConfig dst (Some other)) = merge_ptr (ac_MaxRetries other) (ac_MaxRetries dst)"
  "ac_Retryer (mergeInConfig dst (Some other)) = merge_ptr (ac_Retryer other) (ac_Retryer dst)"
  "ac_DisableParamValidation (mergeInConfig dst (Some other)) = merge_ptr (ac_DisableParamValidation other) (ac_DisableParamValidation dst)"
  "ac_DisableComputeChecksums (mergeInConfig dst (Some other)) = merge_ptr (ac_DisableComputeChecksums other) (ac_DisableComputeChecksums dst)"
  "ac_S3ForcePathStyle (mergeInConfig dst (Some other)) = merge_ptr (ac_S3ForcePathStyle other) (ac_S3ForcePathStyle dst)"
  "ac_S3Disable100Continue (mergeInConfig dst (Some other)) = merge_ptr (ac_S3Disable100Continue other) (ac_S3Disable100Continue dst)"
  "ac_S3UseAccelerate (mergeInConfig dst (Some other)) = merge_ptr (ac_S3UseAccelerate other) (ac_S3UseAccelerate dst)"
  "ac_S3DisableContentMD5Validation (mergeInConfig dst (Some other)) = merge_ptr (ac_S3DisableContentMD5Validation other) (ac_S3DisableContentMD5Validation dst)"
  "ac_S3UseARNRegion (mergeInConfig dst (Some other)) = merge_ptr (ac_S3UseARNRegion other) (ac_S3UseARNRegion dst)"
  "ac_UseDualStack (mergeInConfig dst (Some other)) = merge_ptr (ac_UseDualStack other) (ac_UseDualStack dst)"
  "ac_UseDualStackEndpoint (mergeInConfig dst (Some other)) = merge_enum DualStackEndpointStateUnset (ac_UseDualStackEndpoint other) (ac_UseDualStackEndpoint dst)"
  "ac_EC2MetadataDisableTimeoutOverride (mergeInConfig dst (Some other)) = merge_ptr (ac_EC2MetadataDisableTimeoutOverride other) (ac_EC2MetadataDisableTimeoutOverride dst)"
  "ac_EC2MetadataEnableFallback (mergeInConfig dst (Some other)) = merge_ptr (ac_EC2MetadataEnableFallback other) (ac_EC2MetadataEnableFallback dst)"
  "ac_SleepDelay (mergeInConfig dst (Some other)) = merge_ptr (ac_SleepDelay other) (ac_SleepDelay dst)"
  "ac_DisableRestProtocolURICleaning (mergeInConfig dst (Some other)) = merge_ptr (ac_DisableRestProtocolURICleaning other) (ac_DisableRestProtocolURICleaning dst)"
  "ac_EnforceShouldRetryCheck (mergeInConfig dst (Some other)) = merge_ptr (ac_EnforceShouldRetryCheck other) (ac_EnforceShouldRetryCheck dst)"
  "ac_EnableEndpointDiscovery (mergeInConfig dst (Some other)) = merge_ptr (ac_EnableEndpointDiscovery other) (ac_EnableEndpointDiscovery dst)"
  "ac_DisableEndpointHostPrefix (mergeInConfig dst (Some other)) = merge_ptr (ac_DisableEndpointHostPrefix other) (ac_DisableEndpointHostPrefix dst)"
  "ac_S3UsEast1RegionalEndpoint (mergeInConfig dst (Some other)) = merge_enum UnsetS3UsEast1Endpoint (ac_S3UsEast1RegionalEndpoint other) (ac_S3UsEast1RegionalEndpoint dst)"
  "ac_LowerCaseHeaderMaps (mergeInConfig dst (Some other)) = merge_ptr (ac_LowerCaseHeaderMaps other) (ac_LowerCaseHeaderMaps dst)"
  by (simp_all add: mergeInConfig_def)

lemma mergeIn_unit: "mergeInConfig NewConfig (Some c) = c" "mergeInConfig c (Some NewConfig) = c"
  by (rule Config.equality; simp add: merge_simps; simp add: NewConfig_def merge_simps)+

lemma mergeIn_assoc: "mergeInConfig (mergeInConfig a (Some b)) (Some c) = mergeInConfig a (Some (mergeInConfig b (Some c)))"
  by (rule Config.equality; simp add: merge_simps)

lemma mergeIn_same: "mergeInConfig c (Some c) = c"
  by (rule Config.equality; simp add: merge_simps)

lemma mergeIn_nil: "mergeInConfig c None = c"
  by (simp add: mergeInConfig_def)

lemma mergeIn_again: "mergeInConfig (mergeInConfig c (Some d)) (Some d) = mergeInConfig c (Some d)"
  by (simp add: mergeIn_assoc mergeIn_same)

lemma MergeIn_simps: "MergeIn c [] = c" "MergeIn c (x # xs) = MergeIn (mergeInConfig c x) xs"
  by (simp_all add: MergeIn_def)

lemma Config_Copy_merges: "Config_Copy (Some c) cfgs = MergeIn c cfgs"
  by (simp add: Config_Copy_def MergeIn_def mergeIn_unit)

section \<open>A scheme is added once\<close>

lemma schemeRE_AddScheme: "schemeRE (AddScheme endpoint disableSSL)"
  by (simp add: AddScheme_def schemeRE_def)

lemma AddScheme_again: "AddScheme (AddScheme endpoint d) d' = AddScheme endpoint d"
  by (simp add: AddScheme_def [of "AddScheme endpoint d"] schemeRE_AddScheme)

end
