(* ===== verification/AwsSharedConfig.thy ===== *)
theory AwsSharedConfig
  imports AwsConfig
begin

text \<open>
  What a session reads: the environment, \<open>aws/session/env_config.go\<close>, and the shared configuration files,
  \<open>aws/session/shared_config.go\<close>.

  The pointer \<open>SourceProfile\<close> makes a \<open>sharedConfig\<close> a chain of records, here a datatype. The files are
  passed along because \<open>Section.String\<close> changes the runes of a quoted value in place. The pointer arguments
  of \<open>updateString\<close>, \<open>updateBool\<close> and \<open>updateBoolPtr\<close> are the updates of the fields they point to. A
  result \<open>None\<close> is a call that panics or does not return.
\<close>

section \<open>The environment\<close>

definition EnvConfigProviderName :: string where "EnvConfigProviderName = ''EnvConfigCredentials''"

record envConfig =
  en_Creds :: CredValue
  en_Region :: string
  en_Profile :: string
  en_EnableSharedConfig :: bool
  en_SharedCredentialsFile :: string
  en_SharedConfigFile :: string
  en_CustomCABundle :: string
  en_ClientTLSCert :: string
  en_ClientTLSKey :: string
  en_EnableEndpointDiscovery :: "bool option"
  en_enableEndpointDiscovery :: string
  en_S3UsEast1RegionalEndpoint :: S3UsEast1RegionalEndpoint
  en_S3UseARNRegion :: bool
  en_UseDualStackEndpoint :: DualStackEndpointState

definition zero_envConfig :: envConfig where
  "zero_envConfig = \<lparr>en_Creds = zero_Value, en_Region = [], en_Profile = [], en_EnableSharedConfig = False,
     en_SharedCredentialsFile = [], en_SharedConfigFile = [], en_CustomCABundle = [], en_ClientTLSCert = [],
     en_ClientTLSKey = [], en_EnableEndpointDiscovery = None, en_enableEndpointDiscovery = [],
     en_S3UsEast1RegionalEndpoint = UnsetS3UsEast1Endpoint, en_S3UseARNRegion = False,
     en_UseDualStackEndpoint = DualStackEndpointStateUnset\<rparr>"

definition credAccessEnvKey :: "string list" where "credAccessEnvKey = [''AWS_ACCESS_KEY_ID'', ''AWS_ACCESS_KEY'']"
definition credSecretEnvKey :: "string list" where "credSecretEnvKey = [''AWS_SECRET_ACCESS_KEY'', ''AWS_SECRET_KEY'']"
definition credSessionEnvKey :: "string list" where "credSessionEnvKey = [''AWS_SESSION_TOKEN'']"
definition enableEndpointDiscoveryEnvKey :: "string list" where
  "enableEndpointDiscoveryEnvKey = [''AWS_ENABLE_ENDPOINT_DISCOVERY'']"
definition regionEnvKeys :: "string list" where "regionEnvKeys = [''AWS_REGION'', ''AWS_DEFAULT_REGION'']"
definition profileEnvKeys :: "string list" where "profileEnvKeys = [''AWS_PROFILE'', ''AWS_DEFAULT_PROFILE'']"
definition sharedCredsFileEnvKey :: "string list" where "sharedCredsFileEnvKey = [''AWS_SHARED_CREDENTIALS_FILE'']"
definition sharedConfigFileEnvKey :: "string list" where "sharedConfigFileEnvKey = [''AWS_CONFIG_FILE'']"
definition s3UsEast1RegionalEndpoint :: "string list" where
  "s3UsEast1RegionalEndpoint = [''AWS_S3_US_EAST_1_REGIONAL_ENDPOINT'']"
definition s3UseARNRegionEnvKey :: "string list" where "s3UseARNRegionEnvKey = [''AWS_S3_USE_ARN_REGION'']"
definition useCABundleKey :: "string list" where "useCABundleKey = [''AWS_CA_BUNDLE'']"
definition useClientTLSCert :: "string list" where "useClientTLSCert = [''AWS_SDK_GO_CLIENT_TLS_CERT'']"
definition useClientTLSKey :: "string list" where "useClientTLSKey = [''AWS_SDK_GO_CLIENT_TLS_KEY'']"

lemmas env_key_defs = credAccessEnvKey_def credSecretEnvKey_def credSessionEnvKey_def enableEndpointDiscoveryEnvKey_def
  regionEnvKeys_def profileEnvKeys_def sharedCredsFileEnvKey_def sharedConfigFileEnvKey_def s3UsEast1RegionalEndpoint_def
  s3UseARNRegionEnvKey_def useCABundleKey_def useClientTLSCert_def useClientTLSKey_def

fun setFromEnvVal :: "os \<Rightarrow> string \<Rightarrow> string list \<Rightarrow> string" where
  "setFromEnvVal os dst [] = dst"
| "setFromEnvVal os dst (k # keys) =
     (let v = os_Getenv os k in if length v \<noteq> 0 then v else setFromEnvVal os dst keys)"

text \<open>The loop over the keys of the regional endpoint.\<close>

fun load_regional :: "os \<Rightarrow> string list \<Rightarrow> envConfig \<Rightarrow> goerror + envConfig" where
  "load_regional os [] cfg = Inr cfg"
| "load_regional os (k # keys) cfg =
     (let v = os_Getenv os k in
      if length v \<noteq> 0 then
        case GetS3UsEast1RegionalEndpoint v of
          Inl err \<Rightarrow> Inl (PlainError (''failed to load, '' @ k @ '' from env config, '' @ error_text err))
        | Inr e \<Rightarrow> load_regional os keys (cfg\<lparr>en_S3UsEast1RegionalEndpoint := e\<rparr>)
      else load_regional os keys cfg)"

definition envConfigLoad :: "os \<Rightarrow> bool \<Rightarrow> goerror + envConfig" where
  "envConfigLoad os enableSharedConfig =
     (let cfg = zero_envConfig\<lparr>en_EnableSharedConfig := enableSharedConfig\<rparr>;
          creds = zero_Value\<lparr>
            cv_AccessKeyID := setFromEnvVal os [] credAccessEnvKey,
            cv_SecretAccessKey := setFromEnvVal os [] credSecretEnvKey,
            cv_SessionToken := setFromEnvVal os [] credSessionEnvKey\<rparr>;
          cfg = (if HasKeys creds then cfg\<lparr>en_Creds := creds\<lparr>cv_ProviderName := EnvConfigProviderName\<rparr>\<rparr> else cfg);
          cfg = (if length (cv_AccessKeyID (en_Creds cfg)) = 0 \<or> length (cv_SecretAccessKey (en_Creds cfg)) = 0
                 then cfg\<lparr>en_Creds := zero_Value\<rparr>
                 else cfg\<lparr>en_Creds := (en_Creds cfg)\<lparr>cv_ProviderName := EnvConfigProviderName\<rparr>\<rparr>);
          regionKeys = (if \<not> en_EnableSharedConfig cfg then take 1 regionEnvKeys else regionEnvKeys);
          profileKeys = (if \<not> en_EnableSharedConfig cfg then take 1 profileEnvKeys else profileEnvKeys);
          cfg = cfg\<lparr>en_Region := setFromEnvVal os [] regionKeys, en_Profile := setFromEnvVal os [] profileKeys,
                  en_enableEndpointDiscovery := setFromEnvVal os [] enableEndpointDiscoveryEnvKey\<rparr>;
          cfg = (if length (en_enableEndpointDiscovery cfg) > 0
                 then cfg\<lparr>en_EnableEndpointDiscovery := Some (en_enableEndpointDiscovery cfg \<noteq> ''false'')\<rparr> else cfg);
          cfg = cfg\<lparr>en_SharedCredentialsFile := setFromEnvVal os [] sharedCredsFileEnvKey,
                  en_SharedConfigFile := setFromEnvVal os [] sharedConfigFileEnvKey\<rparr>;
          cfg = (if length (en_SharedCredentialsFile cfg) = 0
                 then cfg\<lparr>en_SharedCredentialsFile := os_SharedCredentialsFilename os\<rparr> else cfg);
          cfg = (if length (en_SharedConfigFile cfg) = 0
                 then cfg\<lparr>en_SharedConfigFile := os_SharedConfigFilename os\<rparr> else cfg);
          cfg = cfg\<lparr>en_CustomCABundle := setFromEnvVal os [] useCABundleKey,
                  en_ClientTLSCert := setFromEnvVal os [] useClientTLSCert,
                  en_ClientTLSKey := setFromEnvVal os [] useClientTLSKey\<rparr>
      in case load_regional os s3UsEast1RegionalEndpoint cfg of
           Inl err \<Rightarrow> Inl err
         | Inr cfg \<Rightarrow>
             (let s3UseARNRegion = setFromEnvVal os [] s3UseARNRegionEnvKey in
              if length s3UseARNRegion \<noteq> 0 then
                if EqualFold s3UseARNRegion ''false'' then Inr (cfg\<lparr>en_S3UseARNRegion := False\<rparr>)
                else if EqualFold s3UseARNRegion ''true'' then Inr (cfg\<lparr>en_S3UseARNRegion := True\<rparr>)
                else Inl (PlainError (''invalid value for environment variable, '' @ hd s3UseARNRegionEnvKey @ ''='' @
                       s3UseARNRegion @ '', need true or false''))
              else Inr cfg))"

text \<open>\<open>strconv.ParseBool\<close> with its error dropped.\<close>

definition ParseBool :: "string \<Rightarrow> bool" where
  "ParseBool s \<longleftrightarrow> s \<in> {''1'', ''t'', ''T'', ''true'', ''TRUE'', ''True''}"

definition loadEnvConfig :: "os \<Rightarrow> goerror + envConfig" where
  "loadEnvConfig os = envConfigLoad os (ParseBool (os_Getenv os ''AWS_SDK_LOAD_CONFIG''))"

definition loadSharedEnvConfig :: "os \<Rightarrow> goerror + envConfig" where
  "loadSharedEnvConfig os = envConfigLoad os True"

section \<open>The shared configuration\<close>

record shared_fields =
  sc_Profile :: string
  sc_Creds :: CredValue
  sc_CredentialSource :: string
  sc_CredentialProcess :: string
  sc_RoleARN :: string
  sc_RoleSessionName :: string
  sc_ExternalID :: string
  sc_MFASerial :: string
  sc_SourceProfileName :: string
  sc_Region :: string
  sc_CustomCABundle :: string
  sc_EnableEndpointDiscovery :: "bool option"
  sc_S3UsEast1RegionalEndpoint :: S3UsEast1RegionalEndpoint
  sc_S3UseARNRegion :: bool
  sc_UseDualStackEndpoint :: DualStackEndpointState

datatype sharedConfig = SharedConfig (sc_fields: shared_fields) (sc_SourceProfile: "sharedConfig option")

definition zero_shared :: shared_fields where
  "zero_shared = \<lparr>sc_Profile = [], sc_Creds = zero_Value, sc_CredentialSource = [], sc_CredentialProcess = [],
     sc_RoleARN = [], sc_RoleSessionName = [], sc_ExternalID = [], sc_MFASerial = [], sc_SourceProfileName = [],
     sc_Region = [], sc_CustomCABundle = [], sc_EnableEndpointDiscovery = None,
     sc_S3UsEast1RegionalEndpoint = UnsetS3UsEast1Endpoint, sc_S3UseARNRegion = False,
     sc_UseDualStackEndpoint = DualStackEndpointStateUnset\<rparr>"

record sharedConfigFile =
  sf_Filename :: string
  sf_IniData :: Sections

text \<open>The errors of a session: the two error types of its own that it makes, or another error.\<close>

datatype session_error =
    SharedConfigProfileNotExistsError string
  | SharedConfigLoadError string goerror
  | SessionError goerror

definition ErrCodeSharedConfig :: string where "ErrCodeSharedConfig = ''SharedConfigErr''"

definition ErrSharedConfigSourceCollision :: goerror where
  "ErrSharedConfigSourceCollision = awserr_New ErrCodeSharedConfig
     (''only one credential type may be specified per profile: source profile, credential source, credential process, '' @
      ''web identity token'') None"

definition ErrSharedConfigInvalidCredSource :: goerror where
  "ErrSharedConfigInvalidCredSource = awserr_New ErrCodeSharedConfig
     ''credential source values must be EcsContainer, Ec2InstanceMetadata, or Environment'' None"

type_synonym shared_state = "shared_fields \<times> Section"

definition updateString :: "((string \<Rightarrow> string) \<Rightarrow> shared_fields \<Rightarrow> shared_fields) \<Rightarrow> string \<Rightarrow> shared_state \<Rightarrow> shared_state option" where
  "updateString dst key x = (case x of (cfg, section) \<Rightarrow>
     if \<not> Section_Has section (runes key) then Some (cfg, section)
     else case ini_String section key of
       None \<Rightarrow> None
     | Some (v, section) \<Rightarrow> Some (dst (\<lambda>_. v) cfg, section))"

definition updateBool :: "((bool \<Rightarrow> bool) \<Rightarrow> shared_fields \<Rightarrow> shared_fields) \<Rightarrow> string \<Rightarrow> shared_state \<Rightarrow> shared_state" where
  "updateBool dst key x = (case x of (cfg, section) \<Rightarrow>
     if \<not> Section_Has section (runes key) then (cfg, section)
     else (dst (\<lambda>_. fst (Section_Bool section (runes key))) cfg, section))"

definition updateBoolPtr :: "((bool option \<Rightarrow> bool option) \<Rightarrow> shared_fields \<Rightarrow> shared_fields) \<Rightarrow> string \<Rightarrow> shared_state \<Rightarrow> shared_state" where
  "updateBoolPtr dst key x = (case x of (cfg, section) \<Rightarrow>
     if \<not> Section_Has section (runes key) then (cfg, section)
     else (dst (\<lambda>_. Some (fst (Section_Bool section (runes key)))) cfg, section))"

text \<open>The steps of \<open>setFromIniFile\<close>: the fields read when the shared configuration is enabled, then the rest.\<close>

definition assume_role_params :: "shared_state \<Rightarrow> shared_state option" where
  "assume_role_params x = do {
     x \<leftarrow> updateString sc_RoleARN_update ''role_arn'' x;
     x \<leftarrow> updateString sc_ExternalID_update ''external_id'' x;
     x \<leftarrow> updateString sc_MFASerial_update ''mfa_serial'' x;
     x \<leftarrow> updateString sc_RoleSessionName_update ''role_session_name'' x;
     x \<leftarrow> updateString sc_SourceProfileName_update ''source_profile'' x;
     x \<leftarrow> updateString sc_CredentialSource_update ''credential_source'' x;
     x \<leftarrow> updateString sc_Region_update ''region'' x;
     updateString sc_CustomCABundle_update ''ca_bundle'' x
   }"

definition regional_endpoint :: "string \<Rightarrow> shared_state \<Rightarrow> (session_error + shared_state) option" where
  "regional_endpoint filename x = (case x of (cfg, section) \<Rightarrow>
     case ini_String section ''s3_us_east_1_regional_endpoint'' of
       None \<Rightarrow> None
     | Some (v, section) \<Rightarrow>
         if length v \<noteq> 0 then
           (case GetS3UsEast1RegionalEndpoint v of
              Inl err \<Rightarrow> Some (Inl (SessionError (PlainError (''failed to load s3_us_east_1_regional_endpoint from shared config, '' @
                filename @ '', '' @ error_text err))))
            | Inr sre \<Rightarrow> Some (Inr (cfg\<lparr>sc_S3UsEast1RegionalEndpoint := sre\<rparr>, section)))
         else Some (Inr (cfg, section)))"

definition shared_creds :: "string \<Rightarrow> shared_state \<Rightarrow> shared_state option" where
  "shared_creds filename x = (case x of (cfg, section) \<Rightarrow> do {
     (id, section) \<leftarrow> ini_String section ''aws_access_key_id'';
     (secret, section) \<leftarrow> ini_String section ''aws_secret_access_key'';
     (token, section) \<leftarrow> ini_String section ''aws_session_token'';
     let creds = zero_Value\<lparr>cv_AccessKeyID := id, cv_SecretAccessKey := secret, cv_SessionToken := token,
                   cv_ProviderName := ''SharedConfigCredentials: '' @ filename\<rparr>;
     Some (if HasKeys creds then cfg\<lparr>sc_Creds := creds\<rparr> else cfg, section)
   })"

definition process_and_region :: "shared_state \<Rightarrow> shared_state option" where
  "process_and_region x = (case x of (cfg, section) \<Rightarrow> do {
     (credProc, section) \<leftarrow> ini_String section ''credential_process'';
     let cfg = (if length credProc > 0 then cfg\<lparr>sc_CredentialProcess := credProc\<rparr> else cfg);
     (v, section) \<leftarrow> ini_String section ''region'';
     let cfg = (if length v > 0 then cfg\<lparr>sc_Region := v\<rparr> else cfg);
     Some (cfg, section)
   })"

definition shared_values :: "string \<Rightarrow> shared_state \<Rightarrow> shared_state option" where
  "shared_values filename x = do {
     x \<leftarrow> updateString sc_CredentialProcess_update ''credential_process'' x;
     x \<leftarrow> shared_creds filename x;
     x \<leftarrow> process_and_region x;
     let x = updateBoolPtr sc_EnableEndpointDiscovery_update ''endpoint_discovery_enabled'' x;
     Some (updateBool sc_S3UseARNRegion_update ''s3_use_arn_region'' x)
   }"

definition set_fields :: "string \<Rightarrow> bool \<Rightarrow> shared_state \<Rightarrow> (session_error + shared_state) option" where
  "set_fields filename exOpts x =
     (let options = (if exOpts then (case assume_role_params x of None \<Rightarrow> None | Some x \<Rightarrow> regional_endpoint filename x)
                     else Some (Inr x))
      in case options of
           None \<Rightarrow> None
         | Some (Inl err) \<Rightarrow> Some (Inl err)
         | Some (Inr x) \<Rightarrow> map_option Inr (shared_values filename x))"

text \<open>The section of a profile, under its name or under the name after \<open>profile\<close>.\<close>

definition profile_section :: "Sections \<Rightarrow> string \<Rightarrow> (rune list \<times> Section) option" where
  "profile_section data profile = (case GetSection data (str_Runes profile) of
     Some section \<Rightarrow> Some (str_Runes profile, section)
   | None \<Rightarrow> (let p = str_Runes (''profile '' @ profile) in map_option (Pair p) (GetSection data p)))"

definition setFromIniFile :: "shared_fields \<Rightarrow> string \<Rightarrow> sharedConfigFile \<Rightarrow> bool \<Rightarrow>
    (session_error + shared_fields \<times> sharedConfigFile) option" where
  "setFromIniFile cfg profile f exOpts =
     (case profile_section (sf_IniData f) profile of
        None \<Rightarrow> Some (Inl (SharedConfigProfileNotExistsError profile))
      | Some (p, section) \<Rightarrow>
          (case set_fields (sf_Filename f) exOpts (cfg, section) of
             None \<Rightarrow> None
           | Some (Inl err) \<Rightarrow> Some (Inl err)
           | Some (Inr (cfg, section)) \<Rightarrow>
               Some (Inr (cfg, f\<lparr>sf_IniData := (sf_IniData f)(p \<mapsto> section)\<rparr>))))"

fun oneOrNone_from :: "nat \<Rightarrow> bool list \<Rightarrow> bool" where
  "oneOrNone_from n [] = True"
| "oneOrNone_from n (b # bs) =
     (if b then (let n = Suc n in if n > 1 then False else oneOrNone_from n bs)
      else oneOrNone_from n bs)"

definition oneOrNone :: "bool list \<Rightarrow> bool" where
  "oneOrNone bs = oneOrNone_from 0 bs"

definition validateCredentialType :: "shared_fields \<Rightarrow> session_error option" where
  "validateCredentialType cfg =
     (if \<not> oneOrNone [length (sc_SourceProfileName cfg) \<noteq> 0, length (sc_CredentialSource cfg) \<noteq> 0,
            length (sc_CredentialProcess cfg) \<noteq> 0]
      then Some (SessionError ErrSharedConfigSourceCollision) else None)"

definition hasCredentials :: "shared_fields \<Rightarrow> bool" where
  "hasCredentials cfg \<longleftrightarrow> length (sc_SourceProfileName cfg) \<noteq> 0 \<or> length (sc_CredentialSource cfg) \<noteq> 0 \<or>
     length (sc_CredentialProcess cfg) \<noteq> 0 \<or> HasKeys (sc_Creds cfg)"

definition clearCredentialOptions :: "shared_fields \<Rightarrow> shared_fields" where
  "clearCredentialOptions cfg = cfg\<lparr>sc_CredentialSource := [], sc_CredentialProcess := [], sc_Creds := zero_Value\<rparr>"

text \<open>The loop over the files: the fields, the files, the error of the last skipped file and how many were skipped.\<close>

fun set_from_files :: "string \<Rightarrow> bool \<Rightarrow> sharedConfigFile list \<Rightarrow> shared_fields \<Rightarrow> session_error option \<Rightarrow> nat \<Rightarrow>
    (session_error + shared_fields \<times> sharedConfigFile list \<times> session_error option \<times> nat) option" where
  "set_from_files profile exOpts [] cfg notFound skipped = Some (Inr (cfg, [], notFound, skipped))"
| "set_from_files profile exOpts (f # fs) cfg notFound skipped =
     (let rest = (\<lambda>cfg f notFound skipped. map_option (map_sum id (\<lambda>(cfg, fs, r). (cfg, f # fs, r)))
                   (set_from_files profile exOpts fs cfg notFound skipped))
      in case setFromIniFile cfg profile f exOpts of
           None \<Rightarrow> None
         | Some (Inl (SharedConfigProfileNotExistsError p)) \<Rightarrow>
             rest cfg f (Some (SharedConfigProfileNotExistsError p)) (Suc skipped)
         | Some (Inl err) \<Rightarrow> Some (Inl err)
         | Some (Inr (cfg, f)) \<Rightarrow> rest cfg f notFound skipped)"

text \<open>Until the source profile is followed: the fields, the files and whether to go on to the source profile.\<close>

definition set_profile :: "string \<Rightarrow> sharedConfigFile list \<Rightarrow> bool \<Rightarrow>
    (session_error + shared_fields \<times> sharedConfigFile list \<times> bool) option" where
  "set_profile profile files exOpts =
     (case set_from_files profile exOpts files (zero_shared\<lparr>sc_Profile := profile\<rparr>) None 0 of
        None \<Rightarrow> None
      | Some (Inl err) \<Rightarrow> Some (Inl err)
      | Some (Inr (cfg, files, notFound, skipped)) \<Rightarrow>
          Some (if skipped = length files then (case notFound of Some err \<Rightarrow> Inl err | None \<Rightarrow> Inr (cfg, files, False))
                else case validateCredentialType cfg of
                  Some err \<Rightarrow> Inl err
                | None \<Rightarrow>
                    if length (sc_SourceProfileName cfg) \<noteq> 0 then Inr (clearCredentialOptions cfg, files, True)
                    else Inr (cfg, files, False)))"

text \<open>The set \<open>profiles\<close> of the profiles seen is only ever added to.\<close>

partial_function (option) setFromIniFiles :: "string set \<Rightarrow> string \<Rightarrow> sharedConfigFile list \<Rightarrow> bool \<Rightarrow>
    (session_error + sharedConfig \<times> sharedConfigFile list) option" where
  "setFromIniFiles profiles profile files exOpts =
     (case set_profile profile files exOpts of
        None \<Rightarrow> None
      | Some (Inl err) \<Rightarrow> Some (Inl err)
      | Some (Inr (cfg, files, linked)) \<Rightarrow>
          if \<not> linked then Some (Inr (SharedConfig cfg None, files))
          else Option.bind (setFromIniFiles (insert profile profiles) (sc_SourceProfileName cfg) files exOpts)
            (\<lambda>r. Some (case r of
               Inl err \<Rightarrow> Inl err
             | Inr (srcCfg, files) \<Rightarrow> Inr (SharedConfig cfg (Some srcCfg), files))))"

fun loadSharedConfigIniFiles :: "strconv \<Rightarrow> os \<Rightarrow> string list \<Rightarrow> (session_error + sharedConfigFile list) option" where
  "loadSharedConfigIniFiles pnum os [] = Some (Inr [])"
| "loadSharedConfigIniFiles pnum os (filename # filenames) =
     (case ini_OpenFile pnum os filename of
        None \<Rightarrow> None
      | Some (Inl err) \<Rightarrow>
          if Code err = Some ''FailedRead'' then loadSharedConfigIniFiles pnum os filenames
          else Some (Inl (SharedConfigLoadError filename err))
      | Some (Inr sections) \<Rightarrow>
          map_option (map_sum id (Cons \<lparr>sf_Filename = filename, sf_IniData = sections\<rparr>))
            (loadSharedConfigIniFiles pnum os filenames))"

definition DefaultSharedConfigProfile :: string where "DefaultSharedConfigProfile = ''default''"

definition loadSharedConfig :: "strconv \<Rightarrow> os \<Rightarrow> string \<Rightarrow> string list \<Rightarrow> bool \<Rightarrow> (session_error + sharedConfig) option" where
  "loadSharedConfig pnum os profile filenames exOpts =
     (let profile = (if length profile = 0 then DefaultSharedConfigProfile else profile)
      in case loadSharedConfigIniFiles pnum os filenames of
           None \<Rightarrow> None
         | Some (Inl err) \<Rightarrow> Some (Inl err)
         | Some (Inr files) \<Rightarrow> map_option (map_sum id fst) (setFromIniFiles {} profile files exOpts))"

end
