(* ===== verification/AwsSession.thy ===== *)
theory AwsSession
  imports AwsSharedConfig AwsHandlers
begin

text \<open>
  Sessions: \<open>aws/session/session.go\<close> and \<open>aws/session/credentials.go\<close>, with the default configuration of
  \<open>aws/defaults/defaults.go\<close>.

  \<open>session_env\<close> has what a session takes from outside the package: the numbers of the INI reader, the process
  environment, the builders of IAM providers, the HTTP clients behind their addresses, the default handlers, logger
  and resolver, parsing PEM data, and the order in which \<open>range\<close> visits a map. A pool of certificates is the PEM
  data it was made from. \<open>http_world\<close> is the store of the objects of \<open>net/http\<close> a session changes in place:
  the \<open>Transport\<close> of each client, the TLS configuration of each transport, and these configurations;
  \<open>hw_next\<close> is the first free address. A result \<open>None\<close> is a panic or a call that does not return.
\<close>

section \<open>Credentials of a session\<close>

datatype ('w, 'a) session_creds =
    AnonymousCreds
  | StaticCreds "CredValue Credentials"
  | IamCreds "'w IamProvider Credentials"
  | TrustedCreds "'a TrustedProfileProvider Credentials"
  | ProcessCreds string
  | ErrorChain "goerror ChainProvider Credentials"
  | UserCreds nat

type_synonym ('w, 'a, 'v) session_Config = "(('w, 'a) session_creds, 'v) Config"

definition NewStaticCredentialsFromCreds :: "CredValue \<Rightarrow> CredValue Credentials" where
  "NewStaticCredentialsFromCreds creds = NewCredentials creds"

definition credProviderError :: "goerror Provider" where
  "credProviderError = \<lparr>pv_Retrieve = (\<lambda>err. Some ((zero_Value, Some err), err)), pv_IsExpired = (\<lambda>_. True),
     pv_ExpiresAt = None\<rparr>"

definition credSourceEnvironment :: string where "credSourceEnvironment = ''Environment''"

definition resolveCredsFromSource :: "envConfig \<Rightarrow> shared_fields \<Rightarrow> session_error + ('w, 'a) session_creds" where
  "resolveCredsFromSource envCfg sharedCfg =
     (if sc_CredentialSource sharedCfg = credSourceEnvironment
      then Inr (StaticCreds (NewStaticCredentialsFromCreds (en_Creds envCfg)))
      else Inl (SessionError ErrSharedConfigInvalidCredSource))"

fun resolveCredsFromProfile :: "bool \<Rightarrow> envConfig \<Rightarrow> sharedConfig \<Rightarrow> session_error + ('w, 'a) session_creds" where
  "resolveCredsFromProfile verbose envCfg (SharedConfig c (Some src)) = resolveCredsFromProfile verbose envCfg src"
| "resolveCredsFromProfile verbose envCfg (SharedConfig c None) =
     (if HasKeys (sc_Creds c) then Inr (StaticCreds (NewStaticCredentialsFromCreds (sc_Creds c)))
      else if length (sc_CredentialProcess c) \<noteq> 0 then Inr (ProcessCreds (sc_CredentialProcess c))
      else if length (sc_CredentialSource c) \<noteq> 0 then resolveCredsFromSource envCfg c
      else Inr (ErrorChain (NewCredentials \<lparr>
        ch_Providers = [
          awserr_New ''EnvAccessKeyNotFound'' ''failed to find credentials in the environment.'' None,
          awserr_New ''SharedCredsLoad'' (''failed to load profile, '' @ en_Profile envCfg @ ''.'') None],
        ch_curr = None, ch_VerboseErrors = verbose\<rparr>)))"

definition resolveCredentials :: "('w, 'a, 'v) session_Config \<Rightarrow> envConfig \<Rightarrow> sharedConfig \<Rightarrow> string \<Rightarrow>
    session_error + ('w, 'a) session_creds" where
  "resolveCredentials cfg envCfg sharedCfg profile =
     (let verbose = BoolValue_ptr (ac_CredentialsChainVerboseErrors cfg) in
      if length profile \<noteq> 0 then resolveCredsFromProfile verbose envCfg sharedCfg
      else if HasKeys (en_Creds envCfg) then Inr (StaticCreds (NewStaticCredentialsFromCreds (en_Creds envCfg)))
      else resolveCredsFromProfile verbose envCfg sharedCfg)"

section \<open>The world of a session\<close>

record tls_Config =
  tl_RootCAs :: "byte list option"
  tl_Certificates :: "(byte list \<times> byte list) list"

text \<open>A \<open>RoundTripper\<close>: nil (or a nil \<open>*http.Transport\<close>), an \<open>*http.Transport\<close>, or a value of another type.\<close>

datatype round_tripper = NilTransport | HttpTransport nat | OtherTransport string

record http_world =
  hw_Transport :: "nat \<Rightarrow> round_tripper"
  hw_TLSClientConfig :: "nat \<Rightarrow> nat option"
  hw_tls :: "nat \<Rightarrow> tls_Config"
  hw_next :: nat

type_synonym reader = "goerror + byte list"

datatype tls_field = FieldCABundle | FieldClientCert | FieldClientKey

record ('w, 'a, 'v, 'r) session_env =
  se_pnum :: strconv
  se_os :: os
  se_iam :: "'w iam_env"
  se_core :: "'a core"
  se_client :: "nat \<Rightarrow> 'w http_Do"
  se_Handlers :: "'r Handlers"
  se_validate :: "'r \<Rightarrow> 'r"
  se_ClientEndpoint :: "'r \<Rightarrow> string"
  se_setError :: "goerror \<Rightarrow> 'r \<Rightarrow> 'r"
  se_Logger :: 'v
  se_Resolver :: "'v resolver"
  se_AppendCertsFromPEM :: "byte list \<Rightarrow> bool"
  se_X509KeyPair :: "byte list \<Rightarrow> byte list \<Rightarrow> goerror option"
  se_range :: "tls_field list"

definition DefaultClient :: nat where "DefaultClient = 0"

definition UseServiceDefaultRetries :: int where "UseServiceDefaultRetries = -1"

definition defaults_Config :: "('w, 'a, 'v, 'r) session_env \<Rightarrow> ('w, 'a, 'v) session_Config" where
  "defaults_Config se =
     (let c = WithCredentials NewConfig AnonymousCreds;
          c = WithRegion c (os_Getenv (se_os se) ''AWS_REGION'');
          c = WithHTTPClient c DefaultClient;
          c = WithMaxRetries c UseServiceDefaultRetries;
          c = WithLogger c (se_Logger se);
          c = WithLogLevel c 0
      in WithEndpointResolver c (se_Resolver se))"

text \<open>The fields of the configuration the constructors of IAM providers read.\<close>

definition iam_Config :: "('w, 'a, 'v, 'r) session_env \<Rightarrow> ('w, 'a, 'v) session_Config \<Rightarrow> 'w client_Config" where
  "iam_Config se c = \<lparr>cg_HTTPClient = map_option (se_client se) (ac_HTTPClient c), cg_MaxRetries = ac_MaxRetries c\<rparr>"

section \<open>Options\<close>

datatype SharedConfigState = SharedConfigStateFromEnv | SharedConfigDisable | SharedConfigEnable

record ('w, 'a, 'v, 'r) Options =
  op_Config :: "('w, 'a, 'v) session_Config"
  op_Profile :: string
  op_SharedConfigState :: SharedConfigState
  op_SharedConfigFiles :: "string list option"
  op_AssumeRoleTokenProvider :: "'v option"
  op_AssumeRoleDuration :: int
  op_CustomCABundle :: "reader option"
  op_ClientTLSCert :: "reader option"
  op_ClientTLSKey :: "reader option"
  op_Handlers :: "'r Handlers"

section \<open>Credentials of IBM IAM\<close>

definition Trusted_IsValid :: "'a TrustedProfileProvider \<Rightarrow> bool" where
  "Trusted_IsValid p \<longleftrightarrow> tr_ErrorStatus p = None"

definition getIBMIAMCredentials :: "('w, 'a, 'v, 'r) session_env \<Rightarrow> ('w, 'a, 'v) session_Config \<Rightarrow>
    ('w, 'a) session_creds option option" where
  "getIBMIAMCredentials se config =
     (let cg = Some (iam_Config se config);
          iam = (\<lambda>provider rest. case provider of
              None \<Rightarrow> None
            | Some p \<Rightarrow> if Iam_IsValid p then Some (Some (IamCreds (NewCredentials p))) else rest)
      in iam (NewEnvProvider (se_iam se) (se_os se) cg)
          (let provider = NewEnvProviderTrustedProfile (se_core se) (se_os se) in
           if Trusted_IsValid provider then Some (Some (TrustedCreds (NewCredentials provider)))
           else iam (NewSharedCredentialsProvider (se_pnum se) (se_iam se) (se_os se) cg [] [])
             (iam (NewSharedConfigProvider (se_pnum se) (se_iam se) (se_os se) cg [] []) (Some None))))"

section \<open>Merging the sources\<close>

fun mergeS3UsEast1RegionalEndpointConfig :: "('w, 'a, 'v) session_Config \<Rightarrow> S3UsEast1RegionalEndpoint list \<Rightarrow>
    ('w, 'a, 'v) session_Config" where
  "mergeS3UsEast1RegionalEndpointConfig cfg [] = cfg"
| "mergeS3UsEast1RegionalEndpointConfig cfg (v # vals) =
     (if v \<noteq> UnsetS3UsEast1Endpoint then cfg\<lparr>ac_S3UsEast1RegionalEndpoint := v\<rparr>
      else mergeS3UsEast1RegionalEndpointConfig cfg vals)"

definition merge_region :: "envConfig \<Rightarrow> shared_fields \<Rightarrow> ('w, 'a, 'v) session_Config \<Rightarrow> ('w, 'a, 'v) session_Config" where
  "merge_region envCfg sharedCfg cfg =
     (if length (StringValue_ptr (ac_Region cfg)) = 0 then
        if length (en_Region envCfg) > 0 then WithRegion cfg (en_Region envCfg)
        else if en_EnableSharedConfig envCfg \<and> length (sc_Region sharedCfg) > 0 then WithRegion cfg (sc_Region sharedCfg)
        else cfg
      else cfg)"

definition merge_discovery :: "envConfig \<Rightarrow> shared_fields \<Rightarrow> ('w, 'a, 'v) session_Config \<Rightarrow> ('w, 'a, 'v) session_Config" where
  "merge_discovery envCfg sharedCfg cfg =
     (if ac_EnableEndpointDiscovery cfg = None then
        case en_EnableEndpointDiscovery envCfg of
          Some b \<Rightarrow> WithEndpointDiscovery cfg b
        | None \<Rightarrow>
            (case sc_EnableEndpointDiscovery sharedCfg of
               Some b \<Rightarrow> if en_EnableSharedConfig envCfg then WithEndpointDiscovery cfg b else cfg
             | None \<Rightarrow> cfg)
      else cfg)"

definition merge_credentials :: "('w, 'a, 'v, 'r) session_env \<Rightarrow> ('w, 'a, 'v) session_Config \<Rightarrow> envConfig \<Rightarrow> sharedConfig \<Rightarrow>
    string \<Rightarrow> ('w, 'a, 'v) session_Config \<Rightarrow> (session_error + ('w, 'a, 'v) session_Config) option" where
  "merge_credentials se userCfg envCfg sharedCfg profile cfg =
     (if ac_Credentials cfg = Some AnonymousCreds \<and> ac_Credentials userCfg = None then
        case getIBMIAMCredentials se userCfg of
          None \<Rightarrow> None
        | Some (Some creds) \<Rightarrow> Some (Inr (cfg\<lparr>ac_Credentials := Some creds\<rparr>))
        | Some None \<Rightarrow>
            Some (case resolveCredentials cfg envCfg sharedCfg profile of
              Inl err \<Rightarrow> Inl err
            | Inr creds \<Rightarrow> Inr (cfg\<lparr>ac_Credentials := Some creds\<rparr>))
      else Some (Inr cfg))"

text \<open>A pointer to a field is never nil.\<close>

definition merge_arn_region :: "('w, 'a, 'v) session_Config \<Rightarrow> envConfig \<Rightarrow> shared_fields \<Rightarrow> ('w, 'a, 'v) session_Config \<Rightarrow>
    ('w, 'a, 'v) session_Config" where
  "merge_arn_region userCfg envCfg sharedCfg cfg =
     (let cfg = cfg\<lparr>ac_S3UseARNRegion := ac_S3UseARNRegion userCfg\<rparr>;
          cfg = (if ac_S3UseARNRegion cfg = None then cfg\<lparr>ac_S3UseARNRegion := Some (en_S3UseARNRegion envCfg)\<rparr> else cfg)
      in if ac_S3UseARNRegion cfg = None then cfg\<lparr>ac_S3UseARNRegion := Some (sc_S3UseARNRegion sharedCfg)\<rparr> else cfg)"

fun merge_dual_stack :: "DualStackEndpointState list \<Rightarrow> ('w, 'a, 'v) session_Config \<Rightarrow> ('w, 'a, 'v) session_Config" where
  "merge_dual_stack [] cfg = cfg"
| "merge_dual_stack (v # vals) cfg =
     (if v \<noteq> DualStackEndpointStateUnset then cfg\<lparr>ac_UseDualStackEndpoint := v\<rparr> else merge_dual_stack vals cfg)"

definition mergeConfigSrcs :: "('w, 'a, 'v, 'r) session_env \<Rightarrow> ('w, 'a, 'v) session_Config \<Rightarrow> ('w, 'a, 'v) session_Config \<Rightarrow>
    envConfig \<Rightarrow> sharedConfig \<Rightarrow> string \<Rightarrow> (session_error + ('w, 'a, 'v) session_Config) option" where
  "mergeConfigSrcs se cfg userCfg envCfg sharedCfg profile =
     (let sc = sc_fields sharedCfg;
          cfg = MergeIn cfg [Some userCfg];
          cfg = merge_discovery envCfg sc (merge_region envCfg sc cfg);
          cfg = mergeS3UsEast1RegionalEndpointConfig cfg [ac_S3UsEast1RegionalEndpoint userCfg,
                  en_S3UsEast1RegionalEndpoint envCfg, sc_S3UsEast1RegionalEndpoint sc, LegacyS3UsEast1Endpoint]
      in case merge_credentials se userCfg envCfg sharedCfg profile cfg of
           None \<Rightarrow> None
         | Some (Inl err) \<Rightarrow> Some (Inl err)
         | Some (Inr cfg) \<Rightarrow>
             Some (Inr (merge_dual_stack [ac_UseDualStackEndpoint userCfg, en_UseDualStackEndpoint envCfg,
               sc_UseDualStackEndpoint sc] (merge_arn_region userCfg envCfg sc cfg))))"

section \<open>TLS options\<close>

definition ErrCodeLoadCustomCABundle :: string where "ErrCodeLoadCustomCABundle = ''LoadCustomCABundleError''"
definition ErrCodeLoadClientTLSCert :: string where "ErrCodeLoadClientTLSCert = ''LoadClientTLSCertError''"

definition getHTTPTransport :: "nat \<Rightarrow> http_world \<Rightarrow> (goerror + nat) \<times> http_world" where
  "getHTTPTransport client w = (case hw_Transport w client of
     HttpTransport t \<Rightarrow> (Inr t, w)
   | OtherTransport type \<Rightarrow> (Inl (PlainError (''unsupported transport, '' @ type)), w)
   | NilTransport \<Rightarrow>
       (let t = hw_next w
        in (Inr t, w\<lparr>hw_next := Suc t, hw_TLSClientConfig := (hw_TLSClientConfig w)(t := None)\<rparr>)))"

text \<open>The TLS configuration of a transport, a new one where it has none.\<close>

definition tls_of :: "nat \<Rightarrow> http_world \<Rightarrow> nat \<times> http_world" where
  "tls_of t w = (case hw_TLSClientConfig w t of
     Some c \<Rightarrow> (c, w)
   | None \<Rightarrow> (let c = hw_next w
       in (c, w\<lparr>hw_next := Suc c, hw_tls := (hw_tls w)(c := \<lparr>tl_RootCAs = None, tl_Certificates = []\<rparr>),
             hw_TLSClientConfig := (hw_TLSClientConfig w)(t := Some c)\<rparr>)))"

definition loadCertPool :: "('w, 'a, 'v, 'r) session_env \<Rightarrow> reader \<Rightarrow> goerror + byte list" where
  "loadCertPool se r = (case r of
     Inl err \<Rightarrow> Inl (awserr_New ErrCodeLoadCustomCABundle ''failed to read custom CA bundle PEM file'' (Some err))
   | Inr b \<Rightarrow>
       if \<not> se_AppendCertsFromPEM se b
       then Inl (awserr_New ErrCodeLoadCustomCABundle ''failed to load custom CA bundle PEM file'' None)
       else Inr b)"

definition loadCustomCABundle :: "('w, 'a, 'v, 'r) session_env \<Rightarrow> nat \<Rightarrow> reader \<Rightarrow> http_world \<Rightarrow> goerror option \<times> http_world" where
  "loadCustomCABundle se client bundle w = (case getHTTPTransport client w of
     (Inl err, w) \<Rightarrow>
       (Some (awserr_New ErrCodeLoadCustomCABundle
          (''unable to load custom CA bundle, HTTPClient'' @ [CHR 0x27] @ ''s transport unsupported type'') (Some err)), w)
   | (Inr t, w) \<Rightarrow>
       (case loadCertPool se bundle of
          Inl err \<Rightarrow> (Some err, w)
        | Inr p \<Rightarrow>
            (case tls_of t w of (c, w) \<Rightarrow>
               (None, w\<lparr>hw_tls := (hw_tls w)(c := (hw_tls w c)\<lparr>tl_RootCAs := Some p\<rparr>),
                        hw_Transport := (hw_Transport w)(client := HttpTransport t)\<rparr>))))"

definition loadClientTLSCert :: "('w, 'a, 'v, 'r) session_env \<Rightarrow> nat \<Rightarrow> reader \<Rightarrow> reader \<Rightarrow> http_world \<Rightarrow>
    goerror option \<times> http_world" where
  "loadClientTLSCert se client certFile keyFile w = (case getHTTPTransport client w of
     (Inl err, w) \<Rightarrow>
       (Some (awserr_New ErrCodeLoadClientTLSCert ''unable to get usable HTTP transport from client'' (Some err)), w)
   | (Inr t, w) \<Rightarrow>
       (case certFile of
          Inl err \<Rightarrow> (Some (awserr_New ErrCodeLoadClientTLSCert ''unable to get read client TLS cert file'' (Some err)), w)
        | Inr cert \<Rightarrow>
            (case keyFile of
               Inl err \<Rightarrow> (Some (awserr_New ErrCodeLoadClientTLSCert ''unable to get read client TLS key file'' (Some err)), w)
             | Inr key \<Rightarrow>
                 (case se_X509KeyPair se cert key of
                    Some err \<Rightarrow>
                      (Some (awserr_New ErrCodeLoadClientTLSCert ''unable to load x509 key pair from client cert'' (Some err)), w)
                  | None \<Rightarrow>
                      (case tls_of t w of (c, w) \<Rightarrow>
                         (None, w\<lparr>hw_tls := (hw_tls w)(c := (hw_tls w c)\<lparr>tl_Certificates :=
                                    tl_Certificates (hw_tls w c) @ [(cert, key)]\<rparr>),
                                  hw_Transport := (hw_Transport w)(client := HttpTransport t)\<rparr>))))))"

fun tls_name :: "tls_field \<Rightarrow> string" where
  "tls_name FieldCABundle = ''custom CA bundle PEM''"
| "tls_name FieldClientCert = ''custom client TLS cert''"
| "tls_name FieldClientKey = ''custom client TLS key''"

fun tls_errCode :: "tls_field \<Rightarrow> string" where
  "tls_errCode FieldCABundle = ErrCodeLoadCustomCABundle"
| "tls_errCode _ = ErrCodeLoadClientTLSCert"

fun get_tls :: "tls_field \<Rightarrow> ('w, 'a, 'v, 'r) Options \<Rightarrow> reader option" where
  "get_tls FieldCABundle opts = op_CustomCABundle opts"
| "get_tls FieldClientCert opts = op_ClientTLSCert opts"
| "get_tls FieldClientKey opts = op_ClientTLSKey opts"

fun set_tls :: "tls_field \<Rightarrow> reader \<Rightarrow> ('w, 'a, 'v, 'r) Options \<Rightarrow> ('w, 'a, 'v, 'r) Options" where
  "set_tls FieldCABundle r opts = opts\<lparr>op_CustomCABundle := Some r\<rparr>"
| "set_tls FieldClientCert r opts = opts\<lparr>op_ClientTLSCert := Some r\<rparr>"
| "set_tls FieldClientKey r opts = opts\<lparr>op_ClientTLSKey := Some r\<rparr>"

fun open_tls_files :: "os \<Rightarrow> (tls_field \<Rightarrow> string) \<Rightarrow> tls_field list \<Rightarrow> ('w, 'a, 'v, 'r) Options \<Rightarrow>
    goerror + ('w, 'a, 'v, 'r) Options" where
  "open_tls_files os filename [] opts = Inr opts"
| "open_tls_files os filename (v # vs) opts =
     (if length (filename v) \<noteq> 0 \<and> get_tls v opts = None then
        case os_Open os (filename v) of
          Inl err \<Rightarrow> Inl (awserr_New (tls_errCode v) (''failed to open '' @ tls_name v @ '' file'') (Some err))
        | Inr f \<Rightarrow> open_tls_files os filename vs (set_tls v f opts)
      else open_tls_files os filename vs opts)"

definition tls_filename :: "envConfig \<Rightarrow> shared_fields \<Rightarrow> tls_field \<Rightarrow> string" where
  "tls_filename envCfg sharedCfg v = (case v of
     FieldCABundle \<Rightarrow> if length (en_CustomCABundle envCfg) = 0 then sc_CustomCABundle sharedCfg else en_CustomCABundle envCfg
   | FieldClientCert \<Rightarrow> en_ClientTLSCert envCfg
   | FieldClientKey \<Rightarrow> en_ClientTLSKey envCfg)"

definition bool_text :: "bool \<Rightarrow> string" where
  "bool_text b = (if b then ''true'' else ''false'')"

definition apply_tls :: "('w, 'a, 'v, 'r) session_env \<Rightarrow> nat \<Rightarrow> ('w, 'a, 'v, 'r) Options \<Rightarrow> http_world \<Rightarrow> goerror option \<times> http_world" where
  "apply_tls se client opts w =
     (let bundled = (case op_CustomCABundle opts of Some b \<Rightarrow> loadCustomCABundle se client b w | None \<Rightarrow> (None, w))
      in case bundled of
           (Some err, w) \<Rightarrow> (Some err, w)
         | (None, w) \<Rightarrow>
             (case (op_ClientTLSCert opts, op_ClientTLSKey opts) of
                (Some cert, Some key) \<Rightarrow> loadClientTLSCert se client cert key w
              | (None, None) \<Rightarrow> (None, w)
              | (cert, key) \<Rightarrow>
                  (Some (awserr_New ErrCodeLoadClientTLSCert (''client TLS cert('' @ bool_text (cert \<noteq> None) @ '') and key('' @
                     bool_text (key \<noteq> None) @ '') must both be provided'') None), w)))"

definition setTLSOptions :: "('w, 'a, 'v, 'r) session_env \<Rightarrow> ('w, 'a, 'v, 'r) Options \<Rightarrow> nat \<Rightarrow> envConfig \<Rightarrow> shared_fields \<Rightarrow>
    http_world \<Rightarrow> (goerror + ('w, 'a, 'v, 'r) Options) \<times> http_world" where
  "setTLSOptions se opts client envCfg sharedCfg w =
     (case open_tls_files (se_os se) (tls_filename envCfg sharedCfg) (se_range se) opts of
        Inl err \<Rightarrow> (Inl err, w)
      | Inr opts \<Rightarrow>
          (case apply_tls se client opts w of
             (Some err, w) \<Rightarrow> (Inl err, w)
           | (None, w) \<Rightarrow> (Inr opts, w)))"

section \<open>Making a session\<close>

record ('w, 'a, 'v, 'r) Session =
  ss_Config :: "('w, 'a, 'v) session_Config"
  ss_Handlers :: "'r Handlers"
  ss_options :: "('w, 'a, 'v, 'r) Options"

definition ValidateParametersHandler :: "('w, 'a, 'v, 'r) session_env \<Rightarrow> 'r NamedHandler" where
  "ValidateParametersHandler se = \<lparr>nh_Name = ''core.ValidateParametersHandler'', nh_Fn = se_validate se\<rparr>"

definition initHandlers :: "('w, 'a, 'v, 'r) session_env \<Rightarrow> ('w, 'a, 'v, 'r) Session \<Rightarrow> ('w, 'a, 'v, 'r) Session" where
  "initHandlers se s =
     (let v = Remove (ValidateParametersHandler se) (Validate (ss_Handlers s));
          v = (if \<not> BoolValue_ptr (ac_DisableParamValidation (ss_Config s)) then PushBackNamed (ValidateParametersHandler se) v else v)
      in s\<lparr>ss_Handlers := (ss_Handlers s)\<lparr>Validate := v\<rparr>\<rparr>)"

definition session_files :: "('w, 'a, 'v, 'r) Options \<Rightarrow> envConfig \<Rightarrow> string list" where
  "session_files opts envCfg = (case op_SharedConfigFiles opts of
     Some files \<Rightarrow> files
   | None \<Rightarrow>
       (let files = [en_SharedConfigFile envCfg, en_SharedCredentialsFile envCfg]
        in if \<not> en_EnableSharedConfig envCfg then tl files else files))"

text \<open>The errors of the shared configuration that end the session.\<close>

definition shared_error_ends :: "('w, 'a, 'v) session_Config \<Rightarrow> envConfig \<Rightarrow> session_error \<Rightarrow> bool" where
  "shared_error_ends userCfg envCfg err =
     (if length (en_Profile envCfg) = 0 \<and> \<not> en_EnableSharedConfig envCfg \<and>
         (HasKeys (en_Creds envCfg) \<or> ac_Credentials userCfg \<noteq> None) then False
      else case err of SharedConfigProfileNotExistsError _ \<Rightarrow> False | _ \<Rightarrow> True)"

definition newSession :: "('w, 'a, 'v, 'r) session_env \<Rightarrow> ('w, 'a, 'v, 'r) Options \<Rightarrow> envConfig \<Rightarrow>
    ('w, 'a, 'v) session_Config option list \<Rightarrow> http_world \<Rightarrow>
    ((session_error + ('w, 'a, 'v, 'r) Session) \<times> http_world) option" where
  "newSession se opts envCfg cfgs w =
     (let handlers = (if Handlers_IsEmpty (op_Handlers opts) then se_Handlers se else op_Handlers opts);
          userCfg = MergeIn NewConfig cfgs;
          cfg = MergeIn (defaults_Config se) [Some userCfg]
      in case loadSharedConfig (se_pnum se) (se_os se) (en_Profile envCfg) (session_files opts envCfg) (en_EnableSharedConfig envCfg) of
           None \<Rightarrow> None
         | Some loaded \<Rightarrow>
             (case (case loaded of
                      Inl err \<Rightarrow> if shared_error_ends userCfg envCfg err then Inl err else Inr (SharedConfig zero_shared None)
                    | Inr sharedCfg \<Rightarrow> Inr sharedCfg) of
                Inl err \<Rightarrow> Some (Inl err, w)
              | Inr sharedCfg \<Rightarrow>
                  (case mergeConfigSrcs se cfg userCfg envCfg sharedCfg (op_Profile opts) of
                     None \<Rightarrow> None
                   | Some (Inl err) \<Rightarrow> Some (Inl err, w)
                   | Some (Inr cfg) \<Rightarrow>
                       (case ac_HTTPClient cfg of
                          None \<Rightarrow> None
                        | Some client \<Rightarrow>
                            (case setTLSOptions se opts client envCfg (sc_fields sharedCfg) w of
                               (Inl err, w) \<Rightarrow> Some (Inl (SessionError err), w)
                             | (Inr opts, w) \<Rightarrow>
                                 Some (Inr (initHandlers se \<lparr>ss_Config = cfg, ss_Handlers = handlers, ss_options = opts\<rparr>), w))))))"

definition NewSessionWithOptions :: "('w, 'a, 'v, 'r) session_env \<Rightarrow> ('w, 'a, 'v, 'r) Options \<Rightarrow> http_world \<Rightarrow>
    ((session_error + ('w, 'a, 'v, 'r) Session) \<times> http_world) option" where
  "NewSessionWithOptions se opts w =
     (let loaded = (if op_SharedConfigState opts = SharedConfigEnable
            then (case loadSharedEnvConfig (se_os se) of
              Inl err \<Rightarrow> Inl (PlainError (''failed to load shared config, '' @ error_text err)) | Inr e \<Rightarrow> Inr e)
            else (case loadEnvConfig (se_os se) of
              Inl err \<Rightarrow> Inl (PlainError (''failed to load environment config, '' @ error_text err)) | Inr e \<Rightarrow> Inr e))
      in case loaded of
           Inl err \<Rightarrow> Some (Inl (SessionError err), w)
         | Inr envCfg \<Rightarrow>
             (let envCfg = (if length (op_Profile opts) \<noteq> 0 then envCfg\<lparr>en_Profile := op_Profile opts\<rparr> else envCfg);
                  envCfg = (case op_SharedConfigState opts of
                      SharedConfigDisable \<Rightarrow> envCfg\<lparr>en_EnableSharedConfig := False\<rparr>
                    | SharedConfigEnable \<Rightarrow> envCfg\<lparr>en_EnableSharedConfig := True\<rparr>
                    | SharedConfigStateFromEnv \<Rightarrow> envCfg)
              in newSession se opts envCfg [Some (op_Config opts)] w))"

definition emptyHandlers :: "'r Handlers" where
  "emptyHandlers = (let l = \<lparr>hl_list = [], hl_AfterEachFn = None\<rparr> in
     \<lparr>Validate = l, Build = l, BuildStream = l, Sign = l, Send = l, ValidateResponse = l, Unmarshal = l, UnmarshalStream = l,
      UnmarshalMeta = l, UnmarshalError = l, Retry = l, AfterRetry = l, CompleteAttempt = l, Complete = l\<rparr>)"

definition zero_Options :: "('w, 'a, 'v, 'r) Options" where
  "zero_Options = \<lparr>op_Config = NewConfig, op_Profile = [], op_SharedConfigState = SharedConfigStateFromEnv,
     op_SharedConfigFiles = None, op_AssumeRoleTokenProvider = None, op_AssumeRoleDuration = 0, op_CustomCABundle = None,
     op_ClientTLSCert = None, op_ClientTLSKey = None, op_Handlers = emptyHandlers\<rparr>"

definition NewSession :: "('w, 'a, 'v, 'r) session_env \<Rightarrow> ('w, 'a, 'v) session_Config option list \<Rightarrow> http_world \<Rightarrow>
    ((session_error + ('w, 'a, 'v, 'r) Session) \<times> http_world) option" where
  "NewSession se cfgs w =
     NewSessionWithOptions se (zero_Options\<lparr>op_Config := MergeIn (op_Config zero_Options) cfgs\<rparr>) w"

text \<open>\<open>Must\<close> panics at an error.\<close>

definition Must :: "session_error + ('w, 'a, 'v, 'r) Session \<Rightarrow> ('w, 'a, 'v, 'r) Session option" where
  "Must r = (case r of Inl err \<Rightarrow> None | Inr sess \<Rightarrow> Some sess)"

section \<open>Using a session\<close>

definition Session_Copy :: "('w, 'a, 'v, 'r) session_env \<Rightarrow> ('w, 'a, 'v, 'r) Session \<Rightarrow> ('w, 'a, 'v) session_Config option list \<Rightarrow>
    ('w, 'a, 'v, 'r) Session" where
  "Session_Copy se s cfgs = initHandlers se \<lparr>ss_Config = Config_Copy (Some (ss_Config s)) cfgs,
     ss_Handlers = Handlers_Copy (ss_Handlers s), ss_options = ss_options s\<rparr>"

text \<open>\<open>strings.Replace\<close> with no limit, for a string \<open>old\<close> that is not empty.\<close>

function Replace :: "string \<Rightarrow> string \<Rightarrow> string \<Rightarrow> string" where
  "Replace s old new =
     (if s = [] then []
      else if old \<noteq> [] \<and> prefix_of old s then new @ Replace (drop (length old) s) old new
      else hd s # Replace (tl s) old new)"
  by pat_completeness auto
termination
  by (relation "measure (\<lambda>(s, old, new). length s)") auto

declare Replace.simps [simp del]

definition normalizeRegion :: "('w, 'a, 'v) session_Config \<Rightarrow> string" where
  "normalizeRegion cfg =
     (let fipsInfix = ''-fips-''; fipsPrefix = ''-fips''; fipsSuffix = ''fips-'';
          region = StringValue_ptr (ac_Region cfg)
      in if has_infix region fipsInfix \<or> has_infix region fipsPrefix \<or> has_infix region fipsSuffix
         then Replace (Replace (Replace region fipsInfix ''-'') fipsPrefix []) fipsSuffix []
         else [])"

text \<open>\<open>LogLevelType.Matches\<close> of a pointer that may be nil.\<close>

definition LogDebugWithDeprecated :: nat where "LogDebugWithDeprecated = 0x1020"

definition Matches :: "nat option \<Rightarrow> nat \<Rightarrow> bool" where
  "Matches l v \<longleftrightarrow> and (case l of Some n \<Rightarrow> n | None \<Rightarrow> 0) v = v"

text \<open>\<open>None\<close>: the resolver is nil and is called.\<close>

definition resolveEndpoint :: "string \<Rightarrow> string \<Rightarrow> string \<Rightarrow> ('w, 'a, 'v) session_Config \<Rightarrow> (goerror + ResolvedEndpoint) option" where
  "resolveEndpoint service region resolvedRegion cfg =
     (let ep = StringValue_ptr (ac_Endpoint cfg) in
      if length ep \<noteq> 0 then
        Some (Inr (zero_ResolvedEndpoint\<lparr>re_URL := AddScheme ep (BoolValue_ptr (ac_DisableSSL cfg)), re_SigningRegion := region\<rparr>))
      else case ac_EndpointResolver cfg of
        None \<Rightarrow> None
      | Some EndpointFor \<Rightarrow> Some (EndpointFor service region
          \<lparr>eo_DisableSSL = BoolValue_ptr (ac_DisableSSL cfg), eo_UseDualStack = BoolValue_ptr (ac_UseDualStack cfg),
           eo_UseDualStackEndpoint = ac_UseDualStackEndpoint cfg, eo_StrictMatching = False, eo_ResolveUnknownService = True,
           eo_S3UsEast1RegionalEndpoint = ac_S3UsEast1RegionalEndpoint cfg, eo_ResolvedRegion = resolvedRegion,
           eo_Logger = ac_Logger cfg, eo_LogDeprecated = Matches (ac_LogLevel cfg) LogDebugWithDeprecated\<rparr>))"

record ('w, 'a, 'v, 'r) ClientConf =
  cl_Config :: "('w, 'a, 'v) session_Config"
  cl_Handlers :: "'r Handlers"
  cl_PartitionID :: string
  cl_Endpoint :: string
  cl_SigningRegion :: string
  cl_SigningName :: string
  cl_ResolvedRegion :: string
  cl_SigningNameDerived :: bool

definition endpoint_error_handler :: "('w, 'a, 'v, 'r) session_env \<Rightarrow> goerror \<Rightarrow> 'r \<Rightarrow> 'r" where
  "endpoint_error_handler se err r = (if length (se_ClientEndpoint se r) \<noteq> 0 then r else se_setError se err r)"

definition ClientConfig :: "('w, 'a, 'v, 'r) session_env \<Rightarrow> ('w, 'a, 'v, 'r) Session \<Rightarrow> string \<Rightarrow>
    ('w, 'a, 'v) session_Config option list \<Rightarrow> ('w, 'a, 'v, 'r) ClientConf option" where
  "ClientConfig se s service cfgs =
     (let s = Session_Copy se s cfgs;
          resolvedRegion = normalizeRegion (ss_Config s);
          region = StringValue_ptr (ac_Region (ss_Config s))
      in case resolveEndpoint service region resolvedRegion (ss_Config s) of
           None \<Rightarrow> None
         | Some r \<Rightarrow>
             (let resolved = (case r of Inl err \<Rightarrow> zero_ResolvedEndpoint | Inr resolved \<Rightarrow> resolved);
                  handlers = (case r of
                      Inl err \<Rightarrow> (ss_Handlers s)\<lparr>Validate := PushBack (endpoint_error_handler se err) (Validate (ss_Handlers s))\<rparr>
                    | Inr _ \<Rightarrow> ss_Handlers s)
              in Some \<lparr>cl_Config = ss_Config s, cl_Handlers = handlers, cl_PartitionID = re_PartitionID resolved,
                   cl_Endpoint = re_URL resolved, cl_SigningRegion = re_SigningRegion resolved,
                   cl_SigningName = re_SigningName resolved, cl_ResolvedRegion = resolvedRegion,
                   cl_SigningNameDerived = re_SigningNameDerived resolved\<rparr>))"

definition ClientConfigNoResolveEndpoint :: "('w, 'a, 'v, 'r) session_env \<Rightarrow> ('w, 'a, 'v, 'r) Session \<Rightarrow>
    ('w, 'a, 'v) session_Config option list \<Rightarrow> ('w, 'a, 'v, 'r) ClientConf" where
  "ClientConfigNoResolveEndpoint se s cfgs =
     (let s = Session_Copy se s cfgs;
          resolvedRegion = normalizeRegion (ss_Config s);
          ep = StringValue_ptr (ac_Endpoint (ss_Config s));
          resolved = (if length ep > 0
            then zero_ResolvedEndpoint\<lparr>re_URL := AddScheme ep (BoolValue_ptr (ac_DisableSSL (ss_Config s))),
                   re_SigningRegion := StringValue_ptr (ac_Region (ss_Config s))\<rparr>
            else zero_ResolvedEndpoint)
      in \<lparr>cl_Config = ss_Config s, cl_Handlers = ss_Handlers s, cl_PartitionID = [], cl_Endpoint = re_URL resolved,
          cl_SigningRegion = re_SigningRegion resolved, cl_SigningName = re_SigningName resolved,
          cl_ResolvedRegion = resolvedRegion, cl_SigningNameDerived = re_SigningNameDerived resolved\<rparr>)"

end
