(* ===== verification/AwsSessionRuns.thy ===== *)
theory AwsSessionRuns
  imports AwsSession
begin

text \<open>
  What sessions do: when loading a profile returns, what a session takes from a file that was written as sections
  of plain lines, and where its credentials, region and TLS configuration come from.
\<close>

section \<open>Values the INI reader makes\<close>

text \<open>A quoted value keeps both quotes, so \<open>Section.String\<close> does not panic.\<close>

definition section_wf :: "Section \<Rightarrow> bool" where
  "section_wf t \<longleftrightarrow> (\<forall>k v. sec_values t k = Some v \<longrightarrow> val_Type v = QuotedStringType \<longrightarrow> 2 \<le> length (val_raw v))"

definition sections_wf :: "Sections \<Rightarrow> bool" where
  "sections_wf t \<longleftrightarrow> (\<forall>p s. t p = Some s \<longrightarrow> section_wf s)"

lemma section_wf_update:
  "section_wf t \<Longrightarrow> (val_Type v = QuotedStringType \<longrightarrow> 2 \<le> length (val_raw v)) \<Longrightarrow>
    section_wf (t\<lparr>sec_values := (sec_values t)(k \<mapsto> v)\<rparr>)"
  by (simp add: section_wf_def)

lemma sections_wf_update: "sections_wf t \<Longrightarrow> section_wf s \<Longrightarrow> sections_wf (t(p \<mapsto> s))"
  by (simp add: sections_wf_def)

lemma sections_wf_get: "sections_wf t \<Longrightarrow> t p = Some s \<Longrightarrow> section_wf s"
  by (simp add: sections_wf_def)

lemma section_wf_empty: "section_wf emptySection"
  by (simp add: section_wf_def emptySection_def)

lemma newValue_wf: "newValue pnum t base raw = Inr v \<Longrightarrow> val_Type v = QuotedStringType \<Longrightarrow> 2 \<le> length (val_raw v)"
  by (auto simp: newValue_def Let_def split: ValueType.splits num_result.splits if_splits)

lemma VisitExpr_wf:
  assumes "VisitExpr pnum v node = Inr v'" and "sections_wf (dv_Sections v)"
  shows "sections_wf (dv_Sections v')"
proof -
  let ?t = "case dv_Sections v (dv_scope v) of None \<Rightarrow> emptySection | Some t \<Rightarrow> t"
  have t: "section_wf ?t"
    using assms(2) by (auto simp: section_wf_empty sections_wf_def split: option.splits)
  from assms(1) obtain k x ty b raw where x: "newValue pnum ty b raw = Inr x"
    and v': "v' = v\<lparr>dv_Sections := (dv_Sections v)(dv_scope v \<mapsto> ?t\<lparr>sec_values := (sec_values ?t)(k \<mapsto> x)\<rparr>)\<rparr>"
    by (auto simp: VisitExpr_def Let_def split: if_splits sum.splits)
  have "section_wf (?t\<lparr>sec_values := (sec_values ?t)(k \<mapsto> x)\<rparr>)"
    using section_wf_update [OF t] newValue_wf [OF x] by blast
  with assms(2) show ?thesis by (simp add: v' sections_wf_update)
qed

lemma VisitStatement_wf:
  "VisitStatement v node = Inr v' \<Longrightarrow> sections_wf (dv_Sections v) \<Longrightarrow> sections_wf (dv_Sections v')"
  by (auto simp: VisitStatement_def Let_def section_wf_empty sections_wf_update split: if_splits)

lemma Walk_wf: "Walk pnum tree v = Inr v' \<Longrightarrow> sections_wf (dv_Sections v) \<Longrightarrow> sections_wf (dv_Sections v')"
proof (induction tree arbitrary: v)
  case (Cons node tree)
  from Cons.prems(1) obtain u where u: "Walk pnum tree u = Inr v'"
    and s: "u = v \<or> VisitExpr pnum v node = Inr u \<or> VisitStatement v node = Inr u"
    by (auto simp: bind_res_def split: sum.splits if_splits)
  from s Cons.prems(2) have "sections_wf (dv_Sections u)"
    using VisitExpr_wf VisitStatement_wf by blast
  with Cons.IH [OF u] show ?case .
qed simp

lemma ParseBytes_wf: "ParseBytes pnum b = Some (Inr t) \<Longrightarrow> sections_wf t"
  by (auto simp: ParseBytes_def bind_res_def NewDefaultVisitor_def sections_wf_def [of Map.empty]
      split: option.splits sum.splits dest!: Walk_wf)

lemma StringValue_wf:
  assumes "val_Type v = QuotedStringType \<longrightarrow> 2 \<le> length (val_raw v)"
  shows "\<exists>s v'. StringValue v = Inr (s, v') \<and> (val_Type v' = QuotedStringType \<longrightarrow> 2 \<le> length (val_raw v'))"
  using assms by (cases "val_Type v") (auto simp: StringValue_def split: prod.splits)

lemma ini_String_wf:
  assumes "section_wf t"
  shows "\<exists>s t'. ini_String t k = Some (s, t') \<and> section_wf t'"
proof (cases "sec_values t (runes k)")
  case None
  then show ?thesis using assms by (simp add: ini_String_def Section_String_def)
next
  case (Some v)
  with assms obtain s v' where "StringValue v = Inr (s, v')"
    and "val_Type v' = QuotedStringType \<longrightarrow> 2 \<le> length (val_raw v')"
    using StringValue_wf unfolding section_wf_def by blast
  with Some assms show ?thesis
    by (simp add: ini_String_def Section_String_def bind_res_def section_wf_update)
qed

section \<open>Loading a profile does not panic\<close>

text \<open>A step from well-formed sections gives well-formed sections.\<close>

definition step_wf :: "shared_state option \<Rightarrow> bool" where
  "step_wf r \<longleftrightarrow> (\<exists>cfg section. r = Some (cfg, section) \<and> section_wf section)"

lemma step_wf_Some: "step_wf (Some x) \<longleftrightarrow> section_wf (snd x)"
  by (cases x) (simp add: step_wf_def)

lemma step_wf_bind: "step_wf r \<Longrightarrow> (\<And>x. section_wf (snd x) \<Longrightarrow> step_wf (f x)) \<Longrightarrow> step_wf (r \<bind> f)"
  by (force simp: step_wf_def)

lemma step_wf_String:
  "section_wf sec \<Longrightarrow> (\<And>v t. section_wf t \<Longrightarrow> step_wf (f (v, t))) \<Longrightarrow>
    step_wf (ini_String sec key \<bind> f)"
  using ini_String_wf [of sec key] by auto

lemma updateString_wf: "section_wf (snd x) \<Longrightarrow> step_wf (updateString dst key x)"
  using ini_String_wf [of "snd x" key] by (auto simp: updateString_def step_wf_def split: prod.splits)

lemma updateBool_wf:
  "section_wf (snd (updateBool b key x)) = section_wf (snd x)"
  "section_wf (snd (updateBoolPtr c key x)) = section_wf (snd x)"
  by (auto simp: updateBool_def updateBoolPtr_def split: prod.splits)

lemma assume_role_params_wf: "section_wf (snd x) \<Longrightarrow> step_wf (assume_role_params x)"
  unfolding assume_role_params_def by (intro step_wf_bind updateString_wf)

lemma shared_creds_wf: "section_wf (snd x) \<Longrightarrow> step_wf (shared_creds filename x)"
  unfolding shared_creds_def by (cases x) (auto intro!: step_wf_String simp: step_wf_Some Let_def)

lemma process_and_region_wf: "section_wf (snd x) \<Longrightarrow> step_wf (process_and_region x)"
  unfolding process_and_region_def by (cases x) (auto intro!: step_wf_String simp: step_wf_Some Let_def)

lemma shared_values_wf: "section_wf (snd x) \<Longrightarrow> step_wf (shared_values filename x)"
  unfolding shared_values_def
  by (intro step_wf_bind updateString_wf shared_creds_wf process_and_region_wf)
    (simp_all add: step_wf_Some updateBool_wf Let_def)

lemma regional_endpoint_wf:
  "section_wf (snd x) \<Longrightarrow> \<exists>r. regional_endpoint filename x = Some r \<and> (\<forall>y. r = Inr y \<longrightarrow> section_wf (snd y))"
  using ini_String_wf [of "snd x" "''s3_us_east_1_regional_endpoint''"]
  by (auto simp: regional_endpoint_def split: prod.splits sum.splits)

lemma set_fields_wf:
  assumes "section_wf (snd x)"
  shows "\<exists>r. set_fields filename exOpts x = Some r \<and> (\<forall>y. r = Inr y \<longrightarrow> section_wf (snd y))"
proof -
  let ?o = "if exOpts then (case assume_role_params x of None \<Rightarrow> None | Some x \<Rightarrow> regional_endpoint filename x) else Some (Inr x)"
  obtain r where r: "?o = Some r" "\<forall>y. r = Inr y \<longrightarrow> section_wf (snd y)"
  proof (cases exOpts)
    case True
    from assume_role_params_wf [OF assms] obtain y where y: "assume_role_params x = Some y" "section_wf (snd y)"
      by (auto simp: step_wf_def)
    with regional_endpoint_wf [OF y(2), of filename] True that show ?thesis by auto
  next
    case False
    with assms show ?thesis by (intro that [of "Inr x"]) simp_all
  qed
  show ?thesis
  proof (cases r)
    case (Inr y)
    with r(2) have "step_wf (shared_values filename y)" by (simp add: shared_values_wf)
    with r(1) Inr show ?thesis by (auto simp: set_fields_def step_wf_def Let_def)
  qed (use r(1) in \<open>simp add: set_fields_def Let_def\<close>)
qed

definition files_wf :: "sharedConfigFile list \<Rightarrow> bool" where
  "files_wf files \<longleftrightarrow> (\<forall>f \<in> set files. sections_wf (sf_IniData f))"

lemma setFromIniFile_wf:
  assumes "sections_wf (sf_IniData f)"
  shows "\<exists>r. setFromIniFile cfg profile f exOpts = Some r \<and> (\<forall>c g. r = Inr (c, g) \<longrightarrow> sections_wf (sf_IniData g))"
proof (cases "profile_section (sf_IniData f) profile")
  case None
  then show ?thesis by (simp add: setFromIniFile_def)
next
  case (Some ps)
  obtain p sec where ps: "ps = (p, sec)" by fastforce
  with Some assms have "section_wf sec"
    by (auto simp: profile_section_def GetSection_def Let_def intro: sections_wf_get split: option.splits)
  then have "section_wf (snd (cfg, sec))" by simp
  from set_fields_wf [OF this, of "sf_Filename f" exOpts] obtain r where
    r: "set_fields (sf_Filename f) exOpts (cfg, sec) = Some r" "\<forall>y. r = Inr y \<longrightarrow> section_wf (snd y)" by blast
  with Some ps assms show ?thesis
    by (cases r) (auto simp: setFromIniFile_def sections_wf_update split: prod.splits)
qed

lemma set_from_files_wf:
  "files_wf files \<Longrightarrow> \<exists>r. set_from_files profile exOpts files cfg nf k = Some r \<and>
    (\<forall>c fs x. r = Inr (c, fs, x) \<longrightarrow> files_wf fs)"
proof (induction files arbitrary: cfg nf k)
  case Nil
  then show ?case by (simp add: files_wf_def)
next
  case (Cons f fs)
  have f: "sections_wf (sf_IniData f)" and fs: "files_wf fs" using Cons.prems by (simp_all add: files_wf_def)
  have rest: "\<exists>r. map_option (map_sum id (\<lambda>(cfg, fs, r). (cfg, g # fs, r))) (set_from_files profile exOpts fs c n j) = Some r \<and>
      (\<forall>c fs x. r = Inr (c, fs, x) \<longrightarrow> files_wf fs)" if "sections_wf (sf_IniData g)" for g c n j
  proof -
    from Cons.IH [OF fs] obtain r where r: "set_from_files profile exOpts fs c n j = Some r"
      "\<forall>c fs x. r = Inr (c, fs, x) \<longrightarrow> files_wf fs" by blast
    with that show ?thesis by (cases r) (auto simp: files_wf_def)
  qed
  from setFromIniFile_wf [OF f] obtain r where r: "setFromIniFile cfg profile f exOpts = Some r"
    "\<forall>c g. r = Inr (c, g) \<longrightarrow> sections_wf (sf_IniData g)" by blast
  show ?case
  proof (cases r)
    case (Inl err)
    with r(1) rest [OF f] show ?thesis by (cases err) (simp_all add: Let_def)
  next
    case (Inr y)
    with r rest show ?thesis by (cases y) (simp add: Let_def)
  qed
qed

lemma set_profile_wf:
  assumes "files_wf files"
  shows "\<exists>r. set_profile profile files exOpts = Some r \<and> (\<forall>c fs b. r = Inr (c, fs, b) \<longrightarrow> files_wf fs)"
proof -
  from set_from_files_wf [OF assms] obtain r where
    r: "set_from_files profile exOpts files (zero_shared\<lparr>sc_Profile := profile\<rparr>) None 0 = Some r"
    "\<forall>c fs x. r = Inr (c, fs, x) \<longrightarrow> files_wf fs" by blast
  then show ?thesis by (cases r) (auto simp: set_profile_def split: prod.splits option.splits)
qed

lemma loadSharedConfigIniFiles_wf:
  "\<exists>r. loadSharedConfigIniFiles pnum os filenames = Some r \<and> (\<forall>fs. r = Inr fs \<longrightarrow> files_wf fs)"
proof (induction filenames)
  case Nil
  then show ?case by (simp add: files_wf_def)
next
  case (Cons n ns)
  then obtain r where r: "loadSharedConfigIniFiles pnum os ns = Some r" "\<forall>fs. r = Inr fs \<longrightarrow> files_wf fs" by blast
  have opened: "\<exists>x. ini_OpenFile pnum os n = Some x \<and> (\<forall>t. x = Inr t \<longrightarrow> sections_wf t)"
  proof (cases "os_Open os n")
    case (Inr b)
    show ?thesis
    proof (cases b)
      case (Inr bytes)
      with \<open>os_Open os n = Inr b\<close> show ?thesis
        using ParseBytes_total [of pnum bytes] ParseBytes_wf [of pnum bytes]
        by (auto simp: ini_OpenFile_def split: sum.splits ini_error.splits)
    qed (use Inr in \<open>simp add: ini_OpenFile_def\<close>)
  qed (simp add: ini_OpenFile_def)
  then obtain x where x: "ini_OpenFile pnum os n = Some x" "\<forall>t. x = Inr t \<longrightarrow> sections_wf t" by blast
  show ?case
  proof (cases x)
    case (Inl err)
    with x r show ?thesis by simp
  next
    case (Inr t)
    with x r show ?thesis by (cases r) (auto simp: files_wf_def)
  qed
qed

section \<open>The chain of source profiles\<close>

text \<open>One profile and the files before it: the source profile that comes next, and the files then.\<close>

definition next_profile :: "bool \<Rightarrow> string \<times> sharedConfigFile list \<Rightarrow> (string \<times> sharedConfigFile list) option" where
  "next_profile exOpts x = (case set_profile (fst x) (snd x) exOpts of
     Some (Inr (cfg, files, True)) \<Rightarrow> Some (sc_SourceProfileName cfg, files)
   | _ \<Rightarrow> None)"

fun profile_chain :: "bool \<Rightarrow> nat \<Rightarrow> string \<times> sharedConfigFile list \<Rightarrow> (string \<times> sharedConfigFile list) option" where
  "profile_chain exOpts 0 x = Some x"
| "profile_chain exOpts (Suc n) x = next_profile exOpts x \<bind> profile_chain exOpts n"

lemma setFromIniFiles_linked:
  "set_profile profile files exOpts = Some (Inr (cfg, files', True)) \<Longrightarrow>
    setFromIniFiles seen profile files exOpts =
      setFromIniFiles (insert profile seen) (sc_SourceProfileName cfg) files' exOpts \<bind>
        (\<lambda>r. Some (case r of Inl err \<Rightarrow> Inl err | Inr (srcCfg, files) \<Rightarrow> Inr (SharedConfig cfg (Some srcCfg), files)))"
  by (simp add: setFromIniFiles.simps [of seen profile])

lemma setFromIniFiles_last:
  "set_profile profile files exOpts = Some r \<Longrightarrow> (\<And>cfg fs. r \<noteq> Inr (cfg, fs, True)) \<Longrightarrow>
    setFromIniFiles seen profile files exOpts = Some (map_sum id (\<lambda>(cfg, fs, _). (SharedConfig cfg None, fs)) r)"
  by (cases r) (auto simp: setFromIniFiles.simps [of seen profile] split: prod.splits)

lemma next_profile_Some:
  "next_profile exOpts (p, fs) = Some x \<longleftrightarrow>
    (\<exists>cfg fs'. set_profile p fs exOpts = Some (Inr (cfg, fs', True)) \<and> x = (sc_SourceProfileName cfg, fs'))"
  by (auto simp: next_profile_def split: option.splits sum.splits prod.splits bool.splits)

lemma setFromIniFiles_next:
  assumes "next_profile exOpts (p, fs) = Some (q, fs')"
  shows "(setFromIniFiles seen p fs exOpts = None) = (setFromIniFiles (insert p seen) q fs' exOpts = None)"
proof -
  from assms obtain cfg where "set_profile p fs exOpts = Some (Inr (cfg, fs', True))" "q = sc_SourceProfileName cfg"
    by (auto simp: next_profile_Some)
  then show ?thesis by (simp add: setFromIniFiles_linked bind_eq_None_conv)
qed

text \<open>A profile whose chain ends is loaded: \<open>n\<close> source profiles are followed.\<close>

lemma setFromIniFiles_returns:
  "files_wf fs \<Longrightarrow> profile_chain exOpts n (p, fs) = None \<Longrightarrow> \<exists>r. setFromIniFiles seen p fs exOpts = Some r"
proof (induction n arbitrary: seen p fs)
  case (Suc n)
  from set_profile_wf [OF Suc.prems(1)] obtain r where r: "set_profile p fs exOpts = Some r"
    and wf: "\<forall>c fs b. r = Inr (c, fs, b) \<longrightarrow> files_wf fs" by blast
  show ?case
  proof (cases "next_profile exOpts (p, fs)")
    case None
    then have "\<And>cfg fs'. r \<noteq> Inr (cfg, fs', True)" using r by (auto simp: next_profile_def)
    from setFromIniFiles_last [OF r this] show ?thesis by blast
  next
    case (Some x)
    obtain q fs' where x: "x = (q, fs')" by fastforce
    from Some r wf have "files_wf fs'" by (auto simp: x next_profile_Some)
    moreover have "profile_chain exOpts n (q, fs') = None" using Suc.prems(2) Some x by simp
    ultimately have "\<exists>r. setFromIniFiles (insert p seen) q fs' exOpts = Some r" by (rule Suc.IH)
    with setFromIniFiles_next [of exOpts p fs q fs' seen] Some x show ?thesis by auto
  qed
qed simp

lemma setFromIniFiles_ends:
  "setFromIniFiles seen p fs exOpts = Some r \<Longrightarrow> \<exists>n. profile_chain exOpts n (p, fs) = None"
proof (induction rule: setFromIniFiles.raw_induct [rotated, consumes 1, case_names step])
  case (step rec seen p fs exOpts r)
  show ?case
  proof (cases "next_profile exOpts (p, fs)")
    case None
    then have "profile_chain exOpts (Suc 0) (p, fs) = None" by simp
    then show ?thesis by blast
  next
    case (Some x)
    then obtain cfg fs' where s: "set_profile p fs exOpts = Some (Inr (cfg, fs', True))" "x = (sc_SourceProfileName cfg, fs')"
      by (auto simp: next_profile_Some)
    with step(2) obtain r' where "rec (insert p seen) (sc_SourceProfileName cfg) fs' exOpts = Some r'"
      by (auto simp: bind_eq_Some_conv)
    from step(1) [OF this] obtain n where "profile_chain exOpts n x = None" using s by blast
    with Some have "profile_chain exOpts (Suc n) (p, fs) = None" by simp
    then show ?thesis by blast
  qed
qed

lemma loadSharedConfig_None:
  "loadSharedConfig pnum os profile filenames exOpts = None \<longleftrightarrow>
    (\<exists>fs. loadSharedConfigIniFiles pnum os filenames = Some (Inr fs) \<and>
      (\<forall>n. profile_chain exOpts n (if profile = [] then ''default'' else profile, fs) \<noteq> None))"
proof -
  from loadSharedConfigIniFiles_wf obtain r where
    r: "loadSharedConfigIniFiles pnum os filenames = Some r" "\<forall>fs. r = Inr fs \<longrightarrow> files_wf fs" by blast
  let ?p = "if profile = [] then ''default'' else profile"
  show ?thesis
  proof (cases r)
    case (Inr fs)
    with r(2) have "(setFromIniFiles {} ?p fs exOpts = None) = (\<forall>n. profile_chain exOpts n (?p, fs) \<noteq> None)"
      using setFromIniFiles_returns [of fs exOpts _ ?p "{}"] setFromIniFiles_ends [of "{}" ?p fs exOpts] by fastforce
    with r(1) Inr show ?thesis by (cases "profile = []") (simp_all add: loadSharedConfig_def DefaultSharedConfigProfile_def)
  qed (simp add: r(1) loadSharedConfig_def)
qed

section \<open>Profiles of a file of plain lines\<close>

text \<open>The value of a key in a section, and the section of a profile.\<close>

definition entry_str :: "entry list \<Rightarrow> string \<Rightarrow> string" where
  "entry_str es k = (case map_of (rev es) (runes k) of None \<Rightarrow> [] | Some v \<Rightarrow> Runes_str v)"

definition entry_bool :: "entry list \<Rightarrow> string \<Rightarrow> bool option" where
  "entry_bool es k = map_option (isCaselessLitValue runesTrue) (map_of (rev es) (runes k))"

definition entry_endpoint :: "entry list \<Rightarrow> goerror + S3UsEast1RegionalEndpoint" where
  "entry_endpoint es = (let v = entry_str es ''s3_us_east_1_regional_endpoint'' in
     if v = [] then Inr UnsetS3UsEast1Endpoint else GetS3UsEast1RegionalEndpoint v)"

definition profile_entries :: "ini_file \<Rightarrow> string \<Rightarrow> entry list option" where
  "profile_entries f profile = (case map_of (rev f) (str_Runes profile) of
     Some es \<Rightarrow> Some es
   | None \<Rightarrow> map_of (rev f) (str_Runes (''profile '' @ profile)))"

definition entry_creds :: "string \<Rightarrow> entry list \<Rightarrow> CredValue" where
  "entry_creds filename es =
     (let creds = zero_Value\<lparr>cv_AccessKeyID := entry_str es ''aws_access_key_id'',
            cv_SecretAccessKey := entry_str es ''aws_secret_access_key'', cv_SessionToken := entry_str es ''aws_session_token'',
            cv_ProviderName := ''SharedConfigCredentials: '' @ filename\<rparr>
      in if HasKeys creds then creds else zero_Value)"

text \<open>What a session takes from the section of a profile when the shared configuration is enabled.\<close>

definition entry_fields :: "string \<Rightarrow> string \<Rightarrow> entry list \<Rightarrow> S3UsEast1RegionalEndpoint \<Rightarrow> shared_fields" where
  "entry_fields profile filename es endpoint = \<lparr>sc_Profile = profile, sc_Creds = entry_creds filename es,
     sc_CredentialSource = entry_str es ''credential_source'', sc_CredentialProcess = entry_str es ''credential_process'',
     sc_RoleARN = entry_str es ''role_arn'', sc_RoleSessionName = entry_str es ''role_session_name'',
     sc_ExternalID = entry_str es ''external_id'', sc_MFASerial = entry_str es ''mfa_serial'',
     sc_SourceProfileName = entry_str es ''source_profile'', sc_Region = entry_str es ''region'',
     sc_CustomCABundle = entry_str es ''ca_bundle'',
     sc_EnableEndpointDiscovery = entry_bool es ''endpoint_discovery_enabled'',
     sc_S3UsEast1RegionalEndpoint = endpoint, sc_S3UseARNRegion = (entry_bool es ''s3_use_arn_region'' = Some True),
     sc_UseDualStackEndpoint = DualStackEndpointStateUnset\<rparr>"

definition entries_ok :: "entry list \<Rightarrow> bool" where
  "entries_ok es \<longleftrightarrow> (\<forall>e \<in> set es. value_ok (snd e))"

named_theorems entry_simps \<open>reading a section of plain lines\<close>

lemma entry_String [entry_simps]: "entries_ok es \<Longrightarrow> ini_String (entries_section es) k = Some (entry_str es k, entries_section es)"
  unfolding entry_str_def entries_ok_def by (rule ini_String_entries) (simp_all add: entries_section_def)

lemma entry_Has [entry_simps]: "Section_Has (entries_section es) (runes k) \<longleftrightarrow> map_of (rev es) (runes k) \<noteq> None"
  by (simp add: Section_Has_def entries_section_def map_of_rev_map)

lemma entry_Bool: "map_of (rev es) (runes k) = Some v \<Longrightarrow>
    fst (Section_Bool (entries_section es) (runes k)) = isCaselessLitValue runesTrue v"
  by (simp add: Section_Bool_def entries_section_def map_of_rev_map Value_BoolValue_def text_value_def)

lemma entry_updateString [entry_simps]:
  "entries_ok es \<Longrightarrow> dst (\<lambda>_. []) cfg = cfg \<Longrightarrow>
    updateString dst k (cfg, entries_section es) = Some (dst (\<lambda>_. entry_str es k) cfg, entries_section es)"
  by (cases "map_of (rev es) (runes k)") (simp_all add: updateString_def entry_simps entry_str_def)

lemma entry_updateBool [entry_simps]:
  "dst (\<lambda>_. False) cfg = cfg \<Longrightarrow>
    updateBool dst k (cfg, entries_section es) = (dst (\<lambda>_. entry_bool es k = Some True) cfg, entries_section es)"
  by (cases "map_of (rev es) (runes k)") (simp_all add: updateBool_def entry_simps entry_bool_def entry_Bool)

lemma entry_updateBoolPtr [entry_simps]:
  "dst (\<lambda>_. None) cfg = cfg \<Longrightarrow>
    updateBoolPtr dst k (cfg, entries_section es) = (dst (\<lambda>_. entry_bool es k) cfg, entries_section es)"
  by (cases "map_of (rev es) (runes k)") (simp_all add: updateBoolPtr_def entry_simps entry_bool_def entry_Bool)

lemma shared_creds_entries:
  "entries_ok es \<Longrightarrow> sc_Creds cfg = zero_Value \<Longrightarrow>
    shared_creds filename (cfg, entries_section es) = Some (cfg\<lparr>sc_Creds := entry_creds filename es\<rparr>, entries_section es)"
  by (simp add: shared_creds_def entry_simps entry_creds_def Let_def)

lemma process_and_region_entries:
  assumes "entries_ok es" and "sc_CredentialProcess cfg = entry_str es ''credential_process''"
    and "sc_Region cfg = [] \<or> sc_Region cfg = entry_str es ''region''"
  shows "process_and_region (cfg, entries_section es) = Some (cfg\<lparr>sc_Region := entry_str es ''region''\<rparr>, entries_section es)"
proof -
  have "cfg\<lparr>sc_CredentialProcess := entry_str es ''credential_process''\<rparr> = cfg" using assms(2) by simp
  then show ?thesis using assms by (auto simp: process_and_region_def entry_simps Let_def)
qed

lemma shared_values_entries:
  assumes "entries_ok es" and "sc_CredentialProcess cfg = []" and "sc_Creds cfg = zero_Value"
    and "sc_Region cfg = [] \<or> sc_Region cfg = entry_str es ''region''"
    and "sc_EnableEndpointDiscovery cfg = None" and "\<not> sc_S3UseARNRegion cfg"
  shows "shared_values filename (cfg, entries_section es) = Some (cfg\<lparr>
    sc_CredentialProcess := entry_str es ''credential_process'', sc_Creds := entry_creds filename es,
    sc_Region := entry_str es ''region'', sc_EnableEndpointDiscovery := entry_bool es ''endpoint_discovery_enabled'',
    sc_S3UseARNRegion := (entry_bool es ''s3_use_arn_region'' = Some True)\<rparr>, entries_section es)"
proof -
  have p: "updateString sc_CredentialProcess_update ''credential_process'' (cfg, entries_section es) =
      Some (cfg\<lparr>sc_CredentialProcess := entry_str es ''credential_process''\<rparr>, entries_section es)"
    using assms(1,2) by (simp add: entry_updateString)
  show ?thesis
    using assms by (simp add: shared_values_def p shared_creds_entries process_and_region_entries entry_updateBool
        entry_updateBoolPtr Let_def)
qed

lemma assume_role_params_entries:
  "entries_ok es \<Longrightarrow> assume_role_params (zero_shared\<lparr>sc_Profile := profile\<rparr>, entries_section es) =
    Some (zero_shared\<lparr>sc_Profile := profile, sc_RoleARN := entry_str es ''role_arn'', sc_ExternalID := entry_str es ''external_id'',
      sc_MFASerial := entry_str es ''mfa_serial'', sc_RoleSessionName := entry_str es ''role_session_name'',
      sc_SourceProfileName := entry_str es ''source_profile'', sc_CredentialSource := entry_str es ''credential_source'',
      sc_Region := entry_str es ''region'', sc_CustomCABundle := entry_str es ''ca_bundle''\<rparr>, entries_section es)"
  by (simp add: assume_role_params_def entry_simps zero_shared_def)

lemma set_fields_entries:
  assumes "entries_ok es" and "entry_endpoint es = Inr endpoint"
  shows "set_fields filename True (zero_shared\<lparr>sc_Profile := profile\<rparr>, entries_section es) =
    Some (Inr (entry_fields profile filename es endpoint, entries_section es))"
proof -
  let ?c = "zero_shared\<lparr>sc_Profile := profile, sc_RoleARN := entry_str es ''role_arn'', sc_ExternalID := entry_str es ''external_id'',
      sc_MFASerial := entry_str es ''mfa_serial'', sc_RoleSessionName := entry_str es ''role_session_name'',
      sc_SourceProfileName := entry_str es ''source_profile'', sc_CredentialSource := entry_str es ''credential_source'',
      sc_Region := entry_str es ''region'', sc_CustomCABundle := entry_str es ''ca_bundle''\<rparr>"
  have r: "regional_endpoint filename (?c, entries_section es) =
      Some (Inr (?c\<lparr>sc_S3UsEast1RegionalEndpoint := endpoint\<rparr>, entries_section es))"
    using assms by (auto simp: regional_endpoint_def entry_simps entry_endpoint_def zero_shared_def Let_def split: if_splits)
  have v: "shared_values filename (?c\<lparr>sc_S3UsEast1RegionalEndpoint := endpoint\<rparr>, entries_section es) =
      Some (entry_fields profile filename es endpoint, entries_section es)"
    by (subst shared_values_entries [OF assms(1)]) (simp_all add: zero_shared_def entry_fields_def)
  show ?thesis by (simp add: set_fields_def assume_role_params_entries [OF assms(1)] r v del: shared_fields.update_convs)
qed

lemma profile_section_text:
  "profile_section (file_sections f) profile = (case profile_entries f profile of
     None \<Rightarrow> None
   | Some es \<Rightarrow> Some (if map_of (rev f) (str_Runes profile) = None then str_Runes (''profile '' @ profile) else str_Runes profile,
       entries_section es))"
  by (auto simp: profile_section_def GetSection_def profile_entries_def file_sections_def map_of_rev_map Let_def split: option.splits)

lemma profile_entries_ok:
  assumes "file_ok f" and "profile_entries f profile = Some es"
  shows "entries_ok es"
proof -
  from assms(2) have "\<exists>n. (n, es) \<in> set f"
    by (auto simp: profile_entries_def split: option.splits dest!: map_of_SomeD)
  then obtain n where "(n, es) \<in> set f" ..
  with assms(1) have "section_ok (n, es)" by (simp add: file_ok_def)
  then show ?thesis by (simp add: section_ok_def entries_ok_def)
qed

text \<open>A shared configuration of one such file.\<close>

definition text_file :: "string \<Rightarrow> ini_file \<Rightarrow> sharedConfigFile" where
  "text_file filename f = \<lparr>sf_Filename = filename, sf_IniData = file_sections f\<rparr>"

lemma setFromIniFile_text:
  assumes "file_ok f" and "profile_entries f profile = Some es" and "entry_endpoint es = Inr endpoint"
  shows "setFromIniFile (zero_shared\<lparr>sc_Profile := profile\<rparr>) profile (text_file filename f) True =
    Some (Inr (entry_fields profile filename es endpoint, text_file filename f))"
proof -
  obtain p where p: "profile_section (file_sections f) profile = Some (p, entries_section es)"
    using assms(2) by (simp add: profile_section_text)
  then have "file_sections f p = Some (entries_section es)"
    by (auto simp: profile_section_def GetSection_def Let_def split: option.splits)
  then have "(file_sections f)(p \<mapsto> entries_section es) = file_sections f" by (simp add: fun_upd_idem)
  with p set_fields_entries [OF profile_entries_ok [OF assms(1,2)] assms(3)] show ?thesis
    by (simp add: setFromIniFile_def text_file_def)
qed

lemma set_profile_text:
  assumes "file_ok f" and "profile_entries f profile = Some es" and "entry_endpoint es = Inr endpoint"
    and "validateCredentialType (entry_fields profile filename es endpoint) = None"
  shows "set_profile profile [text_file filename f] True =
    (if entry_str es ''source_profile'' = []
     then Some (Inr (entry_fields profile filename es endpoint, [text_file filename f], False))
     else Some (Inr (clearCredentialOptions (entry_fields profile filename es endpoint), [text_file filename f], True)))"
  using assms(4)
  by (simp add: set_profile_def setFromIniFile_text [OF assms(1-3)] Let_def entry_fields_def del: shared_fields.update_convs)

lemma load_text_file:
  assumes "file_ok f" and "os_Open os filename = Inr (Inr (file_bytes f))"
  shows "loadSharedConfigIniFiles pnum os [filename] = Some (Inr [text_file filename f])"
  using assms by (simp add: ini_OpenFile_def ParseBytes_file text_file_def)

text \<open>Profiles whose source profiles are all among them are never loaded.\<close>

definition links_to :: "ini_file \<Rightarrow> string \<Rightarrow> string \<Rightarrow> bool" where
  "links_to f p q \<longleftrightarrow> (case profile_entries f p of
     None \<Rightarrow> False
   | Some es \<Rightarrow> entry_str es ''source_profile'' = q \<and> q \<noteq> [] \<and> entry_str es ''credential_source'' = [] \<and>
       entry_str es ''credential_process'' = [] \<and> entry_str es ''s3_us_east_1_regional_endpoint'' = [])"

lemma validate_one:
  "sc_CredentialSource cfg = [] \<Longrightarrow> sc_CredentialProcess cfg = [] \<Longrightarrow> validateCredentialType cfg = None"
  by (simp add: validateCredentialType_def oneOrNone_def)

lemma set_profile_link:
  assumes "file_ok f" and "links_to f p q"
  obtains es where "profile_entries f p = Some es" and "entry_str es ''source_profile'' = q"
    and "set_profile p [text_file filename f] True =
      Some (Inr (clearCredentialOptions (entry_fields p filename es UnsetS3UsEast1Endpoint), [text_file filename f], True))"
proof -
  from assms(2) obtain es where es: "profile_entries f p = Some es" and q: "entry_str es ''source_profile'' = q" "q \<noteq> []"
    and no: "entry_str es ''credential_source'' = []" "entry_str es ''credential_process'' = []"
      "entry_str es ''s3_us_east_1_regional_endpoint'' = []"
    by (auto simp: links_to_def split: option.splits)
  have e: "entry_endpoint es = Inr UnsetS3UsEast1Endpoint" using no by (simp add: entry_endpoint_def)
  have v: "validateCredentialType (entry_fields p filename es UnsetS3UsEast1Endpoint) = None"
    using no by (intro validate_one) (simp_all add: entry_fields_def)
  from that [OF es q(1)] set_profile_text [OF assms(1) es e v] q show thesis by simp
qed

lemma link_source: "sc_SourceProfileName (clearCredentialOptions (entry_fields p filename es e)) = entry_str es ''source_profile''"
  by (simp add: clearCredentialOptions_def entry_fields_def)

lemma next_profile_text:
  assumes "file_ok f" and "links_to f p q"
  shows "next_profile True (p, [text_file filename f]) = Some (q, [text_file filename f])"
proof -
  from assms obtain es where "entry_str es ''source_profile'' = q"
    and "set_profile p [text_file filename f] True =
      Some (Inr (clearCredentialOptions (entry_fields p filename es UnsetS3UsEast1Endpoint), [text_file filename f], True))"
    by (rule set_profile_link)
  then show ?thesis by (simp add: next_profile_def link_source)
qed

lemma cycle_chain:
  assumes "file_ok f" and "\<forall>p \<in> P. \<exists>q \<in> P. links_to f p q" and "p \<in> P"
  shows "profile_chain True n (p, [text_file filename f]) \<noteq> None"
  using assms(3)
proof (induction n arbitrary: p)
  case (Suc n)
  with assms(2) obtain q where "q \<in> P" "links_to f p q" by blast
  with Suc.IH [of q] next_profile_text [OF assms(1), of p q filename] show ?case by simp
qed simp

lemma cycle_never_loads:
  assumes "file_ok f" and "os_Open os filename = Inr (Inr (file_bytes f))"
    and "\<forall>p \<in> P. \<exists>q \<in> P. links_to f p q" and "profile \<in> P" and "profile \<noteq> []"
  shows "loadSharedConfig pnum os profile [filename] True = None"
  using assms(5) cycle_chain [OF assms(1,3,4)] by (auto simp: loadSharedConfig_None load_text_file [OF assms(1,2)] simp del: loadSharedConfigIniFiles.simps)

text \<open>A profile without a source profile.\<close>

lemma profile_loads:
  assumes "file_ok f" and "os_Open os filename = Inr (Inr (file_bytes f))" and "profile \<noteq> []"
    and "profile_entries f profile = Some es" and "entry_endpoint es = Inr endpoint"
    and "entry_str es ''source_profile'' = []"
    and "entry_str es ''credential_source'' = [] \<or> entry_str es ''credential_process'' = []"
  shows "loadSharedConfig pnum os profile [filename] True =
    Some (Inr (SharedConfig (entry_fields profile filename es endpoint) None))"
proof -
  have v: "validateCredentialType (entry_fields profile filename es endpoint) = None"
    using assms(6,7) by (auto simp: validateCredentialType_def oneOrNone_def entry_fields_def)
  have "set_profile profile [text_file filename f] True =
      Some (Inr (entry_fields profile filename es endpoint, [text_file filename f], False))"
    using set_profile_text [OF assms(1,4,5) v] assms(6) by simp
  from setFromIniFiles_last [OF this] assms(3) show ?thesis
    by (simp add: loadSharedConfig_def load_text_file [OF assms(1,2)] del: loadSharedConfigIniFiles.simps)
qed

text \<open>A profile with a source profile that has keys.\<close>

lemma linked_profile_loads:
  assumes "file_ok f" and "os_Open os filename = Inr (Inr (file_bytes f))" and "profile \<noteq> []" and "links_to f profile src"
    and "profile_entries f src = Some es" and "entry_str es ''s3_us_east_1_regional_endpoint'' = []"
    and "entry_str es ''source_profile'' = []"
    and "entry_str es ''credential_source'' = [] \<or> entry_str es ''credential_process'' = []"
  obtains es0 where "profile_entries f profile = Some es0"
    and "loadSharedConfig pnum os profile [filename] True =
      Some (Inr (SharedConfig (clearCredentialOptions (entry_fields profile filename es0 UnsetS3UsEast1Endpoint))
        (Some (SharedConfig (entry_fields src filename es UnsetS3UsEast1Endpoint) None))))"
proof -
  let ?files = "[text_file filename f]"
  from assms(1,4) obtain es0 where es0: "profile_entries f profile = Some es0" "entry_str es0 ''source_profile'' = src"
    and c: "set_profile profile ?files True =
      Some (Inr (clearCredentialOptions (entry_fields profile filename es0 UnsetS3UsEast1Endpoint), ?files, True))"
    by (rule set_profile_link)
  have e: "entry_endpoint es = Inr UnsetS3UsEast1Endpoint" using assms(6) by (simp add: entry_endpoint_def)
  have v: "validateCredentialType (entry_fields src filename es UnsetS3UsEast1Endpoint) = None"
    using assms(7,8) by (auto simp: validateCredentialType_def oneOrNone_def entry_fields_def)
  have "set_profile src ?files True = Some (Inr (entry_fields src filename es UnsetS3UsEast1Endpoint, ?files, False))"
    using set_profile_text [OF assms(1,5) e v] assms(7) by simp
  from setFromIniFiles_last [OF this] setFromIniFiles_linked [OF c] es0(2) assms(3) that [OF es0(1)] show thesis
    by (simp add: loadSharedConfig_def load_text_file [OF assms(1,2)] link_source del: loadSharedConfigIniFiles.simps)
qed

section \<open>What a session is made of\<close>

lemma mergeS3_fields:
  "ac_Region (mergeS3UsEast1RegionalEndpointConfig cfg vs) = ac_Region cfg"
  "ac_Credentials (mergeS3UsEast1RegionalEndpointConfig cfg vs) = ac_Credentials cfg"
  "ac_HTTPClient (mergeS3UsEast1RegionalEndpointConfig cfg vs) = ac_HTTPClient cfg"
  "ac_CredentialsChainVerboseErrors (mergeS3UsEast1RegionalEndpointConfig cfg vs) = ac_CredentialsChainVerboseErrors cfg"
  by (induction vs) simp_all

lemma merge_dual_fields:
  "ac_Region (merge_dual_stack vs cfg) = ac_Region cfg"
  "ac_Credentials (merge_dual_stack vs cfg) = ac_Credentials cfg"
  "ac_HTTPClient (merge_dual_stack vs cfg) = ac_HTTPClient cfg"
  "ac_S3UseARNRegion (merge_dual_stack vs cfg) = ac_S3UseARNRegion cfg"
  by (induction vs) simp_all

lemma merge_region_fields:
  "ac_Credentials (merge_region env sc cfg) = ac_Credentials cfg"
  "ac_HTTPClient (merge_region env sc cfg) = ac_HTTPClient cfg"
  "ac_CredentialsChainVerboseErrors (merge_region env sc cfg) = ac_CredentialsChainVerboseErrors cfg"
  by (simp_all add: merge_region_def WithRegion_def)

lemma merge_discovery_fields:
  "ac_Region (merge_discovery env sc cfg) = ac_Region cfg"
  "ac_Credentials (merge_discovery env sc cfg) = ac_Credentials cfg"
  "ac_HTTPClient (merge_discovery env sc cfg) = ac_HTTPClient cfg"
  "ac_CredentialsChainVerboseErrors (merge_discovery env sc cfg) = ac_CredentialsChainVerboseErrors cfg"
  by (simp_all add: merge_discovery_def WithEndpointDiscovery_def split: option.splits)

lemma merge_arn_fields:
  "ac_Region (merge_arn_region user env sc cfg) = ac_Region cfg"
  "ac_Credentials (merge_arn_region user env sc cfg) = ac_Credentials cfg"
  "ac_HTTPClient (merge_arn_region user env sc cfg) = ac_HTTPClient cfg"
  "ac_S3UseARNRegion (merge_arn_region user env sc cfg) =
    Some (case ac_S3UseARNRegion user of Some b \<Rightarrow> b | None \<Rightarrow> en_S3UseARNRegion env)"
  by (auto simp: merge_arn_region_def Let_def split: option.splits)

lemmas source_fields = mergeS3_fields merge_dual_fields merge_region_fields merge_discovery_fields merge_arn_fields

text \<open>The steps of merging the sources.\<close>

lemma mergeConfigSrcs_Inr:
  assumes "mergeConfigSrcs se cfg user env sharedCfg profile = Some (Inr cfg')"
  obtains c creds where
    "c = mergeS3UsEast1RegionalEndpointConfig
           (merge_discovery env (sc_fields sharedCfg) (merge_region env (sc_fields sharedCfg) (mergeInConfig cfg (Some user))))
           [ac_S3UsEast1RegionalEndpoint user, en_S3UsEast1RegionalEndpoint env, sc_S3UsEast1RegionalEndpoint (sc_fields sharedCfg),
            LegacyS3UsEast1Endpoint]"
    and "merge_credentials se user env sharedCfg profile c = Some (Inr (c\<lparr>ac_Credentials := creds\<rparr>))"
    and "cfg' = merge_dual_stack [ac_UseDualStackEndpoint user, en_UseDualStackEndpoint env, sc_UseDualStackEndpoint (sc_fields sharedCfg)]
           (merge_arn_region user env (sc_fields sharedCfg) (c\<lparr>ac_Credentials := creds\<rparr>))"
proof -
  have "\<exists>creds. r = c\<lparr>ac_Credentials := creds\<rparr>" if "merge_credentials se user env sharedCfg profile c = Some (Inr r)" for c r
    using that by (auto simp: merge_credentials_def split: if_splits option.splits sum.splits intro: exI [of _ "ac_Credentials c"])
  moreover from assms obtain c r where
    c: "c = mergeS3UsEast1RegionalEndpointConfig
           (merge_discovery env (sc_fields sharedCfg) (merge_region env (sc_fields sharedCfg) (mergeInConfig cfg (Some user))))
           [ac_S3UsEast1RegionalEndpoint user, en_S3UsEast1RegionalEndpoint env, sc_S3UsEast1RegionalEndpoint (sc_fields sharedCfg),
            LegacyS3UsEast1Endpoint]"
    and "merge_credentials se user env sharedCfg profile c = Some (Inr r)"
    and "cfg' = merge_dual_stack [ac_UseDualStackEndpoint user, en_UseDualStackEndpoint env, sc_UseDualStackEndpoint (sc_fields sharedCfg)]
           (merge_arn_region user env (sc_fields sharedCfg) r)"
    by (simp add: mergeConfigSrcs_def Let_def MergeIn_simps split: option.splits sum.splits
        del: mergeS3UsEast1RegionalEndpointConfig.simps merge_dual_stack.simps)
  ultimately show thesis using that [OF c] by blast
qed

end
