(* ===== verification/AwsSessionMade.thy ===== *)
theory AwsSessionMade
  imports AwsSessionRuns
begin

text \<open>
  What a new session is: when making it returns, where its region, its credentials and its TLS configuration come
  from, and what every session and its copies keep.
\<close>

section \<open>Making a session returns\<close>

lemma NewProvider_Some: "\<exists>p. NewProvider ie name (Some cg) key auth inst None = Some p"
  by (simp add: NewProvider_def client_or_default_def defaultIBMClient_def newIBMClient_def newTokenManagerFromAPIKey_def
      newTokenManager_def Let_def)

lemma NewProvider_valid:
  "key \<noteq> [] \<Longrightarrow> NewProvider ie name (Some cg) key auth inst None = Some p \<Longrightarrow> Iam_IsValid p"
  by (auto simp: NewProvider_def client_or_default_def defaultIBMClient_def newIBMClient_def newTokenManagerFromAPIKey_def
      newTokenManager_def Iam_IsValid_def Let_def)

lemma ini_OpenFile_Some: "\<exists>r. ini_OpenFile pnum os path = Some r \<and> (\<forall>t. r = Inr t \<longrightarrow> sections_wf t)"
proof (cases "\<exists>b. os_Open os path = Inr (Inr b)")
  case True
  then obtain b where "os_Open os path = Inr (Inr b)" ..
  then show ?thesis
    using ParseBytes_total [of pnum b] ParseBytes_wf [of pnum b]
    by (auto simp: ini_OpenFile_def split: sum.splits ini_error.splits)
qed (auto simp: ini_OpenFile_def split: sum.splits)

lemma commonIniProvider_Some: "\<exists>p. commonIniProvider pnum ie os name (Some cg) filename profile = Some p"
proof -
  obtain r where r: "ini_OpenFile pnum os filename = Some r" "\<forall>t. r = Inr t \<longrightarrow> sections_wf t"
    using ini_OpenFile_Some by blast
  show ?thesis
  proof (cases "\<exists>t s. r = Inr t \<and> GetSection t (str_Runes profile) = Some s")
    case True
    then obtain t s where t: "r = Inr t" "GetSection t (str_Runes profile) = Some s" by blast
    with r have "section_wf s" by (auto simp: GetSection_def intro: sections_wf_get)
    then obtain a s1 where a: "ini_String s ''ibm_api_key_id'' = Some (a, s1)" "section_wf s1" using ini_String_wf by blast
    then obtain b s2 where b: "ini_String s1 ''ibm_service_instance_id'' = Some (b, s2)" "section_wf s2" using ini_String_wf by blast
    then obtain c s3 where c: "ini_String s2 ''ibm_auth_endpoint'' = Some (c, s3)" using ini_String_wf by blast
    show ?thesis using NewProvider_Some by (simp add: commonIniProvider_def r(1) t a(1) b(1) c)
  qed (use r in \<open>auto simp: commonIniProvider_def split: sum.splits option.splits\<close>)
qed

lemma ini_providers_Some:
  "\<exists>p. NewSharedCredentialsProvider pnum ie os (Some cg) f n = Some p"
  "\<exists>p. NewSharedConfigProvider pnum ie os (Some cg) f n = Some p"
  by (simp_all add: NewSharedCredentialsProvider_def NewSharedConfigProvider_def Let_def commonIniProvider_Some)

lemma getIBMIAMCredentials_Some: "\<exists>r. getIBMIAMCredentials se config = Some r"
proof -
  let ?cg = "iam_Config se config"
  obtain e s c where "NewEnvProvider (se_iam se) (se_os se) (Some ?cg) = Some e"
    and "NewSharedCredentialsProvider (se_pnum se) (se_iam se) (se_os se) (Some ?cg) [] [] = Some s"
    and "NewSharedConfigProvider (se_pnum se) (se_iam se) (se_os se) (Some ?cg) [] [] = Some c"
    using NewProvider_Some ini_providers_Some unfolding NewEnvProvider_def Let_def by metis
  then show ?thesis by (simp add: getIBMIAMCredentials_def Let_def)
qed

lemma mergeConfigSrcs_Some: "\<exists>r. mergeConfigSrcs se cfg user env sharedCfg profile = Some r"
proof -
  have "merge_credentials se user env sharedCfg profile c \<noteq> None" for c
    using getIBMIAMCredentials_Some [of se user]
    by (auto simp: merge_credentials_def split: option.splits)
  then have "mergeConfigSrcs se cfg user env sharedCfg profile \<noteq> None"
    by (simp add: mergeConfigSrcs_def Let_def split: option.split sum.split
        del: mergeS3UsEast1RegionalEndpointConfig.simps merge_dual_stack.simps)
  then show ?thesis by blast
qed

lemma merged_HTTPClient:
  assumes "mergeConfigSrcs se cfg user env sharedCfg profile = Some (Inr cfg')"
  shows "ac_HTTPClient cfg' = ac_HTTPClient (mergeInConfig cfg (Some user))"
  by (rule mergeConfigSrcs_Inr [OF assms]) (simp add: source_fields)

lemma defaults_HTTPClient: "ac_HTTPClient (mergeInConfig (defaults_Config se) (Some user)) \<noteq> None"
  by (simp add: merge_simps defaults_Config_def WithHTTPClient_def WithCredentials_def WithRegion_def WithMaxRetries_def
      WithLogger_def WithLogLevel_def WithEndpointResolver_def Let_def merge_ptr_def split: option.splits)

lemma newSession_None:
  "newSession se opts env [Some user] w = None \<longleftrightarrow>
    loadSharedConfig (se_pnum se) (se_os se) (en_Profile env) (session_files opts env) (en_EnableSharedConfig env) = None"
proof -
  let ?cfg = "mergeInConfig (defaults_Config se) (Some user)"
  have m: "\<exists>r. mergeConfigSrcs se ?cfg user env sharedCfg (op_Profile opts) = Some r \<and>
      (\<forall>c. r = Inr c \<longrightarrow> ac_HTTPClient c \<noteq> None)" for sharedCfg
    using mergeConfigSrcs_Some [of se ?cfg user env sharedCfg "op_Profile opts"] merged_HTTPClient [of se ?cfg user env sharedCfg]
      defaults_HTTPClient [of se user] by (auto simp: mergeIn_again)
  have n: "(case mergeConfigSrcs se ?cfg user env sharedCfg (op_Profile opts) of None \<Rightarrow> None
      | Some (Inl err) \<Rightarrow> Some (Inl err, w)
      | Some (Inr cfg) \<Rightarrow> (case ac_HTTPClient cfg of None \<Rightarrow> None
         | Some client \<Rightarrow> (case setTLSOptions se opts client env (sc_fields sharedCfg) w of
             (Inl err, w) \<Rightarrow> Some (Inl (SessionError err), w)
           | (Inr opts, w) \<Rightarrow> Some (Inr (initHandlers se \<lparr>ss_Config = cfg, ss_Handlers = h, ss_options = opts\<rparr>), w)))) \<noteq> None"
    for sharedCfg h
    using m [of sharedCfg] by (auto split: sum.splits option.splits prod.splits)
  show ?thesis
    using n by (simp add: newSession_def Let_def MergeIn_simps mergeIn_unit split: option.split sum.split)
qed

text \<open>The environment a session is made with.\<close>

lemma NewSessionWithOptions_newSession:
  assumes "NewSessionWithOptions se opts w = Some (Inr s, w')"
  obtains env where "newSession se opts env [Some (op_Config opts)] w = Some (Inr s, w')"
    and "op_Profile opts \<noteq> [] \<longrightarrow> en_Profile env = op_Profile opts"
    and "op_SharedConfigState opts = SharedConfigEnable \<longrightarrow> en_EnableSharedConfig env"
  using assms
  by (auto simp: NewSessionWithOptions_def Let_def split: sum.splits if_splits SharedConfigState.splits)

section \<open>The fields of a session\<close>

definition shared_loaded :: "('w, 'a, 'v, 'r) session_env \<Rightarrow> ('w, 'a, 'v, 'r) Options \<Rightarrow> envConfig \<Rightarrow> sharedConfig \<Rightarrow> bool" where
  "shared_loaded se opts env sharedCfg \<longleftrightarrow>
     (case loadSharedConfig (se_pnum se) (se_os se) (en_Profile env) (session_files opts env) (en_EnableSharedConfig env) of
        Some (Inr sc) \<Rightarrow> sharedCfg = sc
      | _ \<Rightarrow> sharedCfg = SharedConfig zero_shared None)"

text \<open>The first string that is not empty.\<close>

fun first_set :: "string list \<Rightarrow> string" where
  "first_set [] = []"
| "first_set (s # ss) = (if s \<noteq> [] then s else first_set ss)"

definition region_sources :: "('w, 'a, 'v, 'r) session_env \<Rightarrow> ('w, 'a, 'v) session_Config \<Rightarrow> envConfig \<Rightarrow> shared_fields \<Rightarrow> string list" where
  "region_sources se user env sc =
     [case ac_Region user of Some r \<Rightarrow> r | None \<Rightarrow> os_Getenv (se_os se) ''AWS_REGION'', en_Region env,
      if en_EnableSharedConfig env then sc_Region sc else []]"

lemma defaults_fields:
  "ac_Region (defaults_Config se) = Some (os_Getenv (se_os se) ''AWS_REGION'')"
  "ac_Credentials (defaults_Config se) = Some AnonymousCreds"
  "ac_HTTPClient (defaults_Config se) = Some DefaultClient"
  "ac_EndpointResolver (defaults_Config se) = Some (se_Resolver se)"
  "ac_CredentialsChainVerboseErrors (defaults_Config se) = None"
  by (simp_all add: defaults_Config_def WithHTTPClient_def WithCredentials_def WithRegion_def WithMaxRetries_def
      WithLogger_def WithLogLevel_def WithEndpointResolver_def Let_def NewConfig_def)

lemma merged_region:
  "StringValue_ptr (ac_Region (merge_region env sc (mergeInConfig (defaults_Config se) (Some user)))) =
    first_set (region_sources se user env sc)"
  by (auto simp: merge_region_def region_sources_def merge_simps defaults_fields WithRegion_def StringValue_ptr_def merge_ptr_def
      split: option.splits)

definition session_made :: "('w, 'a, 'v, 'r) session_env \<Rightarrow> ('w, 'a, 'v, 'r) Options \<Rightarrow> envConfig \<Rightarrow> ('w, 'a, 'v) session_Config \<Rightarrow>
    sharedConfig \<Rightarrow> ('w, 'a, 'v) session_Config \<Rightarrow> bool" where
  "session_made se opts env user sharedCfg c \<longleftrightarrow>
     shared_loaded se opts env sharedCfg \<and>
     StringValue_ptr (ac_Region c) = first_set (region_sources se user env (sc_fields sharedCfg)) \<and>
     ac_S3UseARNRegion c = Some (case ac_S3UseARNRegion user of Some b \<Rightarrow> b | None \<Rightarrow> en_S3UseARNRegion env) \<and>
     ac_HTTPClient c = Some (case ac_HTTPClient user of Some h \<Rightarrow> h | None \<Rightarrow> DefaultClient) \<and>
     (ac_Credentials user = None \<longrightarrow>
        (case getIBMIAMCredentials se user of
           Some (Some creds) \<Rightarrow> ac_Credentials c = Some creds
         | _ \<Rightarrow> (\<exists>creds. resolveCredentials user env sharedCfg (op_Profile opts) = Inr creds \<and> ac_Credentials c = Some creds)))"

lemma newSession_shared:
  assumes "newSession se opts env [Some user] w = Some (Inr s, w')"
  obtains sharedCfg cfg client opts' where
    "mergeConfigSrcs se (mergeInConfig (defaults_Config se) (Some user)) user env sharedCfg (op_Profile opts) = Some (Inr cfg)"
    and "ac_HTTPClient cfg = Some client"
    and "setTLSOptions se opts client env (sc_fields sharedCfg) w = (Inr opts', w')"
    and "ss_Config s = cfg"
    and "shared_loaded se opts env sharedCfg"
  using assms
  by (auto simp: newSession_def Let_def MergeIn_simps mergeIn_unit initHandlers_def shared_loaded_def
      split: option.splits sum.splits if_splits prod.splits)

lemma credentials_set: "c\<lparr>ac_Credentials := x\<rparr> = c\<lparr>ac_Credentials := y\<rparr> \<longleftrightarrow> x = y"
  by (metis Config.select_convs(2) Config.surjective Config.update_convs(2))

lemma newSession_made:
  assumes "newSession se opts env [Some user] w = Some (Inr s, w')"
  obtains sharedCfg client opts' where "session_made se opts env user sharedCfg (ss_Config s)"
    and "ac_HTTPClient (ss_Config s) = Some client"
    and "setTLSOptions se opts client env (sc_fields sharedCfg) w = (Inr opts', w')"
proof -
  from assms obtain sharedCfg cfg client opts' where
    m: "mergeConfigSrcs se (mergeInConfig (defaults_Config se) (Some user)) user env sharedCfg (op_Profile opts) = Some (Inr cfg)"
    and h: "ac_HTTPClient cfg = Some client" and t: "setTLSOptions se opts client env (sc_fields sharedCfg) w = (Inr opts', w')"
    and c: "ss_Config s = cfg" and l: "shared_loaded se opts env sharedCfg"
    by (rule newSession_shared)
  let ?sc = "sc_fields sharedCfg"
  let ?c0 = "mergeInConfig (defaults_Config se) (Some user)"
  let ?d = "[ac_UseDualStackEndpoint user, en_UseDualStackEndpoint env, sc_UseDualStackEndpoint ?sc]"
  from m obtain c1 creds where
    c1: "c1 = mergeS3UsEast1RegionalEndpointConfig (merge_discovery env ?sc (merge_region env ?sc ?c0))
           [ac_S3UsEast1RegionalEndpoint user, en_S3UsEast1RegionalEndpoint env, sc_S3UsEast1RegionalEndpoint ?sc,
            LegacyS3UsEast1Endpoint]"
    and cr: "merge_credentials se user env sharedCfg (op_Profile opts) c1 = Some (Inr (c1\<lparr>ac_Credentials := creds\<rparr>))"
    and cfg: "cfg = merge_dual_stack ?d (merge_arn_region user env ?sc (c1\<lparr>ac_Credentials := creds\<rparr>))"
    by (rule mergeConfigSrcs_Inr) (simp add: mergeIn_again)
  have fields: "StringValue_ptr (ac_Region cfg) = first_set (region_sources se user env ?sc)"
    "ac_S3UseARNRegion cfg = Some (case ac_S3UseARNRegion user of Some b \<Rightarrow> b | None \<Rightarrow> en_S3UseARNRegion env)"
    "ac_HTTPClient cfg = Some (case ac_HTTPClient user of Some h \<Rightarrow> h | None \<Rightarrow> DefaultClient)"
    "ac_Credentials cfg = creds"
    unfolding cfg c1 source_fields
    by (simp_all add: source_fields merged_region merge_simps defaults_fields merge_ptr_def
        del: mergeS3UsEast1RegionalEndpointConfig.simps merge_dual_stack.simps split: option.split)
  have a: "ac_Credentials c1 = Some AnonymousCreds" if "ac_Credentials user = None"
    unfolding c1 source_fields using that by (simp add: merge_simps defaults_fields)
  have v: "resolveCredentials c1 env sharedCfg (op_Profile opts) = resolveCredentials user env sharedCfg (op_Profile opts)"
    unfolding resolveCredentials_def c1 source_fields by (simp add: merge_simps defaults_fields)
  have "session_made se opts env user sharedCfg cfg"
    unfolding session_made_def
  proof (intro conjI impI l fields(1-3))
    assume u: "ac_Credentials user = None"
    show "case getIBMIAMCredentials se user of
        Some (Some creds) \<Rightarrow> ac_Credentials cfg = Some creds
      | _ \<Rightarrow> (\<exists>creds. resolveCredentials user env sharedCfg (op_Profile opts) = Inr creds \<and> ac_Credentials cfg = Some creds)"
      using cr u fields(4) a [OF u] v
      by (auto simp: merge_credentials_def credentials_set split: option.splits sum.splits) metis
  qed
  with that h t c show thesis by blast
qed

section \<open>The CA bundle\<close>

text \<open>The pool of root certificates a client checks servers with; \<open>None\<close> is the pool of the system.\<close>

definition client_roots :: "http_world \<Rightarrow> nat \<Rightarrow> byte list option" where
  "client_roots w client = (case hw_Transport w client of
     HttpTransport t \<Rightarrow> (case hw_TLSClientConfig w t of Some c \<Rightarrow> tl_RootCAs (hw_tls w c) | None \<Rightarrow> None)
   | _ \<Rightarrow> None)"

lemma loadCustomCABundle_roots:
  assumes "loadCustomCABundle se client bundle w = (None, w')"
  obtains b where "bundle = Inr b" and "client_roots w' client = Some b"
  using assms
  by (fastforce simp: loadCustomCABundle_def loadCertPool_def getHTTPTransport_def tls_of_def client_roots_def Let_def
      split: round_tripper.splits sum.splits option.splits if_splits prod.splits)

lemma loadClientTLSCert_roots:
  assumes "loadClientTLSCert se client cert key w = (None, w')" and "client_roots w client = Some b"
  shows "client_roots w' client = Some b"
  using assms
  by (auto simp: loadClientTLSCert_def getHTTPTransport_def tls_of_def client_roots_def Let_def
      split: round_tripper.splits sum.splits option.splits if_splits prod.splits)

lemma open_tls_files_keep:
  "open_tls_files os filename vs opts = Inr opts' \<Longrightarrow> op_CustomCABundle opts = Some b \<Longrightarrow> op_CustomCABundle opts' = Some b"
proof (induction vs arbitrary: opts)
  case (Cons v vs)
  show ?case
  proof (cases "length (filename v) \<noteq> 0 \<and> get_tls v opts = None")
    case True
    with Cons.prems obtain f where f: "open_tls_files os filename vs (set_tls v f opts) = Inr opts'"
      by (auto split: sum.splits)
    have "op_CustomCABundle (set_tls v f opts) = Some b" using True Cons.prems(2) by (cases v) simp_all
    from Cons.IH [OF f this] show ?thesis .
  next
    case False
    with Cons.prems(1) have "open_tls_files os filename vs opts = Inr opts'" by auto
    from Cons.IH [OF this Cons.prems(2)] show ?thesis .
  qed
qed simp

lemma setTLSOptions_roots:
  assumes "setTLSOptions se opts client env sc w = (Inr opts', w')" and "op_CustomCABundle opts = Some bundle"
  obtains b where "bundle = Inr b" and "client_roots w' client = Some b"
proof -
  from assms(1) obtain o1 where o1: "open_tls_files (se_os se) (tls_filename env sc) (se_range se) opts = Inr o1"
    and a: "apply_tls se client o1 w = (None, w')"
    by (auto simp: setTLSOptions_def split: sum.splits prod.splits option.splits)
  from open_tls_files_keep [OF o1 assms(2)] have "op_CustomCABundle o1 = Some bundle" .
  with a obtain w1 where l: "loadCustomCABundle se client bundle w = (None, w1)"
    and k: "w' = w1 \<or> (\<exists>cert key. loadClientTLSCert se client cert key w1 = (None, w'))"
    by (auto simp: apply_tls_def Let_def split: prod.splits option.splits)
  from l obtain b where "bundle = Inr b" "client_roots w1 client = Some b" by (rule loadCustomCABundle_roots)
  with k loadClientTLSCert_roots that show thesis by blast
qed

section \<open>What every session keeps\<close>

inductive a_session :: "('w, 'a, 'v, 'r) session_env \<Rightarrow> ('w, 'a, 'v, 'r) Session \<Rightarrow> bool" for se where
  made: "NewSessionWithOptions se opts w = Some (Inr s, w') \<Longrightarrow> a_session se s"
| copied: "a_session se s \<Longrightarrow> a_session se (Session_Copy se s cfgs)"

definition session_inv :: "('w, 'a, 'v, 'r) session_env \<Rightarrow> ('w, 'a, 'v, 'r) Session \<Rightarrow> bool" where
  "session_inv se s \<longleftrightarrow>
     handlers_named ''core.ValidateParametersHandler'' (Validate (ss_Handlers s)) =
       (if BoolValue_ptr (ac_DisableParamValidation (ss_Config s)) then [] else [se_validate se]) \<and>
     ac_EndpointResolver (ss_Config s) \<noteq> None \<and> ac_HTTPClient (ss_Config s) \<noteq> None \<and> ac_Credentials (ss_Config s) \<noteq> None"

lemma initHandlers_validates:
  "handlers_named ''core.ValidateParametersHandler'' (Validate (ss_Handlers (initHandlers se s))) =
    (if BoolValue_ptr (ac_DisableParamValidation (ss_Config s)) then [] else [se_validate se])"
  "ss_Config (initHandlers se s) = ss_Config s"
  by (simp_all add: initHandlers_def Let_def Remove_def ValidateParametersHandler_def RemoveByName_filter handlers_named_def
      PushBackNamed_def)

lemma MergeIn_keeps:
  "ac_EndpointResolver c \<noteq> None \<Longrightarrow> ac_EndpointResolver (MergeIn c cfgs) \<noteq> None"
  "ac_HTTPClient c \<noteq> None \<Longrightarrow> ac_HTTPClient (MergeIn c cfgs) \<noteq> None"
  "ac_Credentials c \<noteq> None \<Longrightarrow> ac_Credentials (MergeIn c cfgs) \<noteq> None"
proof (induction cfgs arbitrary: c)
  case (Cons x xs)
  {
    case 1
    have "ac_EndpointResolver (mergeInConfig c x) \<noteq> None"
      using 1 by (cases x) (auto simp: merge_simps mergeIn_nil merge_ptr_def split: option.splits)
    from Cons.IH(1) [OF this] show ?case by (simp add: MergeIn_simps)
  next
    case 2
    have "ac_HTTPClient (mergeInConfig c x) \<noteq> None"
      using 2 by (cases x) (auto simp: merge_simps mergeIn_nil merge_ptr_def split: option.splits)
    from Cons.IH(2) [OF this] show ?case by (simp add: MergeIn_simps)
  next
    case 3
    have "ac_Credentials (mergeInConfig c x) \<noteq> None"
      using 3 by (cases x) (auto simp: merge_simps mergeIn_nil merge_ptr_def split: option.splits)
    from Cons.IH(3) [OF this] show ?case by (simp add: MergeIn_simps)
  }
qed (simp_all add: MergeIn_simps)

lemma resolver_fields:
  "ac_EndpointResolver (mergeS3UsEast1RegionalEndpointConfig c vs) = ac_EndpointResolver c"
  "ac_EndpointResolver (merge_region env sc c) = ac_EndpointResolver c"
  "ac_EndpointResolver (merge_discovery env sc c) = ac_EndpointResolver c"
  "ac_EndpointResolver (merge_arn_region user env sc c) = ac_EndpointResolver c"
  by (induction vs)
    (simp_all add: merge_region_def merge_discovery_def merge_arn_region_def WithRegion_def WithEndpointDiscovery_def Let_def
      split: option.splits)

lemma resolver_dual: "ac_EndpointResolver (merge_dual_stack ds c) = ac_EndpointResolver c"
  by (induction ds) simp_all

lemma merge_credentials_set:
  "merge_credentials se user env sharedCfg profile c = Some (Inr (c\<lparr>ac_Credentials := creds\<rparr>)) \<Longrightarrow>
    ac_Credentials c \<noteq> None \<Longrightarrow> creds \<noteq> None"
  by (auto simp: merge_credentials_def credentials_set split: if_splits option.splits sum.splits)
    (metis Config.select_convs(2) Config.surjective Config.update_convs(2))+

lemma mergeConfigSrcs_keeps:
  assumes "mergeConfigSrcs se cfg user env sharedCfg profile = Some (Inr cfg')"
    and "ac_EndpointResolver cfg \<noteq> None" and "ac_Credentials cfg \<noteq> None"
  shows "ac_EndpointResolver cfg' \<noteq> None \<and> ac_Credentials cfg' \<noteq> None"
proof (rule mergeConfigSrcs_Inr [OF assms(1)])
  let ?sc = "sc_fields sharedCfg" and ?c0 = "mergeInConfig cfg (Some user)"
  fix c creds
  assume c: "c = mergeS3UsEast1RegionalEndpointConfig (merge_discovery env ?sc (merge_region env ?sc ?c0))
       [ac_S3UsEast1RegionalEndpoint user, en_S3UsEast1RegionalEndpoint env, sc_S3UsEast1RegionalEndpoint ?sc, LegacyS3UsEast1Endpoint]"
    and m: "merge_credentials se user env sharedCfg profile c = Some (Inr (c\<lparr>ac_Credentials := creds\<rparr>))"
    and cfg': "cfg' = merge_dual_stack [ac_UseDualStackEndpoint user, en_UseDualStackEndpoint env, sc_UseDualStackEndpoint ?sc]
       (merge_arn_region user env ?sc (c\<lparr>ac_Credentials := creds\<rparr>))"
  have k: "ac_EndpointResolver ?c0 \<noteq> None" "ac_Credentials ?c0 \<noteq> None"
    using MergeIn_keeps(1) [OF assms(2), of "[Some user]"] MergeIn_keeps(3) [OF assms(3), of "[Some user]"]
    by (simp_all add: MergeIn_simps)
  have "ac_Credentials c \<noteq> None" using k(2) unfolding c source_fields .
  from merge_credentials_set [OF m this] have "creds \<noteq> None" .
  moreover have "ac_EndpointResolver c \<noteq> None" using k(1) unfolding c resolver_fields .
  ultimately show ?thesis unfolding cfg' source_fields resolver_dual resolver_fields by simp
qed

lemma newSession_inv:
  assumes "newSession se opts env [Some user] w = Some (Inr s, w')"
  shows "session_inv se s"
proof -
  from assms obtain sharedCfg cfg client opts' where
    m: "mergeConfigSrcs se (mergeInConfig (defaults_Config se) (Some user)) user env sharedCfg (op_Profile opts) = Some (Inr cfg)"
    and h: "ac_HTTPClient cfg = Some client" and "setTLSOptions se opts client env (sc_fields sharedCfg) w = (Inr opts', w')"
    and c: "ss_Config s = cfg" and "shared_loaded se opts env sharedCfg"
    by (rule newSession_shared)
  have "ac_EndpointResolver (defaults_Config se) \<noteq> None" "ac_Credentials (defaults_Config se) \<noteq> None"
    by (simp_all add: defaults_fields)
  then have "ac_EndpointResolver (mergeInConfig (defaults_Config se) (Some user)) \<noteq> None"
    "ac_Credentials (mergeInConfig (defaults_Config se) (Some user)) \<noteq> None"
    using MergeIn_keeps(1,3) [of "defaults_Config se" "[Some user]"] by (simp_all add: MergeIn_simps)
  from mergeConfigSrcs_keeps [OF m this] h c
  have k: "ac_EndpointResolver (ss_Config s) \<noteq> None" "ac_HTTPClient (ss_Config s) \<noteq> None" "ac_Credentials (ss_Config s) \<noteq> None"
    by simp_all
  from assms obtain s0 where "s = initHandlers se s0"
    by (auto simp: newSession_def Let_def split: option.splits sum.splits if_splits prod.splits)
  then show ?thesis using k by (simp add: session_inv_def initHandlers_validates)
qed

lemma a_session_inv: "a_session se s \<Longrightarrow> session_inv se s"
proof (induction rule: a_session.induct)
  case (made opts w s w')
  then obtain env where "newSession se opts env [Some (op_Config opts)] w = Some (Inr s, w')"
    by (rule NewSessionWithOptions_newSession)
  then show ?case by (rule newSession_inv)
next
  case (copied s cfgs)
  then show ?case
    by (simp add: session_inv_def Session_Copy_def initHandlers_validates Config_Copy_merges MergeIn_keeps del: not_None_eq)
qed

text \<open>So a session can always make the configuration of a client.\<close>

lemma ClientConfig_Some:
  assumes "session_inv se s"
  shows "\<exists>c. ClientConfig se s service cfgs = Some c"
proof -
  have "ac_EndpointResolver (ss_Config (Session_Copy se s cfgs)) \<noteq> None"
    using assms by (simp add: session_inv_def Session_Copy_def initHandlers_validates Config_Copy_merges MergeIn_keeps del: not_None_eq)
  then show ?thesis by (auto simp: ClientConfig_def resolveEndpoint_def Let_def split: option.splits)
qed

section \<open>Which keys a session signs with\<close>

text \<open>The keys of IBM IAM of a process without environment variables: of the profile \<open>default\<close>.\<close>

lemma Env_invalid: "NewProvider ie name cg [] auth inst client = Some (failed_provider name ''oauth''
    (awserr_New ''IbmApiKeyIdNotFound'' ''IBM API Key Id not found'' None))"
  by (simp add: NewProvider_def)

lemma no_environment:
  assumes "os_Getenv (se_os se) = (\<lambda>_. [])"
  shows "getIBMIAMCredentials se user =
    (let cg = Some (iam_Config se user);
         iam = (\<lambda>provider rest. case provider of
             None \<Rightarrow> None
           | Some p \<Rightarrow> if Iam_IsValid p then Some (Some (IamCreds (NewCredentials p))) else rest)
     in iam (NewSharedCredentialsProvider (se_pnum se) (se_iam se) (se_os se) cg [] [])
          (iam (NewSharedConfigProvider (se_pnum se) (se_iam se) (se_os se) cg [] []) (Some None)))"
  using assms
  by (simp add: getIBMIAMCredentials_def NewEnvProvider_def Env_invalid failed_provider_def Iam_IsValid_def Let_def
      NewEnvProviderTrustedProfile_def NewTrustedProfileProviderWithConfig_def Trusted_IsValid_def)

lemma ibm_keys_of_default:
  assumes "os_Getenv (se_os se) = (\<lambda>_. [])" and "os_UserHomeDir (se_os se) \<noteq> []" and "file_ok f"
    and "os_Open (se_os se) (os_SharedCredentialsFilename (se_os se)) = Inr (Inr (file_bytes f))"
    and "map_of (rev f) (str_Runes ''default'') = Some es" and "entry_str es ''ibm_api_key_id'' \<noteq> []"
  shows "getIBMIAMCredentials se user = map_option (\<lambda>p. Some (IamCreds (NewCredentials p)))
    (NewProvider (se_iam se) SharedCredsProviderNameIBM (Some (iam_Config se user)) (entry_str es ''ibm_api_key_id'')
      (entry_str es ''ibm_auth_endpoint'') (entry_str es ''ibm_service_instance_id'') None)"
proof -
  have "(str_Runes ''default'', es) \<in> set f" using map_of_SomeD [OF assms(5)] by simp
  then have es: "entries_ok es" using assms(3) by (auto simp: file_ok_def section_ok_def entries_ok_def)
  have t: "file_sections f (str_Runes ''default'') = Some (entries_section es)"
    using assms(5) by (simp add: file_sections_def map_of_rev_map)
  let ?p = "NewProvider (se_iam se) SharedCredsProviderNameIBM (Some (iam_Config se user)) (entry_str es ''ibm_api_key_id'')
      (entry_str es ''ibm_auth_endpoint'') (entry_str es ''ibm_service_instance_id'') None"
  have s: "NewSharedCredentialsProvider (se_pnum se) (se_iam se) (se_os se) (Some (iam_Config se user)) [] [] = ?p"
    using assms(1-4) t
    by (simp add: NewSharedCredentialsProvider_def commonIniProvider_def ini_OpenFile_def ParseBytes_file GetSection_def
        defaultProfile_def entry_String [OF es])
  obtain p where p: "?p = Some p" using NewProvider_Some by blast
  from NewProvider_valid [OF assms(6) p] show ?thesis
    by (simp add: no_environment [OF assms(1)] s p)
qed

text \<open>A process without a home directory has no such keys.\<close>

lemma no_ibm_keys:
  assumes "os_Getenv (se_os se) = (\<lambda>_. [])" and "os_UserHomeDir (se_os se) = []"
  shows "getIBMIAMCredentials se user = Some None"
  using assms by (simp add: no_environment NewSharedCredentialsProvider_def NewSharedConfigProvider_def failed_provider_def
      Iam_IsValid_def Let_def)

text \<open>The keys of the source profile are used as they are.\<close>

lemma keys_of_the_source:
  assumes "newSession se opts env [Some user] w = Some (Inr s, w')" and "ac_Credentials user = None"
    and "getIBMIAMCredentials se user = Some None" and "op_Profile opts = profile" and "profile \<noteq> []"
    and "op_SharedConfigFiles opts = Some [filename]" and "en_Profile env = profile" and "en_EnableSharedConfig env"
    and "file_ok f" and "os_Open (se_os se) filename = Inr (Inr (file_bytes f))" and "links_to f profile src"
    and "profile_entries f src = Some es" and "entry_str es ''s3_us_east_1_regional_endpoint'' = []"
    and "entry_str es ''source_profile'' = []"
    and "entry_str es ''credential_source'' = [] \<or> entry_str es ''credential_process'' = []"
    and "HasKeys (entry_creds filename es)"
  shows "ac_Credentials (ss_Config s) = Some (StaticCreds (NewCredentials (entry_creds filename es)))"
proof -
  from assms(9,10,5,11,12,13,14,15) obtain es0 where "profile_entries f profile = Some es0"
    and c: "loadSharedConfig (se_pnum se) (se_os se) profile [filename] True =
      Some (Inr (SharedConfig (clearCredentialOptions (entry_fields profile filename es0 UnsetS3UsEast1Endpoint))
        (Some (SharedConfig (entry_fields src filename es UnsetS3UsEast1Endpoint) None))))"
    by (rule linked_profile_loads)
  from assms(1) obtain sharedCfg client opts' where m: "session_made se opts env user sharedCfg (ss_Config s)"
    by (rule newSession_made)
  then have "sharedCfg = SharedConfig (clearCredentialOptions (entry_fields profile filename es0 UnsetS3UsEast1Endpoint))
      (Some (SharedConfig (entry_fields src filename es UnsetS3UsEast1Endpoint) None))"
    using c assms(6,7,8) by (simp add: session_made_def shared_loaded_def session_files_def)
  with m assms(2-5,16) show ?thesis
    by (auto simp: session_made_def resolveCredentials_def NewStaticCredentialsFromCreds_def entry_fields_def Let_def)
qed

section \<open>A session that can be made\<close>

lemma open_no_tls: "(\<And>v. filename v = []) \<Longrightarrow> open_tls_files os filename vs opts = Inr opts"
  by (induction vs) simp_all

lemma newSession_succeeds:
  assumes "loadSharedConfig (se_pnum se) (se_os se) (en_Profile env) (session_files opts env) (en_EnableSharedConfig env) = Some (Inr sc)"
    and "(\<exists>c. getIBMIAMCredentials se user = Some (Some c)) \<or>
      getIBMIAMCredentials se user = Some None \<and> (\<exists>c. resolveCredentials user env sc (op_Profile opts) = Inr c)"
    and "\<And>v. tls_filename env (sc_fields sc) v = []" and "\<And>client. fst (apply_tls se client opts w) = None"
  shows "\<exists>s client. newSession se opts env [Some user] w = Some (Inr s, snd (apply_tls se client opts w))"
proof -
  let ?cfg = "mergeInConfig (defaults_Config se) (Some user)"
  let ?c = "mergeS3UsEast1RegionalEndpointConfig (merge_discovery env (sc_fields sc) (merge_region env (sc_fields sc) ?cfg))
           [ac_S3UsEast1RegionalEndpoint user, en_S3UsEast1RegionalEndpoint env, sc_S3UsEast1RegionalEndpoint (sc_fields sc),
            LegacyS3UsEast1Endpoint]"
  have v: "resolveCredentials ?c env sc (op_Profile opts) = resolveCredentials user env sc (op_Profile opts)"
    unfolding resolveCredentials_def source_fields by (simp add: merge_simps defaults_fields)
  have "\<exists>c. merge_credentials se user env sc (op_Profile opts) ?c = Some (Inr c)"
    using assms(2) v by (auto simp: merge_credentials_def)
  then obtain cfg where m: "mergeConfigSrcs se ?cfg user env sc (op_Profile opts) = Some (Inr cfg)"
    by (auto simp: mergeConfigSrcs_def Let_def MergeIn_simps mergeIn_again
        simp del: mergeS3UsEast1RegionalEndpointConfig.simps merge_dual_stack.simps)
  obtain client where "ac_HTTPClient cfg = Some client"
    using merged_HTTPClient [OF m] defaults_HTTPClient [of se user] by (auto simp: mergeIn_again)
  moreover obtain w' where "apply_tls se client opts w = (None, w')"
    using assms(4) [of client] by (cases "apply_tls se client opts w") simp
  ultimately show ?thesis using m assms(1,3)
    by (intro exI [of _ "initHandlers se _"] exI [of _ client])
      (simp add: newSession_def Let_def MergeIn_simps mergeIn_unit setTLSOptions_def open_no_tls)
qed

end
