(* ===== verification/Spec2Isabelle.thy ===== *)
theory Spec2Isabelle
  imports EventStreamMessage IniRoundtrip AwsSend AwsWaiter AwsPagination S3DownloadRuns S3UploadRuns IamProviders V4Verify S3Pool S3Batch S3CryptoRuns AwsSessionMade
begin

text \<open>
  A model of the core of ibm-cos-sdk-go, the Go SDK of IBM Cloud Object Storage, with the theorems that make it
  correct. This theory holds the properties that are claimed of the program; the theories it imports hold the model
  and the lemmas. All paths are below \<open>src\<close>.

  \<^bold>\<open>The program.\<close> A service client makes a request from an operation and its input. The request
  (\<open>aws/request\<close>) runs lists of handlers: validate, build, sign, send, unmarshal, retry. The sign handler
  takes credentials from a provider (\<open>aws/credentials\<close>), either keys for a signature of version 4
  (\<open>aws/signer/v4\<close>) or a bearer token that the token manager of IBM IAM keeps fresh
  (\<open>aws/credentials/ibmiam\<close>). After a failure the retryer (\<open>aws/client\<close>) classifies the error
  (\<open>aws/awserr\<close>, \<open>aws/request/retryer.go\<close>) and gives the delay. On top of requests are waiters and
  pagination, the transfer managers, which cut objects into parts and move the parts from several goroutines
  (\<open>service/s3/s3manager\<close>), and the client that encrypts objects (\<open>service/s3/s3crypto\<close>). A session
  (\<open>aws/session\<close>) merges the environment, the configuration files and the options of the user into the
  configuration, credentials and handlers that clients are made with. Below them are
  the reader of configuration files (\<open>internal/ini\<close>) and the event stream protocol
  (\<open>private/protocol/eventstream\<close>).

  \<^bold>\<open>Conventions.\<close> A Go struct is a record with a prefix for its fields, an enumeration or a closed
  interface a datatype. \<open>string\<close> is a list of bytes as characters, \<open>byte\<close> is \<open>8 word\<close>, fixed
  widths are words, \<open>int\<close> and \<open>int64\<close> are integers, wrapped (\<open>wrap64\<close>) where they can
  overflow. An error is a value of \<open>goerror\<close>; a function that fails returns a sum, its error on the left. A
  result \<open>None\<close> is a panic, or a loop that does not return where the text of the function says so. A pointer
  that may be nil is an option. Effects outside the program (the network, KMS, the clock, random numbers, files) are
  parameters, threaded through a world \<open>'w\<close> or given as functions in a record. Goroutines are an inductive step
  relation whose runs are all interleavings of their critical sections and channel operations.

  \<^bold>\<open>The theories.\<close>
  \<^item> \<open>GoPrelude\<close>: bytes, words, CRC-32, readers and writers as a monad of actions. \<open>GoHttp\<close>: headers
    and values of \<open>net/http\<close> and \<open>net/url\<close>, escaping, base64.
  \<^item> \<open>EventStreamHeader\<close>, \<open>EventStreamMessage\<close>: \<open>private/protocol/eventstream\<close>. The lemmas show what
    an encoder emits, that the decoder reads it back from any split of the stream, that it accepts nothing but frames,
    and that a change of one byte is found by a checksum (CRC-32 is shown injective in each byte).
  \<^item> \<open>IniLexer\<close>, \<open>IniParser\<close>, \<open>IniVisitor\<close>, \<open>IniRoundtrip\<close>: \<open>internal/ini\<close>. Lexer and
    parser are shown total with their bounds, the parse stack to hold one entry, and a written file to be read back.
  \<^item> \<open>AwsErrors\<close>: errors and their classification. \<open>AwsHandlers\<close>: handler lists. \<open>AwsBody\<close>: bodies
    with a position. \<open>AwsRequest\<close>: the life of a request and the core handlers. \<open>AwsRetryer\<close>: delays.
    \<open>AwsSend\<close>: the send loop with the default handlers, how often it sends and what. \<open>AwsWaiter\<close>,
    \<open>AwsPagination\<close>: the two loops on top.
  \<^item> \<open>S3Download\<close>, \<open>S3DownloadRuns\<close>: \<open>download.go\<close>. The invariant of all goroutines together gives
    that a finished download holds the object; progress and a measure give that every run ends.
    \<open>S3Upload\<close>, \<open>S3UploadRuns\<close>: the same for \<open>upload.go\<close>. \<open>AwsArn\<close>: resource names.
    \<open>S3Pool\<close>: the pool of buffers, which refines a counting semaphore. \<open>S3Batch\<close>: batched deletes, equal to
    the deletion of the batches of a simple function.
  \<^item> \<open>IamClient\<close>, \<open>IamTokenManager\<close>, \<open>IamTokenRuns\<close>, \<open>Credentials\<close>, \<open>IamProviders\<close>: the
    token of IBM IAM, from the request for it to the header it signs, and the other providers of credentials.
  \<^item> \<open>V4Signer\<close>, \<open>V4Spaces\<close>, \<open>V4Order\<close>, \<open>V4Verify\<close>: the signature of version 4. It is
    independent of the order of Go's maps, and it is the one that a receiver computes from the signed request.
  \<^item> \<open>S3Cipher\<close>, \<open>S3CipherRuns\<close>, \<open>S3Crypto\<close>, \<open>S3CryptoClient\<close>, \<open>S3CryptoRuns\<close>: the
    encryption client, from the padding and the readers of blocks to the handlers of put and get, with the key
    service between.
  \<^item> \<open>AwsConfig\<close>: \<open>aws/config.go\<close>, whose merge is shown to be a monoid, and the flags of
    \<open>aws/endpoints\<close>. \<open>AwsSharedConfig\<close>: what a session reads, \<open>env_config.go\<close> and
    \<open>shared_config.go\<close>. \<open>AwsSession\<close>: \<open>session.go\<close> and \<open>credentials.go\<close>, with a store for the HTTP
    clients and transports a session changes in place. \<open>AwsSessionRuns\<close>: when loading a profile returns, and what
    it takes from a written file. \<open>AwsSessionMade\<close>: where the region, the keys and the certificates of a session
    come from, and what every session and its copies keep.

  \<^bold>\<open>Interfaces\<close> are locales, each interpreted on the model's own definitions in the theory of its
  provider: among them the source of parts of an upload, the providers of credentials and the source of objects of a
  batched delete.

  \<^bold>\<open>Bounds and fuel.\<close> The loops of the lexer, the decoder and the readers of parts end because what is left of
  their input shrinks, which is the measure of their termination. The send loop, the loop of a waiter and the loop over
  pages run on fuel: one pass per retry left and one more, the attempts of the waiter, and the pages of the server, are
  shown to be enough. Loops that may go on for ever, the read loops of a stream, the fetch loop of the token manager,
  the loop of a batched delete, the recursion of the retryer on the original error and the chain of source profiles, are partial functions, and where
  they are claimed to end the claim says \<open>Some\<close>.

  \<^bold>\<open>Parameters and their hypotheses.\<close> SHA-256, HMAC, AES and the authenticated cipher, JSON, \<open>strconv\<close>
  for floats, the formats of a time, the transport, the storage and the key service. The hypotheses that a property
  makes of them are in its statement: a block cipher permutes blocks, \<open>Open\<close> undoes \<open>Seal\<close>, a decoder of
  JSON reads what the encoder wrote, the key service decrypts the key it made under the same context, the storage
  returns what it was given.

  \<^bold>\<open>Not modelled.\<close> The generated clients (\<open>service/s3/api.go\<close>, \<open>service/kms\<close>), the tables of
  endpoints and the generators that write them; the code that is reflection over the types of such clients
  (\<open>private/protocol\<close> without the event stream, \<open>aws/awsutil\<close>, \<open>aws/request/validation.go\<close>);
  the instance metadata client, the providers that run a process, load a
  plugin or ask an endpoint, which are mostly input and output around the parts above; logging, metrics, examples,
  tests. The components of the manifest name them with the reasons, and what is left out of the parts that are
  modelled. Memory is by value: where a claim depends on two slices that share an array, the lemma says so
  (\<open>string_value_not_idempotent\<close>).
\<close>

section \<open>Samples and further facts\<close>

definition sampleMessage :: Message where
  "sampleMessage = \<lparr>msg_Headers = [\<lparr>hdr_Name = ''a'', hdr_Value = BoolValue True\<rparr>], msg_Payload = [1, 2]\<rparr>"

lemma sampleMessage_wire: "headers_wire (msg_Headers sampleMessage) = [1, char_byte CHR ''a'', 0]"
  by (simp add: sampleMessage_def headers_wire_def header_wire_def name_wire_def value_wire_def str_bytes_def
      trueValueType_def)

lemma sampleMessage_ok: "message_ok sampleMessage"
  using sampleMessage_wire
  by (simp add: message_ok_def frame_fits_def message_consts)
    (simp add: sampleMessage_def header_exact_def maxHeaderNameLen_def)

text \<open>A request with a body of three bytes, used by the witnesses.\<close>

definition sample_request :: "nat Request" where
  "sample_request = \<lparr>rq_Error = None, rq_Retryable = None, rq_RetryCount = 0, rq_RetryDelay = 0, rq_HTTPResponse = None,
     rq_built = False, rq_Body = \<lparr>bd_wrapped = False, bd_isSeeker = True, bd_hasLen = True, bd_seekErr = None,
       bd_data = [1, 2, 3], bd_pos = 3\<rparr>, rq_BodyStart = 1, rq_hasStreaming = False, rq_safeBody = None,
     rq_httpBody = BodyNil, rq_ContentLength = 0, rq_hdrContentLength = [], rq_Host = [], rq_URLHost = ''cos'',
     rq_URLScheme = ''https'', rq_HTTPMethod = ''PUT'', rq_RetryErrorCodes = [], rq_ThrottleErrorCodes = [],
     rq_EnforceShouldRetryCheck = False, rq_world = 0\<rparr>"

definition stopped_handlers :: "string HandlerList" where
  "stopped_handlers = \<lparr>hl_list = [\<lparr>nh_Name = ''a'', nh_Fn = (\<lambda>s. s @ ''x'')\<rparr>, \<lparr>nh_Name = ''b'', nh_Fn = (\<lambda>s. s @ ''y'')\<rparr>],
     hl_AfterEachFn = Some (HandlerListStopOnError (\<lambda>s. if s = ''x'' then Some (PlainError s) else None))\<rparr>"

definition sample_waiter :: "int \<Rightarrow> (nat, nat) Waiter" where
  "sample_waiter n = \<lparr>wt_Acceptors = [\<lparr>wa_State = SuccessWaiterState, wa_Matcher = StatusWaiterMatch, wa_Argument = [],
       wa_Expected = ExpInt 200\<rparr>], wt_MaxAttempts = n, wt_Delay = ConstantWaiterDelay 1, wt_NewRequest = (\<lambda>w. (None, w)),
     wt_Send = (\<lambda>w. ((None, \<lparr>an_status = (if w = 0 then 200 else 404), an_values = (\<lambda>_. [])\<rparr>), w)),
     wt_Sleep = (\<lambda>_ w. (None, w))\<rparr>"

definition sample_pages :: "(nat, nat) page_client" where
  "sample_pages = \<lparr>cl_NewRequest = (\<lambda>w. (None, w)), cl_Send = (\<lambda>params w. (Inr (if params = [] then 1 else 2), w)),
     cl_Paginator = Some \<lparr>pg_InputTokens = [''Marker''], pg_OutputTokens = [''NextMarker''], pg_TruncationToken = []\<rparr>,
     cl_values_at = (\<lambda>d path. if d = 1 then [TString ''m''] else [])\<rparr>"

text \<open>A credentials provider with one cached token, and environments, used by the witnesses.\<close>

definition sample_os :: "(string \<Rightarrow> string) \<Rightarrow> byte list \<Rightarrow> os" where
  "sample_os env file = \<lparr>os_Getenv = env, os_UserHomeDir = ''home'', os_SharedCredentialsFilename = ''credentials'',
     os_SharedConfigFilename = ''config'', os_Open = (\<lambda>_. Inr (Inr file))\<rparr>"

definition sample_iam :: "nat IamProvider" where
  "sample_iam = \<lparr>ip_providerName = ''P'', ip_providerType = ''oauth'', ip_tokenManager = Some (token_config 60, cached_until 60),
     ip_serviceInstanceID = ''S'', ip_ErrorStatus = None\<rparr>"









text \<open>A pool with one slice to allocate and a goroutine about to take it; objects and their client; a listing
  whose first page is empty; a cipher that changes nothing.\<close>

lemma pool_ready: "pool_reaches 1 (one_system [] 1 0 [(GetSecond, False)] 0 [])"
proof -
  have "pool_step (pool_start 1) (one_system [] 1 0 [] 0 [])"
    using pool_step.modify [of "pool_start 1" 1 "one_pool [] 1 0"]
    by (simp add: pool_start_def read_locked_def ModifyCapacity_def newMaxSlicePool_def make_chan_def chan_len_def one_system_def one_pool_def Let_def)
  from one_step [OF pool_reaches.start this] have "pool_reaches 1 (one_system [] 1 0 [] 0 [])"
    by (simp add: pool_start_def newMaxSlicePool_def)
  from one_calls [OF this] have "pool_reaches 1 (one_system [] 1 0 [(GetLocks, False)] 0 [])" by simp
  then have "pool_reaches 1 (one_system [] 1 0 [(GetFirst, False)] 0 [])"
    by (rule one_phase) (use pool_step.get_lock [of 0 False "one_system [] 1 0 [(GetLocks, False)] 0 []"] in \<open>simp add: one_defs\<close>)
  then show ?thesis
    by (rule one_phase) (use pool_step.get_first_default [of 0 "one_system [] 1 0 [(GetFirst, False)] 0 []"] in \<open>simp add: one_defs\<close>)
qed

lemma pool_takes: "pool_step (one_system [] 1 0 [(GetSecond, False)] 0 []) (one_system [] 0 0 [(GetReturns (Inr [0]), False)] 0 [[0]])"
  using pool_step.get_allocation [of 0 False "one_system [] 1 0 [(GetSecond, False)] 0 []" "()"] by (simp add: one_defs)

lemma pool_taken: "pool_reaches 1 (one_system [] 0 0 [(GetReturns (Inr [0]), False)] 0 [[0]])"
  by (rule one_phase [OF pool_ready pool_takes])


definition sample_object :: "string \<Rightarrow> string \<Rightarrow> nat BatchDeleteObject" where
  "sample_object bucket key = \<lparr>bo_Object = \<lparr>di_Bucket = Some bucket, di_Key = Some key, di_MFA = None, di_RequestPayer = None,
     di_VersionId = None\<rparr>, bo_After = None\<rparr>"

definition sample_deletes :: "nat BatchDelete" where
  "sample_deletes = \<lparr>bd_DeleteObjects = (\<lambda>_ w. (Inr [], Suc w)), bd_BatchSize = 2\<rparr>"

definition empty_page :: "(string option list, nat) page_client" where
  "empty_page = \<lparr>cl_NewRequest = (\<lambda>w. (None, w)), cl_Send = (\<lambda>params w. (Inr (if params = [] then [] else [Some ''k'']), w)),
     cl_Paginator = Some \<lparr>pg_InputTokens = [''Marker''], pg_OutputTokens = [''NextMarker''], pg_TruncationToken = []\<rparr>,
     cl_values_at = (\<lambda>d path. if d = [] then [TString ''m''] else [])\<rparr>"

definition no_cipher :: crypto where
  "no_cipher = \<lparr>cy_encrypt = (\<lambda>_ b. b), cy_decrypt = (\<lambda>_ b. b), cy_aead = (\<lambda>_. \<lparr>ae_Seal = (\<lambda>_ b. b), ae_Open = (\<lambda>_ b. Inr b)\<rparr>)\<rparr>"

text \<open>An encryption client: a key service with one key, a JSON of one description, and a storage that returns
  the headers of \<open>sample_meta\<close>.\<close>

definition sample_ctx :: MaterialDescription where
  "sample_ctx = Map.empty(kmsAWSCEKContextKey \<mapsto> Some AESGCMNoPadding)"

definition sample_env :: "unit crypto_env" where
  "sample_env = \<lparr>ce_crypto = no_cipher, ce_rand = (\<lambda>n w. (Inr (replicate n 7), w)), ce_sha256 = (\<lambda>_. []),
     ce_json_encode = (\<lambda>m. if m = sample_ctx then Inr ''{}'' else Inl (PlainError ''json'')), ce_json_decode = (\<lambda>s. Inr (Some sample_ctx)),
     ce_json_envelope = (\<lambda>_. Inl (PlainError ''json'')), ce_json_lax = (\<lambda>_. Inl (PlainError ''json'')),
     ce_json_string = (\<lambda>_. Inl (PlainError ''json'')), ce_json_int64 = (\<lambda>_. Inl (PlainError ''json''))\<rparr>"

definition sample_kms :: "unit kms_client" where
  "sample_kms = \<lparr>km_GenerateDataKey = (\<lambda>_ _ _ w. (Inr (replicate 32 1, [9]), w)), km_Decrypt = (\<lambda>_ _ _ w. (Inr (replicate 32 1), w))\<rparr>"



definition sample_envelope :: Envelope where
  "sample_envelope = zero_Envelope\<lparr>en_CipherKey := Base64_EncodeToString [9], en_IV := Base64_EncodeToString (replicate 12 7), en_MatDesc := ''{}'',
     en_WrapAlg := KMSContextWrap, en_CEKAlg := AESGCMNoPadding, en_TagLen := ''128'', en_UnencryptedContentLen := int_digits 3\<rparr>"








definition kms_env :: "unit crypto_env" where
  "kms_env = sample_env\<lparr>ce_json_decode := (\<lambda>s. Inr (Some (Map.empty(''kms_cmk_id'' \<mapsto> None))))\<rparr>"

lemma kms_sample_opens:
  "contentCipherFromEnvelope (v1_registry kms_env sample_kms) (sample_envelope\<lparr>en_WrapAlg := KMSWrap\<rparr>) () = Some (Inr (GCMContentCipher (zero_CipherData\<lparr>cd_Key := replicate 32 1,
     cd_IV := replicate 12 7, cd_CEKAlgorithm := AESGCMNoPadding, cd_Padder := Some NoPadder, cd_TagLength := ''128''\<rparr>)), ())"
proof -
  have "NewKMSWrapEntry kms_env sample_kms (sample_envelope\<lparr>en_WrapAlg := KMSWrap\<rparr>) = Inr (km_Decrypt sample_kms None (Map.empty(''kms_cmk_id'' \<mapsto> None)))"
    unfolding NewKMSWrapEntry_def by (subst kms_opens) (simp_all add: kms_env_def newKMSWrapEntry_def)
  moreover have "after_last_slash AESGCMNoPadding = ''NoPadding''" by (simp add: after_last_slash_def AESGCMNoPadding_def)
  ultimately show ?thesis
    by (simp add: contentCipherFromEnvelope_def wrapFromEnvelope_def cekFromEnvelope_def v1_registry_def initCryptoRegistryFrom_def GetWrap_def GetCEK_def
        GetPadder_def getPadder_def entry_get_def sample_envelope_def sample_kms_def newAESGCMContentCipher_def newAESGCM_def
        aes_NewCipher_def zero_CipherData_def AESGCMNoPadding_def AESCBC_def NoPadder_def)
qed

text \<open>The environment of a process without variables, files and options of sessions, used by the witnesses.\<close>

definition sample_session :: "string \<Rightarrow> ini_file \<Rightarrow> (nat, nat, nat, nat) session_env" where
  "sample_session home f = \<lparr>se_pnum = (\<lambda>_ _ _. NumOk), se_os = (sample_os (\<lambda>_. []) (file_bytes f))\<lparr>os_UserHomeDir := home\<rparr>,
     se_iam = \<lparr>ie_DefaultClient = (\<lambda>_ w. (Inl (PlainError []), [], w)), ie_Sleep = (\<lambda>_ w. w), ie_DefaultAdvisory = (\<lambda>t. t),
       ie_DefaultMandatory = (\<lambda>t. t), ie_timeNow = (\<lambda>w. (0, w)), ie_parseURL = (\<lambda>_. None),
       ie_unmarshal = (\<lambda>_. Inl (PlainError [])), ie_unmarshalError = (\<lambda>_. Inl (PlainError [])), ie_world = 0\<rparr>,
     se_core = \<lparr>co_BuildContainer = (\<lambda>_ _ _. Inr 0), co_BuildAssumeName = (\<lambda>_ _ _. Inr 0), co_BuildAssumeID = (\<lambda>_ _. Inr 0),
       co_GetToken = (\<lambda>a. (Inr ''T'', a))\<rparr>,
     se_client = (\<lambda>_ _ w. (Inl (PlainError []), [], w)), se_Handlers = emptyHandlers, se_validate = (\<lambda>r. r),
     se_ClientEndpoint = (\<lambda>_. []), se_setError = (\<lambda>_ r. r), se_Logger = 0, se_Resolver = (\<lambda>_ _ _. Inr zero_ResolvedEndpoint),
     se_AppendCertsFromPEM = (\<lambda>b. b \<noteq> []), se_X509KeyPair = (\<lambda>_ _. None), se_range = [FieldCABundle, FieldClientCert, FieldClientKey]\<rparr>"

definition sample_options :: "string \<Rightarrow> (nat, nat, nat, nat) Options" where
  "sample_options profile = zero_Options\<lparr>op_Profile := profile, op_SharedConfigState := SharedConfigEnable,
     op_SharedConfigFiles := Some [''config'']\<rparr>"

definition sample_clients :: http_world where
  "sample_clients = \<lparr>hw_Transport = (\<lambda>_. NilTransport), hw_TLSClientConfig = (\<lambda>_. None), hw_tls = (\<lambda>_. \<lparr>tl_RootCAs = None, tl_Certificates = []\<rparr>), hw_next = 1\<rparr>"

definition self_profile_file :: ini_file where
  "self_profile_file = [(runes ''p'', [(runes ''source_profile'', runes ''p'')])]"

definition role_file :: ini_file where
  "role_file = [(runes ''dev'', [(runes ''role_arn'', runes ''R''), (runes ''source_profile'', runes ''base'')]),
     (runes ''base'', [(runes ''aws_access_key_id'', runes ''AK''), (runes ''aws_secret_access_key'', runes ''SK'')])]"

definition ibm_file :: ini_file where
  "ibm_file = [(runes ''default'', [(runes ''ibm_api_key_id'', runes ''K'')]), (runes ''dev'', [(runes ''ibm_api_key_id'', runes ''L'')])]"

lemmas ini_file_defs = self_profile_file_def role_file_def ibm_file_def file_ok_def section_ok_def name_ok_def key_ok_def value_ok_def
  text_rune_def lit_rune_def runes_def

lemma sample_files_ok: "file_ok self_profile_file" "file_ok role_file" "file_ok ibm_file"
  by (simp_all add: ini_file_defs)

lemma sample_entries:
  "profile_entries self_profile_file ''p'' = Some [(runes ''source_profile'', runes ''p'')]"
  "profile_entries role_file ''dev'' = Some [(runes ''role_arn'', runes ''R''), (runes ''source_profile'', runes ''base'')]"
  "profile_entries role_file ''base'' = Some [(runes ''aws_access_key_id'', runes ''AK''), (runes ''aws_secret_access_key'', runes ''SK'')]"
  "profile_entries ibm_file ''dev'' = Some [(runes ''ibm_api_key_id'', runes ''L'')]"
  "map_of (rev ibm_file) (str_Runes ''default'') = Some [(runes ''ibm_api_key_id'', runes ''K'')]"
  by code_simp+

lemma sample_links: "links_to self_profile_file ''p'' ''p''" "links_to role_file ''dev'' ''base''"
  by (simp_all add: links_to_def sample_entries) code_simp+

lemma sample_open: "os_Open (se_os (sample_session home f)) x = Inr (Inr (file_bytes f))"
  "os_Getenv (se_os (sample_session home f)) = (\<lambda>_. [])" "os_UserHomeDir (se_os (sample_session home f)) = home"
  by (simp_all add: sample_session_def sample_os_def)

lemma sample_strings:
  "entry_str [(runes ''ibm_api_key_id'', runes ''K'')] ''ibm_api_key_id'' \<noteq> []"
  "entry_str [(runes ''ibm_api_key_id'', runes ''L'')] ''s3_us_east_1_regional_endpoint'' = []"
  "entry_str [(runes ''ibm_api_key_id'', runes ''L'')] ''source_profile'' = []"
  "entry_str [(runes ''ibm_api_key_id'', runes ''L'')] ''credential_source'' = []"
  "entry_str [(runes ''ibm_api_key_id'', runes ''L'')] ''ca_bundle'' = []"
  "entry_str [(runes ''role_arn'', runes ''R''), (runes ''source_profile'', runes ''base'')] ''ca_bundle'' = []"
  "entry_str [(runes ''aws_access_key_id'', runes ''AK''), (runes ''aws_secret_access_key'', runes ''SK'')] ''s3_us_east_1_regional_endpoint'' = []"
  "entry_str [(runes ''aws_access_key_id'', runes ''AK''), (runes ''aws_secret_access_key'', runes ''SK'')] ''source_profile'' = []"
  "entry_str [(runes ''aws_access_key_id'', runes ''AK''), (runes ''aws_secret_access_key'', runes ''SK'')] ''credential_source'' = []"
  "entry_str [(runes ''aws_access_key_id'', runes ''AK''), (runes ''aws_secret_access_key'', runes ''SK'')] ''aws_access_key_id'' \<noteq> []"
  "entry_str [(runes ''aws_access_key_id'', runes ''AK''), (runes ''aws_secret_access_key'', runes ''SK'')] ''aws_secret_access_key'' \<noteq> []"
  by code_simp+

text \<open>Without variables the environment adds nothing to a session.\<close>

lemma empty_setFromEnvVal: "os_Getenv os = (\<lambda>_. []) \<Longrightarrow> setFromEnvVal os dst keys = dst"
  by (induction keys) (simp_all add: Let_def)

lemma empty_load_regional: "os_Getenv os = (\<lambda>_. []) \<Longrightarrow> load_regional os keys cfg = Inr cfg"
  by (induction keys) (simp_all add: Let_def)

lemma sample_env_load:
  "\<exists>env. loadSharedEnvConfig (se_os (sample_session home f)) = Inr env \<and> en_CustomCABundle env = [] \<and> en_ClientTLSCert env = [] \<and>
    en_ClientTLSKey env = []"
  by (simp add: loadSharedEnvConfig_def envConfigLoad_def Let_def empty_setFromEnvVal empty_load_regional sample_open zero_envConfig_def)

text \<open>So the sample options make a session when the profile loads and there are keys.\<close>

lemma sample_session_succeeds:
  assumes "profile \<noteq> []" and "loadSharedConfig (\<lambda>_ _ _. NumOk) (se_os (sample_session home f)) profile [''config''] True = Some (Inr sc)"
    and "sc_CustomCABundle (sc_fields sc) = []"
    and "(\<exists>c. getIBMIAMCredentials (sample_session home f) NewConfig = Some (Some c)) \<or>
      getIBMIAMCredentials (sample_session home f) NewConfig = Some None \<and>
      (\<forall>env. \<exists>c. resolveCredentials (NewConfig :: (nat, nat, nat) session_Config) env sc profile = Inr c)"
    and "opts = (sample_options profile)\<lparr>op_CustomCABundle := b\<rparr>"
    and "\<And>client. fst (apply_tls (sample_session home f) client opts w) = None"
  shows "\<exists>s client. NewSessionWithOptions (sample_session home f) opts w =
    Some (Inr s, snd (apply_tls (sample_session home f) client opts w))"
proof -
  obtain env where env: "loadSharedEnvConfig (se_os (sample_session home f)) = Inr env" "en_CustomCABundle env = []"
    "en_ClientTLSCert env = []" "en_ClientTLSKey env = []" using sample_env_load by blast
  let ?e = "env\<lparr>en_Profile := profile, en_EnableSharedConfig := True\<rparr>"
  have pn: "se_pnum (sample_session home f) = (\<lambda>_ _ _. NumOk)" by (simp add: sample_session_def)
  have "\<exists>s client. newSession (sample_session home f) opts ?e [Some NewConfig] w =
      Some (Inr s, snd (apply_tls (sample_session home f) client opts w))"
  proof (rule newSession_succeeds [where sc = sc])
    show "loadSharedConfig (se_pnum (sample_session home f)) (se_os (sample_session home f)) (en_Profile ?e)
        (session_files opts ?e) (en_EnableSharedConfig ?e) = Some (Inr sc)"
      using assms(2) by (simp add: pn session_files_def sample_options_def assms(5))
    show "(\<exists>c. getIBMIAMCredentials (sample_session home f) NewConfig = Some (Some c)) \<or>
        getIBMIAMCredentials (sample_session home f) NewConfig = Some None \<and>
        (\<exists>c. resolveCredentials (NewConfig :: (nat, nat, nat) session_Config) ?e sc (op_Profile opts) = Inr c)"
      using assms(4) by (auto simp: sample_options_def assms(5))
    show "tls_filename ?e (sc_fields sc) v = []" for v
      using env assms(3) by (simp add: tls_filename_def split: tls_field.split)
  qed (rule assms(6))
  moreover have "op_Config opts = NewConfig" "op_Profile opts = profile" "op_SharedConfigState opts = SharedConfigEnable"
    by (simp_all add: assms(5) sample_options_def zero_Options_def)
  ultimately show ?thesis using env(1) assms(1) by (simp add: NewSessionWithOptions_def Let_def)
qed

lemma sample_no_tls: "apply_tls se client (sample_options profile) w = (None, w)"
  by (simp add: apply_tls_def sample_options_def zero_Options_def)

lemma sample_tls: "fst (apply_tls (sample_session home f) client ((sample_options profile)\<lparr>op_CustomCABundle := Some (Inr [1])\<rparr>) sample_clients) = None"
  by (simp add: apply_tls_def sample_options_def zero_Options_def loadCustomCABundle_def getHTTPTransport_def sample_clients_def
      loadCertPool_def tls_of_def sample_session_def Let_def)

lemma role_session_succeeds_with:
  assumes "opts = (sample_options ''dev'')\<lparr>op_CustomCABundle := b\<rparr>"
    and "\<And>client. fst (apply_tls (sample_session [] role_file) client opts w) = None"
  shows "\<exists>s client. NewSessionWithOptions (sample_session [] role_file) opts w =
    Some (Inr s, snd (apply_tls (sample_session [] role_file) client opts w))"
proof -
  let ?es = "[(runes ''aws_access_key_id'', runes ''AK''), (runes ''aws_secret_access_key'', runes ''SK'')]"
  let ?os = "se_os (sample_session [] role_file)"
  let ?src = "SharedConfig (entry_fields ''base'' ''config'' ?es UnsetS3UsEast1Endpoint) None"
  obtain es0 where es0: "profile_entries role_file ''dev'' = Some es0"
    and c: "loadSharedConfig (\<lambda>_ _ _. NumOk) ?os ''dev'' [''config''] True =
      Some (Inr (SharedConfig (clearCredentialOptions (entry_fields ''dev'' ''config'' es0 UnsetS3UsEast1Endpoint)) (Some ?src)))"
    by (rule linked_profile_loads [OF sample_files_ok(2) _ _ sample_links(2) sample_entries(3), of ?os "''config''" "\<lambda>_ _ _. NumOk"])
      (simp_all add: sample_open sample_strings)
  have "es0 = [(runes ''role_arn'', runes ''R''), (runes ''source_profile'', runes ''base'')]" using es0 sample_entries(2) by simp
  then have b: "entry_str es0 ''ca_bundle'' = []" by (simp only: sample_strings)
  show ?thesis
  proof (rule sample_session_succeeds [OF _ c _ _ assms])
    show "(\<exists>c. getIBMIAMCredentials (sample_session [] role_file) NewConfig = Some (Some c)) \<or>
      getIBMIAMCredentials (sample_session [] role_file) NewConfig = Some None \<and>
      (\<forall>env. \<exists>c. resolveCredentials (NewConfig :: (nat, nat, nat) session_Config) env
        (SharedConfig (clearCredentialOptions (entry_fields ''dev'' ''config'' es0 UnsetS3UsEast1Endpoint)) (Some ?src)) ''dev'' = Inr c)"
      by (simp add: no_ibm_keys sample_open resolveCredentials_def Let_def entry_fields_def entry_creds_def HasKeys_def
          sample_strings)
  qed (simp_all add: b clearCredentialOptions_def entry_fields_def)
qed

lemma role_session_succeeds:
  "\<exists>s. NewSessionWithOptions (sample_session [] role_file) (sample_options ''dev'') w = Some (Inr s, w)"
proof -
  have "sample_options ''dev'' = (sample_options ''dev'')\<lparr>op_CustomCABundle := None\<rparr>"
    by (simp add: sample_options_def zero_Options_def)
  from role_session_succeeds_with [OF this] show ?thesis by (simp add: sample_no_tls)
qed


text \<open>And with a CA bundle.\<close>

lemma bundle_session_succeeds:
  "\<exists>s w'. NewSessionWithOptions (sample_session [] role_file) ((sample_options ''dev'')\<lparr>op_CustomCABundle := Some (Inr [1])\<rparr>)
    sample_clients = Some (Inr s, w')"
  using role_session_succeeds_with [OF refl sample_tls] by blast


text \<open>A file with a malformed token, such as a quoted string that is not closed, gives an empty list of tokens and no error.\<close>

theorem lexer_swallows_errors:
  assumes "lex_all (bytes_Runes b) = None"
  shows "tokenize b = Inr [] \<and> ParseBytes pnum b = Some (Inr Map.empty)"
  using assms parse_adds_trees [OF adds_trees_Nil]
  by (simp add: tokenize_def tokenize_runes_lex ParseBytes_def ParseASTBytes_def bind_res_def NewDefaultVisitor_def)

text \<open>StringValue of a quoted string rewrites the value it is called on, so reading the same value again can give another string.\<close>

theorem string_value_not_idempotent:
  "\<exists>v s v' s' v''. val_Type v = QuotedStringType \<and> StringValue v = Inr (s, v') \<and>
     StringValue v' = Inr (s', v'') \<and> s \<noteq> s'"
proof -
  let ?v = "\<lparr>val_Type = QuotedStringType, val_raw = [34, 92, 34, 97, 34], val_str = []\<rparr>"
  have "StringValue ?v = Inr ([34, 97], ?v\<lparr>val_raw := [34, 34, 97, 97, 34]\<rparr>)"
    by (simp add: StringValue_def removeEscapedCharacters_def unescape_loop.simps isEscaped_def
        getEscapedByte_def rune_consts Let_def)
  moreover have "StringValue (?v\<lparr>val_raw := [34, 34, 97, 97, 34]\<rparr>) = Inr ([34, 97, 97], ?v\<lparr>val_raw := [34, 34, 97, 97, 34]\<rparr>)"
    by (simp add: StringValue_def removeEscapedCharacters_def unescape_loop.simps isEscaped_def
        getEscapedByte_def rune_consts Let_def)
  ultimately show ?thesis
    by (intro exI [of _ ?v] exI conjI) (simp, assumption, assumption, simp)
qed

text \<open>On headers with a duplicated name Del leaves one of the two behind: its index moves on past the element that slid into the freed place.\<close>

theorem del_keeps_a_duplicate:
  "Headers_Del [\<lparr>hdr_Name = n, hdr_Value = v\<rparr>, \<lparr>hdr_Name = n, hdr_Value = w\<rparr>] n = [\<lparr>hdr_Name = n, hdr_Value = w\<rparr>]"
  by (simp add: Headers_Del_def Headers_Del_loop.simps)

text \<open>A waiter whose MaxAttempts is zero or negative never gives up: as long as requests succeed, no acceptor decides and the sleep is not interrupted, it makes another attempt, however many it has made.\<close>

theorem waiter_without_bound_goes_on:
  assumes "wt_MaxAttempts w \<le> 0" and "wt_NewRequest w world = (None, world)"
    and "wt_Send w world = ((err, req), world)" and "acceptors_loop (wt_Acceptors w) req err = Some None"
    and "\<And>d. wt_Sleep w d world = (None, world)"
  shows "WaitWithContext fuel w world = None"
  unfolding WaitWithContext_def
  by (rule wait_loop_unbounded) (use assms in \<open>simp_all add: wait_pass_def\<close>)

text \<open>A batch error of at least two errors whose first is not an awserr.Error is its own original error: shouldRetryError of it never returns.\<close>

theorem plain_batch_never_classified:
  assumes "Code e1 = None" and "c \<noteq> CanceledErrorCode" and "c \<notin> set validParentCodes"
  shows "IsErrorRetryable (Some (NewBatchError c m (e1 # e2 # es))) = None"
  using shouldRetryError_loops [OF assms] by (simp add: IsErrorRetryable_def)

text \<open>Headers whose names are distinct behave as a map: Set makes Get return the new value for its name and nothing else changes, Del removes exactly its name, Clone is the identity, and Set keeps the names distinct.\<close>

theorem headers_map_laws:
  assumes "distinct (map hdr_Name hs)"
  shows "Headers_Get (Headers_Set hs name v) = (Headers_Get hs)(name \<mapsto> v) \<and>
    Headers_Get (Headers_Del hs name) = (Headers_Get hs)(name := None) \<and>
    Headers_Clone hs = hs \<and> distinct (map hdr_Name (Headers_Set hs name v))"
  using assms by (auto simp: fun_eq_iff Headers_Get_Set Headers_Del_distinct Headers_Get_filter
      Headers_Clone_distinct Headers_Set_distinct)

text \<open>For an IPv6 host with the default port of its scheme SanitizeHostForHeader leaves the bare address, without the brackets a host needs.\<close>

theorem host_header_loses_ipv6_brackets:
  "rq_Host (SanitizeHostForHeader (sample_request\<lparr>rq_URLHost := ''[::1]:443''\<rparr>)) = ''::1''"
  by (simp add: SanitizeHostForHeader_def getHost_def portOnly_def stripPort_def before_def isDefaultPort_def
      sample_request_def char_lower_def Let_def)

text \<open>The classification of an error as retryable returns for every error in which no batch of several errors starts with one that is not an awserr.Error.\<close>

theorem retry_classification_total:
  assumes "\<forall>e. rq_Error r = Some e \<longrightarrow> chain_ok e"
  shows "\<exists>b. ShouldRetry d r = Some b"
  using ShouldRetry_total [OF assms, of d] by auto

text \<open>The Retry-After header of a throttled response is added to the delay without a bound: a value of 9223372037 seconds gives a negative delay, so the request is sent again at once.\<close>

theorem retry_after_wraps_around:
  assumes "throttled ''9223372037'' r" and "0 \<le> rq_RetryCount r" and "NumMaxRetries d \<noteq> 0"
    and "MinThrottleDelay d = 0" and "MaxThrottleDelay d = 0" and rnd: "\<forall>n > 0. 0 \<le> rnd n \<and> rnd n < n"
  shows "\<exists>t. RetryRules rnd d r = Some t \<and> t < 0"
proof -
  have delay: "getRetryAfterDelay r = Some (9223372037000000000 - 2 ^ 64, True)"
    using throttled_delay(2) [OF assms(1) _ parse_seconds] wrap64_minus [of 9223372037000000000] by simp
  have dd: "MinThrottleDelay (setRetryerDefaults d) = 500000000" "MaxThrottleDelay (setRetryerDefaults d) = 300000000000"
    using assms(4,5) by (simp_all add: setRetryerDefaults_def retryer_defaults)
  obtain t where t: "backoff rnd 500000000 300000000000 (rq_RetryCount r) = Some t" "t \<le> 300000000000"
    "min (500000000 * 2 ^ nat (rq_RetryCount r)) (300000000000 sdiv 2) \<le> t"
    using backoff_bounds [of 500000000 300000000000, OF _ _ _ assms(2) rnd] by auto
  have "0 \<le> min (500000000 * 2 ^ nat (rq_RetryCount r)) ((300000000000 :: int) sdiv 2)"
    using half_bounds [of 300000000000] by simp
  with t(3) have "0 \<le> t" by linarith
  with t(2) have "wrap64 (t + (9223372037000000000 - 2 ^ 64)) = t + (9223372037000000000 - 2 ^ 64)"
    by (intro wrap64_id) simp_all
  then show ?thesis
    using t(1,2) assms(3) throttled_delay(1) [OF assms(1) _ parse_seconds] by (simp add: RetryRules_def delay dd Let_def)
qed

text \<open>A body that reads at an offset and does not stand at its start is uploaded from its start, over the number of bytes that were left: the bytes sent are not the ones left in the reader.\<close>

theorem positioned_body_uploads_wrong_bytes:
  "let b = \<lparr>bd_wrapped = False, bd_isSeeker = True, bd_hasLen = True, bd_seekErr = None, bd_data = [1, 2, 3], bd_pos = 1\<rparr>
   in upload \<lparr>ul_cfg = sample_upload_cfg, ul_Bucket = ''b'', ul_Body = ReaderAtSeeker b, ul_readerPos = 0, ul_totalSize = -1\<rparr> =
        SinglePart [1, 2] \<and> unread b = [2, 3]"
  by (simp add: upload_def uploader_init_def validateSupportedARNType_def IsARN_def arnPrefix_def uploader_defaults_def
      initSize_def SeekerLen_def seekerLen_def act_bind_def act_ret_def reader_Seek_def sample_upload_cfg_def
      signed_divide_int_def MinUploadPartSize_def nextReader_def io_EOF_def unread_def Let_def)

text \<open>decodeHeaders never returns two headers of the same name, and it returns only when the reader it was given is used up.\<close>

theorem decoded_headers_distinct:
  assumes "decodeHeaders r = (Inr hs, r')"
  shows "distinct (map hdr_Name hs) \<and> r' = []"
  using decodeHeaders_loop_distinct [of "[]" r hs r'] decodeHeaders_empties [OF assms] assms
  by (simp add: decodeHeaders_def)

text \<open>A prelude that ValidateLens accepts has lengths that add up without 32-bit wrap-around: the payload length it implies is the total less headers and fixed parts, and both parts are within their limits.\<close>

theorem validateLens_no_wrap:
  fixes p :: messagePrelude
  assumes "ValidateLens p = Inr ()"
  shows "unat (Length p) = 16 + unat (HeadersLen p) + unat (PayloadLen p) \<and>
    unat (HeadersLen p) \<le> 131072 \<and> unat (PayloadLen p) \<le> 16777216"
  using ValidateLens_exact [OF assms] by (simp add: message_consts)

text \<open>What runs under a name after the operations on a handler list: SetBackNamed leaves one handler, or as many as there were, all with the new function, and touches no other name; RemoveByName leaves none and touches no other name.\<close>

theorem handler_list_laws:
  "handlers_named name (SetBackNamed n l) =
     (if name = nh_Name n then replicate (max 1 (length (handlers_named name l))) (nh_Fn n) else handlers_named name l) \<and>
   handlers_named name (SetFrontNamed n l) =
     (if name = nh_Name n then replicate (max 1 (length (handlers_named name l))) (nh_Fn n) else handlers_named name l) \<and>
   handlers_named name (RemoveByName name' l) = (if name = name' then [] else handlers_named name l)"
  by (simp add: handlers_named_SetBackNamed handlers_named_SetFrontNamed handlers_named_Remove)

text \<open>The fields rawMessage computes for a message, laid out in order, are byte for byte what Encoder.Encode writes for it.\<close>

theorem rawMessage_is_the_encoding:
  assumes "message_ok m"
  shows "\<exists>raw. Message_rawMessage m = Inr raw \<and>
    Encoder_Encode buffer_write m (NewEncoder []) = (Inr (), (NewEncoder [])\<lparr>enc_w :=
      be32 (Length raw) @ be32 (HeadersLen raw) @ be32 (PreludeCRC raw) @ raw_Headers raw @
      raw_Payload raw @ be32 (raw_CRC raw)\<rparr>)"
proof -
  have "length (headers_wire (msg_Headers m)) < 2 ^ 32" "\<forall>h \<in> set (msg_Headers m). value_encodable (hdr_Value h)"
    using assms value_exact_encodable by (auto simp: message_ok_def frame_fits_def message_consts header_exact_def)
  from rawMessage_frame [OF this] message_ok_encodes [OF assms, of "NewEncoder []"] assms
  show ?thesis by (fastforce simp: NewEncoder_def message_ok_def)
qed

text \<open>On every list of tokens the parser returns, and neither the container of three trees nor the list of finished trees is written or popped out of range.\<close>

theorem parser_stack_bounds:
  "\<exists>r. parse tokens = Some r \<and> r \<noteq> Inl PanicIndexOutOfRange"
  by (rule parse_total)

text \<open>When no token is malformed the two loops of the lexer give the tokens of the reference lexer, whose raw texts put together are the runes of the file, and none of them is empty.\<close>

theorem lexer_lossless:
  assumes "lex_all (bytes_Runes b) = Some toks"
  shows "tokenize b = Inr toks \<and> concat (map tok_raw toks) = bytes_Runes b \<and> (\<forall>tok \<in> set toks. tok_raw tok \<noteq> [])"
  using assms lex_raw [OF assms] lex_nonempty_tokens [OF assms]
  by (auto simp: tokenize_def tokenize_runes_lex)

text \<open>stripExcessSpaces, which trims in place and carries a counter of spaces from one string to the next, gives every string as its words with single spaces between them.\<close>

theorem strip_spaces_reference:
  "stripExcessSpaces vals = map (\<lambda>s. join '' '' (filter (\<lambda>w. w \<noteq> []) (split_at CHR '' '' s))) vals"
  by (simp add: strip_spec single_spaced_def blank_words_def)

text \<open>A handler list with HandlerListStopOnError runs a prefix of its handlers in order: it stops early exactly behind a handler that leaves an error, and no handler before that one left an error.\<close>

theorem run_stops_at_the_first_error:
  assumes "hl_AfterEachFn l = Some (HandlerListStopOnError err)"
  shows "\<exists>n \<le> length (hl_list l). Run l r = fold nh_Fn (take n (hl_list l)) r \<and>
    (n < length (hl_list l) \<longrightarrow> 0 < n \<and> err (Run l r) \<noteq> None) \<and>
    (\<forall>j < n - 1. err (fold nh_Fn (take (Suc j) (hl_list l)) r) = None)"
  using run_loop_prefix [of "hl_list l" "HandlerListStopOnError err" 0 r] assms
  by (auto simp: Run_def HandlerListStopOnError_def)

text \<open>A successful Retrieve of a chain returns the value of the first provider that succeeds, remembers that provider and leaves the later ones alone; when it fails, every provider has failed, and the verbose error holds one error per provider.\<close>

theorem chain_takes_the_first_provider:
  "case Chain_Retrieve P c of
     Some ((v, None), c') \<Rightarrow> \<exists>i p'. ch_curr c' = Some i \<and> i < length (ch_Providers c) \<and>
       pv_Retrieve P (ch_Providers c ! i) = Some ((v, None), p') \<and> ch_Providers c' ! i = p' \<and>
       (\<forall>m. m < i \<longrightarrow> fails_at P (ch_Providers c ! m)) \<and> drop (Suc i) (ch_Providers c') = drop (Suc i) (ch_Providers c)
   | Some ((v, Some e), c') \<Rightarrow> ch_curr c' = None \<and> (\<forall>p \<in> set (ch_Providers c). fails_at P p) \<and>
       (ch_VerboseErrors c \<longrightarrow> (\<exists>es. e = NewBatchError ''NoCredentialProviders'' ''no valid providers in chain'' es \<and>
         length es = length (ch_Providers c)))
   | None \<Rightarrow> True"
proof (cases "chain_try P 0 [] (ch_Providers c)")
  case None
  then show ?thesis by (simp add: Chain_Retrieve_def)
next
  case (Some r)
  show ?thesis
  proof (cases r)
    case (Pair res ps)
    show ?thesis
    proof (cases res)
      case (Inl x)
      obtain v i where x: "x = (v, i)" by (cases x)
      have t: "chain_try P 0 [] (ch_Providers c) = Some (Inl (v, i), ps)" using Some Pair Inl x by simp
      have "Chain_Retrieve P c = Some ((v, None), c\<lparr>ch_Providers := ps, ch_curr := Some i\<rparr>)" by (simp add: Chain_Retrieve_def t)
      with chain_try_first [OF t] show ?thesis by auto
    next
      case (Inr es)
      have t: "chain_try P 0 [] (ch_Providers c) = Some (Inr es, ps)" using Some Pair Inr by simp
      with chain_try_all_fail [OF t] show ?thesis by (auto simp: Chain_Retrieve_def)
    qed
  qed
qed

text \<open>initSize never lowers the part size, and for a body of known size it makes it large enough that the body takes at most MaxUploadParts parts.\<close>

theorem part_size_fits_the_limit:
  assumes "initSize u = Inr u'" and "0 < up_PartSize (ul_cfg u)" and "0 < up_MaxUploadParts (ul_cfg u)" and "0 \<le> ul_totalSize u'"
  shows "up_PartSize (ul_cfg u) \<le> up_PartSize (ul_cfg u') \<and> up_MaxUploadParts (ul_cfg u') = up_MaxUploadParts (ul_cfg u) \<and>
    ul_totalSize u' < up_PartSize (ul_cfg u') * up_MaxUploadParts (ul_cfg u')"
  using initSize_fits [OF assms] by blast

text \<open>Encoding a message into a buffer appends its frame exactly when every header value is within its limit, the headers take at most 128 KiB and the payload at most 16 MiB; otherwise Encode reports an error.\<close>

theorem encode_succeeds_iff_within_limits:
  assumes "length (headers_wire (msg_Headers m)) < 2 ^ 32" and "length (msg_Payload m) < 2 ^ 32"
  shows "Encoder_Encode buffer_write m e =
      (Inr (), e\<lparr>enc_w := enc_w e @ message_wire m, enc_headersBuf := []\<rparr>) \<longleftrightarrow>
    (\<forall>h \<in> set (msg_Headers m). value_encodable (hdr_Value h)) \<and>
    length (headers_wire (msg_Headers m)) \<le> 131072 \<and> length (msg_Payload m) \<le> 16777216"
  using Encoder_Encode_buffer [OF assms, of e] by (simp add: frame_fits_def message_consts)

text \<open>Against a server that answers the first request with its first page and a request with the tokens of a page with the page after it, the loop over Next gives every page once and in order, and ends without an error.\<close>

theorem pagination_reads_all_pages:
  assumes "serves c ds"
  shows "\<exists>p'. all_pages (Suc (length ds)) c (newPagination False) w = Some (map Some ds, p', w) \<and> pn_err p' = None"
  using all_pages_served [OF assms] by blast

text \<open>For a trusted profile on a compute resource the error of the authenticator builder is never looked at: the provider reports itself valid and Retrieve panics on the nil authenticator, while the service-ID branch of the same constructor keeps its error.\<close>

theorem builder_error_is_dropped:
  assumes "cr_file \<noteq> []" and "profile \<noteq> []" and "key \<noteq> []"
    and "\<And>f u. co_BuildContainer co f profile u = Inl e" and "co_BuildAssumeID co key profile = Inl e"
  shows "tr_ErrorStatus (NewTrustedProfileProviderCR co ep profile cr_file si) = None \<and>
    Trusted_Retrieve co (NewTrustedProfileProviderCR co ep profile cr_file si) = None \<and>
    tr_ErrorStatus (NewTrustedProfileProviderServiceIdWithTrustedProfileId co ep profile key si) = Some (authenticator_error e)"
  using assms by (simp add: NewTrustedProfileProviderCR_def NewTrustedProfileProviderServiceIdWithTrustedProfileId_def
      NewTrustedProfileProviderWithConfig_def Trusted_Retrieve_def profile_token_def service_id_checks_def built_def
      build_error_def ResourceComputeResource_def ResourceServiceID_def Let_def)

text \<open>A listing iterator ends at the first page without objects, though more pages follow it: Delete then asks for nothing to be deleted and returns nil.\<close>

theorem delete_stops_at_an_empty_page:
  assumes "Next cl (newPagination False) w = Some (True, p, w')" and "pn_curPage p = Some []" and "HasNextPage p"
  shows "BatchDelete_Delete (list_iterator cl) d (NewDeleteListIterator b) w = Some (None, \<lparr>li_Bucket = b, li_Paginator = p, li_objects = []\<rparr>, w')"
  using assms(1,2) by (rule list_stops)

text \<open>When WaitWithContext returns no error, the last request it sent got an answer that an acceptor with the success state matched, and every acceptor listed before that one had not decided.\<close>

theorem waiter_success_is_sound:
  assumes "WaitWithContext fuel w world = Some (Returns None world')"
  shows "\<exists>world0 err req pre a post. wt_Send w world0 = ((err, req), world') \<and> wt_Acceptors w = pre @ a # post \<and>
    wa_State a = SuccessWaiterState \<and> matcher_result a req err = Some True \<and>
    (\<forall>b \<in> set pre. acceptor_match b req err = Some (False, None))"
proof -
  from wait_loop_success [OF assms [unfolded WaitWithContext_def]] obtain world0 err req where
    send: "wt_Send w world0 = ((err, req), world')" and acc: "acceptors_loop (wt_Acceptors w) req err = Some (Some None)"
    by blast
  from send acceptors_loop_success [OF acc] show ?thesis by blast
qed

text \<open>A resource name is parsed exactly when IsARN says so; what Parse returns prints back to the same text, and a printed name whose fields before the resource have no colon is parsed back.\<close>

theorem arn_roundtrip:
  "(IsARN s = (\<exists>a. ARN_Parse s = Inr a)) \<and> (ARN_Parse s = Inr a) = (arn_ok a \<and> ARN_String a = s)"
  using IsARN_parses Parse_String Parse_sound by blast

text \<open>NewEncryptionClientV2 checks the builder it is given, not the one an option puts in its place: it returns a client with a builder of the first version.\<close>

theorem option_passes_the_version_check:
  "\<exists>c. NewEncryptionClientV2 (GCMBuilderV2 g True) [\<lambda>o'. o'\<lparr>eo_ContentCipherBuilder := CBCBuilder g' p\<rparr>] = Inr c \<and>
    isEncryptionVersionCompatible (eo_ContentCipherBuilder c) v2ClientVersion \<noteq> None"
  by (rule option_passes_check)

text \<open>With a canceled context a wakeup is lost: a run of three Gets and one Put on a pool of one slice ends with a goroutine that waits, no notification left and nobody about to look, while the slice lies in the pool.\<close>

theorem canceled_get_loses_the_wakeup:
  "\<exists>s. pool_reaches 1 s \<and> (GetWaits (mp_gen (py_pool s)), False) \<in> set (py_gets s) \<and> awake s = 0 \<and> py_notifying s = 0 \<and>
    chan_len (mp_capacityChange (py_pool s)) = 0 \<and> chan_len (mp_slices (py_pool s)) = 1"
  by (intro exI conjI, rule lost_wakeup_run) (simp_all add: one_system_def one_pool_def awake_def looking_def chan_len_def)

text \<open>Get can return neither a token nor an error: of two goroutines that call Get before the first token is there, the second finds the token the first has fetched, and where that token already fails the expiry check retrieveInit returns nil for both; the provider then panics on the nil token.\<close>

theorem second_first_caller_gets_nil:
  "\<exists>s :: nat iam_system. iam_reaches (token_config 5) s \<and>
    sy_gets s = [GetReturned (Some (token_until 5), None), GetReturned (None, None)]"
proof -
  let ?s = "\<lparr>sy_tm = cached_until 5, sy_pending = 0, sy_gets = [GetReturned (Some (token_until 5), None), WantInit]\<rparr> :: nat iam_system"
  have r: "iam_reaches (token_config 5) ?s" by (rule two_first_callers) simp_all
  have "iam_step (token_config 5) ?s (?s\<lparr>sy_tm := cached_until 5, sy_gets := (sy_gets ?s)[1 := GetReturned (None, None)]\<rparr>)"
    using short_token_fails by (intro iam_step.init) simp_all
  with r have "iam_reaches (token_config 5) (?s\<lparr>sy_tm := cached_until 5, sy_gets := (sy_gets ?s)[1 := GetReturned (None, None)]\<rparr>)"
    by (rule iam_reaches.step)
  then show ?thesis by (intro exI conjI) (assumption, simp)
qed

text \<open>Go iterates over the headers of a request in any order; signing gives the same error or the same signed values, request, headers and credentials whatever the order is.\<close>

theorem signing_is_deterministic:
  assumes "Values_wf (hx_Header r)" and "header_canonical (hx_Header r)" and "Values_wf h" and "header_canonical h"
    and "map_of h = map_of (hx_Header r)"
  shows "map_option sign_outcome (signWithBody sv P now v4 (r\<lparr>hx_Header := h\<rparr>) body service region exp p t c) =
    map_option sign_outcome (signWithBody sv P now v4 r body service region exp p t c)"
  using assms by (intro same_sign [symmetric]) (simp_all add: same_values_def)

text \<open>A waiter with a positive MaxAttempts returns or panics after at most that many attempts, whatever the responses, the acceptors and the sleep are.\<close>

theorem waiter_ends_within_max_attempts:
  assumes "1 \<le> wt_MaxAttempts w"
  shows "\<exists>res. WaitWithContext (nat (wt_MaxAttempts w)) w world = Some res \<and> (\<forall>world'. res \<noteq> NextPass world')"
  unfolding WaitWithContext_def using assms by (intro wait_loop_ends) simp_all

text \<open>An initialisation vector in the envelope that is not a block makes the decryption client panic for a CBC object, once the key is recovered: no error is returned.\<close>

theorem wrong_iv_panics:
  assumes "fst (GetWrap registry (en_WrapAlg e)) = Some wrap" and "wrap e = Inr d" and "fst (GetCEK registry (en_CEKAlg e)) = Some newAESCBCContentCipher"
    and "Base64_DecodeString (en_CipherKey e) = Some blob" and "Base64_DecodeString (en_IV e) = Some iv" and "d blob w = (Inr key, w')"
    and "length key = 32" and "length iv \<noteq> 16" and "en_CEKAlg e \<noteq> []"
  shows "contentCipherFromEnvelope registry e w = None"
  using assms by (rule wrong_iv)

text \<open>Whether a session lets an ARN choose the region is the setting of the user or else that of the environment, false when it has none: the flag of the shared configuration files is never used.\<close>

theorem shared_arn_region_is_never_used:
  assumes "newSession se opts env [Some user] w = Some (Inr s, w')"
  shows "ac_S3UseARNRegion (ss_Config s) = Some (case ac_S3UseARNRegion user of Some b \<Rightarrow> b | None \<Rightarrow> en_S3UseARNRegion env)"
proof -
  from assms obtain sharedCfg where "session_made se opts env user sharedCfg (ss_Config s)" by (rule newSession_made)
  then show ?thesis by (simp add: session_made_def)
qed

section \<open>Properties\<close>

text \<open>
  C1: A download that finishes without an error has put exactly the bytes of the object into the buffer and counted them all, however the goroutines interleave, the bodies are cut into writes, and reads are interrupted and tried again, and whether or not the service tells the size.
\<close>

theorem download_correct:
  assumes "reaches cfg obj known d" and "osize obj < 2 ^ 63" and "0 < dc_PartSize cfg" and "0 < dc_Concurrency cfg"
    and "d_phase d = Finished" and "d_err d = None"
  shows "d_buf d = obj \<and> d_written d = osize obj"
  using reaches_ok [OF assms(1-4)] buffer_complete assms(5,6) by blast

theorem download_correct_witness:
  "d_buf (sample_state Finished Idle [Exited] [] 2 2 2 [7, 8]) = [7, 8] \<and>
   d_written (sample_state Finished Idle [Exited] [] 2 2 2 [7, 8]) = osize [7, 8]"
  by (rule download_correct [OF sample_run]) (simp_all add: sample_cfg_def sample_state_def)





text \<open>
  C4: Whatever bytes Decode accepts are a well formed frame: both lengths within their limits and consistent, both checksums right, the headers decoded from exactly the header bytes, the payload the bytes of the frame, and the reader left right behind it.
\<close>

theorem decode_accepts_only_frames:
  assumes "Decode bs = (Inr m, rest)"
  shows "\<exists>hb. frame_fits hb (msg_Payload m) \<and> bs = frame hb (msg_Payload m) @ rest \<and>
    (if hb = [] then msg_Headers m = [] else decodeHeaders hb = (Inr (msg_Headers m), []))"
  by (rule Decode_sound [OF assms])

theorem decode_accepts_only_frames_witness:
  "\<exists>hb. frame_fits hb (msg_Payload sampleMessage) \<and>
    message_wire sampleMessage @ [7] = frame hb (msg_Payload sampleMessage) @ [7] \<and>
    (if hb = [] then msg_Headers sampleMessage = [] else decodeHeaders hb = (Inr (msg_Headers sampleMessage), []))"
  by (rule decode_accepts_only_frames) (rule message_codec.dec_enc [OF sampleMessage_ok])







text \<open>
  C8: With the default handlers, whatever the transport, the retryer, the sleep and the four handlers that are parameters do, as long as those leave the retry count alone, Send returns: the loop makes at most one pass per retry left and one more.
\<close>

theorem send_terminates:
  assumes "\<And>r. rq_RetryCount (validateEndpoint r) = rq_RetryCount r" and "\<And>r. rq_RetryCount (userAgent r) = rq_RetryCount r"
    and "\<And>r. rq_RetryCount (execEnv r) = rq_RetryCount r" and "\<And>r. rq_RetryCount (validateReqSig r) = rq_RetryCount r"
  shows "Request_Send (Suc (nat (rt_MaxRetries retryer - rq_RetryCount r)))
    (defaults_Handlers validateEndpoint userAgent execEnv validateReqSig http ctxErr retryer sleep expire) r \<noteq> None"
  by (rule Request_Send_returns, rule send_loop_ends [OF defaults_retry_config [OF assms]]) simp

theorem send_terminates_witness:
  "Request_Send (Suc (nat (rt_MaxRetries (eager_Retryer 3 :: nat Retryer) - rq_RetryCount sample_request)))
    (defaults_Handlers (\<lambda>r. r) (\<lambda>r. r) (\<lambda>r. r) (\<lambda>r. r) (failing_client (PlainError [])) (\<lambda>_. None) (eager_Retryer 3)
      (\<lambda>_ w. (None, w)) (\<lambda>w. w)) sample_request \<noteq> None"
  by (rule send_terminates) simp_all







text \<open>
  C12: What the CBC reader encrypts, the CBC reader decrypts: the whole text is read back, through buffers of any multiple of the block size from two blocks up and whatever pieces the source of the text delivers, as long as the source of the ciphertext delivers no piece shorter than a block.
\<close>

theorem cbc_stream_roundtrip:
  assumes "aes_ok cy key" and "length iv = 16" and "32 \<le> length data" and "length data mod 16 = 0"
    and "32 \<le> length data'" and "length data' mod 16 = 0" and "\<forall>k \<in> set ks'. 16 \<le> k"
  shows "\<exists>c. read_all cbc_encrypt_Read data (cbc_Encrypt cy key iv AESCBCPadder \<lparr>so_bytes = plain, so_sizes = ks, so_end = None\<rparr>) = Some (c, None) \<and>
    read_all cbc_decrypt_Read data' (cbc_Decrypt cy key iv AESCBCPadder \<lparr>so_bytes = c, so_sizes = ks', so_end = None\<rparr>) = Some (plain, None)"
  using cbc_encrypts [of cy key iv data plain ks] cbc_decrypts [of cy key iv data' ks' plain] assms by blast

theorem cbc_roundtrip_witness:
  "\<exists>c. read_all cbc_encrypt_Read (replicate 32 0) (cbc_Encrypt no_cipher [] (replicate 16 7) AESCBCPadder \<lparr>so_bytes = [1, 2, 3], so_sizes = [2], so_end = None\<rparr>) = Some (c, None) \<and>
    read_all cbc_decrypt_Read (replicate 48 0) (cbc_Decrypt no_cipher [] (replicate 16 7) AESCBCPadder \<lparr>so_bytes = c, so_sizes = [16], so_end = None\<rparr>) = Some ([1, 2, 3], None)"
  by (rule cbc_stream_roundtrip) (simp_all add: aes_ok_def no_cipher_def)

text \<open>
  C13: The pool implements a counting semaphore of its capacity: every step of any interleaving of Get, Put and rises of the capacity, from any state the pool can be in, is a step of the semaphore, whose holders are the slices handed out; so it never has more slices out than its capacity.
\<close>

theorem pool_refines_semaphore:
  assumes "pool_reaches sliceSize s" and "pool_step s t" and "mp_max (py_pool s) \<le> mp_max (py_pool t)"
  shows "sem_step (sem_of s) (sem_of t)"
  by (rule pool_simulates [OF assms(2) pool_reaches_inv [OF assms(1)] assms(3)])

theorem pool_refines_semaphore_witness: "sem_step (1, 0) (1, 1)"
  using pool_refines_semaphore [OF pool_ready pool_takes] by (simp add: sem_of_def one_defs)

text \<open>
  C14: Whatever calls of Get, Refresh, Start and StopBackgroundRefresh, timer callbacks and failures of the token service interleave, the timer of the token manager is armed only while background refresh is on and the cached token expires; and while it is on and the token expires, the timer is armed or a callback of it waits for the lock: a refresh that fails never ends the background refresh.
\<close>

theorem background_refresh_never_lost:
  assumes "iam_reaches cf s"
  shows "(tm_enable (sy_tm s) = Some True \<and> expiring (sy_tm s) \<longrightarrow> armed (sy_tm s) \<or> 0 < sy_pending s) \<and>
    (armed (sy_tm s) \<longrightarrow> tm_enable (sy_tm s) = Some True \<and> expiring (sy_tm s))"
  using iam_reaches_inv [OF assms] by (simp add: timer_inv_def)

theorem background_refresh_witness:
  "\<exists>s :: nat iam_system. expiring (sy_tm s) \<and> armed (sy_tm s) \<and> tm_enable (sy_tm s) = Some True"
proof -
  define s where "s = (\<lparr>sy_tm = cached_until 60, sy_pending = 0,
    sy_gets = [GetReturned (Some (token_until 60), None), WantInit]\<rparr> :: nat iam_system)"
  have r: "iam_reaches (token_config 60) s" unfolding s_def by (rule two_first_callers) simp_all
  have "tm_enable (sy_tm s) = Some True" "expiring (sy_tm s)" "sy_pending s = 0"
    by (simp_all add: s_def cached_until_def expiring_def token_until_def)
  with background_refresh_never_lost [OF r] show ?thesis by (intro exI [of _ s]) simp
qed



text \<open>
  C16: While the capacity is not lowered, every slice handed out has the slice size of the pool, and the slices out, the ones in the pool and the ones that may still be allocated are together exactly the capacity: none is lost and none is handed out twice.
\<close>

theorem pool_slices_are_whole:
  assumes "pool_reaches sliceSize s"
  shows "(\<forall>bs \<in> set (py_held s). length bs = nat sliceSize) \<and>
    chan_len (mp_slices (py_pool s)) + chan_len (mp_allocations (py_pool s)) + length (py_held s) = nat (mp_max (py_pool s))"
  using pool_reaches_inv [OF assms] by (simp add: pool_ok_def Let_def)

theorem pool_slices_witness: "length [0 :: byte] = nat 1 \<and>
    chan_len (mp_slices (one_pool [] 0 0)) + chan_len (mp_allocations (one_pool [] 0 0)) + length [[0 :: byte]] = nat 1"
  using pool_slices_are_whole [OF pool_taken] by (simp add: one_system_def one_pool_def)

text \<open>
  C17: Delete over a list of objects is the same as cutting the list, in order, into the longest runs of objects that may share a request, of at most BatchSize objects, deleting them one run after another, and reporting the errors of all of them, or nil where there is none.
\<close>

theorem delete_sends_the_batches:
  assumes "1 \<le> bd_BatchSize d"
  shows "\<exists>i'. BatchDelete_Delete objects_iterator d i w = Some
    (case run_batches d (batches (nat (bd_BatchSize d)) (objects_left i)) w of (errs, w) \<Rightarrow>
       (if errs = [] then None else Some (new_BatchError ''BatchedDeleteIncomplete'' ''some objects have failed to be deleted.'' errs), i', w))"
  using assms by (rule objects.Delete_batches)

theorem delete_batches_witness:
  "\<exists>i'. BatchDelete_Delete objects_iterator sample_deletes
    \<lparr>oi_Objects = [sample_object ''a'' ''1'', sample_object ''b'' ''2''], oi_index = 0, oi_inc = False\<rparr> 0 = Some (None, i', 2)"
  using delete_sends_the_batches [of sample_deletes "\<lparr>oi_Objects = [sample_object ''a'' ''1'', sample_object ''b'' ''2''], oi_index = 0, oi_inc = False\<rparr>" 0]
  by (simp add: sample_deletes_def sample_object_def objects_left_def batches.simps(2) first_batch_def same_request_def deleteBatch_def
      result_errors_def eval_nat_numeral)

text \<open>
  C18: Signing a request with IAM credentials, through Credentials, the provider and the token manager: when the handler sets no error, the Authorization header is the type and the value of the token in the cache, and unless that token was fetched for this call because the cache was empty, it passed the mandatory expiry check during the call.
\<close>

theorem signed_token_was_checked:
  assumes "Sign iam_Provider c req = Some (req', c')" and "sg_Error req = None" and "sg_Error req' = None"
    and "ip_tokenManager (cr_provider c) = Some (cf, tm)"
  shows "\<exists>tm' tk. ip_tokenManager (cr_provider c') = Some (cf, tm') \<and> tm_Cache tm' = Some tk \<and>
    Header_Get (sg_Header req') ''Authorization'' = TokenType tk @ '' '' @ AccessToken tk \<and>
    (tm_Cache tm = None \<or> just_checked cf tk tm')"
proof -
  obtain v where g: "Credentials_Get iam_Provider c = Some ((v, None), c')"
    and h: "Header_Get (sg_Header req') ''Authorization'' = TokenType (cv_Token v) @ '' '' @ AccessToken (cv_Token v)"
    using Sign_ok [OF assms(1-3)] by blast
  from g obtain p where "Iam_Retrieve (cr_provider c) = Some ((v, None), p)" and "cr_provider c' = p"
    by (auto simp: Iam_Get_retrieves split: option.splits)
  with Iam_Retrieve_token [OF _ assms(4)] h show ?thesis by blast
qed

theorem signed_token_witness:
  "\<exists>req' c' tm' tk. Sign iam_Provider (NewCredentials sample_iam) \<lparr>sg_Header = [], sg_Error = None, sg_SignedHeaderVals = None\<rparr> =
      Some (req', c') \<and> ip_tokenManager (cr_provider c') = Some (token_config 60, tm') \<and> tm_Cache tm' = Some tk \<and>
      Header_Get (sg_Header req') ''Authorization'' = TokenType tk @ '' '' @ AccessToken tk"
proof -
  let ?c = "NewCredentials sample_iam" and ?r = "\<lparr>sg_Header = [], sg_Error = None, sg_SignedHeaderVals = None\<rparr> :: SignRequest"
  have m: "tc_mandatory (token_config 60) = None" "Expiration (token_until 60) = 60" by (simp_all add: sample_iam_defs)
  have "retrieveCheckGet (token_config 60) (cached_until 60) = Some (Some (token_until 60), cached_until 60)"
    by (simp add: retrieveCheckGet_def cached_until_def m sample_waiting minimumDelta_def)
  then have g: "Get (token_config 60) (cached_until 60) = Some (Some ((Some (token_until 60), None), cached_until 60))"
    by (simp add: Get_def Get_read_def cached_until_def)
  define p where "p = sample_iam\<lparr>ip_tokenManager := Some (token_config 60, cached_until 60)\<rparr>"
  obtain v where r: "Iam_Retrieve sample_iam = Some ((v, None), p)" "cv_Token v = token_until 60"
    using g by (simp add: Iam_Retrieve_def sample_iam_def p_def named_Value_def)
  obtain c' where "Credentials_Get iam_Provider ?c = Some ((v, None), c')"
    using r(1) by (simp add: Iam_Get_retrieves NewCredentials_def)
  then obtain req' where s: "Sign iam_Provider ?c ?r = Some (req', c')" "sg_Error req' = None"
    using r(2) by (auto simp: Sign_def Let_def token_until_def)
  have "ip_tokenManager (cr_provider ?c) = Some (token_config 60, cached_until 60)"
    by (simp add: NewCredentials_def sample_iam_def)
  from signed_token_was_checked [OF s(1) _ s(2) this] s(1) show ?thesis by auto
qed

text \<open>
  C19: Making a session from an environment and one configuration returns, with a session or an error, unless the chain of source profiles read from the files never ends; nothing else in it panics or fails to return, whatever the files hold.
\<close>

theorem session_returns_iff_the_profiles_end:
  "newSession se opts env [Some user] w = None \<longleftrightarrow>
    (\<exists>fs. loadSharedConfigIniFiles (se_pnum se) (se_os se) (session_files opts env) = Some (Inr fs) \<and>
      (\<forall>n. profile_chain (en_EnableSharedConfig env) n
        (if en_Profile env = [] then ''default'' else en_Profile env, fs) \<noteq> None))"
  by (simp only: newSession_None loadSharedConfig_None)







text \<open>
  C23: A session made with a CA bundle and no HTTP client of its own has replaced the root certificates of the default client of the process, which every other user of that client then has.
\<close>

theorem ca_bundle_reaches_the_default_client:
  assumes "NewSessionWithOptions se opts w = Some (Inr s, w')" and "op_CustomCABundle opts = Some (Inr bundle)"
    and "ac_HTTPClient (op_Config opts) = None"
  shows "client_roots w' DefaultClient = Some bundle"
proof -
  from assms(1) obtain env where "newSession se opts env [Some (op_Config opts)] w = Some (Inr s, w')"
    by (rule NewSessionWithOptions_newSession)
  then obtain sharedCfg client opts' where m: "session_made se opts env (op_Config opts) sharedCfg (ss_Config s)"
    and c: "ac_HTTPClient (ss_Config s) = Some client"
    and t: "setTLSOptions se opts client env (sc_fields sharedCfg) w = (Inr opts', w')"
    by (rule newSession_made)
  from m c assms(3) have "client = DefaultClient" by (simp add: session_made_def)
  with t assms(2) show ?thesis by (auto elim!: setTLSOptions_roots)
qed

theorem ca_bundle_witness:
  "\<exists>s w'. NewSessionWithOptions (sample_session [] role_file) ((sample_options ''dev'')\<lparr>op_CustomCABundle := Some (Inr [1])\<rparr>) sample_clients =
      Some (Inr s, w') \<and> client_roots sample_clients DefaultClient = None \<and> client_roots w' DefaultClient = Some [1]"
proof -
  let ?o = "(sample_options ''dev'')\<lparr>op_CustomCABundle := Some (Inr [1])\<rparr>"
  obtain s w' where s: "NewSessionWithOptions (sample_session [] role_file) ?o sample_clients = Some (Inr s, w')"
    using bundle_session_succeeds by blast
  have "ac_HTTPClient (op_Config ?o) = None" by (simp add: sample_options_def zero_Options_def NewConfig_def)
  with s have "client_roots w' DefaultClient = Some [1]"
    by (intro ca_bundle_reaches_the_default_client [OF s]) simp_all
  moreover have "client_roots sample_clients DefaultClient = None" by (simp add: client_roots_def sample_clients_def)
  ultimately show ?thesis using s by blast
qed

text \<open>
  C24: Every session and every copy of one, with whatever configurations merged in, runs the handler that validates parameters exactly once, or never when it is disabled, and has a client, credentials and a resolver of endpoints, so a client configuration can be made from it.
\<close>

theorem every_session_validates_once:
  assumes "a_session se s"
  shows "handlers_named ''core.ValidateParametersHandler'' (Validate (ss_Handlers s)) =
      (if BoolValue_ptr (ac_DisableParamValidation (ss_Config s)) then [] else [se_validate se]) \<and>
    ac_HTTPClient (ss_Config s) \<noteq> None \<and> ac_Credentials (ss_Config s) \<noteq> None \<and> ClientConfig se s service cfgs \<noteq> None"
  using a_session_inv [OF assms] ClientConfig_Some [of se s service cfgs] by (auto simp: session_inv_def)

theorem every_session_witness:
  "\<exists>s. ac_DisableParamValidation (ss_Config s) = Some True \<and>
    handlers_named ''core.ValidateParametersHandler'' (Validate (ss_Handlers (s :: (nat, nat, nat, nat) Session))) = []"
proof -
  let ?se = "sample_session [] role_file" and ?cfg = "NewConfig\<lparr>ac_DisableParamValidation := Some True\<rparr>"
  obtain s where "NewSessionWithOptions ?se (sample_options ''dev'') sample_clients = Some (Inr s, sample_clients)"
    using role_session_succeeds by blast
  then have "a_session ?se (Session_Copy ?se s [Some ?cfg])" by (intro a_session.intros)
  note i = every_session_validates_once [OF this, of "''s3''" "[]"]
  have "ac_DisableParamValidation (ss_Config (Session_Copy ?se s [Some ?cfg])) = Some True"
    by (simp add: Session_Copy_def initHandlers_validates Config_Copy_merges MergeIn_simps merge_simps)
  with i show ?thesis by (intro exI [of _ "Session_Copy ?se s [Some ?cfg]"]) (simp add: BoolValue_ptr_def)
qed

text \<open>
  C25: When the cached token has expired and the key was revoked, so that the service answers a refresh with status 400 and refuses an initial token, Get never returns: refresh drops the error of init, so the loop of retrieveFetch goes on for ever, and it holds the write lock meanwhile. Stated for every clock and every timeout below 2^61 nanoseconds.
\<close>

theorem get_spins_on_a_revoked_key:
  assumes "revoked cf" and "tm_Cache tm = Some tk" and "expired_always cf tk" and "moderate (tc_mandatory cf) (tm_tokenTTL tm)"
  shows "Get cf tm = None"
  using assms by (rule Get_stuck)

theorem get_spins_witness:
  "Get (fixed_config (Inl (PlainError ''no'')) response400 100000000000) (cached_until 60) = None"
proof (rule get_spins_on_a_revoked_key)
  show "revoked (fixed_config (Inl (PlainError ''no'')) response400 100000000000)"
    by (simp add: revoked_def sample_iam_defs processResponse_def isSuccess_def)
  show "tm_Cache (cached_until 60) = Some (token_until 60)" by (simp add: cached_until_def)
qed (simp_all add: expired_always_def moderate_def sample_iam_defs)



text \<open>
  C27: Where the source delivers fewer bytes than a block first, the CBC reader that decrypts returns them as they are, ciphertext, with no error.
\<close>

theorem short_read_is_not_decrypted:
  assumes "0 < n" and "n < 16" and "n \<le> length c" and "n \<le> length data"
  shows "\<exists>data' r'. cbc_decrypt_Read data (cbc_Decrypt cy key iv padder \<lparr>so_bytes = c, so_sizes = n # ks, so_end = None\<rparr>) =
    Some (data', n, None, r') \<and> take n data' = take n c"
  using assms by (rule short_read_not_decrypted)

theorem short_read_witness:
  "\<exists>data' r'. cbc_decrypt_Read (replicate 32 0) (cbc_Decrypt no_cipher [] (replicate 16 0) AESCBCPadder
      \<lparr>so_bytes = replicate 16 9, so_sizes = [2], so_end = None\<rparr>) = Some (data', 2, None, r') \<and> take 2 data' = [9, 9]"
  using short_read_is_not_decrypted [of 2 "replicate 16 9" "replicate 32 0" no_cipher "[]" "replicate 16 0" AESCBCPadder "[]"]
  by (simp add: numeral_2_eq_2)

text \<open>
  C28: The older kms handler binds nothing: an envelope with which the first decryption client opens an object with AES-GCM makes it use the same key with CBC once its algorithm and initialisation vector are exchanged, so that the authentication is gone.
\<close>

theorem kms_wrap_leaves_the_cipher_open:
  assumes "contentCipherFromEnvelope (v1_registry env client) e w = Some (Inr (GCMContentCipher cd), w')" and "en_WrapAlg e = KMSWrap"
    and "length iv = 16"
  shows "\<exists>cd'. contentCipherFromEnvelope (v1_registry env client)
      (e\<lparr>en_CEKAlg := ''AES/CBC/PKCS5Padding'', en_IV := Base64_EncodeToString iv\<rparr>) w = Some (Inr (CBCContentCipher cd'), w') \<and> cd_Key cd' = cd_Key cd"
  using assms by (rule kms_does_not_bind)

theorem kms_wrap_witness:
  "\<exists>cd'. contentCipherFromEnvelope (v1_registry kms_env sample_kms) (sample_envelope\<lparr>en_WrapAlg := KMSWrap, en_CEKAlg := ''AES/CBC/PKCS5Padding'',
      en_IV := Base64_EncodeToString (replicate 16 0)\<rparr>) () = Some (Inr (CBCContentCipher cd'), ()) \<and> cd_Key cd' = replicate 32 1"
  using kms_wrap_leaves_the_cipher_open [OF kms_sample_opens, of "replicate 16 0"] by simp

text \<open>
  C29: Unpad, written without branches on the bytes so that it takes the same time on all of them, is the plain check: it drops the padding if the last byte says how many bytes there are, at least one and at most all, and they are all that byte, and returns the same error otherwise.
\<close>

theorem unpad_is_the_plain_check: "pkcs7_Unpad buf = plain_Unpad buf"
  by (rule Unpad_plain)



text \<open>
  C31: Until a download is finished some goroutine can always move on: no combination of a full queue, waiting workers and a failed part stops it.
\<close>

theorem download_never_stuck:
  assumes "reaches cfg obj known d" and "osize obj < 2 ^ 63" and "0 < dc_PartSize cfg" and "0 < dc_Concurrency cfg"
    and "d_phase d \<noteq> Finished"
  shows "\<exists>d'. dl_step cfg obj known d d'"
  using reaches_ok [OF assms(1-4)] dl_progress assms(4,5) by blast

theorem download_never_stuck_witness:
  "\<exists>d'. dl_step sample_cfg [7, 8] True (start_state sample_cfg) d'"
  by (rule download_never_stuck [OF reaches.start]) (simp_all add: sample_cfg_def start_state_def advance_def Let_def)





text \<open>
  C34: ParseBytes returns on every input: the parse loop ends within one pass per token and three more, and no index of the parse stack, of a literal or of a syntax tree is out of range.
\<close>

theorem ini_reader_total:
  "\<exists>r. ParseBytes pnum b = Some r \<and> r \<noteq> Inl PanicIndexOutOfRange"
  by (rule ParseBytes_total)

text \<open>
  C35: Preparing a retry of a request with a seekable body gives an open reader over exactly the bytes from the start of the request body, wherever the previous attempt stopped reading; the empty body is sent as NoBody.
\<close>

theorem retry_sends_the_same_body:
  assumes "resendable r" and "rq_Error r = None"
  shows "\<exists>r'. prepareRetry r = (None, r') \<and> rq_safeBody r' = Some \<lparr>or_closed = False\<rparr> \<and>
    unread (rq_Body r') = drop (nat (rq_BodyStart r)) (bd_data (rq_Body r)) \<and>
    rq_httpBody r' = (if nat (rq_BodyStart r) = length (bd_data (rq_Body r)) then NoBody else SafeBody) \<and>
    rq_RetryCount r' = rq_RetryCount r"
  using assms by (intro prepareRetry_rewinds) (simp_all add: resendable_def)

theorem retry_body_witness:
  "\<exists>r'. prepareRetry sample_request = (None, r') \<and> rq_safeBody r' = Some \<lparr>or_closed = False\<rparr> \<and>
    unread (rq_Body r') = drop (nat (rq_BodyStart sample_request)) (bd_data (rq_Body sample_request)) \<and>
    rq_httpBody r' = (if nat (rq_BodyStart sample_request) = length (bd_data (rq_Body sample_request)) then NoBody else SafeBody) \<and>
    rq_RetryCount r' = rq_RetryCount sample_request"
  by (rule retry_sends_the_same_body) (simp_all add: sample_request_def resendable_def body_ok_def)

text \<open>
  C36: When the transport fails because the context is done, the send handler and the after-retry handler with the default retryer end the loop with the cancellation error, without a retry, a delay or an expired credential.
\<close>

theorem canceled_request_is_not_sent_again:
  assumes "ctxErr (rq_world r) = Some ce" and "plain_send_error e"
  shows "let r' = AfterRetryHandler (default_Retryer rnd d) sleep expire (handleSendError ctxErr e r) in
    rq_Error r' = Some (awserr_New CanceledErrorCode ''request context canceled'' (Some ce)) \<and>
    rq_Retryable r' = Some False \<and> rq_RetryCount r' = rq_RetryCount r \<and> rq_world r' = rq_world r"
  using assms canceled_not_sent_again by (simp add: plain_send_error_def)

theorem canceled_request_witness:
  "let r' = AfterRetryHandler (default_Retryer (\<lambda>_. 0) \<lparr>NumMaxRetries = 3, MinRetryDelay = 0, MinThrottleDelay = 0,
       MaxRetryDelay = 0, MaxThrottleDelay = 0\<rparr>) (\<lambda>_ w. (None, w)) (\<lambda>w. w)
       (handleSendError (\<lambda>_. Some (PlainError ''done'')) (PlainError []) sample_request) in
    rq_Error r' = Some (awserr_New CanceledErrorCode ''request context canceled'' (Some (PlainError ''done''))) \<and>
    rq_Retryable r' = Some False \<and> rq_RetryCount r' = rq_RetryCount sample_request \<and> rq_world r' = rq_world sample_request"
  by (rule canceled_request_is_not_sent_again) (simp_all add: plain_send_error_def)

text \<open>
  C37: The delay RetryRules computes for a request that was not throttled needs no wrap-around and no panic: it is at least the minimum delay doubled for every retry so far, or half the maximum where that is less, and never more than the maximum.
\<close>

theorem retry_delay_bounds:
  assumes "NumMaxRetries d \<noteq> 0" and "\<not> Request_IsErrorThrottle r" and "0 \<le> rq_RetryCount r"
    and "0 \<le> MinRetryDelay d" and "MaxRetryDelay d = 0 \<or> 2 \<le> MaxRetryDelay d" and "MaxRetryDelay d < 2 ^ 63"
    and "\<forall>n > 0. 0 \<le> rnd n \<and> rnd n < n"
  shows "\<exists>t. RetryRules rnd d r = Some t \<and> t \<le> MaxRetryDelay (setRetryerDefaults d) \<and>
    min (MinRetryDelay (setRetryerDefaults d) * 2 ^ nat (rq_RetryCount r)) (MaxRetryDelay (setRetryerDefaults d) sdiv 2) \<le> t"
  by (rule RetryRules_bounds [OF assms])

theorem retry_delay_witness:
  "let d = \<lparr>NumMaxRetries = 3, MinRetryDelay = 0, MinThrottleDelay = 0, MaxRetryDelay = 0, MaxThrottleDelay = 0\<rparr> in
   \<exists>t. RetryRules (\<lambda>_. 0) d sample_request = Some t \<and> t \<le> MaxRetryDelay (setRetryerDefaults d) \<and>
    min (MinRetryDelay (setRetryerDefaults d) * 2 ^ nat (rq_RetryCount sample_request)) (MaxRetryDelay (setRetryerDefaults d) sdiv 2) \<le> t"
  unfolding Let_def
  by (rule retry_delay_bounds)
    (simp_all add: sample_request_def Request_IsErrorThrottle_def isErrCode_def IsErrorThrottle_def)

text \<open>
  C38: Over a chain of key providers, after a successful Get the next Get, canceled or not in its second wait, returns the same value without asking any provider, and the provider that gave it is still unexpired.
\<close>

theorem credentials_are_cached:
  assumes "\<forall>p \<in> set (ch_Providers (cr_provider c)). key_provider p"
    and "Credentials_Get (chain_Provider (any_Provider pnum os)) c = Some ((v, None), c')"
  shows "GetWithContext (chain_Provider (any_Provider pnum os)) e False done2 c' = Some ((v, None), c') \<and>
    \<not> Credentials_IsExpired (chain_Provider (any_Provider pnum os)) c'"
  using key_chain.get_again [OF assms, of e done2] key_chain.get_fresh [OF assms]
  by (simp add: Credentials_IsExpired_def)

theorem credentials_cached_witness:
  "\<exists>v (c' :: nat any_provider ChainProvider Credentials).
    GetWithContext (chain_Provider (any_Provider (\<lambda>_ _ _. NumOk) (sample_os (\<lambda>_. ''x'') []))) (PlainError []) False True c' = Some ((v, None), c')"
proof -
  let ?P = "chain_Provider (any_Provider (\<lambda>_ _ _. NumOk) (sample_os (\<lambda>_. ''x'') []))"
  let ?c = "NewChainCredentials [PStatic zero_Value, PEnv False] :: nat any_provider ChainProvider Credentials"
  obtain v c' where g: "Credentials_Get ?P ?c = Some ((v, None), c')"
    by (simp add: NewChainCredentials_def NewCredentials_def Credentials_Get_def GetWithContext_def asyncIsExpired_def
        isExpiredLocked_def singleRetrieve_def chain_Provider_def Chain_Retrieve_def any_Provider_def Static_Retrieve_def
        Env_Retrieve_def sample_os_def zero_Value_def Let_def)
  have "\<forall>p \<in> set (ch_Providers (cr_provider ?c)). key_provider p"
    by (simp add: NewChainCredentials_def NewCredentials_def key_provider_def)
  from credentials_are_cached [OF this g, of "PlainError []" True] show ?thesis by blast
qed





end
